(* ===== verification/Ecu_Prelude.thy ===== *)
theory Ecu_Prelude
  imports Main "HOL-Library.Word" "HOL-Library.State_Monad"
begin

text \<open>
  Shared vocabulary of the development: the machine types of the firmware, C strings as
  character lists, the conversions of the C library the code uses (decimal and hexadecimal
  printing, \<open>atoi\<close>, \<open>strncpy\<close>-style prefixes), and the generic lemmas the components share.

  The target is an ARM Cortex-M3 built with armcc, where \<open>char\<close> is unsigned and \<open>int\<close> has
  32 bits. Bytes are \<open>8 word\<close>; an assignment of an \<open>int\<close> expression to a byte truncates
  (\<open>u8\<close>). Values of type \<open>int\<close> that stay far from the 32-bit bounds are HOL \<open>int\<close>.
\<close>

section \<open>Machine types\<close>

type_synonym byte = "8 word"
type_synonym u16 = "16 word"
type_synonym bit1 = "1 word"

definition u8 :: "int \<Rightarrow> byte" where
  "u8 i = word_of_int i"

abbreviation ival :: "byte \<Rightarrow> int" where
  "ival b \<equiv> uint b"

lemma uint_u8: "uint (u8 i) = i mod 256"
  by (simp add: u8_def uint_word_of_int)

lemma u8_uint [simp]: "u8 (uint b) = b"
  by (simp add: u8_def)

text \<open>The two bytes \<open>x/256\<close> and \<open>x%256\<close> (or \<open>x>>8\<close> and \<open>x\<close>) of a value.\<close>

definition hi8 :: "int \<Rightarrow> byte" where
  "hi8 x = u8 (x div 256)"

definition lo8 :: "int \<Rightarrow> byte" where
  "lo8 x = u8 x"

definition be16 :: "byte \<Rightarrow> byte \<Rightarrow> int" where
  "be16 h l = uint h * 256 + uint l"

lemma byte_bounds: "0 \<le> uint (b::byte)" "uint b < 256"
proof -
  show "0 \<le> uint b" by simp
  have "uint b < 2 ^ LENGTH(8)" by (rule uint_lt2p)
  then show "uint b < 256" by simp
qed

lemma unat_byte: "unat (b::byte) < 256"
  using byte_bounds[of b] by (simp add: unat_eq_nat_uint nat_less_iff del: nat_uint_eq)

lemma u16_bounds: "0 \<le> uint (w::u16)" "uint w < 65536"
proof -
  show "0 \<le> uint w" by simp
  have "uint w < 2 ^ LENGTH(16)" by (rule uint_lt2p)
  then show "uint w < 65536" by simp
qed

lemma be16_hi_lo:
  assumes "0 \<le> x" "x < 65536"
  shows "be16 (hi8 x) (lo8 x) = x"
proof -
  have "x div 256 mod 256 = x div 256" using assms by simp
  then show ?thesis by (simp add: be16_def hi8_def lo8_def uint_u8)
qed

lemma uint_hi8: "0 \<le> x \<Longrightarrow> x < 65536 \<Longrightarrow> uint (hi8 x) = x div 256"
  by (simp add: hi8_def uint_u8)

lemma uint_hi8_u16 [simp]: "uint (hi8 (uint (w::u16))) = uint w div 256"
  by (rule uint_hi8) (rule u16_bounds)+

lemma uint_lo8 [simp]: "uint (lo8 x) = x mod 256"
  by (simp add: lo8_def uint_u8)

lemma be16_bounds: "0 \<le> be16 h l" "be16 h l < 65536"
  using byte_bounds[of h] byte_bounds[of l] by (auto simp: be16_def)

lemma be16_div_mod: "be16 h l div 256 = uint h" "be16 h l mod 256 = uint l"
  using byte_bounds[of h] byte_bounds[of l] by (auto simp: be16_def)

lemma be16_inj: "be16 a b = be16 c d \<Longrightarrow> a = c \<and> b = d"
  by (metis be16_div_mod word_uint_eq_iff)

section \<open>Characters and C strings\<close>

abbreviation code :: "char \<Rightarrow> nat" where
  "code c \<equiv> of_char c"

definition chr :: "nat \<Rightarrow> char" where
  "chr n = char_of n"

lemma code_chr [simp]: "n < 256 \<Longrightarrow> code (chr n) = n"
  by (simp add: chr_def)

lemma chr_code [simp]: "chr (code c) = c"
  by (simp add: chr_def)

lemma chr_48 [simp]: "chr 48 = CHR ''0''"
  using chr_code[of "CHR ''0''"] by simp

lemma chr_eq_iff: "m < 256 \<Longrightarrow> n < 256 \<Longrightarrow> chr m = chr n \<longleftrightarrow> m = n"
  by (metis code_chr)

definition NUL :: char where
  "NUL = CHR 0x00"

definition NL :: char where
  "NL = CHR 0x0A"

text \<open>The characters of an array up to its terminating NUL, what \<open>strlen\<close> and \<open>%s\<close> see.\<close>

definition cstr :: "string \<Rightarrow> string" where
  "cstr s = takeWhile (\<lambda>c. c \<noteq> NUL) s"

text \<open>Characters written over the start of an array.\<close>

definition overlay :: "string \<Rightarrow> string \<Rightarrow> string" where
  "overlay new old = new @ drop (length new) old"

lemma drop_overlay: "length g \<le> m \<Longrightarrow> drop m (overlay g x) = drop m x"
  by (simp add: overlay_def)

text \<open>The character of a zero-filled array at an index, as a number.\<close>

definition ch :: "string \<Rightarrow> nat \<Rightarrow> int" where
  "ch i n = (if n < length i then int (code (i ! n)) else 0)"

definition no_nul :: "string \<Rightarrow> bool" where
  "no_nul s = (\<forall>c \<in> set s. c \<noteq> NUL)"

lemma cstr_no_nul [simp]: "no_nul s \<Longrightarrow> cstr s = s"
  by (simp add: cstr_def no_nul_def takeWhile_eq_all_conv)

lemma no_nul_cstr [simp]: "no_nul (cstr s)"
  by (auto simp: cstr_def no_nul_def dest: set_takeWhileD)

lemma no_nul_append [simp]: "no_nul (s @ t) \<longleftrightarrow> no_nul s \<and> no_nul t"
  by (auto simp: no_nul_def)

text \<open>\<open>memcmp(a, b, n) == 0\<close> on two zero-filled character arrays.\<close>

definition zext :: "nat \<Rightarrow> string \<Rightarrow> string" where
  "zext n s = take n (s @ replicate n NUL)"

definition memeq :: "string \<Rightarrow> string \<Rightarrow> nat \<Rightarrow> bool" where
  "memeq a b n = (zext n a = zext n b)"

lemma zext_take: "n \<le> length s \<Longrightarrow> zext n s = take n s"
  by (simp add: zext_def)

lemma memeq_refl [simp]: "memeq a a n"
  by (simp add: memeq_def)

lemma memeq_prefix:
  assumes "length k = n" "no_nul k"
  shows "memeq l k n \<longleftrightarrow> take n l = k"
proof
  assume "memeq l k n"
  then have eq: "take n (l @ replicate n NUL) = k"
    using assms(1) by (simp add: memeq_def zext_def)
  have "n \<le> length l"
  proof (rule ccontr)
    assume "\<not> n \<le> length l"
    then have "length l < n" by simp
    then have "take n (l @ replicate n NUL) ! length l = NUL"
      by (simp add: nth_append)
    with eq have "k ! length l = NUL" by simp
    moreover have "k ! length l \<in> set k" using \<open>length l < n\<close> assms(1) by simp
    ultimately show False using assms(2) by (auto simp: no_nul_def)
  qed
  with eq show "take n l = k" by simp
next
  assume "take n l = k"
  moreover from this assms(1) have "n \<le> length l"
    by (metis length_take min.absorb_iff2 min.commute)
  ultimately show "memeq l k n" using assms(1) by (simp add: memeq_def zext_take)
qed

section \<open>Decimal numbers: \<open>%d\<close>, \<open>%0wd\<close> and \<open>atoi\<close>\<close>

definition is_digit :: "char \<Rightarrow> bool" where
  "is_digit c = (48 \<le> code c \<and> code c \<le> 57)"

definition digit_char :: "nat \<Rightarrow> char" where
  "digit_char n = chr (48 + n)"

definition digit_val :: "char \<Rightarrow> nat" where
  "digit_val c = code c - 48"

fun dec :: "nat \<Rightarrow> string" where
  "dec n = (if n < 10 then [digit_char n] else dec (n div 10) @ [digit_char (n mod 10)])"

declare dec.simps [simp del]

definition fmt_d :: "int \<Rightarrow> string" where
  "fmt_d v = (if v < 0 then CHR ''-'' # dec (nat (- v)) else dec (nat v))"

definition pad0 :: "nat \<Rightarrow> string \<Rightarrow> string" where
  "pad0 w s = replicate (w - length s) (CHR ''0'') @ s"

text \<open>\<open>%wd\<close>: padded with spaces to the width \<open>w\<close>.\<close>

definition pad_space :: "nat \<Rightarrow> string \<Rightarrow> string" where
  "pad_space w s = replicate (w - length s) (CHR '' '') @ s"

definition fmt_0d :: "nat \<Rightarrow> int \<Rightarrow> string" where
  "fmt_0d w v = (if v < 0 then CHR ''-'' # pad0 (w - 1) (dec (nat (- v))) else pad0 w (dec (nat v)))"

fun digits_val :: "nat \<Rightarrow> string \<Rightarrow> nat" where
  "digits_val a [] = a"
| "digits_val a (c # cs) = digits_val (a * 10 + digit_val c) cs"

definition is_space :: "char \<Rightarrow> bool" where
  "is_space c = (code c = 32 \<or> (9 \<le> code c \<and> code c \<le> 13))"

definition atoi :: "string \<Rightarrow> int" where
  "atoi s = (case dropWhile is_space s of
      [] \<Rightarrow> 0
    | c # cs \<Rightarrow>
        if c = CHR ''-'' then - int (digits_val 0 (takeWhile is_digit cs))
        else if c = CHR ''+'' then int (digits_val 0 (takeWhile is_digit cs))
        else int (digits_val 0 (takeWhile is_digit (c # cs))))"

lemma code_digit_char [simp]: "n < 10 \<Longrightarrow> code (digit_char n) = 48 + n"
  by (simp add: digit_char_def)

lemma is_digit_digit_char [simp]: "n < 10 \<Longrightarrow> is_digit (digit_char n)"
  by (simp add: is_digit_def)

lemma digit_val_digit_char [simp]: "n < 10 \<Longrightarrow> digit_val (digit_char n) = n"
  by (simp add: digit_val_def)

lemma dec_digits: "c \<in> set (dec n) \<Longrightarrow> is_digit c"
proof (induction n rule: dec.induct)
  case (1 n)
  then show ?case by (subst (asm) dec.simps) (auto split: if_splits)
qed

lemma dec_nonempty [simp]: "dec n \<noteq> []"
  by (subst dec.simps) simp

lemma digits_val_append: "digits_val a (s @ t) = digits_val (digits_val a s) t"
  by (induction s arbitrary: a) auto

lemma digits_val_shift: "digits_val a s = a * 10 ^ length s + digits_val 0 s"
proof (induction s arbitrary: a)
  case Nil
  then show ?case by simp
next
  case (Cons c s)
  show ?case
    using Cons.IH[of "a * 10 + digit_val c"] Cons.IH[of "digit_val c"]
    by (simp add: algebra_simps)
qed

lemma digits_val_dec [simp]: "digits_val 0 (dec n) = n"
proof (induction n rule: dec.induct)
  case (1 n)
  show ?case
  proof (cases "n < 10")
    case True
    then show ?thesis by (subst dec.simps) simp
  next
    case False
    with "1.IH" show ?thesis by (subst dec.simps) (simp add: digits_val_append)
  qed
qed

lemma digits_val_zeros [simp]: "digits_val 0 (replicate k (CHR ''0'') @ s) = digits_val 0 s"
  by (induction k) (simp_all add: digit_val_def)

lemma digits_val_pad0 [simp]: "digits_val 0 (pad0 w s) = digits_val 0 s"
  by (simp add: pad0_def)

lemma length_dec_le: "n < 10 ^ k \<Longrightarrow> 0 < k \<Longrightarrow> length (dec n) \<le> k"
proof (induction n arbitrary: k rule: dec.induct)
  case (1 n)
  show ?case
  proof (cases "n < 10")
    case True
    with "1.prems" show ?thesis by (subst dec.simps) simp
  next
    case False
    obtain j where k: "k = Suc j" using "1.prems" by (cases k) auto
    with False "1.prems" have "0 < j" by (cases j) auto
    with k have j: "k = Suc j" "0 < j" by auto
    with "1.prems" have "n div 10 < 10 ^ j" by (simp add: div_less_iff_less_mult mult.commute)
    with "1.IH" False j have "length (dec (n div 10)) \<le> j" by blast
    with False j show ?thesis by (subst dec.simps) simp
  qed
qed

lemma length_pad0: "length s \<le> w \<Longrightarrow> length (pad0 w s) = w"
  by (simp add: pad0_def)

lemma pad0_digits: "c \<in> set (pad0 w s) \<Longrightarrow> (\<And>d. d \<in> set s \<Longrightarrow> is_digit d) \<Longrightarrow> is_digit c"
  by (auto simp: pad0_def is_digit_def)

lemma digit_not_space: "is_digit c \<Longrightarrow> \<not> is_space c"
  by (auto simp: is_digit_def is_space_def)

lemma digit_not_sign: "is_digit c \<Longrightarrow> c \<noteq> CHR ''-'' \<and> c \<noteq> CHR ''+''"
  by (auto simp: is_digit_def)

lemma atoi_digits:
  assumes "s \<noteq> []" "\<And>c. c \<in> set s \<Longrightarrow> is_digit c" "t = [] \<or> \<not> is_digit (hd t)"
  shows "atoi (s @ t) = int (digits_val 0 s)"
proof -
  obtain c cs where s: "s = c # cs" using assms(1) by (cases s) auto
  with assms(2) have c: "is_digit c" by simp
  have tw: "takeWhile is_digit (s @ t) = s"
    using assms(2,3) by (cases t) (auto simp: takeWhile_append)
  show ?thesis
    using c digit_not_space[OF c] digit_not_sign[OF c] tw s
    by (simp add: atoi_def)
qed

lemma atoi_dec [simp]: "atoi (dec n) = int n"
  using atoi_digits[of "dec n" "[]"] by (simp add: dec_digits)

lemma atoi_dec_append: "t = [] \<or> \<not> is_digit (hd t) \<Longrightarrow> atoi (dec n @ t) = int n"
  using atoi_digits[of "dec n" t] by (simp add: dec_digits)

lemma atoi_nil [simp]: "atoi [] = 0"
  by (simp add: atoi_def)

section \<open>Hexadecimal numbers: \<open>%02x\<close>, \<open>%02X\<close>, \<open>%X\<close>\<close>

definition hexdig :: "nat \<Rightarrow> char" where
  "hexdig n = (if n < 10 then chr (48 + n) else chr (87 + n))"

definition hexdig_upper :: "nat \<Rightarrow> char" where
  "hexdig_upper n = (if n < 10 then chr (48 + n) else chr (55 + n))"

definition hex2 :: "byte \<Rightarrow> string" where
  "hex2 b = [hexdig (unat b div 16), hexdig (unat b mod 16)]"

fun hex_upper :: "nat \<Rightarrow> string" where
  "hex_upper n = (if n < 16 then [hexdig_upper n] else hex_upper (n div 16) @ [hexdig_upper (n mod 16)])"

declare hex_upper.simps [simp del]

text \<open>\<open>sprintf(s, "%02x%02x%02x%02x%02x%02x", ...)\<close> over a run of bytes.\<close>

definition hex_string :: "byte list \<Rightarrow> string" where
  "hex_string bs = concat (map hex2 bs)"

lemma length_hex_string [simp]: "length (hex_string bs) = 2 * length bs"
  by (induction bs) (simp_all add: hex_string_def hex2_def)

section \<open>Bytes of files\<close>

definition bytes_of :: "string \<Rightarrow> byte list" where
  "bytes_of s = map (\<lambda>c. word_of_nat (code c)) s"

lemma length_bytes_of [simp]: "length (bytes_of s) = length s"
  by (simp add: bytes_of_def)

end
