(* ===== verification/Ecu_State.thy ===== *)
theory Ecu_State
  imports Ecu_Prelude Complex_Main
begin

text \<open>
  The state of the firmware that the components share and the primitive effects on it.

  \<open>ecu_state\<close> holds the global table \<open>inverter[MAXINVERTERCOUNT]\<close>, the fields of the global
  \<open>ecu\<close> that the modelled code uses, the files, and the environment: what the ZigBee serial
  port will deliver, the clock, and the trace of everything the code does to the outside
  (serial writes, purges of the receive buffer, waits, delays, the reset pin, the mutex).
  File names are written in upper case: the FAT volume compares names without case, and the
  source writes both forms of the same path.
\<close>

section \<open>Data\<close>

definition MAXINVERTERCOUNT :: nat where
  "MAXINVERTERCOUNT = 120"

text \<open>
  What an inverter measures: per direct-current input (the fields without a suffix are the
  first, then \<open>b\<close>, \<open>c\<close>, \<open>d\<close>) the voltage, current, power and energies, per phase of the grid the
  voltage, powers and energies. Fields of type \<open>float\<close> are rational numbers (\<open>C_Float\<close>).
\<close>

record panel =
  p_dv :: rat
  p_di :: rat
  p_op :: int
  p_curgeneration :: rat
  p_preaccgen :: rat
  p_curaccgen :: rat

record phase =
  p_gv :: int
  p_reactive_power :: rat
  p_active_power :: rat
  p_output_energy :: rat
  p_pre_output_energy :: rat
  p_cur_output_energy :: rat

record measured =
  m_gf :: rat
  m_it :: int
  panel_a :: panel
  panel_b :: panel
  panel_c :: panel
  panel_d :: panel
  phase_a :: phase
  phase_b :: phase
  phase_c :: phase
  m_preacctime :: int
  m_curacctime :: int
  m_status_web :: string
  m_status :: string
  m_statusb :: string
  m_statusc :: string
  m_status_ema :: string
  m_status_send_flag :: byte
  m_last_report_time :: string

definition no_panel :: panel where
  "no_panel = \<lparr>p_dv = 0, p_di = 0, p_op = 0, p_curgeneration = 0, p_preaccgen = 0, p_curaccgen = 0\<rparr>"

definition no_phase :: phase where
  "no_phase = \<lparr>p_gv = 0, p_reactive_power = 0, p_active_power = 0, p_output_energy = 0,
     p_pre_output_energy = 0, p_cur_output_energy = 0\<rparr>"

definition no_values :: measured where
  "no_values = \<lparr>m_gf = 0, m_it = 0, panel_a = no_panel, panel_b = no_panel, panel_c = no_panel,
     panel_d = no_panel, phase_a = no_phase, phase_b = no_phase, phase_c = no_phase,
     m_preacctime = 0, m_curacctime = 0, m_status_web = [], m_status = [], m_statusb = [],
     m_statusc = [], m_status_ema = [], m_status_send_flag = 0, m_last_report_time = []\<rparr>"

record inverter =
  inv_id :: string
  shortaddr :: u16
  model :: byte
  version :: int
  bindflag :: bit1
  dataflag :: bit1
  flag :: bit1
  updating :: bit1
  deputy_model :: "4 word"
  paras_one_flag :: bit1          \<comment> \<open>\<open>response_protection_paras_one\<close>\<close>
  last_turn_on_off_flag :: bit1
  turn_on_off_changed_flag :: bit1
  last_gfdi_flag :: bit1
  gfdi_changed_flag :: bit1
  zigbee_version :: byte
  signalstrength :: byte
  raduis :: byte
  no_getdata_num :: byte
  disconnect_times :: byte
  updating_time :: int
  meas :: measured

text \<open>A zero-initialised slot of the table.\<close>

definition empty_inverter :: inverter where
  "empty_inverter = \<lparr>inv_id = [], shortaddr = 0, model = 0, version = 0, bindflag = 0,
     dataflag = 0, flag = 0, updating = 0, deputy_model = 0, paras_one_flag = 0,
     last_turn_on_off_flag = 0, turn_on_off_changed_flag = 0, last_gfdi_flag = 0,
     gfdi_changed_flag = 0, zigbee_version = 0, signalstrength = 0, raduis = 0,
     no_getdata_num = 0, disconnect_times = 0, updating_time = 0, meas = no_values\<rparr>"

datatype io =
    ZbFlush                       \<comment> \<open>a read that discards what is in the receive buffer\<close>
  | ZbWrite "byte list"           \<comment> \<open>one write to the ZigBee serial port\<close>
  | ZbWait nat                    \<comment> \<open>\<open>selectZigbee\<close> with its time-out in seconds\<close>
  | DelayMs nat
  | ZbResetPin bool
  | MutexTake
  | MutexRelease
  | RestartThread nat nat         \<comment> \<open>\<open>threadRestartTimer\<close>: the thread is restarted after a delay in seconds\<close>
  | RebootTimer nat               \<comment> \<open>the unit is reset after a delay in seconds\<close>
  | NetSend string                \<comment> \<open>characters given to \<open>send\<close> or to the WiFi module\<close>
  | DelayTicks nat                \<comment> \<open>\<open>rt_thread_delay\<close>, in ticks of 10 ms\<close>
  | WifiTake                      \<comment> \<open>the lock of the WiFi module\<close>
  | WifiRelease
  | FtpThread bool string string  \<comment> \<open>a thread that puts (or gets) a file by FTP: local and remote path\<close>
  | PhoneSend "byte list"         \<comment> \<open>\<open>SendToSocketA\<close>: a packet for the phone that asked\<close>
  | ClockSet string               \<comment> \<open>the clock of the unit is set to fourteen digits\<close>
  | StaticIp "int list list"      \<comment> \<open>addresses of the wired network: unit, mask, gateway, two name servers\<close>
  | DhcpReset
  | WifiPasswd string             \<comment> \<open>the access point of the WiFi module gets a password\<close>
  | FtpGet string string          \<comment> \<open>a file got by FTP: remote and local path\<close>
  | FtpDelete string
  | FlashErase                    \<comment> \<open>the flash memory of the second image is erased\<close>
  | FlashWord nat "byte list"     \<comment> \<open>a word of it is programmed\<close>
  | FlashMark                     \<comment> \<open>the second image is marked as complete\<close>
  | ReplySend string              \<comment> \<open>characters sent to the tool that writes the ids\<close>

text \<open>
  One exchange with a server, as the firmware meets it: no socket; a wired connection, of
  which \<open>send\<close> accepts a number of pieces and which then delivers these segments before it is
  silent; or no wired connection, where the WiFi module sends and answers (\<open>None\<close>: it fails or
  does not answer in time).
\<close>

datatype exchange =
    NoSocket
  | Wired nat "string list"
  | Wifi "string option"

text \<open>
  What uninitialised variables and conversions out of range yield: an \<open>int\<close>, and the rows of
  a character array up to their first NUL.
\<close>

record indeterminate =
  any_int :: int
  any_row :: "nat \<Rightarrow> string"

text \<open>The fields of \<open>ecu\<close> with the results of a round of polling, and the global \<open>ecu_type\<close>.\<close>

record ecu_totals =
  life_energy :: rat
  current_energy :: rat
  system_power :: int
  ecu_count :: int
  polling_total_times :: int
  flag_ten_clock :: int            \<comment> \<open>\<open>flag_ten_clock_getshortaddr\<close>\<close>
  zoneflag :: int
  broadcast_time :: string
  had_data_broadcast_time :: string
  ecu_type :: int
  today_energy :: rat
  last_ema_time :: string
  MacAddress :: "byte list"

definition no_totals :: ecu_totals where
  "no_totals = \<lparr>life_energy = 0, current_energy = 0, system_power = 0, ecu_count = 0,
     polling_total_times = 0, flag_ten_clock = 0, zoneflag = 0, broadcast_time = [],
     had_data_broadcast_time = [], ecu_type = 0, today_energy = 0, last_ema_time = [],
     MacAddress = []\<rparr>"

record ecu_state =
  inverters :: "inverter list"
  ecu_id :: string
  ecu_panid :: u16
  ecu_channel :: byte
  ecu_total :: nat
  rateOfProgress :: byte
  files :: "string \<rightharpoonup> string"
  can_write :: "string \<Rightarrow> bool"
  zb_rx :: "byte list option list"
  clock :: "int list"
  datetime :: string
  trace :: "io list"
  dir_exists :: "string \<Rightarrow> bool"
  dir_order :: "string \<Rightarrow> string list"
  server :: "nat \<Rightarrow> exchange"
  ema_connect :: "nat \<Rightarrow> bool"
  ema_send :: "nat \<Rightarrow> bool"
  ema_recv :: "nat \<Rightarrow> string list"
  first_time_id :: nat
  totals :: ecu_totals
  stale :: indeterminate

text \<open>
  \<open>zb_rx\<close>: its first element is what the next \<open>selectZigbee\<close> meets, \<open>None\<close> a time-out and
  \<open>Some bs\<close> the bytes that the following read returns; when it is empty every wait times
  out. \<open>can_write p\<close>: whether \<open>p\<close> can be opened for writing. \<open>clock\<close>: the next readings of
  \<open>acquire_time\<close>. \<open>datetime\<close>: what \<open>getcurrenttime\<close> writes (fourteen digits).
  \<open>dir_order d\<close>: the names \<open>readdir\<close> delivers for the directory \<open>d\<close>, in its order (a name
  without a file is a subdirectory, which \<open>fopen\<close> does not open). \<open>server\<close>: the exchanges of
  the upload client with the server still to come. The control client keeps a connection over
  several messages; for it \<open>ema_connect\<close>, \<open>ema_send\<close> and \<open>ema_recv\<close> say whether the next
  connections and sends succeed and which segments the next waits for a reply deliver before
  the server is silent. \<open>first_time_id\<close> is the static \<open>command_id\<close> of \<open>first_time_info\<close>.
  \<open>stale\<close>: what the main thread finds in variables it has not set.
\<close>

text \<open>A unit with an empty table, no files and nothing received.\<close>

definition blank :: ecu_state where
  "blank = \<lparr>inverters = [], ecu_id = [], ecu_panid = 0, ecu_channel = 16, ecu_total = 0,
     rateOfProgress = 0, files = Map.empty, can_write = (\<lambda>_. True), zb_rx = [], clock = [],
     datetime = ''20170101000000'', trace = [],
     dir_exists = (\<lambda>_. True), dir_order = (\<lambda>_. []), server = (\<lambda>_. NoSocket),
     ema_connect = (\<lambda>_. False), ema_send = (\<lambda>_. False), ema_recv = (\<lambda>_. []), first_time_id = 0,
     totals = no_totals, stale = \<lparr>any_int = 0, any_row = (\<lambda>_. [])\<rparr>\<rparr>"

lemma blank_simps [simp]:
  "inverters blank = []" "ecu_id blank = []" "ecu_panid blank = 0" "ecu_channel blank = 16"
  "files blank = Map.empty" "can_write blank p" "zb_rx blank = []" "clock blank = []" "trace blank = []"
  "dir_exists blank d" "dir_order blank d = []" "server blank = (\<lambda>_. NoSocket)"
  "ema_connect blank = (\<lambda>_. False)" "ema_send blank = (\<lambda>_. False)" "ema_recv blank = (\<lambda>_. [])"
  "first_time_id blank = 0" "totals blank = no_totals" "can_write blank = (\<lambda>_. True)"
  by (simp_all add: blank_def)

type_synonym 'a ecu = "(ecu_state, 'a) state"

abbreviation ret :: "'a \<Rightarrow> ('s, 'a) state" where
  "ret \<equiv> State_Monad.return"

definition gets :: "('s \<Rightarrow> 'a) \<Rightarrow> ('s, 'a) state" where
  "gets f = State (\<lambda>s. (f s, s))"

definition modify :: "('s \<Rightarrow> 's) \<Rightarrow> ('s, unit) state" where
  "modify f = State (\<lambda>s. ((), f s))"

abbreviation exec :: "('s, 'a) state \<Rightarrow> 's \<Rightarrow> 's" where
  "exec m s \<equiv> snd (run_state m s)"

abbreviation result :: "('s, 'a) state \<Rightarrow> 's \<Rightarrow> 'a" where
  "result m s \<equiv> fst (run_state m s)"

lemma run_gets [simp]: "run_state (gets f) s = (f s, s)"
  by (simp add: gets_def)

lemma run_modify [simp]: "run_state (modify f) s = ((), f s)"
  by (simp add: modify_def)

lemma run_if [simp]: "run_state (if b then m else n) s = (if b then run_state m s else run_state n s)"
  by simp

lemma exec_bind: "exec (m \<bind> f) s = exec (f (result m s)) (exec m s)"
  by (simp add: case_prod_beta)

lemma result_bind: "result (m \<bind> f) s = result (f (result m s)) (exec m s)"
  by (simp add: case_prod_beta)

section \<open>Primitive effects\<close>

definition emit :: "io \<Rightarrow> unit ecu" where
  "emit e = modify (\<lambda>s. s\<lparr>trace := trace s @ [e]\<rparr>)"

definition zb_write :: "byte list \<Rightarrow> unit ecu" where
  "zb_write bs = emit (ZbWrite bs)"

definition delay_ms :: "nat \<Rightarrow> unit ecu" where
  "delay_ms n = emit (DelayMs n)"

definition slot :: "inverter list \<Rightarrow> nat \<Rightarrow> inverter" where
  "slot vs i = (if i < length vs then vs ! i else empty_inverter)"

definition inv_at :: "ecu_state \<Rightarrow> nat \<Rightarrow> inverter" where
  "inv_at s i = slot (inverters s) i"

lemma inv_at_simps [simp]:
  "inv_at (s\<lparr>trace := tr\<rparr>) i = inv_at s i"
  "inv_at (s\<lparr>zb_rx := rx\<rparr>) i = inv_at s i"
  "inv_at (s\<lparr>files := fs\<rparr>) i = inv_at s i"
  "inv_at (s\<lparr>inverters := vs\<rparr>) i = slot vs i"
  by (simp_all add: inv_at_def)

lemma slot_update: "slot (vs[i := v]) j = (if i = j \<and> i < length vs then v else slot vs j)"
  by (simp add: slot_def nth_list_update)

definition get_inv :: "nat \<Rightarrow> inverter ecu" where
  "get_inv i = gets (\<lambda>s. inv_at s i)"

definition upd_inv :: "nat \<Rightarrow> (inverter \<Rightarrow> inverter) \<Rightarrow> unit ecu" where
  "upd_inv i f = modify (\<lambda>s. s\<lparr>inverters := (inverters s)[i := f (inv_at s i)]\<rparr>)"

text \<open>
  Files. Opening for reading yields the content, or nothing when there is no such file.
  Opening with mode \<open>"w"\<close> truncates; \<open>O_APPEND | O_CREAT\<close> appends, creating the file.
\<close>

definition read_file :: "string \<Rightarrow> string option ecu" where
  "read_file p = gets (\<lambda>s. files s p)"

definition write_file :: "string \<Rightarrow> string \<Rightarrow> bool ecu" where
  "write_file p txt = do {
     ok \<leftarrow> gets (\<lambda>s. can_write s p);
     if ok then do { modify (\<lambda>s. s\<lparr>files := (files s)(p \<mapsto> txt)\<rparr>); ret True }
     else ret False }"

definition append_file :: "string \<Rightarrow> string \<Rightarrow> bool ecu" where
  "append_file p txt = do {
     ok \<leftarrow> gets (\<lambda>s. can_write s p);
     if ok
     then do {
       modify (\<lambda>s. s\<lparr>files := (files s)(p \<mapsto> (case files s p of None \<Rightarrow> txt | Some old \<Rightarrow> old @ txt))\<rparr>);
       ret True }
     else ret False }"

definition remove_file :: "string \<Rightarrow> unit ecu" where
  "remove_file p = modify (\<lambda>s. s\<lparr>files := (files s)(p := None)\<rparr>)"

definition rename_file :: "string \<Rightarrow> string \<Rightarrow> unit ecu" where
  "rename_file p q = modify (\<lambda>s. case files s p of
      None \<Rightarrow> s
    | Some txt \<Rightarrow> (case files s q of
        None \<Rightarrow> s\<lparr>files := (files s)(p := None, q \<mapsto> txt)\<rparr>
      | Some _ \<Rightarrow> s))"

definition acquire_time :: "int ecu" where
  "acquire_time = do {
     ts \<leftarrow> gets clock;
     (case ts of
        [] \<Rightarrow> ret 0
      | t # ts' \<Rightarrow> do { modify (\<lambda>s. s\<lparr>clock := tl (clock s)\<rparr>); ret t }) }"

section \<open>Lines of a file, as \<open>fgets\<close> delivers them\<close>

text \<open>\<open>fgets(buf, n + 1, fp)\<close>: at most \<open>n\<close> characters, up to and including a newline.\<close>

fun take_line :: "nat \<Rightarrow> string \<Rightarrow> string" where
  "take_line 0 s = []"
| "take_line (Suc n) [] = []"
| "take_line (Suc n) (c # cs) = (if c = NL then [c] else c # take_line n cs)"

lemma take_line_nonempty: "s \<noteq> [] \<Longrightarrow> 0 < n \<Longrightarrow> take_line n s \<noteq> []"
  by (cases s; cases n) auto

lemma take_line_prefix: "take_line n s = take (length (take_line n s)) s"
  by (induction n s rule: take_line.induct) auto

lemma take_line_drop [simp]: "take_line n s @ drop (length (take_line n s)) s = s"
  by (metis append_take_drop_id take_line_prefix)

lemma length_take_line: "length (take_line n s) \<le> n"
  by (induction n s rule: take_line.induct) auto

function fgets_lines :: "nat \<Rightarrow> string \<Rightarrow> string list" where
  "fgets_lines n s = (if s = [] \<or> n = 0 then []
     else take_line n s # fgets_lines n (drop (length (take_line n s)) s))"
  by pat_completeness auto
termination
proof (relation "measure (\<lambda>(n, s). length s)")
  fix n :: nat and s :: string
  assume "\<not> (s = [] \<or> n = 0)"
  then have "take_line n s \<noteq> []" using take_line_nonempty[of s n] by auto
  then show "((n, drop (length (take_line n s)) s), (n, s)) \<in> measure (\<lambda>(n, s). length s)"
    using \<open>\<not> (s = [] \<or> n = 0)\<close> by simp
qed simp

declare fgets_lines.simps [simp del]

lemma fgets_lines_nil [simp]: "fgets_lines n [] = []"
  by (subst fgets_lines.simps) simp

lemma concat_fgets_lines: "0 < n \<Longrightarrow> concat (fgets_lines n s) = s"
proof (induction n s rule: fgets_lines.induct)
  case (1 n s)
  then show ?case by (subst fgets_lines.simps) auto
qed

text \<open>A complete line: a newline at its end, none before, and no NUL.\<close>

definition is_line :: "string \<Rightarrow> bool" where
  "is_line l = (\<exists>b. l = b @ [NL] \<and> NL \<notin> set b \<and> no_nul b)"

lemma is_line_code [code]: "is_line l = (l \<noteq> [] \<and> last l = NL \<and> NL \<notin> set (butlast l) \<and> no_nul (butlast l))"
proof
  assume "l \<noteq> [] \<and> last l = NL \<and> NL \<notin> set (butlast l) \<and> no_nul (butlast l)"
  then show "is_line l" unfolding is_line_def by (intro exI[of _ "butlast l"]) (metis append_butlast_last_id)
qed (auto simp: is_line_def)

lemma NL_not_NUL [simp]: "NL \<noteq> NUL"
  by (simp add: NL_def NUL_def)

lemma is_line_no_nul: "is_line l \<Longrightarrow> no_nul l"
proof -
  assume "is_line l"
  then obtain b where "l = b @ [NL]" "no_nul b" unfolding is_line_def by blast
  then show "no_nul l" by (simp add: no_nul_def)
qed

lemma is_line_cstr [simp]: "is_line l \<Longrightarrow> cstr l = l"
  by (simp add: is_line_no_nul)

lemma is_line_nonempty: "is_line l \<Longrightarrow> l \<noteq> []"
  by (auto simp: is_line_def)

lemma take_line_body: "NL \<notin> set b \<Longrightarrow> length b < n \<Longrightarrow> take_line n (b @ NL # t) = b @ [NL]"
proof (induction b arbitrary: n)
  case Nil
  then show ?case by (cases n) auto
next
  case (Cons c b)
  then show ?case by (cases n) auto
qed

lemma fgets_lines_line:
  assumes "is_line l" "length l \<le> n"
  shows "fgets_lines n (l @ t) = l # fgets_lines n t"
proof -
  obtain b where b: "l = b @ [NL]" "NL \<notin> set b" using assms(1) by (auto simp: is_line_def)
  then have "take_line n (l @ t) = l" using take_line_body[of b n t] assms(2) by simp
  then show ?thesis using assms b by (subst fgets_lines.simps) auto
qed

lemma fgets_lines_concat:
  "(\<And>l. l \<in> set ls \<Longrightarrow> is_line l \<and> length l \<le> n) \<Longrightarrow> fgets_lines n (concat ls) = ls"
  by (induction ls) (simp_all add: fgets_lines_line)

section \<open>Loops over the inverter table\<close>

text \<open>
  \<open>for(i=0; (i<MAXINVERTERCOUNT)&&(12==strlen(curinverter->id)); i++)\<close>: \<open>n\<close> slots are left,
  \<open>i\<close> is the current one, and the body returns whether it leaves the loop by \<open>break\<close>.
\<close>

fun inv_loop :: "(nat \<Rightarrow> bool ecu) \<Rightarrow> nat \<Rightarrow> nat \<Rightarrow> unit ecu" where
  "inv_loop body 0 i = ret ()"
| "inv_loop body (Suc n) i = do {
     v \<leftarrow> get_inv i;
     if length (inv_id v) = 12
     then do { brk \<leftarrow> body i; if brk then ret () else inv_loop body n (Suc i) }
     else ret () }"

definition for_inverters :: "(nat \<Rightarrow> bool ecu) \<Rightarrow> unit ecu" where
  "for_inverters body = inv_loop body MAXINVERTERCOUNT 0"

definition for_each_inverter :: "(nat \<Rightarrow> unit ecu) \<Rightarrow> unit ecu" where
  "for_each_inverter body = for_inverters (\<lambda>i. do { body i; ret False })"

text \<open>\<open>while(j<n){ if(1 == op) break; j++; }\<close>; the result says whether an attempt succeeded.\<close>

fun retry :: "nat \<Rightarrow> int ecu \<Rightarrow> bool ecu" where
  "retry 0 op = ret False"
| "retry (Suc n) op = do { r \<leftarrow> op; if r = 1 then ret True else retry n op }"

text \<open>A body run a fixed number of times.\<close>

fun repeat_n :: "nat \<Rightarrow> unit ecu \<Rightarrow> unit ecu" where
  "repeat_n 0 op = ret ()"
| "repeat_n (Suc n) op = do { op; repeat_n n op }"

section \<open>Effects of programs\<close>

text \<open>
  A preorder on states bounds what a program may change. Programs built from the
  primitives by sequencing, branching and the loops above stay within it.
\<close>

named_theorems eff_intros

locale effect =
  fixes R :: "ecu_state \<Rightarrow> ecu_state \<Rightarrow> bool"
  assumes R_refl: "R s s"
    and R_trans: "R s t \<Longrightarrow> R t u \<Longrightarrow> R s u"
begin

lemma eff_return [eff_intros]: "state_io_rel R (ret x)"
  by (auto simp: state_io_rel_def R_refl)

lemma eff_gets [eff_intros]: "state_io_rel R (gets f)"
  by (auto simp: state_io_rel_def R_refl)

lemma eff_get_inv [eff_intros]: "state_io_rel R (get_inv i)"
  by (auto simp: state_io_rel_def get_inv_def R_refl)

lemma eff_read_file [eff_intros]: "state_io_rel R (read_file p)"
  by (auto simp: state_io_rel_def read_file_def R_refl)

lemma eff_bind [eff_intros]:
  "state_io_rel R m \<Longrightarrow> (\<And>x. state_io_rel R (f x)) \<Longrightarrow> state_io_rel R (m \<bind> f)"
  by (auto simp: state_io_rel_def split: prod.splits) (metis R_trans snd_conv)

lemma eff_if [eff_intros]:
  "(b \<Longrightarrow> state_io_rel R m) \<Longrightarrow> (\<not> b \<Longrightarrow> state_io_rel R n) \<Longrightarrow> state_io_rel R (if b then m else n)"
  by simp

lemma eff_option [eff_intros]:
  "state_io_rel R m \<Longrightarrow> (\<And>x. state_io_rel R (f x)) \<Longrightarrow>
   state_io_rel R (case v of None \<Rightarrow> m | Some x \<Rightarrow> f x)"
  by (cases v) auto

lemma eff_prod [eff_intros]:
  "(\<And>x y. state_io_rel R (f x y)) \<Longrightarrow> state_io_rel R (case p of (x, y) \<Rightarrow> f x y)"
  by (cases p) auto

lemma eff_let [eff_intros]: "state_io_rel R (f v) \<Longrightarrow> state_io_rel R (let x = v in f x)"
  by simp

lemma eff_inv_loop:
  assumes "\<And>i. state_io_rel R (body i)"
  shows "state_io_rel R (inv_loop body n i)"
proof (induction n arbitrary: i)
  case 0
  show ?case by (simp add: eff_return)
next
  case (Suc n)
  show ?case
    unfolding inv_loop.simps by (intro eff_intros assms Suc.IH)
qed

lemma eff_for_inverters [eff_intros]:
  "(\<And>i. state_io_rel R (body i)) \<Longrightarrow> state_io_rel R (for_inverters body)"
  unfolding for_inverters_def by (rule eff_inv_loop)

lemma eff_for_each [eff_intros]:
  "(\<And>i. state_io_rel R (body i)) \<Longrightarrow> state_io_rel R (for_each_inverter body)"
  unfolding for_each_inverter_def by (intro eff_intros)

lemma eff_retry [eff_intros]: "state_io_rel R op \<Longrightarrow> state_io_rel R (retry n op)"
  by (induction n) (auto intro!: eff_intros)

lemma eff_repeat [eff_intros]: "state_io_rel R op \<Longrightarrow> state_io_rel R (repeat_n n op)"
  by (induction n) (auto intro!: eff_intros)

end

lemma state_io_relE: "state_io_rel R m \<Longrightarrow> R s (exec m s)"
  by (simp add: state_io_rel_def)

end
