(* ===== verification/Inverter_Table.thy ===== *)
theory Inverter_Table
  imports Ecu_State
begin

text \<open>
  The persistent inverter list (\<open>ECU/main/src/file.c\<close>): the comma-separated lines of
  \<open>/home/data/id\<close>, written by \<open>updateID\<close> and read back by \<open>get_id_from_file\<close>.
\<close>

section \<open>Comma-separated fields\<close>

text \<open>
  The rows of the C array have 32 characters; the lines this firmware writes keep every
  field shorter. A row that no field fills is empty, as after the \<open>memset\<close> of the callers.
\<close>

fun splitString :: "string \<Rightarrow> string list" where
  "splitString [] = [[]]"
| "splitString (c # cs) =
     (if c = CHR '','' then [] # splitString cs
      else (case splitString cs of [] \<Rightarrow> [[c]] | f # fs \<Rightarrow> (c # f) # fs))"

definition fld :: "string list \<Rightarrow> nat \<Rightarrow> string" where
  "fld fs n = (if n < length fs then fs ! n else [])"

lemma splitString_nonempty [simp]: "splitString s \<noteq> []"
  by (cases s) (auto split: list.splits)

lemma splitString_nocomma: "CHR '','' \<notin> set f \<Longrightarrow> splitString f = [f]"
  by (induction f) auto

lemma splitString_field [simp]:
  "CHR '','' \<notin> set f \<Longrightarrow> splitString (f @ CHR '','' # t) = f # splitString t"
  by (induction f) auto

section \<open>Writing the list\<close>

definition path_id :: string where
  "path_id = ''/HOME/DATA/ID''"

text \<open>The slots that the loops of the firmware visit.\<close>

definition table :: "inverter list \<Rightarrow> inverter list" where
  "table vs = takeWhile (\<lambda>v. length (inv_id v) = 12) (take MAXINVERTERCOUNT vs)"

lemma id_of_table: "v \<in> set (table vs) \<Longrightarrow> length (inv_id v) = 12"
  by (auto simp: table_def dest: set_takeWhileD)

lemma table_nth:
  assumes "j < length (table (inverters s))"
  shows "table (inverters s) ! j = inv_at s j" "length (inv_id (inv_at s j)) = 12" "j < MAXINVERTERCOUNT"
    "j < length (inverters s)"
proof -
  have le: "length (table (inverters s)) \<le> length (take MAXINVERTERCOUNT (inverters s))"
    unfolding table_def by (rule length_takeWhile_le)
  then show "j < MAXINVERTERCOUNT" "j < length (inverters s)" using assms by simp_all
  then show n: "table (inverters s) ! j = inv_at s j"
    using assms by (simp add: table_def takeWhile_nth inv_at_def slot_def)
  have "table (inverters s) ! j \<in> set (table (inverters s))" using assms by (rule nth_mem)
  then show "length (inv_id (inv_at s j)) = 12" unfolding n by (rule id_of_table)
qed

definition id_line :: "inverter \<Rightarrow> string" where
  "id_line v = inv_id v @ '','' @ fmt_d (uint (shortaddr v)) @ '','' @ fmt_d (uint (model v))
     @ '','' @ fmt_d (version v) @ '','' @ fmt_d (uint (bindflag v))
     @ '','' @ fmt_d (uint (zigbee_version v)) @ '','' @ fmt_d (uint (flag v)) @ [NL]"

definition updateID :: "unit ecu" where
  "updateID = do {
     vs \<leftarrow> gets inverters;
     write_file path_id (concat (map id_line (table vs)));
     ret () }"

section \<open>Reading it back\<close>

text \<open>An empty field leaves the number 0; \<open>atoi\<close> of the empty string is 0 as well.\<close>

definition num_field :: "string \<Rightarrow> int" where
  "num_field f = (if length f = 0 then 0 else atoi f)"

definition load_fields :: "inverter \<Rightarrow> string list \<Rightarrow> inverter" where
  "load_fields v fs = v\<lparr>inv_id := fld fs 0,
     shortaddr := word_of_int (num_field (fld fs 1)),
     model := word_of_int (num_field (fld fs 2)),
     version := num_field (fld fs 3),
     bindflag := word_of_int (num_field (fld fs 4)),
     zigbee_version := word_of_int (num_field (fld fs 5)),
     flag := word_of_int (num_field (fld fs 6))\<rparr>"

definition known_id :: "inverter list \<Rightarrow> string \<Rightarrow> bool" where
  "known_id vs i = (\<exists>v \<in> set (table vs). memeq i (inv_id v) 12)"

fun load_ids :: "string list \<Rightarrow> nat \<Rightarrow> inverter list \<Rightarrow> nat \<times> inverter list" where
  "load_ids [] num vs = (num, vs)"
| "load_ids (l # ls) num vs =
     (let fs = splitString (cstr l) in
      if known_id vs (fld fs 0) then load_ids ls num vs
      else let vs' = vs[num := load_fields (vs ! num) fs] in
        if num + 1 \<ge> MAXINVERTERCOUNT then (num + 1, vs') else load_ids ls (num + 1) vs')"

definition get_id_from_file :: "nat ecu" where
  "get_id_from_file = do {
     f \<leftarrow> read_file path_id;
     (case f of
        None \<Rightarrow> ret 0
      | Some txt \<Rightarrow> do {
          vs \<leftarrow> gets inverters;
          let (num, vs') = load_ids (fgets_lines 199 txt) 0 vs;
          modify (\<lambda>s. s\<lparr>inverters := vs'\<rparr>);
          ret num }) }"

text \<open>
  \<open>init_inverter_A103\<close>: every slot loses its id and its readings, then the list is loaded. Of
  the third and fourth input some readings stay, and so do the powers and energies of the
  grid side, the changes and what was reported.
\<close>

definition clear_values :: "measured \<Rightarrow> measured" where
  "clear_values w = w\<lparr>m_gf := 0, m_it := 0, panel_a := no_panel, panel_b := no_panel,
     panel_c := (panel_c w)\<lparr>p_dv := 0, p_di := 0, p_op := 0\<rparr>,
     panel_d := (panel_d w)\<lparr>p_dv := 0, p_di := 0, p_op := 0\<rparr>,
     phase_a := (phase_a w)\<lparr>p_gv := 0\<rparr>, phase_b := (phase_b w)\<lparr>p_gv := 0\<rparr>,
     phase_c := (phase_c w)\<lparr>p_gv := 0\<rparr>, m_preacctime := 0, m_curacctime := 0,
     m_status_web := [], m_status := [], m_statusb := []\<rparr>"

definition clear_slot :: "inverter \<Rightarrow> inverter" where
  "clear_slot v = v\<lparr>inv_id := [], model := 0, dataflag := 0, no_getdata_num := 0,
     disconnect_times := 0, signalstrength := 0, updating := 0, raduis := 0,
     meas := clear_values (meas v)\<rparr>"

definition init_inverter_A103 :: "int ecu" where
  "init_inverter_A103 = do {
     modify (\<lambda>s. s\<lparr>inverters := map clear_slot (inverters s)\<rparr>);
     n \<leftarrow> get_id_from_file;
     modify (\<lambda>s. s\<lparr>ecu_total := n\<rparr>);
     ret 0 }"

section \<open>Round trip\<close>

text \<open>What the file keeps of an inverter.\<close>

definition saved :: "inverter \<Rightarrow> inverter" where
  "saved v = empty_inverter\<lparr>inv_id := inv_id v, shortaddr := shortaddr v, model := model v,
     version := version v, bindflag := bindflag v, zigbee_version := zigbee_version v,
     flag := flag v\<rparr>"

definition valid_id :: "string \<Rightarrow> bool" where
  "valid_id i = (length i = 12 \<and> (\<forall>c \<in> set i. is_digit c))"

definition int32 :: "int \<Rightarrow> bool" where
  "int32 v = (- (2 ^ 31) \<le> v \<and> v < 2 ^ 31)"

definition plain_char :: "char \<Rightarrow> bool" where
  "plain_char c = (c \<noteq> CHR '','' \<and> c \<noteq> NL \<and> c \<noteq> NUL)"

lemma is_digit_plain: "is_digit c \<Longrightarrow> plain_char c"
  by (auto simp: is_digit_def plain_char_def NL_def NUL_def)

lemma fmt_d_chars: "c \<in> set (fmt_d v) \<Longrightarrow> is_digit c \<or> c = CHR ''-''"
  by (auto simp: fmt_d_def dest: dec_digits split: if_splits)

lemma fmt_d_plain: "c \<in> set (fmt_d v) \<Longrightarrow> plain_char c"
  using fmt_d_chars[of c v] is_digit_plain[of c] by (auto simp: plain_char_def NL_def NUL_def)

lemma valid_id_plain: "valid_id i \<Longrightarrow> c \<in> set i \<Longrightarrow> plain_char c"
  by (auto simp: valid_id_def is_digit_plain)

lemma valid_id_no_nul: "valid_id i \<Longrightarrow> no_nul i"
  by (auto simp: no_nul_def plain_char_def dest: valid_id_plain)

lemma fmt_d_no_comma [simp]: "CHR '','' \<notin> set (fmt_d v)"
  using fmt_d_plain by (auto simp: plain_char_def)

lemma fmt_d_nonempty [simp]: "fmt_d v \<noteq> []"
  by (simp add: fmt_d_def)

lemma atoi_fmt_d_append:
  assumes "t = [] \<or> \<not> is_digit (hd t)"
  shows "atoi (fmt_d v @ t) = v"
proof (cases "v < 0")
  case True
  have "atoi (CHR ''-'' # (dec (nat (- v)) @ t)) = - int (digits_val 0 (takeWhile is_digit (dec (nat (- v)) @ t)))"
    by (simp add: atoi_def is_space_def)
  also have "takeWhile is_digit (dec (nat (- v)) @ t) = dec (nat (- v))"
    using assms dec_digits by (cases t) (auto simp: takeWhile_append)
  finally show ?thesis using True by (simp add: fmt_d_def)
next
  case False
  then show ?thesis using assms by (simp add: fmt_d_def atoi_dec_append)
qed

lemma atoi_fmt_d [simp]: "atoi (fmt_d v) = v"
  using atoi_fmt_d_append[of "[]" v] by simp

lemma length_fmt_d: "\<bar>v\<bar> < 10 ^ k \<Longrightarrow> 0 < k \<Longrightarrow> length (fmt_d v) \<le> k + 1"
proof -
  assume v: "\<bar>v\<bar> < 10 ^ k" and k: "0 < k"
  have "nat \<bar>v\<bar> < 10 ^ k" using v by (simp add: nat_less_iff)
  then have "length (dec (nat \<bar>v\<bar>)) \<le> k" using k by (rule length_dec_le)
  then show "length (fmt_d v) \<le> k + 1" by (auto simp: fmt_d_def abs_if split: if_splits)
qed

lemma bit1_bounds: "0 \<le> uint (b::bit1)" "uint b < 2"
proof -
  show "0 \<le> uint b" by simp
  have "uint b < 2 ^ LENGTH(1)" by (rule uint_lt2p)
  then show "uint b < 2" by simp
qed

lemma length_fmt_byte: "length (fmt_d (uint (b::byte))) \<le> 4"
  using length_fmt_d[of "uint b" 3] byte_bounds[of b] by simp

lemma length_fmt_bit1: "length (fmt_d (uint (b::bit1))) \<le> 2"
  using length_fmt_d[of "uint b" 1] bit1_bounds[of b] by simp

lemma is_lineI:
  "(\<And>c. c \<in> set b \<Longrightarrow> c \<noteq> NL \<and> c \<noteq> NUL) \<Longrightarrow> is_line (b @ [NL])"
  by (auto simp: is_line_def no_nul_def)

definition plain :: "string \<Rightarrow> bool" where
  "plain t = (\<forall>c \<in> set t. plain_char c)"

lemma plain_no_comma: "plain t \<Longrightarrow> CHR '','' \<notin> set t"
  by (auto simp: plain_def plain_char_def)

lemma plain_line: "plain t \<Longrightarrow> \<forall>c \<in> set t. c \<noteq> NL \<and> c \<noteq> NUL"
  by (simp add: plain_def plain_char_def)

lemma comma_line: "CHR '','' \<noteq> NL \<and> CHR '','' \<noteq> NUL"
  by (simp add: NL_def NUL_def)

lemma plain_valid_id: "valid_id i \<Longrightarrow> plain i"
  by (auto simp: plain_def valid_id_plain)

lemma int32_byte: "int32 (uint (b::byte))"
proof -
  have "- 2147483648 \<le> uint b" "uint b < 2147483648" using byte_bounds[of b] by linarith+
  then show ?thesis by (simp add: int32_def)
qed

lemma id_line_is_line: "valid_id (inv_id v) \<Longrightarrow> is_line (id_line v)"
proof -
  assume v: "valid_id (inv_id v)"
  let ?b = "inv_id v @ '','' @ fmt_d (uint (shortaddr v)) @ '','' @ fmt_d (uint (model v))
     @ '','' @ fmt_d (version v) @ '','' @ fmt_d (uint (bindflag v))
     @ '','' @ fmt_d (uint (zigbee_version v)) @ '','' @ fmt_d (uint (flag v))"
  have "c \<noteq> NL \<and> c \<noteq> NUL" if "c \<in> set ?b" for c
    using that valid_id_plain[OF v, of c] fmt_d_plain[of c]
    by (auto simp: plain_char_def NL_def NUL_def)
  then have "is_line (?b @ [NL])" by (rule is_lineI)
  then show ?thesis by (simp add: id_line_def)
qed

lemma id_line_length:
  assumes "valid_id (inv_id v)" "int32 (version v)"
  shows "length (id_line v) \<le> 199"
proof -
  have "length (fmt_d (uint (shortaddr v))) \<le> 6"
    using length_fmt_d[of "uint (shortaddr v)" 5] u16_bounds[of "shortaddr v"] by simp
  moreover have "length (fmt_d (uint (model v))) \<le> 4" "length (fmt_d (uint (zigbee_version v))) \<le> 4"
    by (rule length_fmt_byte)+
  moreover have "length (fmt_d (uint (bindflag v))) \<le> 2" "length (fmt_d (uint (flag v))) \<le> 2"
    by (rule length_fmt_bit1)+
  moreover have "length (fmt_d (version v)) \<le> 11"
    using length_fmt_d[of "version v" 10] assms(2) by (simp add: int32_def abs_if split: if_splits)
  moreover have "length (inv_id v) = 12" using assms(1) by (simp add: valid_id_def)
  ultimately show ?thesis by (simp add: id_line_def)
qed

lemma splitString_id_line:
  assumes "valid_id (inv_id v)"
  shows "splitString (id_line v) = [inv_id v, fmt_d (uint (shortaddr v)), fmt_d (uint (model v)),
    fmt_d (version v), fmt_d (uint (bindflag v)), fmt_d (uint (zigbee_version v)),
    fmt_d (uint (flag v)) @ [NL]]"
proof -
  have i: "CHR '','' \<notin> set (inv_id v)"
    using valid_id_plain[OF assms] by (auto simp: plain_char_def)
  have "CHR '','' \<notin> set (fmt_d (uint (flag v)) @ [NL])" by (simp add: NL_def)
  then have l: "splitString (fmt_d (uint (flag v)) @ [NL]) = [fmt_d (uint (flag v)) @ [NL]]"
    by (rule splitString_nocomma)
  show ?thesis by (simp add: id_line_def i l)
qed

lemma load_fields_id_line:
  assumes "valid_id (inv_id v)"
  shows "load_fields empty_inverter (splitString (cstr (id_line v))) = saved v"
proof -
  have "atoi (fmt_d (uint (flag v)) @ [NL]) = uint (flag v)"
    by (rule atoi_fmt_d_append) (simp add: is_digit_def NL_def)
  then show ?thesis using id_line_is_line[OF assms]
    by (simp add: splitString_id_line[OF assms] load_fields_def saved_def fld_def num_field_def)
qed

lemma table_saved:
  assumes "\<And>v. v \<in> set vs \<Longrightarrow> valid_id (inv_id v)" "length vs \<le> MAXINVERTERCOUNT"
  shows "table (map saved vs @ replicate k empty_inverter) = map saved vs"
proof -
  have all: "\<forall>v \<in> set (map saved vs). length (inv_id v) = 12"
    using assms(1) by (auto simp: saved_def valid_id_def)
  have "takeWhile (\<lambda>v. length (inv_id v) = 12) (map saved vs @ replicate j empty_inverter) = map saved vs" for j
    using all by (cases j) (auto simp: takeWhile_append empty_inverter_def)
  then show ?thesis using assms(2) by (simp add: table_def)
qed

lemma known_id_saved:
  assumes "\<And>v. v \<in> set vs \<Longrightarrow> valid_id (inv_id v)" "length vs \<le> MAXINVERTERCOUNT" "valid_id i"
  shows "known_id (map saved vs @ replicate k empty_inverter) i \<longleftrightarrow> i \<in> inv_id ` set vs"
proof -
  have "memeq i (inv_id v) 12 \<longleftrightarrow> i = inv_id v" if "v \<in> set vs" for v
    using assms(1)[OF that] assms(3) memeq_prefix[of "inv_id v" 12 i]
    by (auto simp: valid_id_def valid_id_no_nul)
  moreover have "table (map saved vs @ replicate k empty_inverter) = map saved vs"
    using assms(1,2) by (rule table_saved)
  ultimately show ?thesis by (auto simp: known_id_def saved_def)
qed

lemma load_ids_lines:
  assumes "\<And>v. v \<in> set (ps @ vs) \<Longrightarrow> valid_id (inv_id v)" "distinct (map inv_id (ps @ vs))"
    "length (ps @ vs) \<le> MAXINVERTERCOUNT"
  shows "load_ids (map id_line vs) (length ps)
      (map saved ps @ replicate (MAXINVERTERCOUNT - length ps) empty_inverter)
    = (length (ps @ vs), map saved (ps @ vs) @ replicate (MAXINVERTERCOUNT - length (ps @ vs)) empty_inverter)"
  using assms
proof (induction vs arbitrary: ps)
  case Nil
  then show ?case by simp
next
  case (Cons v vs)
  let ?k = "MAXINVERTERCOUNT - length ps"
  let ?tab = "map saved ps @ replicate ?k empty_inverter"
  have v: "valid_id (inv_id v)" using Cons.prems(1) by simp
  have fresh: "\<not> known_id ?tab (inv_id v)"
    using known_id_saved[of ps "inv_id v" ?k] Cons.prems v by auto
  have room: "0 < ?k" using Cons.prems(3) by simp
  then obtain j where j: "?k = Suc j" by (cases ?k) auto
  have upd: "?tab[length ps := load_fields (?tab ! length ps) (splitString (cstr (id_line v)))]
      = map saved (ps @ [v]) @ replicate (MAXINVERTERCOUNT - length (ps @ [v])) empty_inverter"
    using j load_fields_id_line[OF v] by (simp add: list_update_append nth_append)
  have fld0: "fld (splitString (cstr (id_line v))) 0 = inv_id v"
    using id_line_is_line[OF v] by (simp add: splitString_id_line[OF v] fld_def)
  have IH: "load_ids (map id_line vs) (length (ps @ [v]))
      (map saved (ps @ [v]) @ replicate (MAXINVERTERCOUNT - length (ps @ [v])) empty_inverter)
    = (length (ps @ v # vs), map saved (ps @ v # vs) @ replicate (MAXINVERTERCOUNT - length (ps @ v # vs)) empty_inverter)"
    using Cons.IH[of "ps @ [v]"] Cons.prems by simp
  show ?case
  proof (cases "length ps + 1 \<ge> MAXINVERTERCOUNT")
    case True
    then have "vs = []" using Cons.prems(3) by (cases vs) auto
    with True show ?thesis using fresh fld0 upd by (simp add: Let_def)
  next
    case False
    then show ?thesis using fresh fld0 upd IH by (simp add: Let_def)
  qed
qed

text \<open>
  C14. Saving the inverter list and loading it into a cleared table restores every inverter:
  id, short address, model, version, bind flag, ZigBee version and flag. The number returned
  is the number of inverters.
\<close>

theorem id_file_roundtrip:
  assumes "\<And>v. v \<in> set vs \<Longrightarrow> valid_id (inv_id v) \<and> int32 (version v)"
    and "distinct (map inv_id vs)" and "length vs \<le> MAXINVERTERCOUNT"
    and "can_write s path_id" and "table (inverters s) = vs"
  shows "run_state get_id_from_file
      ((exec updateID s)\<lparr>inverters := replicate MAXINVERTERCOUNT empty_inverter\<rparr>)
    = (length vs, (exec updateID s)\<lparr>inverters :=
         map saved vs @ replicate (MAXINVERTERCOUNT - length vs) empty_inverter\<rparr>)"
proof -
  let ?txt = "concat (map id_line vs)"
  have up: "exec updateID s = s\<lparr>files := (files s)(path_id \<mapsto> ?txt)\<rparr>"
    using assms(4,5) by (simp add: updateID_def write_file_def)
  have ls: "fgets_lines 199 ?txt = map id_line vs"
    using assms(1) by (intro fgets_lines_concat) (auto simp: id_line_is_line id_line_length)
  have ld: "load_ids (map id_line vs) 0 (replicate MAXINVERTERCOUNT empty_inverter)
      = (length vs, map saved vs @ replicate (MAXINVERTERCOUNT - length vs) empty_inverter)"
    using load_ids_lines[of "[]" vs] assms(1-3) by simp
  show ?thesis
    by (simp add: up get_id_from_file_def read_file_def ls ld)
qed

theorem id_file_roundtrip_witness:
  defines "v \<equiv> empty_inverter\<lparr>inv_id := ''408000000001'', shortaddr := 77, model := 7, version := 3\<rparr>"
  shows "result get_id_from_file ((exec updateID (blank\<lparr>inverters := [v]\<rparr>))\<lparr>inverters :=
     replicate MAXINVERTERCOUNT empty_inverter\<rparr>) = 1"
proof -
  have "table [v] = [v]" by (simp add: table_def v_def MAXINVERTERCOUNT_def)
  moreover have "valid_id (inv_id v)" "int32 (version v)" by (simp_all add: v_def valid_id_def is_digit_def int32_def)
  ultimately show ?thesis using id_file_roundtrip[of "[v]" "blank\<lparr>inverters := [v]\<rparr>"]
    by (simp add: MAXINVERTERCOUNT_def)
qed

end
