(* ===== verification/Zigbee_Link.thy ===== *)
theory Zigbee_Link
  imports Inverter_Table
begin

unbundle bit_operations_syntax

text \<open>
  The ZigBee link of \<open>ECU/main/src/zigbee.c\<close>: the frame every message to the coordinator
  module is wrapped in, the functions that send a payload to one inverter or to all of
  them, and those that wait for a reply and check where it comes from.
\<close>

section \<open>Frames\<close>

text \<open>
  A frame is the preamble, a header of eight bytes (command, address, parameters), the sum
  of the header in two bytes, the payload length and the payload. \<open>zb_frame_from c\<close> is the
  frame when the variable \<open>check\<close> holds \<open>c\<close> before the summation loop.
\<close>

definition checksum :: "byte list \<Rightarrow> int" where
  "checksum bs = sum_list (map uint bs)"

definition zb_frame_from :: "int \<Rightarrow> byte list \<Rightarrow> byte \<Rightarrow> byte list \<Rightarrow> byte list" where
  "zb_frame_from c hdr len payload =
     (let check = c + checksum hdr in
      [0xAA, 0xAA, 0xAA, 0xAA] @ hdr @ [u8 (check div 256), u8 (check mod 256)] @ [len] @ payload)"

definition zb_frame :: "byte list \<Rightarrow> byte \<Rightarrow> byte list \<Rightarrow> byte list" where
  "zb_frame hdr len payload = zb_frame_from 0 hdr len payload"

text \<open>What the coordinator module expects of a frame.\<close>

definition wf_frame :: "byte list \<Rightarrow> bool" where
  "wf_frame f = (15 \<le> length f \<and> take 4 f = [0xAA, 0xAA, 0xAA, 0xAA]
     \<and> be16 (f ! 12) (f ! 13) = checksum (take 8 (drop 4 f))
     \<and> length f = 15 + unat (f ! 14))"

lemma checksum_bounds: "0 \<le> checksum bs" "checksum bs \<le> 255 * int (length bs)"
proof -
  show "0 \<le> checksum bs" by (auto simp: checksum_def intro: sum_list_nonneg)
  show "checksum bs \<le> 255 * int (length bs)"
  proof (induction bs)
    case (Cons b bs)
    then show ?case using byte_bounds[of b] by (simp add: checksum_def)
  qed (simp add: checksum_def)
qed

lemma be16_u8: "0 \<le> x \<Longrightarrow> x < 65536 \<Longrightarrow> be16 (u8 (x div 256)) (u8 (x mod 256)) = x"
  using be16_hi_lo[of x] by (simp add: hi8_def lo8_def be16_def uint_u8)

lemma length_frame: "length hdr = 8 \<Longrightarrow> length (zb_frame_from c hdr len pl) = 15 + length pl"
  by (simp add: zb_frame_from_def Let_def)

lemma wf_zb_frame [intro]:
  assumes "length hdr = 8" "length pl = unat len"
  shows "wf_frame (zb_frame hdr len pl)"
proof -
  have c: "0 \<le> checksum hdr" "checksum hdr < 65536"
    using checksum_bounds[of hdr] assms(1) by auto
  obtain a b c d e f g h where hdr: "hdr = [a, b, c, d, e, f, g, h]"
    using assms(1) by (auto simp: numeral_eq_Suc length_Suc_conv)
  show ?thesis
    using c assms(2) hdr be16_u8[of "checksum hdr"]
    by (simp add: wf_frame_def zb_frame_def zb_frame_from_def Let_def numeral_nat)
qed

section \<open>Identifiers on the wire\<close>

text \<open>\<open>sendbuff[15]=((id[0]-0x30)*16+(id[1]-0x30))\<close> and so on.\<close>

definition id_bytes :: "string \<Rightarrow> byte list" where
  "id_bytes i = map (\<lambda>k. u8 ((ch i (2 * k) - 0x30) * 16 + (ch i (2 * k + 1) - 0x30))) [0..<6]"

lemma length_id_bytes [simp]: "length (id_bytes i) = 6"
  by (simp add: id_bytes_def)

lemma hex2_digits:
  assumes "is_digit a" "is_digit b"
  shows "hex2 (u8 ((int (code a) - 0x30) * 16 + (int (code b) - 0x30))) = [a, b]"
proof -
  define m n where "m = code a - 48" and "n = code b - 48"
  have m: "m < 10" "int (code a) - 48 = int m" "code a = 48 + m"
    and n: "n < 10" "int (code b) - 48 = int n" "code b = 48 + n"
    using assms by (auto simp: is_digit_def m_def n_def)
  have "uint (u8 (int m * 16 + int n)) = int m * 16 + int n"
    using m n by (simp add: uint_u8)
  then have "unat (u8 (int m * 16 + int n)) = m * 16 + n"
    by (metis nat_int of_nat_add of_nat_mult of_nat_numeral unat_eq_nat_uint)
  moreover have "chr (48 + m) = a" "chr (48 + n) = b" using m n by (metis chr_code)+
  ultimately show ?thesis using m n by (simp add: hex2_def hexdig_def)
qed

lemma hex_id_bytes:
  assumes "valid_id i"
  shows "hex_string (id_bytes i) = i"
proof -
  obtain a b c d e f g h j k l m where i: "i = [a, b, c, d, e, f, g, h, j, k, l, m]"
    using assms by (auto simp: valid_id_def numeral_eq_Suc length_Suc_conv)
  have "is_digit x" if "x \<in> set i" for x using that assms by (simp add: valid_id_def)
  then show ?thesis
    by (simp add: i hex_string_def id_bytes_def ch_def upt_rec hex2_digits[simplified])
qed

text \<open>
  The six bytes an id is sent as and the lower-case hexadecimal text a reply's id bytes
  are printed to are inverse on ids of twelve decimal digits: an inverter that echoes the
  bytes it was addressed with is recognised, and no two ids share their bytes.
\<close>

lemma id_bytes_roundtrip:
  assumes "valid_id i"
  shows "hex_string (id_bytes i) = i \<and> {j. valid_id j \<and> id_bytes j = id_bytes i} = {i}"
  using hex_id_bytes assms by auto metis

section \<open>Serial port\<close>

definition clear_zbmodem :: "unit ecu" where
  "clear_zbmodem = do {
     emit ZbFlush; delay_ms 20;
     emit ZbFlush; delay_ms 20;
     emit ZbFlush; delay_ms 20 }"

text \<open>
  \<open>selectZigbee(t)\<close> returns 1, after a settling time of 200 ms, when data came in within
  \<open>t\<close> seconds; the data stay pending for the read that follows. It returns 0 on a time-out.
\<close>

definition selectZigbee :: "nat \<Rightarrow> int ecu" where
  "selectZigbee t = do {
     emit (ZbWait t);
     rx \<leftarrow> gets zb_rx;
     (case rx of
        Some bs # rest \<Rightarrow> do { delay_ms 200; ret 1 }
      | None # rest \<Rightarrow> do { modify (\<lambda>s. s\<lparr>zb_rx := tl (zb_rx s)\<rparr>); ret 0 }
      | [] \<Rightarrow> ret 0) }"

definition zb_read :: "nat \<Rightarrow> byte list ecu" where
  "zb_read n = do {
     rx \<leftarrow> gets zb_rx;
     (case rx of
        Some bs # rest \<Rightarrow> do { modify (\<lambda>s. s\<lparr>zb_rx := tl (zb_rx s)\<rparr>); ret (take n bs) }
      | _ \<Rightarrow> ret []) }"

definition zigbee_reset :: "unit ecu" where
  "zigbee_reset = do { emit (ZbResetPin False); delay_ms 1000; emit (ZbResetPin True); delay_ms 10000 }"

section \<open>Sending\<close>

definition zb_shortaddr_cmd :: "int \<Rightarrow> byte list \<Rightarrow> int ecu" where
  "zb_shortaddr_cmd addr buff =
     (let sendbuff = zb_frame [0x55, hi8 addr, lo8 addr, 0, 0, 0, 0, 0] (u8 (int (length buff))) buff in
      if addr \<noteq> 0 then do { zb_write sendbuff; ret 1 } else ret (-1))"

definition zb_send_cmd :: "nat \<Rightarrow> byte list \<Rightarrow> int ecu" where
  "zb_send_cmd i buff = do {
     clear_zbmodem;
     v \<leftarrow> get_inv i;
     let addr = uint (shortaddr v);
     let sendbuff = zb_frame [0x55, hi8 addr, lo8 addr, 0, 0, 0, 0, 0] (u8 (int (length buff))) buff;
     if addr \<noteq> 0 then do { zb_write sendbuff; ret 1 } else ret (-1) }"

definition zb_broadcast_cmd :: "byte list \<Rightarrow> int ecu" where
  "zb_broadcast_cmd buff = do {
     zb_write (zb_frame [0x55, 0, 0, 0, 0, 0, 0, 0] (u8 (int (length buff))) buff);
     ret 1 }"

section \<open>Replies\<close>

text \<open>
  A reply starts with \<open>FC FC\<close>, the short address, the signal strength, the radius or a
  marker, and the six id bytes; its data begin at offset 12.
\<close>

definition reply_from :: "byte list \<Rightarrow> int \<Rightarrow> string \<Rightarrow> bool" where
  "reply_from d addr i = (12 < length d \<and> d ! 0 = 0xFC \<and> d ! 1 = 0xFC
     \<and> uint (d ! 2) = addr div 256 \<and> uint (d ! 3) = addr mod 256
     \<and> hex_string (take 6 (drop 6 d)) = i)"

definition zb_shortaddr_reply :: "int \<Rightarrow> string \<Rightarrow> (int \<times> byte list) ecu" where
  "zb_shortaddr_reply addr i = do {
     sel \<leftarrow> selectZigbee 2;
     if sel \<le> 0 then ret (-1, [])
     else do {
       d \<leftarrow> zb_read 255;
       if reply_from d addr i \<and> d ! 5 = 0xA5
       then ret (int (length d) - 12, drop 12 d)
       else ret (-1, drop 12 d) } }"

definition zb_get_reply :: "nat \<Rightarrow> (int \<times> byte list) ecu" where
  "zb_get_reply i = do {
     sel \<leftarrow> selectZigbee 2;
     if sel \<le> 0 then do { upd_inv i (\<lambda>v. v\<lparr>signalstrength := 0\<rparr>); ret (-1, []) }
     else do {
       d \<leftarrow> zb_read 255;
       v \<leftarrow> get_inv i;
       if reply_from d (uint (shortaddr v)) (inv_id v)
       then do {
         upd_inv i (\<lambda>v. v\<lparr>raduis := d ! 5, signalstrength := d ! 4\<rparr>);
         ret (int (length d) - 12, drop 12 d) }
       else do { upd_inv i (\<lambda>v. v\<lparr>signalstrength := 0\<rparr>); ret (-1, drop 12 d) } } }"

text \<open>The replies during an update: other time-outs, and the marker \<open>A5\<close> is required.\<close>

definition zb_get_reply_marked :: "nat \<Rightarrow> nat \<Rightarrow> (int \<times> byte list) ecu" where
  "zb_get_reply_marked t i = do {
     sel \<leftarrow> selectZigbee t;
     if sel \<le> 0 then ret (-1, [])
     else do {
       d \<leftarrow> zb_read 255;
       v \<leftarrow> get_inv i;
       if reply_from d (uint (shortaddr v)) (inv_id v) \<and> d ! 5 = 0xA5
       then ret (int (length d) - 12, drop 12 d)
       else ret (-1, drop 12 d) } }"

definition zb_get_reply_update_start :: "nat \<Rightarrow> (int \<times> byte list) ecu" where
  "zb_get_reply_update_start i = zb_get_reply_marked 10 i"

definition zb_get_reply_restore :: "nat \<Rightarrow> (int \<times> byte list) ecu" where
  "zb_get_reply_restore i = zb_get_reply_marked 200 i"

definition zb_get_reply_from_module :: "(int \<times> byte list) ecu" where
  "zb_get_reply_from_module = do {
     sel \<leftarrow> selectZigbee 1;
     if sel \<le> 0 then ret (-1, [])
     else do {
       d \<leftarrow> zb_read 255;
       if length d > 0 then ret (int (length d), d) else ret (-1, d) } }"

definition zb_get_id :: "(int \<times> byte list) ecu" where
  "zb_get_id = do {
     sel \<leftarrow> selectZigbee 30;
     if sel \<le> 0 then ret (-1, [])
     else do { d \<leftarrow> zb_read 255; ret (int (length d), d) } }"

definition zigbeeRecvMsg :: "nat \<Rightarrow> (int \<times> byte list) ecu" where
  "zigbeeRecvMsg t = do {
     sel \<leftarrow> selectZigbee t;
     if sel \<le> 0 then ret (-1, [])
     else do { d \<leftarrow> zb_read 255; ret (int (length d), d) } }"

end
