(* ===== verification/Zigbee_Commands.thy ===== *)
theory Zigbee_Commands
  imports Zigbee_Link
begin

text \<open>
  The commands of \<open>ECU/main/src/zigbee.c\<close>: those to the coordinator module (its PAN and
  channel, the binding of inverters), those to one inverter and the broadcasts.
\<close>

section \<open>Commands to the coordinator module\<close>

text \<open>\<open>(3 == ret) && (0xAB == data[0]) && (0xCD == data[1]) && (0xEF == data[2])\<close>\<close>

definition module_ack :: "int \<times> byte list \<Rightarrow> bool" where
  "module_ack r = (fst r = 3 \<and> snd r ! 0 = 0xAB \<and> snd r ! 1 = 0xCD \<and> snd r ! 2 = 0xEF)"

definition zb_test_communication :: "int ecu" where
  "zb_test_communication = do {
     clear_zbmodem;
     zb_write (zb_frame [0x0D, 0, 0, 0, 0, 0, 0, 0] 0 []);
     r \<leftarrow> zb_get_reply_from_module;
     ret (if module_ack r then 1 else -1) }"

definition zb_change_ecu_panid :: "int ecu" where
  "zb_change_ecu_panid = do {
     clear_zbmodem;
     pan \<leftarrow> gets ecu_panid;
     chan \<leftarrow> gets ecu_channel;
     zb_write (zb_frame [0x05, 0, 0, hi8 (uint pan), lo8 (uint pan), chan, 0, 0] 0 []);
     r \<leftarrow> zb_get_reply_from_module;
     if module_ack r then do { delay_ms 2000; ret 1 } else ret (-1) }"

definition zb_restore_ecu_panid_0x8888 :: "int ecu" where
  "zb_restore_ecu_panid_0x8888 = do {
     chan \<leftarrow> gets ecu_channel;
     zb_write (zb_frame [0x05, 0, 0, 0x88, 0x88, chan, 0, 0] 0 []);
     r \<leftarrow> zb_get_reply_from_module;
     ret (if module_ack r then 1 else -1) }"

definition zb_restore_ecu_panid_0xffff :: "int \<Rightarrow> int ecu" where
  "zb_restore_ecu_panid_0xffff channel = do {
     clear_zbmodem;
     zb_write (zb_frame [0x05, 0, 0, 0xFF, 0xFF, u8 channel, 0, 0] 0 []);
     r \<leftarrow> zb_get_reply_from_module;
     ret (if module_ack r then 1 else -1) }"

definition zb_change_inverter_panid_broadcast :: "int ecu" where
  "zb_change_inverter_panid_broadcast = do {
     clear_zbmodem;
     pan \<leftarrow> gets ecu_panid;
     chan \<leftarrow> gets ecu_channel;
     zb_write (zb_frame [0x03, 0, 0, hi8 (uint pan), lo8 (uint pan), chan, 0, 0] 0 []);
     ret 1 }"

definition zb_change_inverter_panid_single :: "nat \<Rightarrow> int ecu" where
  "zb_change_inverter_panid_single i = do {
     pan \<leftarrow> gets ecu_panid;
     chan \<leftarrow> gets ecu_channel;
     v \<leftarrow> get_inv i;
     zb_write (zb_frame [0x0F, 0, 0, hi8 (uint pan), lo8 (uint pan), chan, 0, 0xA0] 0x06 (id_bytes (inv_id v)));
     delay_ms 1000;
     ret 1 }"

definition zb_restore_inverter_panid_channel_single_0x8888_0x10 :: "nat \<Rightarrow> int ecu" where
  "zb_restore_inverter_panid_channel_single_0x8888_0x10 i = do {
     v \<leftarrow> get_inv i;
     zb_write (zb_frame [0x0F, 0, 0, 0x88, 0x88, 0x10, 0, 0xA0] 0x06 (id_bytes (inv_id v)));
     delay_ms 1000;
     ret 1 }"

definition zb_change_inverter_channel_one :: "string \<Rightarrow> int \<Rightarrow> int ecu" where
  "zb_change_inverter_channel_one inverter_id channel = do {
     delay_ms 500;
     clear_zbmodem;
     pan \<leftarrow> gets ecu_panid;
     zb_write (zb_frame [0x0F, 0, 0, hi8 (uint pan), lo8 (uint pan), u8 channel, 0, 0xA0] 0x06 (id_bytes inverter_id));
     delay_ms 1000;
     ret 0 }"

text \<open>\<open>(11 == ret) && (0xA5 == data[2]) && (0xA5 == data[3])\<close>\<close>

definition bind_ack :: "int \<times> byte list \<Rightarrow> bool" where
  "bind_ack r = (fst r = 11 \<and> snd r ! 2 = 0xA5 \<and> snd r ! 3 = 0xA5)"

definition zb_turnoff_limited_rptid :: "int \<Rightarrow> nat \<Rightarrow> int ecu" where
  "zb_turnoff_limited_rptid addr i = do {
     clear_zbmodem;
     v \<leftarrow> get_inv i;
     if shortaddr v \<noteq> 0
     then do {
       zb_write (zb_frame [0x08, hi8 addr, lo8 addr, 0x08, 0x88, 0x19, 0, 0xA0] 0 []);
       r \<leftarrow> zb_get_reply_from_module;
       if bind_ack r
       then do {
         (if zigbee_version v \<noteq> snd r ! 9
          then upd_inv i (\<lambda>v. v\<lparr>zigbee_version := snd r ! 9\<rparr>) else ret ());
         ret 1 }
       else ret (-1) }
     else ret (-1) }"

definition zb_turnoff_rptid :: "int \<Rightarrow> int ecu" where
  "zb_turnoff_rptid addr = do {
     zb_write (zb_frame [0x08, hi8 addr, lo8 addr, 0x08, 0x88, 0x19, 0, 0] 0 []);
     ret 1 }"

text \<open>
  \<open>zb_off_report_id_and_bind\<close>: the variable \<open>check\<close> is set to 0 before the loop only, so
  the sum goes on from one attempt to the next; \<open>bind_attempts n c\<close> has \<open>n\<close> attempts left
  and \<open>c\<close> in \<open>check\<close>.
\<close>

definition bind_header :: "int \<Rightarrow> byte list" where
  "bind_header addr = [0x08, hi8 addr, lo8 addr, 0, 0, 0, 0, 0xA0]"

fun bind_attempts :: "nat \<Rightarrow> int \<Rightarrow> int \<Rightarrow> int ecu" where
  "bind_attempts 0 c addr = ret 0"
| "bind_attempts (Suc n) c addr = do {
     clear_zbmodem;
     zb_write (zb_frame_from c (bind_header addr) 0 []);
     r \<leftarrow> zb_get_reply_from_module;
     if bind_ack r then ret 1
     else bind_attempts n (c + checksum (bind_header addr)) addr }"

definition zb_off_report_id_and_bind :: "int \<Rightarrow> int ecu" where
  "zb_off_report_id_and_bind addr = bind_attempts 3 0 addr"

text \<open>The short address of one inverter, asked of the module and stored in the table.\<close>

definition zb_get_inverter_shortaddress_single :: "nat \<Rightarrow> int ecu" where
  "zb_get_inverter_shortaddress_single i = do {
     clear_zbmodem;
     v \<leftarrow> get_inv i;
     zb_write (zb_frame [0x0E, 0, 0, 0, 0, 0, 0, 0] 0x06 (id_bytes (inv_id v)));
     r \<leftarrow> zb_get_reply_from_module;
     let data = snd r;
     if fst r = 11 \<and> data ! 2 = 0xFF \<and> inv_id v = hex_string (take 6 (drop 4 data))
     then do {
       upd_inv i (\<lambda>v. v\<lparr>shortaddr := word_of_int (be16 (data ! 0) (data ! 1))\<rparr>);
       updateID;
       ret 1 }
     else ret (-1) }"

definition zb_turnon_limited_rtpid :: "int ecu" where
  "zb_turnon_limited_rtpid = ret 0"

section \<open>Commands to inverters\<close>

text \<open>A reply of thirteen bytes framed by \<open>FB FB\<close> and \<open>FE FE\<close> with code \<open>DE\<close>.\<close>

definition inverter_ack :: "int \<times> byte list \<Rightarrow> bool" where
  "inverter_ack r = (fst r = 13 \<and> snd r ! 3 = 0xDE \<and> snd r ! 0 = 0xFB \<and> snd r ! 1 = 0xFB
     \<and> snd r ! 11 = 0xFE \<and> snd r ! 12 = 0xFE)"

definition zb_query_inverter_info :: "nat \<Rightarrow> int ecu" where
  "zb_query_inverter_info i = do {
     clear_zbmodem;
     zb_send_cmd i [0xFB, 0xFB, 0x06, 0xDC, 0, 0, 0, 0, 0, 0, 0xE2, 0xFE, 0xFE];
     r \<leftarrow> zb_get_reply i;
     let d = snd r;
     if fst r = 16 \<and> d ! 0 = 0xFB \<and> d ! 1 = 0xFB \<and> d ! 2 = 0x09 \<and> d ! 3 = 0xDC
       \<and> d ! 14 = 0xFE \<and> d ! 15 = 0xFE
     then do {
       upd_inv i (\<lambda>v. v\<lparr>model := d ! 4,
         version := be16 (d ! 5) (d ! 6) * 1000 + be16 (d ! 8) (d ! 9)\<rparr>);
       ret 1 }
     else ret (-1) }"

definition zb_set_protect_parameter :: "nat \<Rightarrow> byte list \<Rightarrow> int ecu" where
  "zb_set_protect_parameter i p = do {
     clear_zbmodem;
     zb_send_cmd i ([0xFB, 0xFB, 0x10, 0xCC] @ take 12 p @ [0, 0, 0, 0, 0, 0xFE, 0xFE]);
     r \<leftarrow> zb_get_reply i;
     ret (if inverter_ack r then 1 else -1) }"

definition zb_query_protect_parameter :: "nat \<Rightarrow> (int \<times> byte list) ecu" where
  "zb_query_protect_parameter i = do {
     zb_send_cmd i [0xFB, 0xFB, 0x06, 0xDD, 0, 0, 0, 0, 0, 0, 0, 0xFE, 0xFE];
     r \<leftarrow> zb_get_reply i;
     let d = snd r;
     if fst r = 33 \<and> d ! 3 = 0xDD \<and> d ! 0 = 0xFB \<and> d ! 1 = 0xFB \<and> d ! 31 = 0xFE \<and> d ! 32 = 0xFE
     then ret (1, d)
     else if fst r = 58 \<and> d ! 0 = 0xFB \<and> d ! 1 = 0xFB \<and> d ! 3 = 0xDA \<and> d ! 56 = 0xFE \<and> d ! 57 = 0xFE
     then ret (1, d)
     else ret (-1, d) }"

definition compare_protect_data :: "byte list \<Rightarrow> byte list \<Rightarrow> int" where
  "compare_protect_data set_data actual = (if take 12 set_data = take 12 actual then 0 else -1)"

definition zb_boot_single :: "nat \<Rightarrow> int ecu" where
  "zb_boot_single i = do {
     zb_send_cmd i [0xFB, 0xFB, 0x06, 0xC1, 0, 0, 0, 0, 0, 0, 0, 0xFE, 0xFE];
     r \<leftarrow> zb_get_reply i;
     ret (if inverter_ack r then 1 else -1) }"

definition zb_shutdown_single :: "nat \<Rightarrow> int ecu" where
  "zb_shutdown_single i = do {
     zb_send_cmd i [0xFB, 0xFB, 0x06, 0xC2, 0, 0, 0, 0, 0, 0, 0, 0xFE, 0xFE];
     r \<leftarrow> zb_get_reply i;
     ret (if inverter_ack r then 1 else -1) }"

definition zb_clear_gfdi :: "nat \<Rightarrow> int ecu" where
  "zb_clear_gfdi i = do {
     zb_send_cmd i [0xFB, 0xFB, 0x06, 0xAF, 0, 0, 0, 0, 0, 0, 0, 0xFE, 0xFE];
     r \<leftarrow> zb_get_reply i;
     ret (if inverter_ack r then 1 else -1) }"

definition zb_boot_waitingtime_single :: "nat \<Rightarrow> int ecu" where
  "zb_boot_waitingtime_single i = do {
     zb_send_cmd i [0xFB, 0xFB, 0x06, 0xCD, 0, 0, 0, 0, 0, 0, 0, 0xFE, 0xFE];
     ret 1 }"

definition zb_ipp_single :: "nat \<Rightarrow> int ecu" where
  "zb_ipp_single i = do {
     zb_send_cmd i [0xFB, 0xFB, 0x06, 0xC5, 0, 0, 0, 0, 0, 0, 0, 0xFE, 0xFE];
     ret 1 }"

definition zb_frequency_protectime_single :: "nat \<Rightarrow> int ecu" where
  "zb_frequency_protectime_single i = do {
     zb_send_cmd i [0xFB, 0xFB, 0x06, 0, 0, 0xC6, 0xFF, 0x04, 0x01, 0, 0, 0xFE, 0xFE];
     ret 1 }"

definition zb_voltage_protectime_single :: "nat \<Rightarrow> int ecu" where
  "zb_voltage_protectime_single i = do {
     zb_send_cmd i [0xFB, 0xFB, 0x06, 0, 0, 0xCA, 0xFF, 0x04, 0x01, 0, 0, 0xFE, 0xFE];
     ret 1 }"

section \<open>Broadcasts\<close>

definition zb_afd_broadcast :: "int ecu" where
  "zb_afd_broadcast = do {
     zb_broadcast_cmd [0xFB, 0xFB, 0x07, 0, 0, 0xAF, 0xFF, 0xFF, 0x05, 0x01, 0, 0, 0xFE, 0xFE];
     ret 1 }"

definition zb_turnon_inverter_broadcast :: "int ecu" where
  "zb_turnon_inverter_broadcast = do {
     zb_broadcast_cmd [0xFB, 0xFB, 0x06, 0xA1, 0, 0, 0, 0, 0, 0, 0, 0xFE, 0xFE];
     ret 1 }"

definition zb_shutdown_broadcast :: "int ecu" where
  "zb_shutdown_broadcast = do {
     zb_broadcast_cmd [0xFB, 0xFB, 0x06, 0xA2, 0, 0, 0, 0, 0, 0, 0, 0xFE, 0xFE];
     ret 1 }"

definition zb_clear_gfdi_broadcast :: "int ecu" where
  "zb_clear_gfdi_broadcast = do {
     zb_broadcast_cmd [0xFB, 0xFB, 0x06, 0xCF, 0, 0, 0, 0, 0, 0, 0, 0xFE, 0xFE];
     ret 1 }"

definition zb_ipp_broadcast :: "int ecu" where
  "zb_ipp_broadcast = do {
     zb_broadcast_cmd [0xFB, 0xFB, 0x06, 0xA5, 0, 0, 0, 0, 0, 0, 0, 0xFE, 0xFE];
     ret 1 }"

definition zb_frequency_protectime_broadcast :: "int ecu" where
  "zb_frequency_protectime_broadcast = do {
     zb_broadcast_cmd [0xFB, 0xFB, 0x07, 0, 0, 0xC5, 0xFF, 0, 0x05, 0x01, 0, 0, 0xFE, 0xFE];
     ret 1 }"

definition zb_voltage_protectime_broadcast :: "int ecu" where
  "zb_voltage_protectime_broadcast = do {
     zb_broadcast_cmd [0xFB, 0xFB, 0x07, 0, 0, 0xC9, 0xFF, 0, 0x05, 0x01, 0, 0, 0xFE, 0xFE];
     ret 1 }"

section \<open>Channel change of all inverters\<close>

text \<open>
  \<open>ids\<close> is the array \<open>ids[1..num]\<close>; an entry is \<open>None\<close> for a null pointer. The sixteen
  channels \<open>0x0B\<close> to \<open>0x1A\<close> are tried in turn.
\<close>

fun change_ids :: "string option list \<Rightarrow> int \<Rightarrow> unit ecu" where
  "change_ids [] chan = ret ()"
| "change_ids (p # ps) chan = do {
     (case p of
        Some i \<Rightarrow> if i \<noteq> [] then do { zb_change_inverter_channel_one i chan; ret () } else ret ()
      | None \<Rightarrow> ret ());
     change_ids ps chan }"

fun scan_channels :: "int list \<Rightarrow> string option list \<Rightarrow> int \<Rightarrow> unit ecu" where
  "scan_channels [] ids chan = ret ()"
| "scan_channels (c # cs) ids chan = do {
     zb_restore_ecu_panid_0xffff c;
     change_ids ids chan;
     scan_channels cs ids chan }"

definition ecu_channels :: "int list" where
  "ecu_channels = [0x0B, 0x0C, 0x0D, 0x0E, 0x0F, 0x10, 0x11, 0x12, 0x13, 0x14, 0x15, 0x16, 0x17, 0x18, 0x19, 0x1A]"

definition zb_change_channel :: "string option list \<Rightarrow> int ecu" where
  "zb_change_channel ids = do {
     clear_zbmodem;
     chan \<leftarrow> gets ecu_channel;
     scan_channels ecu_channels ids (uint chan);
     zb_change_ecu_panid;
     ret 0 }"

definition zb_reset_channel :: "string option list \<Rightarrow> int ecu" where
  "zb_reset_channel ids = do {
     clear_zbmodem;
     scan_channels ecu_channels ids 0x10;
     modify (\<lambda>s. s\<lparr>ecu_channel := 0x10\<rparr>);
     zb_change_ecu_panid;
     ret 0 }"

end
