(* ===== verification/Zigbee_Effects.thy ===== *)
theory Zigbee_Effects
  imports Zigbee_Commands
begin

text \<open>
  What the ZigBee commands may do to the state. \<open>zb_effect\<close> is the contract of the serial
  link: which trace events are tolerated (a write only of a well-formed frame), replies are
  taken from the front of the queue, and table entries are updated without changing an id.
  Every command is shown once to stay within any such effect; the interpretations below
  give the concrete facts: what is sent, that ids stay, that replies are only consumed.
\<close>

section \<open>The contract\<close>

lemma unat_u8_length: "length b < 256 \<Longrightarrow> unat (u8 (int (length b))) = length b"
  by (simp add: unat_eq_nat_uint uint_u8)

locale zb_effect = effect +
  fixes visible :: "io \<Rightarrow> bool"
  assumes R_emit: "visible e \<Longrightarrow> R s (s\<lparr>trace := trace s @ [e]\<rparr>)"
    and R_rx: "R s (s\<lparr>zb_rx := tl (zb_rx s)\<rparr>)"
    and R_inv: "inv_id v = inv_id (inv_at s i) \<Longrightarrow> R s (s\<lparr>inverters := (inverters s)[i := v]\<rparr>)"
    and visible_flush: "visible ZbFlush"
    and visible_wait: "visible (ZbWait t)"
    and visible_delay: "visible (DelayMs n)"
    and visible_pin: "visible (ZbResetPin b)"
    and visible_frame: "wf_frame f \<Longrightarrow> visible (ZbWrite f)"
begin

lemma eff_emit: "visible e \<Longrightarrow> state_io_rel R (emit e)"
  by (auto simp: state_io_rel_def emit_def R_emit)

lemma eff_write: "wf_frame f \<Longrightarrow> state_io_rel R (zb_write f)"
  unfolding zb_write_def by (intro eff_emit visible_frame)

lemma eff_delay [eff_intros]: "state_io_rel R (delay_ms n)"
  unfolding delay_ms_def by (intro eff_emit visible_delay)

lemma eff_upd_inv [eff_intros]:
  "(\<And>v. inv_id (f v) = inv_id v) \<Longrightarrow> state_io_rel R (upd_inv i f)"
  by (auto simp: state_io_rel_def upd_inv_def intro!: R_inv)

lemma eff_clear [eff_intros]: "state_io_rel R clear_zbmodem"
  unfolding clear_zbmodem_def by (intro eff_intros eff_emit visible_flush)

lemma eff_reset [eff_intros]: "state_io_rel R zigbee_reset"
  unfolding zigbee_reset_def by (intro eff_intros eff_emit visible_pin)

lemma eff_pop [eff_intros]: "state_io_rel R (modify (\<lambda>s. s\<lparr>zb_rx := tl (zb_rx s)\<rparr>))"
  by (auto simp: state_io_rel_def R_rx)

lemma eff_select [eff_intros]: "state_io_rel R (selectZigbee t)"
  unfolding selectZigbee_def
  by (intro eff_bind eff_emit visible_wait eff_gets)
    (auto split: list.splits option.splits intro!: eff_intros)

lemma eff_read [eff_intros]: "state_io_rel R (zb_read n)"
  unfolding zb_read_def
  by (intro eff_bind eff_gets) (auto split: list.splits option.splits intro!: eff_intros)

section \<open>The link\<close>

lemma eff_shortaddr_cmd [eff_intros]: "length b < 256 \<Longrightarrow> state_io_rel R (zb_shortaddr_cmd a b)"
  unfolding zb_shortaddr_cmd_def by (intro eff_intros eff_write wf_zb_frame) (auto simp: unat_u8_length)

lemma eff_send_cmd [eff_intros]: "length b < 256 \<Longrightarrow> state_io_rel R (zb_send_cmd i b)"
  unfolding zb_send_cmd_def by (intro eff_intros eff_write wf_zb_frame) (auto simp: unat_u8_length)

lemma eff_broadcast_cmd [eff_intros]: "length b < 256 \<Longrightarrow> state_io_rel R (zb_broadcast_cmd b)"
  unfolding zb_broadcast_cmd_def by (intro eff_intros eff_write wf_zb_frame) (auto simp: unat_u8_length)

lemma eff_replies [eff_intros]:
  "state_io_rel R (zb_shortaddr_reply a j)"
  "state_io_rel R (zb_get_reply i)"
  "state_io_rel R (zb_get_reply_update_start i)"
  "state_io_rel R (zb_get_reply_restore i)"
  "state_io_rel R zb_get_reply_from_module"
  "state_io_rel R zb_get_id"
  "state_io_rel R (zigbeeRecvMsg t)"
  unfolding zb_shortaddr_reply_def zb_get_reply_def zb_get_reply_update_start_def
    zb_get_reply_restore_def zb_get_reply_marked_def zb_get_reply_from_module_def
    zb_get_id_def zigbeeRecvMsg_def
  by (intro eff_intros; simp)+

section \<open>The commands\<close>

lemma eff_module [eff_intros]:
  "state_io_rel R zb_test_communication"
  "state_io_rel R zb_change_ecu_panid"
  "state_io_rel R zb_restore_ecu_panid_0x8888"
  "state_io_rel R (zb_restore_ecu_panid_0xffff c)"
  "state_io_rel R zb_change_inverter_panid_broadcast"
  "state_io_rel R (zb_change_inverter_panid_single i)"
  "state_io_rel R (zb_restore_inverter_panid_channel_single_0x8888_0x10 i)"
  "state_io_rel R (zb_change_inverter_channel_one j c)"
  "state_io_rel R (zb_turnoff_limited_rptid a i)"
  "state_io_rel R (zb_turnoff_rptid a)"
  unfolding zb_test_communication_def zb_change_ecu_panid_def zb_restore_ecu_panid_0x8888_def
    zb_restore_ecu_panid_0xffff_def zb_change_inverter_panid_broadcast_def
    zb_change_inverter_panid_single_def zb_restore_inverter_panid_channel_single_0x8888_0x10_def
    zb_change_inverter_channel_one_def zb_turnoff_limited_rptid_def zb_turnoff_rptid_def
  by (intro eff_intros eff_write wf_zb_frame; simp)+

lemma eff_unicast [eff_intros]:
  "state_io_rel R (zb_query_inverter_info i)"
  "state_io_rel R (zb_set_protect_parameter i p)"
  "state_io_rel R (zb_query_protect_parameter i)"
  "state_io_rel R (zb_boot_single i)"
  "state_io_rel R (zb_shutdown_single i)"
  "state_io_rel R (zb_clear_gfdi i)"
  "state_io_rel R (zb_boot_waitingtime_single i)"
  "state_io_rel R (zb_ipp_single i)"
  "state_io_rel R (zb_frequency_protectime_single i)"
  "state_io_rel R (zb_voltage_protectime_single i)"
  unfolding zb_query_inverter_info_def zb_set_protect_parameter_def
    zb_query_protect_parameter_def zb_boot_single_def zb_shutdown_single_def zb_clear_gfdi_def
    zb_boot_waitingtime_single_def zb_ipp_single_def zb_frequency_protectime_single_def
    zb_voltage_protectime_single_def
  by (intro eff_intros; simp)+

lemma eff_broadcasts [eff_intros]:
  "state_io_rel R zb_afd_broadcast"
  "state_io_rel R zb_turnon_inverter_broadcast"
  "state_io_rel R zb_shutdown_broadcast"
  "state_io_rel R zb_clear_gfdi_broadcast"
  "state_io_rel R zb_ipp_broadcast"
  "state_io_rel R zb_frequency_protectime_broadcast"
  "state_io_rel R zb_voltage_protectime_broadcast"
  unfolding zb_afd_broadcast_def zb_turnon_inverter_broadcast_def zb_shutdown_broadcast_def
    zb_clear_gfdi_broadcast_def zb_ipp_broadcast_def zb_frequency_protectime_broadcast_def
    zb_voltage_protectime_broadcast_def
  by (intro eff_intros; simp)+

lemma eff_change_ids [eff_intros]: "state_io_rel R (change_ids ids c)"
  by (induction ids) (auto intro!: eff_intros)

lemma eff_scan_channels [eff_intros]: "state_io_rel R (scan_channels cs ids c)"
  by (induction cs) (auto intro!: eff_intros)

lemma eff_change_channel [eff_intros]: "state_io_rel R (zb_change_channel ids)"
  unfolding zb_change_channel_def by (intro eff_intros)

end

text \<open>An effect that also tolerates any change of the files.\<close>

locale zb_store_effect = zb_effect +
  assumes R_files: "R s (s\<lparr>files := fs\<rparr>)"
begin

lemma eff_file_ops [eff_intros]:
  "state_io_rel R (write_file p txt)"
  "state_io_rel R (append_file p txt)"
  "state_io_rel R (remove_file p)"
  "state_io_rel R (rename_file p q)"
  by (auto simp: state_io_rel_def write_file_def append_file_def remove_file_def
      rename_file_def R_refl R_files split: option.splits)

lemma eff_updateID [eff_intros]: "state_io_rel R updateID"
  unfolding updateID_def by (intro eff_intros)

lemma eff_get_shortaddress [eff_intros]: "state_io_rel R (zb_get_inverter_shortaddress_single i)"
  unfolding zb_get_inverter_shortaddress_single_def
  by (intro eff_intros eff_write wf_zb_frame; simp)

end

section \<open>Concrete effects\<close>

text \<open>Every frame sent is well-formed.\<close>

definition sends_wf :: "ecu_state \<Rightarrow> ecu_state \<Rightarrow> bool" where
  "sends_wf s t = (\<exists>es. trace t = trace s @ es \<and> (\<forall>f. ZbWrite f \<in> set es \<longrightarrow> wf_frame f))"

definition wf_event :: "io \<Rightarrow> bool" where
  "wf_event e = (case e of ZbWrite f \<Rightarrow> wf_frame f | _ \<Rightarrow> True)"

interpretation wire: zb_store_effect sends_wf wf_event
proof unfold_locales
  show "sends_wf s u" if "sends_wf s t" "sends_wf t u" for s t u
    using that by (auto simp: sends_wf_def)
  show "sends_wf s (s\<lparr>trace := trace s @ [e]\<rparr>)" if "wf_event e" for e s
    using that by (cases e) (auto simp: sends_wf_def wf_event_def)
qed (auto simp: sends_wf_def wf_event_def)

text \<open>The ids of the table stay as they are.\<close>

definition same_ids :: "ecu_state \<Rightarrow> ecu_state \<Rightarrow> bool" where
  "same_ids s t = (map inv_id (inverters t) = map inv_id (inverters s))"

lemma inv_id_at: "i < length (inverters s) \<Longrightarrow> inv_id (inv_at s i) = map inv_id (inverters s) ! i"
  by (simp add: inv_at_def slot_def)

interpretation ids: zb_store_effect same_ids "\<lambda>_. True"
proof unfold_locales
  show "same_ids s (s\<lparr>inverters := (inverters s)[i := v]\<rparr>)"
    if "inv_id v = inv_id (inv_at s i)" for s i v
    using that by (cases "i < length (inverters s)")
      (auto simp: same_ids_def map_update inv_at_def slot_def list_update_beyond
        intro: list_update_same_conv[THEN iffD2])
qed (auto simp: same_ids_def)

text \<open>Replies are only taken from the front of the queue.\<close>

definition consumes :: "ecu_state \<Rightarrow> ecu_state \<Rightarrow> bool" where
  "consumes s t = (length (zb_rx t) \<le> length (zb_rx s))"

interpretation rxq: zb_store_effect consumes "\<lambda>_. True"
  by unfold_locales (auto simp: consumes_def)

text \<open>The files stay as they are, for the commands that do not save the inverter list.\<close>

definition same_files :: "ecu_state \<Rightarrow> ecu_state \<Rightarrow> bool" where
  "same_files s t = (files t = files s \<and> can_write t = can_write s \<and> datetime t = datetime s)"

interpretation fsq: zb_effect same_files "\<lambda>_. True"
  by unfold_locales (auto simp: same_files_def)

end
