(* ===== verification/Zigbee_Spec.thy ===== *)
theory Zigbee_Spec
  imports Zigbee_Effects
begin

text \<open>
  What the ZigBee commands achieve: frames on the wire, replies accepted and refused, and
  the contract of a command that an inverter acknowledges, with its bounded repetition.
\<close>

section \<open>Frames sent\<close>

definition frames :: "io list \<Rightarrow> byte list list" where
  "frames es = concat (map (\<lambda>e. case e of ZbWrite f \<Rightarrow> [f] | _ \<Rightarrow> []) es)"

lemma frames_simps [simp]:
  "frames [] = []"
  "frames (es @ es') = frames es @ frames es'"
  "frames (ZbWrite f # es) = f # frames es"
  "frames (ZbFlush # es) = frames es"
  "frames (ZbWait t # es) = frames es"
  "frames (DelayMs n # es) = frames es"
  "frames (ZbResetPin b # es) = frames es"
  "frames (MutexTake # es) = frames es"
  "frames (MutexRelease # es) = frames es"
  "frames (RestartThread n k # es) = frames es"
  "frames (NetSend m # es) = frames es"
  "frames (DelayTicks n # es) = frames es"
  "frames (WifiTake # es) = frames es"
  "frames (WifiRelease # es) = frames es"
  "frames (FtpThread b p q # es) = frames es"
  "frames (RebootTimer n # es) = frames es"
  by (simp_all add: frames_def)

lemmas link_defs = clear_zbmodem_def emit_def delay_ms_def zb_write_def get_inv_def upd_inv_def

definition unicast_frame :: "u16 \<Rightarrow> byte list \<Rightarrow> byte list" where
  "unicast_frame addr buff =
     zb_frame [0x55, hi8 (uint addr), lo8 (uint addr), 0, 0, 0, 0, 0] (u8 (int (length buff))) buff"

definition flushed :: "ecu_state \<Rightarrow> ecu_state" where
  "flushed s = exec clear_zbmodem s"

lemma flushed_simps [simp]:
  "frames (trace (flushed s)) = frames (trace s)"
  "inverters (flushed s) = inverters s" "zb_rx (flushed s) = zb_rx s"
  "files (flushed s) = files s" "inv_at (flushed s) i = inv_at s i"
  by (simp_all add: flushed_def link_defs inv_at_def)

lemma run_zb_send_cmd:
  "run_state (zb_send_cmd i b) s =
    (if shortaddr (inv_at s i) = 0 then (-1, flushed s)
     else (1, (flushed s)\<lparr>trace := trace (flushed s) @ [ZbWrite (unicast_frame (shortaddr (inv_at s i)) b)]\<rparr>))"
  by (simp add: zb_send_cmd_def flushed_def unicast_frame_def link_defs Let_def inv_at_def
      uint_0_iff)

text \<open>
  An inverter that has no short address yet is never written to: \<open>zb_send_cmd\<close> returns
  -1 and puts nothing on the wire (address 0 in this frame is the broadcast address). With an
  address, exactly one well-formed frame goes out, and it carries that address and the payload.
\<close>

lemma send_cmd_addressing:
  assumes "length b < 256"
  shows "if shortaddr (inv_at s i) = 0
    then result (zb_send_cmd i b) s = -1 \<and> frames (trace (exec (zb_send_cmd i b) s)) = frames (trace s)
    else result (zb_send_cmd i b) s = 1 \<and> (\<exists>f. frames (trace (exec (zb_send_cmd i b) s)) = frames (trace s) @ [f]
      \<and> wf_frame f \<and> be16 (f ! 5) (f ! 6) = uint (shortaddr (inv_at s i)) \<and> drop 15 f = b)"
proof -
  let ?a = "shortaddr (inv_at s i)"
  let ?f = "unicast_frame ?a b"
  have "wf_frame ?f"
    unfolding unicast_frame_def by (rule wf_zb_frame) (simp_all add: unat_u8_length[OF assms])
  moreover have "be16 (?f ! 5) (?f ! 6) = uint ?a"
    using be16_hi_lo[OF u16_bounds[of ?a]]
    by (simp add: unicast_frame_def zb_frame_def zb_frame_from_def Let_def numeral_nat)
  moreover have "drop 15 ?f = b"
    by (simp add: unicast_frame_def zb_frame_def zb_frame_from_def Let_def numeral_nat)
  ultimately show ?thesis by (simp add: run_zb_send_cmd)
qed

section \<open>Replies\<close>

lemma run_zb_get_reply:
  "run_state (zb_get_reply i) s = (case zb_rx s of
     Some bs # rest \<Rightarrow>
       (let d = take 255 bs; v = inv_at s i;
            s' = s\<lparr>trace := trace s @ [ZbWait 2, DelayMs 200], zb_rx := rest\<rparr> in
        if reply_from d (uint (shortaddr v)) (inv_id v)
        then ((int (length d) - 12, drop 12 d),
              s'\<lparr>inverters := (inverters s)[i := v\<lparr>raduis := d ! 5, signalstrength := d ! 4\<rparr>]\<rparr>)
        else ((-1, drop 12 d), s'\<lparr>inverters := (inverters s)[i := v\<lparr>signalstrength := 0\<rparr>]\<rparr>))
   | _ \<Rightarrow> ((-1, []), s\<lparr>trace := trace s @ [ZbWait 2], zb_rx := tl (zb_rx s),
            inverters := (inverters s)[i := (inv_at s i)\<lparr>signalstrength := 0\<rparr>]\<rparr>))"
  by (cases "zb_rx s" rule: list.exhaust; cases "hd (zb_rx s)")
    (simp_all add: zb_get_reply_def selectZigbee_def zb_read_def link_defs inv_at_def Let_def)

text \<open>
  C25. A reply is accepted only from the inverter that was addressed. If \<open>zb_get_reply\<close> does
  not return -1, a message was received whose short address and id bytes are those of the
  inverter, its data are returned (their number, which is positive) and its link quality is
  stored; otherwise the stored signal strength is 0. No other inverter's entry changes.
\<close>

theorem get_reply_sound:
  assumes "i < length (inverters s)"
  shows "case run_state (zb_get_reply i) s of ((n, data), t) \<Rightarrow>
    (if n = -1 then signalstrength (inv_at t i) = 0
     else (\<exists>bs rest. zb_rx s = Some bs # rest \<and> data = drop 12 (take 255 bs)
        \<and> n = int (length data) \<and> 0 < n
        \<and> be16 (bs ! 2) (bs ! 3) = uint (shortaddr (inv_at s i))
        \<and> hex_string (take 6 (drop 6 bs)) = inv_id (inv_at s i)
        \<and> signalstrength (inv_at t i) = bs ! 4 \<and> raduis (inv_at t i) = bs ! 5))
    \<and> (\<forall>j. j \<noteq> i \<longrightarrow> inv_at t j = inv_at s j)"
proof -
  have addr: "be16 a b = x" if "uint a = x div 256" "uint b = x mod 256" for a b x
    using that by (simp add: be16_def)
  have tk: "take 6 (drop 6 (take 255 bs)) = take 6 (drop 6 bs)" for bs :: "byte list"
    by (simp add: drop_take)
  show ?thesis
    using assms
    by (auto simp: run_zb_get_reply Let_def inv_at_def slot_update reply_from_def tk addr
        split: list.splits option.splits)
qed

theorem get_reply_sound_witness:
  defines "s \<equiv> blank\<lparr>inverters := [empty_inverter\<lparr>inv_id := ''408000000001'', shortaddr := 77\<rparr>]\<rparr>"
  shows "result (zb_get_reply 0) s = (-1, []) \<and> signalstrength (inv_at (exec (zb_get_reply 0) s) 0) = 0"
proof -
  have "result (zb_get_reply 0) s = (-1, [])" by (simp add: s_def run_zb_get_reply)
  then show ?thesis using get_reply_sound[of 0 s] by (simp add: s_def split: prod.splits)
qed

text \<open>
  The converse: a message with the short address and the id bytes of the inverter and a
  payload of 1 to 243 bytes is accepted, and its payload is returned unchanged.
\<close>

lemma get_reply_complete:
  assumes "valid_id (inv_id (inv_at s i))" "payload \<noteq> []" "length payload \<le> 243"
    "zb_rx s = Some ([0xFC, 0xFC, hi8 (uint (shortaddr (inv_at s i))), lo8 (uint (shortaddr (inv_at s i))),
        signal, rad] @ id_bytes (inv_id (inv_at s i)) @ payload) # rest"
  shows "result (zb_get_reply i) s = (int (length payload), payload)"
proof -
  let ?v = "inv_at s i"
  let ?d = "[0xFC, 0xFC, hi8 (uint (shortaddr ?v)), lo8 (uint (shortaddr ?v)), signal, rad]
     @ id_bytes (inv_id ?v) @ payload"
  have len: "length ?d = 12 + length payload" by simp
  have tk: "take 255 ?d = ?d" using len assms(3) by (intro take_all) linarith
  have "reply_from ?d (uint (shortaddr ?v)) (inv_id ?v)"
    using assms(2) hex_id_bytes[OF assms(1)] by (simp add: reply_from_def numeral_nat)
  then show ?thesis
    unfolding run_zb_get_reply assms(4) using assms(3) by (simp add: Let_def del: append.simps)
qed

section \<open>Acknowledged commands\<close>

text \<open>The queue entry that a command to this inverter takes as its acknowledgment.\<close>

definition acks :: "u16 \<Rightarrow> string \<Rightarrow> byte list option \<Rightarrow> bool" where
  "acks addr j entry = (case entry of None \<Rightarrow> False
     | Some bs \<Rightarrow> let d = take 255 bs in
         reply_from d (uint addr) j \<and> inverter_ack (int (length d) - 12, drop 12 d))"

definition head_acks :: "u16 \<Rightarrow> string \<Rightarrow> byte list option list \<Rightarrow> bool" where
  "head_acks addr j rx = (case rx of [] \<Rightarrow> False | e # _ \<Rightarrow> acks addr j e)"

lemma not_ack [simp]: "\<not> inverter_ack (-1, d)"
  by (simp add: inverter_ack_def)

text \<open>How many of at most \<open>n\<close> attempts are made: up to the first acknowledged one.\<close>

fun attempts :: "nat \<Rightarrow> u16 \<Rightarrow> string \<Rightarrow> byte list option list \<Rightarrow> nat" where
  "attempts 0 addr j rx = 0"
| "attempts (Suc n) addr j rx = (if head_acks addr j rx then 1 else Suc (attempts n addr j (tl rx)))"

lemma attempts_le: "attempts n addr j rx \<le> n"
  by (induction n arbitrary: rx) auto

text \<open>
  A command that sends one fixed payload, waits for one reply and returns 1 exactly when the
  reply is the inverter's acknowledgment.
\<close>

locale acked_command =
  fixes op :: "nat \<Rightarrow> int ecu"
    and payload :: "byte list"
  assumes sent: "frames (trace (exec (op i) s)) = frames (trace s)
      @ (if shortaddr (inv_at s i) = 0 then [] else [unicast_frame (shortaddr (inv_at s i)) payload])"
    and verdict: "result (op i) s =
      (if head_acks (shortaddr (inv_at s i)) (inv_id (inv_at s i)) (zb_rx s) then 1 else -1)"
    and consumed: "zb_rx (exec (op i) s) = tl (zb_rx s)"
    and address_kept: "shortaddr (inv_at (exec (op i) s) i) = shortaddr (inv_at s i)"
    and id_kept: "inv_id (inv_at (exec (op i) s) i) = inv_id (inv_at s i)"
begin

lemma retry_result:
  "result (retry n (op i)) s =
    (\<exists>k < n. head_acks (shortaddr (inv_at s i)) (inv_id (inv_at s i)) (drop k (zb_rx s)))"
proof (induction n arbitrary: s)
  case 0
  then show ?case by simp
next
  case (Suc n)
  let ?P = "\<lambda>k. head_acks (shortaddr (inv_at s i)) (inv_id (inv_at s i)) (drop k (zb_rx s))"
  obtain r t where rt: "run_state (op i) s = (r, t)" by fastforce
  have t: "zb_rx t = tl (zb_rx s)" "shortaddr (inv_at t i) = shortaddr (inv_at s i)"
    "inv_id (inv_at t i) = inv_id (inv_at s i)"
    using consumed[of i s] address_kept[of i s] id_kept[of i s] rt by auto
  have r: "r = (if ?P 0 then 1 else -1)" using verdict[of i s] rt by simp
  have "result (retry (Suc n) (op i)) s = (?P 0 \<or> (\<exists>k<n. ?P (Suc k)))"
    using Suc.IH[of t] t r by (simp add: rt drop_Suc)
  also have "\<dots> = (\<exists>k < Suc n. ?P k)" by (metis less_Suc_eq_0_disj)
  finally show ?case .
qed

lemma retry_frames:
  "shortaddr (inv_at s i) \<noteq> 0 \<Longrightarrow> frames (trace (exec (retry n (op i)) s)) = frames (trace s)
     @ replicate (attempts n (shortaddr (inv_at s i)) (inv_id (inv_at s i)) (zb_rx s))
         (unicast_frame (shortaddr (inv_at s i)) payload)"
proof (induction n arbitrary: s)
  case 0
  then show ?case by simp
next
  case (Suc n)
  obtain r t where rt: "run_state (op i) s = (r, t)" by fastforce
  have t: "zb_rx t = tl (zb_rx s)" "shortaddr (inv_at t i) = shortaddr (inv_at s i)"
    "inv_id (inv_at t i) = inv_id (inv_at s i)"
    "frames (trace t) = frames (trace s) @ [unicast_frame (shortaddr (inv_at s i)) payload]"
    using consumed[of i s] address_kept[of i s] id_kept[of i s] sent[of i s] rt Suc.prems by auto
  have r: "r = (if head_acks (shortaddr (inv_at s i)) (inv_id (inv_at s i)) (zb_rx s) then 1 else -1)"
    using verdict[of i s] rt by simp
  show ?case using Suc.IH[of t] Suc.prems t r by (simp add: rt)
qed

end

lemma acked_command_generic:
  "acked_command (\<lambda>i. do { zb_send_cmd i b; r \<leftarrow> zb_get_reply i; ret (if inverter_ack r then 1 else -1) }) b"
  by unfold_locales
    (simp_all add: run_zb_send_cmd run_zb_get_reply Let_def head_acks_def acks_def inv_at_def
      slot_update not_ack split: list.split option.split)

definition boot_payload :: "byte list" where
  "boot_payload = [0xFB, 0xFB, 0x06, 0xC1, 0, 0, 0, 0, 0, 0, 0, 0xFE, 0xFE]"

definition shutdown_payload :: "byte list" where
  "shutdown_payload = [0xFB, 0xFB, 0x06, 0xC2, 0, 0, 0, 0, 0, 0, 0, 0xFE, 0xFE]"

definition gfdi_payload :: "byte list" where
  "gfdi_payload = [0xFB, 0xFB, 0x06, 0xAF, 0, 0, 0, 0, 0, 0, 0, 0xFE, 0xFE]"

interpretation boot: acked_command zb_boot_single boot_payload
  unfolding zb_boot_single_def[abs_def] boot_payload_def by (rule acked_command_generic)

interpretation shutdown: acked_command zb_shutdown_single shutdown_payload
  unfolding zb_shutdown_single_def[abs_def] shutdown_payload_def by (rule acked_command_generic)

interpretation gfdi: acked_command zb_clear_gfdi gfdi_payload
  unfolding zb_clear_gfdi_def[abs_def] gfdi_payload_def by (rule acked_command_generic)

text \<open>
  Switching an inverter on or off is tried at most three times, each attempt with the
  same frame to its address, the last one being the first that the inverter acknowledges;
  it succeeds exactly when one of the next three waits meets the inverter's acknowledgment.
\<close>

lemma power_command_retry:
  assumes "shortaddr (inv_at s i) = addr" "addr \<noteq> 0" "inv_id (inv_at s i) = j"
  shows "let n = attempts 3 addr j (zb_rx s) in n \<le> 3
    \<and> frames (trace (exec (retry 3 (zb_boot_single i)) s))
        = frames (trace s) @ replicate n (unicast_frame addr boot_payload)
    \<and> frames (trace (exec (retry 3 (zb_shutdown_single i)) s))
        = frames (trace s) @ replicate n (unicast_frame addr shutdown_payload)
    \<and> result (retry 3 (zb_boot_single i)) s = (\<exists>k < 3. head_acks addr j (drop k (zb_rx s)))
    \<and> result (retry 3 (zb_shutdown_single i)) s = (\<exists>k < 3. head_acks addr j (drop k (zb_rx s)))"
  using boot.retry_frames[of s i 3] boot.retry_result[of 3 i s]
    shutdown.retry_frames[of s i 3] shutdown.retry_result[of 3 i s] assms attempts_le
  by (simp add: Let_def)

lemmas wire_facts =
  wire.eff_module[THEN state_io_relE] wire.eff_unicast[THEN state_io_relE]
  wire.eff_broadcasts[THEN state_io_relE] wire.eff_get_shortaddress[THEN state_io_relE]
  wire.eff_change_channel[THEN state_io_relE]

text \<open>
  Everything these commands put on the wire is a well-formed frame: preamble, the sum
  of the header bytes, and a length byte that counts the payload. (The retries of
  \<open>zb_off_report_id_and_bind\<close> are not among them.)
\<close>

lemma commands_send_wf_frames:
  "sends_wf s (exec zb_test_communication s)
   \<and> sends_wf s (exec zb_change_ecu_panid s)
   \<and> sends_wf s (exec (zb_restore_ecu_panid_0xffff c) s)
   \<and> sends_wf s (exec (zb_change_inverter_panid_single i) s)
   \<and> sends_wf s (exec (zb_change_inverter_channel_one j c) s)
   \<and> sends_wf s (exec (zb_turnoff_limited_rptid a i) s)
   \<and> sends_wf s (exec (zb_get_inverter_shortaddress_single i) s)
   \<and> sends_wf s (exec (zb_query_inverter_info i) s)
   \<and> sends_wf s (exec (zb_query_protect_parameter i) s)
   \<and> sends_wf s (exec (zb_boot_single i) s)
   \<and> sends_wf s (exec (zb_shutdown_single i) s)
   \<and> sends_wf s (exec (zb_clear_gfdi i) s)
   \<and> sends_wf s (exec (zb_ipp_single i) s)
   \<and> sends_wf s (exec (zb_set_protect_parameter i p) s)
   \<and> sends_wf s (exec zb_turnon_inverter_broadcast s)
   \<and> sends_wf s (exec zb_shutdown_broadcast s)
   \<and> sends_wf s (exec (zb_change_channel ids) s)"
  by (simp only: wire_facts simp_thms)

section \<open>Binding\<close>

lemma run_module_silent:
  "zb_rx s = [] \<Longrightarrow> run_state zb_get_reply_from_module s = ((-1, []), s\<lparr>trace := trace s @ [ZbWait 1]\<rparr>)"
  by (simp add: zb_get_reply_from_module_def selectZigbee_def link_defs)

lemma run_bind_attempts_silent:
  "zb_rx s = [] \<Longrightarrow>
   result (bind_attempts n c addr) s = 0 \<and>
   frames (trace (exec (bind_attempts n c addr) s)) = frames (trace s)
     @ map (\<lambda>k. zb_frame_from (c + int k * checksum (bind_header addr)) (bind_header addr) 0 []) [0..<n]"
proof (induction n arbitrary: s c)
  case 0
  then show ?case by simp
next
  case (Suc n)
  let ?h = "bind_header addr"
  let ?t = "(flushed s)\<lparr>trace := trace (flushed s) @ [ZbWrite (zb_frame_from c ?h 0 []), ZbWait 1]\<rparr>"
  have step: "run_state (bind_attempts (Suc n) c addr) s = run_state (bind_attempts n (c + checksum ?h) addr) ?t"
    using Suc.prems
    by (simp add: flushed_def run_module_silent link_defs bind_ack_def)
  have "zb_rx ?t = []" using Suc.prems by simp
  note IH = Suc.IH[OF this, of "c + checksum ?h"]
  have "map (\<lambda>k. zb_frame_from (c + int k * checksum ?h) ?h 0 []) [0..<Suc n]
      = zb_frame_from c ?h 0 [] # map (\<lambda>k. zb_frame_from (c + checksum ?h + int k * checksum ?h) ?h 0 []) [0..<n]"
    by (simp add: upt_conv_Cons map_Suc_upt[symmetric] comp_def algebra_simps del: upt_Suc)
  then show ?case unfolding step using IH by (simp del: upt_Suc)
qed

lemma bind_header_sum: "168 \<le> checksum (bind_header addr)" "checksum (bind_header addr) \<le> 678"
  using byte_bounds[of "hi8 addr"] byte_bounds[of "lo8 addr"]
  by (simp_all add: bind_header_def checksum_def)

lemma wf_bind_frame:
  assumes "0 \<le> c" "c < 60000"
  shows "wf_frame (zb_frame_from c (bind_header addr) 0 []) \<longleftrightarrow> c = 0"
proof -
  have s: "0 \<le> c + checksum (bind_header addr)" "c + checksum (bind_header addr) < 65536"
    using assms bind_header_sum[of addr] by auto
  show ?thesis
    using be16_u8[OF s]
    by (simp add: wf_frame_def zb_frame_from_def Let_def numeral_nat bind_header_def)
qed

text \<open>
  When no inverter answers, \<open>zb_off_report_id_and_bind\<close> sends three frames and returns 0,
  but only the first has a correct check sum: the variable that accumulates it is not
  cleared between attempts, so the second and third carry twice and three times the sum.
\<close>

lemma bind_retries_have_wrong_checksum:
  "\<exists>f g h. frames (trace (exec (zb_off_report_id_and_bind addr) (s\<lparr>zb_rx := []\<rparr>))) = frames (trace s) @ [f, g, h]
     \<and> result (zb_off_report_id_and_bind addr) (s\<lparr>zb_rx := []\<rparr>) = 0
     \<and> wf_frame f \<and> \<not> wf_frame g \<and> \<not> wf_frame h"
proof -
  let ?h = "bind_header addr" and ?k = "checksum (bind_header addr)"
  have run: "result (zb_off_report_id_and_bind addr) (s\<lparr>zb_rx := []\<rparr>) = 0"
    "frames (trace (exec (zb_off_report_id_and_bind addr) (s\<lparr>zb_rx := []\<rparr>))) = frames (trace s)
      @ [zb_frame_from 0 ?h 0 [], zb_frame_from ?k ?h 0 [], zb_frame_from (2 * ?k) ?h 0 []]"
    using run_bind_attempts_silent[of "s\<lparr>zb_rx := []\<rparr>" 3 0 addr]
    by (simp_all add: zb_off_report_id_and_bind_def numeral_3_eq_3)
  have "wf_frame (zb_frame_from 0 ?h 0 [])" using wf_bind_frame[of 0 addr] by simp
  moreover have "\<not> wf_frame (zb_frame_from ?k ?h 0 [])" "\<not> wf_frame (zb_frame_from (2 * ?k) ?h 0 [])"
    using wf_bind_frame[of ?k addr] wf_bind_frame[of "2 * ?k" addr] bind_header_sum[of addr] by auto
  ultimately show ?thesis using run by blast
qed

end
