(* ===== verification/Line_Store.thy ===== *)
theory Line_Store
  imports Inverter_Table
begin

text \<open>
  The line files of \<open>ECU/control_client/src/myfile.c\<close>: files of lines whose first characters
  are the key (an inverter id), with deletion through a temporary file, insertion at the end,
  and search. \<open>line_store\<close> is the interface the flag files of the firmware rely on.
\<close>

section \<open>Operations\<close>

definition delete_line :: "string \<Rightarrow> string \<Rightarrow> string \<Rightarrow> nat \<Rightarrow> int ecu" where
  "delete_line filename temfilename compareData len = do {
     fin \<leftarrow> read_file filename;
     (case fin of
        None \<Rightarrow> ret (-1)
      | Some txt \<Rightarrow> do {
          ok \<leftarrow> write_file temfilename
            (concat (map cstr (filter (\<lambda>l. \<not> memeq l compareData len) (fgets_lines 511 txt))));
          if \<not> ok then ret (-1)
          else do { remove_file filename; rename_file temfilename filename; ret 0 } }) }"

definition search_line :: "string \<Rightarrow> string \<Rightarrow> nat \<Rightarrow> int ecu" where
  "search_line filename compareData len = do {
     fin \<leftarrow> read_file filename;
     (case fin of
        None \<Rightarrow> ret (-1)
      | Some txt \<Rightarrow>
          ret (if (\<exists>l \<in> set (fgets_lines 299 txt). memeq l compareData len) then 1 else -1)) }"

definition insert_line :: "string \<Rightarrow> string \<Rightarrow> int ecu" where
  "insert_line filename str = do {
     append_file filename str;
     search_line filename str (length str) }"

text \<open>The buffer holds the line found; after -1 the callers do not read it.\<close>

definition read_line :: "string \<Rightarrow> string \<Rightarrow> nat \<Rightarrow> (int \<times> string) ecu" where
  "read_line filename compareData len = do {
     fin \<leftarrow> read_file filename;
     (case fin of
        None \<Rightarrow> ret (-1, [])
      | Some txt \<Rightarrow>
          ret (case find (\<lambda>l. memeq l compareData len) (fgets_lines 99 txt) of
                 Some l \<Rightarrow> (1, l) | None \<Rightarrow> (-1, []))) }"

definition clear_file :: "string \<Rightarrow> int ecu" where
  "clear_file filename = do { ok \<leftarrow> write_file filename []; ret (if ok then 0 else -1) }"

definition file_set_one :: "string \<Rightarrow> string \<Rightarrow> int ecu" where
  "file_set_one str filename = do { ok \<leftarrow> write_file filename str; ret (if ok then 0 else -1) }"

text \<open>\<open>fgets\<close> leaves the caller's buffer as it is at the end of the file.\<close>

definition file_get_one :: "string \<Rightarrow> nat \<Rightarrow> string \<Rightarrow> string option ecu" where
  "file_get_one buf count filename = do {
     f \<leftarrow> read_file filename;
     (case f of
        None \<Rightarrow> ret None
      | Some txt \<Rightarrow> (let str = cstr (case fgets_lines (count - 1) txt of [] \<Rightarrow> buf | l # _ \<Rightarrow> l) in
          ret (Some (if str \<noteq> [] \<and> last str = NL then butlast str else str)))) }"

text \<open>The distinct ids of the inverter list, in file order.\<close>

fun collect_ids :: "string list \<Rightarrow> string list \<Rightarrow> string list" where
  "collect_ids [] acc = acc"
| "collect_ids (l # ls) acc =
     (if (\<exists>i \<in> set acc. memeq l i 12) then collect_ids ls acc
      else collect_ids ls (acc @ [zext 12 l]))"

definition get_num_from_id :: "(nat \<times> string list) ecu" where
  "get_num_from_id = do {
     f \<leftarrow> read_file path_id;
     (case f of
        None \<Rightarrow> ret (0, [])
      | Some txt \<Rightarrow> (let r = collect_ids (fgets_lines 199 txt) [] in ret (length r, r))) }"

section \<open>The interface\<close>

text \<open>A line keyed by an id: complete, short enough for every buffer, and starting with it.\<close>

definition short_line :: "string \<Rightarrow> bool" where
  "short_line l = (is_line l \<and> length l \<le> 99)"

definition id_key :: "string \<Rightarrow> bool" where
  "id_key k = (length k = 12 \<and> no_nul k)"

definition keyed :: "string \<Rightarrow> string \<Rightarrow> bool" where
  "keyed k l = (take 12 l = k)"

definition store_lines :: "string \<Rightarrow> ecu_state \<Rightarrow> string list" where
  "store_lines p s = (case files s p of None \<Rightarrow> [] | Some txt \<Rightarrow> fgets_lines 99 txt)"

definition store_ok :: "string \<Rightarrow> string \<Rightarrow> ecu_state \<Rightarrow> bool" where
  "store_ok p tmp s = (p \<noteq> tmp \<and> can_write s p \<and> can_write s tmp
     \<and> (\<exists>ls. files s p = Some (concat ls) \<and> (\<forall>l \<in> set ls. short_line l)))"

locale line_store =
  fixes del :: "string \<Rightarrow> int ecu"
    and ins :: "string \<Rightarrow> int ecu"
    and entries :: "ecu_state \<Rightarrow> string list"
    and ready :: "ecu_state \<Rightarrow> bool"
  assumes del_entries: "ready s \<Longrightarrow> id_key k \<Longrightarrow>
      result (del k) s = 0 \<and> entries (exec (del k) s) = filter (\<lambda>l. \<not> keyed k l) (entries s)"
    and del_ready: "ready s \<Longrightarrow> id_key k \<Longrightarrow> ready (exec (del k) s)"
    and ins_entries: "ready s \<Longrightarrow> short_line l \<Longrightarrow>
      result (ins l) s = 1 \<and> entries (exec (ins l) s) = entries s @ [l]"
    and ins_ready: "ready s \<Longrightarrow> short_line l \<Longrightarrow> ready (exec (ins l) s)"
begin

text \<open>Deleting a key and inserting a line, with up to \<open>n\<close> attempts at the insertion.\<close>

lemma upsert:
  assumes "ready s" "id_key k" "short_line l"
  shows "let m = do { del k; retry (Suc n) (ins l) } in
     result m s \<and> ready (exec m s)
     \<and> entries (exec m s) = filter (\<lambda>l'. \<not> keyed k l') (entries s) @ [l]"
proof -
  obtain r t where d: "run_state (del k) s = (r, t)" by fastforce
  obtain r' u where i: "run_state (ins l) t = (r', u)" by fastforce
  have t: "ready t" "entries t = filter (\<lambda>l'. \<not> keyed k l') (entries s)"
    using del_entries[OF assms(1,2)] del_ready[OF assms(1,2)] d by auto
  have u: "ready u" "r' = 1" "entries u = entries t @ [l]"
    using ins_entries[OF t(1) assms(3)] ins_ready[OF t(1) assms(3)] i by auto
  show ?thesis using t u by (simp add: d i)
qed

lemma upsert_unique:
  assumes "ready s" "id_key k" "short_line l" "keyed k l"
  shows "filter (keyed k) (entries (exec (do { del k; retry (Suc n) (ins l) }) s)) = [l]"
  using upsert[OF assms(1-3), of n] assms(4) by (simp add: Let_def comp_def)

lemma del_absent:
  assumes "ready s" "id_key k"
  shows "filter (keyed k) (entries (exec (del k) s)) = []"
  using del_entries[OF assms] by simp

lemma del_shrinks:
  assumes "ready s" "id_key k" "l \<in> set (entries s)" "keyed k l"
  shows "length (entries (exec (del k) s)) < length (entries s)"
  using del_entries[OF assms(1,2)] assms(3,4) by (simp add: length_filter_less)

end

section \<open>The files provide it\<close>

lemma fgets_short:
  "(\<And>l. l \<in> set ls \<Longrightarrow> short_line l) \<Longrightarrow> 99 \<le> n \<Longrightarrow> fgets_lines n (concat ls) = ls"
  by (rule fgets_lines_concat) (meson short_line_def le_trans)

lemma cstr_short: "(\<And>l. l \<in> set ls \<Longrightarrow> short_line l) \<Longrightarrow> map cstr ls = ls"
  by (induction ls) (auto simp: short_line_def)

lemma keyed_memeq: "id_key k \<Longrightarrow> memeq l k 12 \<longleftrightarrow> keyed k l"
  by (simp add: id_key_def keyed_def memeq_prefix)

lemma store_okE:
  assumes "store_ok p tmp s"
  obtains ls where "files s p = Some (concat ls)" "\<And>l. l \<in> set ls \<Longrightarrow> short_line l"
    "store_lines p s = ls" "p \<noteq> tmp" "can_write s p" "can_write s tmp"
proof -
  from assms obtain ls where ls: "files s p = Some (concat ls)" "\<forall>l \<in> set ls. short_line l"
    and rest: "p \<noteq> tmp" "can_write s p" "can_write s tmp"
    by (auto simp: store_ok_def)
  have "store_lines p s = ls" using ls fgets_short[of ls 99] by (simp add: store_lines_def)
  with ls rest that show ?thesis by blast
qed

lemma store_lines_concat:
  "files s p = Some (concat ls) \<Longrightarrow> (\<And>l. l \<in> set ls \<Longrightarrow> short_line l) \<Longrightarrow> store_lines p s = ls"
  using fgets_short[of ls 99] by (simp add: store_lines_def)

lemma store_intro:
  assumes "files s p = Some (concat ls)" "\<forall>l \<in> set ls. short_line l" "p \<noteq> tmp" "can_write s p" "can_write s tmp"
  shows "store_ok p tmp s" "store_lines p s = ls"
  using assms store_lines_concat[of s p ls] by (auto simp: store_ok_def)

lemma store_file:
  assumes "\<forall>l \<in> set ls. short_line l" "p \<noteq> tmp" "can_write s p" "can_write s tmp"
  shows "store_ok p tmp (s\<lparr>files := [p \<mapsto> concat ls]\<rparr>)"
  using assms by (auto intro!: store_intro)

lemma store_file_lines:
  "\<forall>l \<in> set ls. short_line l \<Longrightarrow> store_lines p (s\<lparr>files := [p \<mapsto> concat ls]\<rparr>) = ls"
  using store_lines_concat by simp

lemma run_delete_line:
  assumes "store_ok p tmp s" "id_key k"
  shows "run_state (delete_line p tmp k 12) s = (0, s\<lparr>files := (files s)(tmp := None,
     p \<mapsto> concat (filter (\<lambda>l. \<not> keyed k l) (store_lines p s)))\<rparr>)"
proof -
  obtain ls where ls: "files s p = Some (concat ls)" "\<And>l. l \<in> set ls \<Longrightarrow> short_line l"
    "store_lines p s = ls" "p \<noteq> tmp" "can_write s p" "can_write s tmp"
    using assms(1) by (rule store_okE) blast
  let ?fs = "filter (\<lambda>l. \<not> keyed k l) ls"
  have "map cstr ?fs = ?fs" using ls(2) by (intro cstr_short) auto
  moreover have "fgets_lines 511 (concat ls) = ls" using ls(2) by (intro fgets_short) auto
  ultimately show ?thesis
    using ls assms(2)
    by (simp add: delete_line_def read_file_def write_file_def remove_file_def rename_file_def
        keyed_memeq fun_upd_twist)
qed

lemma run_delete_prefix:
  assumes "store_ok p tmp s" "no_nul k"
  shows "run_state (delete_line p tmp k (length k)) s = (0, s\<lparr>files := (files s)(tmp := None,
     p \<mapsto> concat (filter (\<lambda>l. take (length k) l \<noteq> k) (store_lines p s)))\<rparr>)"
proof -
  obtain ls where ls: "files s p = Some (concat ls)" "\<And>l. l \<in> set ls \<Longrightarrow> short_line l"
    "store_lines p s = ls" "p \<noteq> tmp" "can_write s p" "can_write s tmp"
    using assms(1) by (rule store_okE) blast
  let ?fs = "filter (\<lambda>l. take (length k) l \<noteq> k) ls"
  have "map cstr ?fs = ?fs" using ls(2) by (intro cstr_short) auto
  moreover have "fgets_lines 511 (concat ls) = ls" using ls(2) by (intro fgets_short) auto
  ultimately show ?thesis
    using ls assms(2)
    by (simp add: delete_line_def read_file_def write_file_def remove_file_def rename_file_def
        memeq_prefix fun_upd_twist)
qed

lemma store_after_delete:
  assumes "store_ok p tmp s" "no_nul k"
  shows "store_ok p tmp (exec (delete_line p tmp k (length k)) s)"
    "store_lines p (exec (delete_line p tmp k (length k)) s) = filter (\<lambda>l. take (length k) l \<noteq> k) (store_lines p s)"
proof -
  obtain ls where ls: "store_lines p s = ls" "\<And>l. l \<in> set ls \<Longrightarrow> short_line l"
    "p \<noteq> tmp" "can_write s p" "can_write s tmp"
    using assms(1) by (rule store_okE) blast
  have f: "files (exec (delete_line p tmp k (length k)) s) p = Some (concat (filter (\<lambda>l. take (length k) l \<noteq> k) ls))"
    using run_delete_prefix[OF assms] ls(1,3) by simp
  moreover have "can_write (exec (delete_line p tmp k (length k)) s) = can_write s"
    using run_delete_prefix[OF assms] by simp
  ultimately show "store_ok p tmp (exec (delete_line p tmp k (length k)) s)"
    "store_lines p (exec (delete_line p tmp k (length k)) s) = filter (\<lambda>l. take (length k) l \<noteq> k) (store_lines p s)"
    using ls by (auto intro!: store_intro)
qed

lemma run_insert_line:
  assumes "store_ok p tmp s" "short_line l"
  shows "run_state (insert_line p l) s = (1, s\<lparr>files := (files s)(p \<mapsto> concat (store_lines p s @ [l]))\<rparr>)"
proof -
  obtain ls where ls: "files s p = Some (concat ls)" "\<And>l. l \<in> set ls \<Longrightarrow> short_line l"
    "store_lines p s = ls" "can_write s p"
    using assms(1) by (rule store_okE) blast
  have "fgets_lines 299 (concat (ls @ [l])) = ls @ [l]"
    using ls(2) assms(2) by (intro fgets_short) auto
  then show ?thesis
    using ls by (simp add: insert_line_def append_file_def search_line_def read_file_def)
qed

lemma files_line_store: "line_store (\<lambda>k. delete_line p tmp k 12) (insert_line p) (store_lines p) (store_ok p tmp)"
proof unfold_locales
  fix s k
  assume s: "store_ok p tmp s" and k: "id_key k"
  obtain ls where ls: "store_lines p s = ls" "\<And>l. l \<in> set ls \<Longrightarrow> short_line l"
    "p \<noteq> tmp" "can_write s p" "can_write s tmp"
    using s by (rule store_okE) blast
  let ?t = "exec (delete_line p tmp k 12) s"
  let ?fs = "filter (\<lambda>l. \<not> keyed k l) ls"
  have t: "files ?t p = Some (concat ?fs)" "can_write ?t = can_write s"
    using run_delete_line[OF s k] ls(1,3) by auto
  have "store_lines p ?t = ?fs" using t(1) ls(2) by (intro store_lines_concat) auto
  then show "result (delete_line p tmp k 12) s = 0 \<and> store_lines p ?t = filter (\<lambda>l. \<not> keyed k l) (store_lines p s)"
    using run_delete_line[OF s k] ls(1) by simp
  show "store_ok p tmp ?t"
    unfolding store_ok_def using t ls(2-5) by (auto intro!: exI[of _ ?fs])
next
  fix s l
  assume s: "store_ok p tmp s" and l: "short_line l"
  obtain ls where ls: "store_lines p s = ls" "\<And>l. l \<in> set ls \<Longrightarrow> short_line l"
    "p \<noteq> tmp" "can_write s p" "can_write s tmp"
    using s by (rule store_okE) blast
  let ?t = "exec (insert_line p l) s"
  have t: "files ?t p = Some (concat (ls @ [l]))" "can_write ?t = can_write s"
    using run_insert_line[OF s l] ls(1) by auto
  have "store_lines p ?t = ls @ [l]" using t(1) ls(2) l by (intro store_lines_concat) auto
  then show "result (insert_line p l) s = 1 \<and> store_lines p ?t = store_lines p s @ [l]"
    using run_insert_line[OF s l] ls(1) by simp
  show "store_ok p tmp ?t"
    unfolding store_ok_def using t ls(2-5) l by (auto intro!: exI[of _ "ls @ [l]"])
qed

lemmas store_insert = line_store.ins_entries [OF files_line_store] line_store.ins_ready [OF files_line_store]

end
