(* ===== verification/Ecu_Config.thy ===== *)
theory Ecu_Config
  imports Line_Store
begin

text \<open>
  Configuration files: \<open>name=value\<close> files (\<open>file_set_array\<close>, \<open>file_get_array\<close>), the PAN id
  and channel of the unit, its id (\<open>ECU/main/src/file.c\<close>), the time of the last connection
  (\<open>ECU/client/src/clientSocket.c\<close>), and the files that carry a requested channel change
  (\<open>ECU/main/src/channel.c\<close>).
\<close>

section \<open>\<open>name=value\<close> files\<close>

definition strip_newline :: "string \<Rightarrow> string" where
  "strip_newline v = (if v \<noteq> [] \<and> last v = NL then butlast v else v)"

definition parse_pair :: "string \<Rightarrow> string \<times> string" where
  "parse_pair l = (let n = takeWhile (\<lambda>c. c \<noteq> CHR ''='') l in
     (n, strip_newline (take 64 (drop (length n + 1) l))))"

definition file_set_array :: "(string \<times> string) list \<Rightarrow> string \<Rightarrow> int ecu" where
  "file_set_array arr filename = do {
     ok \<leftarrow> write_file filename (concat (map (\<lambda>(n, v). n @ ''='' @ v @ [NL]) arr));
     ret (if ok then 0 else -1) }"

text \<open>The array is cleared first; entries beyond the lines of the file stay empty.\<close>

definition file_get_array :: "nat \<Rightarrow> string \<Rightarrow> (int \<times> (string \<times> string) list) ecu" where
  "file_get_array num filename = do {
     f \<leftarrow> read_file filename;
     (case f of
        None \<Rightarrow> ret (-1, replicate num ([], []))
      | Some txt \<Rightarrow>
          (let ps = take num (map parse_pair (filter (\<lambda>l. l \<noteq> []) (map cstr (fgets_lines 127 txt))))
           in ret (0, ps @ replicate (num - length ps) ([], [])))) }"

definition pair_ok :: "string \<times> string \<Rightarrow> bool" where
  "pair_ok nv = (length (fst nv) < 32 \<and> length (snd nv) < 64
     \<and> (\<forall>c \<in> set (fst nv). c \<noteq> CHR ''='' \<and> c \<noteq> NL \<and> c \<noteq> NUL)
     \<and> (\<forall>c \<in> set (snd nv). c \<noteq> NL \<and> c \<noteq> NUL))"

lemma parse_pair_line:
  assumes "pair_ok (n, v)"
  shows "parse_pair (n @ ''='' @ v @ [NL]) = (n, v)"
proof -
  have "takeWhile (\<lambda>c. c \<noteq> CHR ''='') (n @ ''='' @ v @ [NL]) = n"
    using assms by (auto simp: pair_ok_def takeWhile_append)
  then show ?thesis
    using assms by (auto simp: parse_pair_def pair_ok_def strip_newline_def take_Cons')
qed

lemma pair_line:
  assumes "pair_ok (n, v)"
  shows "is_line (n @ ''='' @ v @ [NL])" "length (n @ ''='' @ v @ [NL]) \<le> 127"
proof -
  have "c \<noteq> NL \<and> c \<noteq> NUL" if "c \<in> set (n @ ''='' @ v)" for c
    using that assms by (auto simp: pair_ok_def NL_def NUL_def)
  then show "is_line (n @ ''='' @ v @ [NL])" using is_lineI[of "n @ ''='' @ v"] by simp
  show "length (n @ ''='' @ v @ [NL]) \<le> 127" using assms by (simp add: pair_ok_def)
qed

lemma array_file_read:
  assumes "\<forall>nv \<in> set arr. pair_ok nv" "can_write s p"
  shows "result (file_get_array (length arr) p) (exec (file_set_array arr p) s) = (0, arr)"
proof -
  let ?line = "\<lambda>(n, v). n @ ''='' @ v @ [NL]"
  have ok: "pair_ok (fst nv, snd nv)" if "nv \<in> set arr" for nv using assms(1) that by simp
  have ls: "fgets_lines 127 (concat (map ?line arr)) = map ?line arr"
    using ok by (intro fgets_lines_concat) (auto simp: case_prod_beta intro!: pair_line[simplified])
  have "map cstr (map ?line arr) = map ?line arr"
    using ok pair_line(1) by (auto simp: case_prod_beta)
  moreover have "filter (\<lambda>l. l \<noteq> []) (map ?line arr) = map ?line arr"
    by (auto simp: filter_id_conv)
  moreover have "map parse_pair (map ?line arr) = arr"
    using ok parse_pair_line by (auto simp: case_prod_beta intro!: map_idI)
  ultimately have "map parse_pair (filter (\<lambda>l. l \<noteq> []) (map cstr (fgets_lines 127 (concat (map ?line arr))))) = arr"
    by (simp only: ls)
  then show ?thesis
    using assms(2)
    by (simp add: file_get_array_def file_set_array_def read_file_def write_file_def Let_def
        del: map_map filter_map)
qed

text \<open>
  An array of name/value pairs written by \<open>file_set_array\<close> is read back unchanged by
  \<open>file_get_array\<close>, for names and values that fit their fields.
\<close>

lemma array_file_roundtrip:
  assumes "\<forall>nv \<in> set arr. pair_ok nv" "can_write s p"
  shows "result (file_get_array (length arr) p) (exec (file_set_array arr p) s) = (0, arr)"
  using assms by (rule array_file_read)

section \<open>PAN id and channel\<close>

definition nib_upper :: "int \<Rightarrow> int" where
  "nib_upper c = (if 0x30 \<le> c \<and> c \<le> 0x39 then c - 0x30
     else if 0x41 \<le> c \<and> c \<le> 0x46 then c - 0x37 else c)"

definition nib :: "int \<Rightarrow> int" where
  "nib c = (if 0x30 \<le> c \<and> c \<le> 0x39 then c - 0x30
     else if 0x41 \<le> c \<and> c \<le> 0x46 then c - 0x37
     else if 0x61 \<le> c \<and> c \<le> 0x66 then c - 0x57 else c)"

definition path_ecumac :: string where
  "path_ecumac = ''/YUNENG/ECUMAC.CON''"

definition path_channel :: string where
  "path_channel = ''/YUNENG/CHANNEL.CON''"

definition path_limiteid :: string where
  "path_limiteid = ''/YUNENG/LIMITEID.CON''"

text \<open>Characters 12, 13, 15 and 16 of the MAC address text are the PAN id.\<close>

definition get_panid :: "u16 ecu" where
  "get_panid = do {
     f \<leftarrow> read_file path_ecumac;
     (case f of
        None \<Rightarrow> ret 0
      | Some txt \<Rightarrow> (let b = (\<lambda>k. nib_upper (ch (take 17 txt) k)) in
          ret (word_of_int ((b 12 * 16 + b 13) * 256 + b 15 * 16 + b 16)))) }"

definition get_channel :: "byte ecu" where
  "get_channel = do {
     f \<leftarrow> read_file path_channel;
     (case f of
        Some txt \<Rightarrow> ret (u8 (nib (ch (take 5 txt) 2) * 16 + nib (ch (take 5 txt) 3)))
      | None \<Rightarrow> do {
          ok \<leftarrow> write_file path_channel (''0x10'' @ [NUL]);
          ret (if ok then 0x10 else 0) }) }"

definition echo :: "string \<Rightarrow> string \<Rightarrow> unit ecu" where
  "echo filename str = do { write_file filename str; ret () }"

text \<open>\<open>snprintf(buffer, 5, "0x%02X", channel)\<close>, for the non-negative channels of the callers.\<close>

definition fmt_02X :: "nat \<Rightarrow> string" where
  "fmt_02X n = pad0 2 (hex_upper n)"

definition saveECUChannel :: "int \<Rightarrow> int ecu" where
  "saveECUChannel channel = do {
     ok \<leftarrow> write_file path_channel [];
     if ok then do {
       echo path_limiteid ''1'';
       write_file path_channel (take 4 (''0x'' @ fmt_02X (nat channel)));
       modify (\<lambda>s. s\<lparr>ecu_channel := u8 channel\<rparr>);
       ret 1 }
     else ret 0 }"

section \<open>The identity of the unit\<close>

definition set_totals :: "(ecu_totals \<Rightarrow> ecu_totals) \<Rightarrow> unit ecu" where
  "set_totals f = modify (\<lambda>s. s\<lparr>totals := f (totals s)\<rparr>)"

definition path_ecuid :: string where
  "path_ecuid = ''/YUNENG/ECUID.CON''"

text \<open>Thirteen characters over what the buffer held.\<close>

definition get_ecuid :: "unit ecu" where
  "get_ecuid = do {
     f \<leftarrow> read_file path_ecuid;
     (case f of None \<Rightarrow> ret ()
      | Some content \<Rightarrow> modify (\<lambda>s. s\<lparr>ecu_id := strip_newline (cstr (overlay (take 13 content) (ecu_id s)))\<rparr>)) }"

definition path_con_time :: string where
  "path_con_time = ''/YUNENG/CON_TIME.CON''"

definition readconnecttime :: "int ecu" where
  "readconnecttime = do {
     f \<leftarrow> read_file path_con_time;
     set_totals (\<lambda>t. t\<lparr>last_ema_time := (case f of None \<Rightarrow> replicate 14 (CHR ''0'')
       | Some content \<Rightarrow> cstr (take 15 (cstr (case fgets_lines 19 content of [] \<Rightarrow> [] | l # _ \<Rightarrow> l))))\<rparr>);
     ret 0 }"

section \<open>A requested channel change\<close>

definition path_changech :: string where
  "path_changech = ''/TMP/CHANGECH.CON''"

definition path_old_chan :: string where
  "path_old_chan = ''/TMP/OLD_CHAN.CON''"

definition path_new_chan :: string where
  "path_new_chan = ''/TMP/NEW_CHAN.CON''"

text \<open>The first line a \<open>fgets\<close> with an \<open>n+1\<close>-byte, zeroed buffer delivers.\<close>

definition first_line :: "nat \<Rightarrow> string \<Rightarrow> string" where
  "first_line n txt = (case fgets_lines n txt of [] \<Rightarrow> [] | l # _ \<Rightarrow> l)"

definition channel_need_change :: "bool ecu" where
  "channel_need_change = do {
     f \<leftarrow> read_file path_changech;
     ret (case f of None \<Rightarrow> False | Some txt \<Rightarrow> ch (first_line 1 txt) 0 = 0x31) }"

definition saveChannel_change_flag :: "int ecu" where
  "saveChannel_change_flag = do { echo path_changech ''1''; echo path_limiteid ''1''; ret 0 }"

definition getOldChannel :: "int ecu" where
  "getOldChannel = do {
     f \<leftarrow> read_file path_old_chan;
     ret (case f of None \<Rightarrow> 0 | Some txt \<Rightarrow> atoi (first_line 3 txt)) }"

definition getNewChannel :: "int ecu" where
  "getNewChannel = do {
     f \<leftarrow> read_file path_new_chan;
     ret (case f of None \<Rightarrow> 16 | Some txt \<Rightarrow> atoi (first_line 3 txt)) }"

definition saveOldChannel :: "byte \<Rightarrow> int ecu" where
  "saveOldChannel c = do { write_file path_old_chan (fmt_d (uint c)); ret 0 }"

definition saveNewChannel :: "byte \<Rightarrow> int ecu" where
  "saveNewChannel c = do { write_file path_new_chan (fmt_d (uint c)); ret 0 }"

lemma take_line_all: "NL \<notin> set l \<Longrightarrow> length l \<le> n \<Longrightarrow> take_line n l = l"
proof (induction l arbitrary: n)
  case Nil
  then show ?case by (cases n) auto
next
  case (Cons c l)
  then show ?case by (cases n) auto
qed

lemma first_line_all: "NL \<notin> set l \<Longrightarrow> length l \<le> n \<Longrightarrow> 0 < n \<Longrightarrow> first_line n l = l"
  by (cases "l = []") (auto simp: first_line_def take_line_all fgets_lines.simps[of n l])

lemma fmt_d_no_NL: "NL \<notin> set (fmt_d v)"
  using fmt_d_plain by (auto simp: plain_char_def)

text \<open>
  The old and new channel numbers that the phone server requests are the ones the
  binding code reads back, for channels of at most two digits (\<open>sprintf\<close> prints to a buffer
  of three bytes, which a channel of three digits and its NUL do not fit).
\<close>

lemma channel_request_roundtrip:
  assumes "can_write s path_old_chan" "can_write s path_new_chan" "uint c < 100" "uint d < 100"
  shows "result getOldChannel (exec (do { saveOldChannel c; saveNewChannel d }) s) = uint c
    \<and> result getNewChannel (exec (do { saveOldChannel c; saveNewChannel d }) s) = uint d"
proof -
  have "length (fmt_d (uint b)) \<le> 3" for b :: byte
    using length_dec_le[of "unat b" 3] unat_byte[of b] by (simp add: fmt_d_def)
  then have "first_line 3 (fmt_d (uint b)) = fmt_d (uint b)" for b :: byte
    by (intro first_line_all fmt_d_no_NL) simp_all
  moreover have "path_old_chan \<noteq> path_new_chan" by (simp add: path_old_chan_def path_new_chan_def)
  ultimately show ?thesis
    using assms
    by (simp add: getOldChannel_def getNewChannel_def saveOldChannel_def saveNewChannel_def
        read_file_def write_file_def)
qed

lemma code_hexdig_upper: "n < 16 \<Longrightarrow> code (hexdig_upper n) = (if n < 10 then 48 + n else 55 + n)"
  by (simp add: hexdig_upper_def)

lemma nib_hexdig: "n < 16 \<Longrightarrow> nib (int (code (hexdig_upper n))) = int n"
  by (auto simp: code_hexdig_upper nib_def)

lemma fmt_02X_byte:
  assumes "n < 256"
  shows "fmt_02X n = [hexdig_upper (n div 16), hexdig_upper (n mod 16)]"
proof (cases "n < 16")
  case True
  then have "hex_upper n = [hexdig_upper n]" by (simp add: hex_upper.simps[of n])
  then show ?thesis using True by (simp add: fmt_02X_def pad0_def hexdig_upper_def)
next
  case False
  moreover have "n div 16 < 16" using assms by simp
  ultimately have "hex_upper n = [hexdig_upper (n div 16), hexdig_upper (n mod 16)]"
    by (simp add: hex_upper.simps[of n] hex_upper.simps[of "n div 16"])
  then show ?thesis by (simp add: fmt_02X_def pad0_def)
qed

text \<open>
  A channel saved with \<open>saveECUChannel\<close> is the channel in use, and the one \<open>get_channel\<close>
  loads at the next start; the flag file that triggers a new binding is set.
\<close>

lemma save_channel_roundtrip:
  assumes "0 \<le> c" "c < 256" "can_write s path_channel" "can_write s path_limiteid"
  shows "let t = exec (saveECUChannel c) s in
    result (saveECUChannel c) s = 1 \<and> ecu_channel t = u8 c \<and> result get_channel t = u8 c
    \<and> files t path_limiteid = Some ''1''"
proof -
  have c: "nat c < 256" using assms by simp
  have "path_channel \<noteq> path_limiteid" by (simp add: path_channel_def path_limiteid_def)
  moreover have "nib (int (code (hexdig_upper (nat c div 16)))) * 16 + nib (int (code (hexdig_upper (nat c mod 16)))) = c"
    using assms c by (simp add: nib_hexdig zdiv_int zmod_int)
  ultimately show ?thesis
    using assms
    by (simp add: Let_def saveECUChannel_def get_channel_def echo_def write_file_def read_file_def
        fmt_02X_byte[OF c] ch_def)
qed

end
