(* ===== verification/Command_Queues.thy ===== *)
theory Command_Queues
  imports Zigbee_Spec Ecu_Config
begin

text \<open>
  The requests that the EMA client leaves in files for the polling thread: switching
  inverters on or off (\<open>ECU/main/src/turn_on_off.c\<close>), clearing the ground-fault flag
  (\<open>clear_gfdi.c\<close>) and the IRD setting (\<open>set_ird.c\<close>). Each handler takes one request at a
  time from its file, removes it and sends the command.

  The loops \<open>while(1)\<close> over a file are partial functions: \<open>None\<close> means that the loop does
  not end.
\<close>

section \<open>Shared steps\<close>

definition path_turnonof :: string where
  "path_turnonof = ''/HOME/DATA/TURNONOF''"

definition path_turnof_tmp :: string where
  "path_turnof_tmp = ''/HOME/DATA/_TURNOF''"

definition path_clrgfdi :: string where
  "path_clrgfdi = ''/HOME/DATA/CLRGFDI''"

definition path_clrgfdi_tmp :: string where
  "path_clrgfdi_tmp = ''/HOME/DATA/CLRGFDI.T''"

definition path_ird :: string where
  "path_ird = ''/HOME/DATA/IRD''"

definition path_ird_tmp :: string where
  "path_ird_tmp = ''/HOME/DATA/IRD.T''"

definition path_upinv :: string where
  "path_upinv = ''/HOME/DATA/UPINV''"

definition path_upinv_tmp :: string where
  "path_upinv_tmp = ''/HOME/DATA/UPINV.T''"

interpretation onoff: line_store "\<lambda>k. delete_line path_turnonof path_turnof_tmp k 12"
    "insert_line path_turnonof" "store_lines path_turnonof" "store_ok path_turnonof path_turnof_tmp"
  by (rule files_line_store)

interpretation gfdiq: line_store "\<lambda>k. delete_line path_clrgfdi path_clrgfdi_tmp k 12"
    "insert_line path_clrgfdi" "store_lines path_clrgfdi" "store_ok path_clrgfdi path_clrgfdi_tmp"
  by (rule files_line_store)

interpretation irdq: line_store "\<lambda>k. delete_line path_ird path_ird_tmp k 12"
    "insert_line path_ird" "store_lines path_ird" "store_ok path_ird path_ird_tmp"
  by (rule files_line_store)

text \<open>The result file of the day, one line per result, still to be sent (flag 1).\<close>

definition path_iprocres :: "string \<Rightarrow> string" where
  "path_iprocres dt = ''/HOME/DATA/IPROCRES/'' @ take 8 dt @ ''.DAT''"

definition save_inverter_parameters_result2 :: "string \<Rightarrow> int \<Rightarrow> string \<Rightarrow> int ecu" where
  "save_inverter_parameters_result2 i item res = do {
     dt \<leftarrow> gets datetime;
     append_file (path_iprocres dt)
       ([NL] @ res @ '','' @ i @ '','' @ pad_space 3 (fmt_d item) @ '',1'' @ [NL]);
     ret 0 }"

section \<open>Switching on and off\<close>

definition get_turn_on_off_flag :: "(bool \<times> string \<times> int) ecu" where
  "get_turn_on_off_flag = do {
     f \<leftarrow> read_file path_turnonof;
     ret (case f of
        None \<Rightarrow> (False, [], 0)
      | Some txt \<Rightarrow> (case fgets_lines 199 txt of
            [] \<Rightarrow> (False, [], 0)
          | l # _ \<Rightarrow> (let fs = splitString (cstr l) in (True, fld fs 0, atoi (fld fs 1))))) }"

definition clear_turn_on_off_flag :: "string \<Rightarrow> int ecu" where
  "clear_turn_on_off_flag i = do { delete_line path_turnonof path_turnof_tmp i 12; ret 0 }"

text \<open>The command for the inverter with this id, if it is in the table.\<close>

definition turn_one :: "string \<Rightarrow> int \<Rightarrow> unit ecu" where
  "turn_one i fl = for_inverters (\<lambda>k. do {
     v \<leftarrow> get_inv k;
     if take 12 i = take 12 (inv_id v)
     then do {
       (if fl = 1 then do { retry 3 (zb_boot_single k); ret () } else ret ());
       (if fl = 2 then do { retry 3 (zb_shutdown_single k); ret () } else ret ());
       ret True }
     else ret False })"

partial_function (option) turn_on_off_loop :: "ecu_state \<Rightarrow> ecu_state option" where
  "turn_on_off_loop s = (case run_state get_turn_on_off_flag s of
     ((found, i, fl), s1) \<Rightarrow>
       if \<not> found then Some s1
       else turn_on_off_loop (exec (do { clear_turn_on_off_flag i; turn_one i fl }) s1))"

definition turn_on_off :: "ecu_state \<Rightarrow> ecu_state option" where
  "turn_on_off s = map_option (exec (emit MutexRelease)) (turn_on_off_loop (exec (emit MutexTake) s))"

section \<open>Clearing the ground-fault flag\<close>

definition get_clear_gfdi_flag :: "(bool \<times> string) ecu" where
  "get_clear_gfdi_flag = do {
     f \<leftarrow> read_file path_clrgfdi;
     ret (case f of
        None \<Rightarrow> (False, [])
      | Some txt \<Rightarrow> (case fgets_lines 199 txt of
            [] \<Rightarrow> (False, [])
          | l # _ \<Rightarrow> (True, fld (splitString (cstr l)) 0))) }"

definition clear_clear_gfdi_flag :: "string \<Rightarrow> int ecu" where
  "clear_clear_gfdi_flag i = do { delete_line path_clrgfdi path_clrgfdi_tmp i 12; ret 0 }"

definition clear_gfdi_one :: "string \<Rightarrow> unit ecu" where
  "clear_gfdi_one i = for_inverters (\<lambda>k. do {
     v \<leftarrow> get_inv k;
     if i = inv_id v then do { zb_clear_gfdi k; ret True } else ret False })"

fun clear_gfdi_loop :: "nat \<Rightarrow> unit ecu" where
  "clear_gfdi_loop 0 = ret ()"
| "clear_gfdi_loop (Suc n) = do {
     (found, i) \<leftarrow> get_clear_gfdi_flag;
     if \<not> found then ret ()
     else do { clear_clear_gfdi_flag i; clear_gfdi_one i; clear_gfdi_loop n } }"

definition clear_gfdi :: "int ecu" where
  "clear_gfdi = do {
     emit MutexTake;
     clear_gfdi_loop MAXINVERTERCOUNT;
     emit MutexRelease;
     ret 0 }"

section \<open>The IRD setting\<close>

text \<open>A payload: \<open>FB FB\<close>, seven bytes, their sum in two bytes, \<open>FE FE\<close>.\<close>

definition chk_payload :: "byte list \<Rightarrow> byte list" where
  "chk_payload bs = [0xFB, 0xFB] @ bs @ [hi8 (checksum bs), lo8 (checksum bs), 0xFE, 0xFE]"

definition send_ird_command_single :: "int \<Rightarrow> byte \<Rightarrow> int ecu" where
  "send_ird_command_single addr value = do {
     zb_shortaddr_cmd addr (chk_payload [0x06, 0xC6, value, 0, 0, 0, 0]);
     delay_ms 2000;
     ret 0 }"

definition send_ird_command_all :: "byte \<Rightarrow> int ecu" where
  "send_ird_command_all value = do {
     zb_broadcast_cmd (chk_payload [0x06, 0xA6, value, 0, 0, 0, 0]);
     delay_ms 10000;
     ret 0 }"

text \<open>The entry of an inverter: its mode, no requested value, flag 0.\<close>

definition ird_line :: "string \<Rightarrow> int \<Rightarrow> string" where
  "ird_line i mode = i @ '','' @ fmt_d mode @ '',,0'' @ [NL]"

definition set_ird_entry :: "string \<Rightarrow> int \<Rightarrow> unit ecu" where
  "set_ird_entry i mode = do {
     delete_line path_ird path_ird_tmp i 12;
     retry 3 (insert_line path_ird (ird_line i mode));
     ret () }"

text \<open>Whether or not the file has a line of the inverter, the code does the same.\<close>

definition resolve_ird :: "string \<Rightarrow> byte list \<Rightarrow> int ecu" where
  "resolve_ird i readbuff = do {
     let mode = uint (drop_bit 1 (readbuff ! 4) AND 0x03);
     read_line path_ird i 12;
     set_ird_entry i mode;
     save_inverter_parameters_result2 i 126 (i @ fmt_d mode @ ''END'');
     ret 0 }"

definition resolve_ird_DD :: "string \<Rightarrow> byte list \<Rightarrow> int ecu" where
  "resolve_ird_DD i readbuff = do {
     let mode = uint (readbuff ! 22);
     read_line path_ird i 12;
     set_ird_entry i mode;
     save_inverter_parameters_result2 i 126 (i @ fmt_d mode @ ''END'');
     ret 0 }"

definition get_ird_single :: "int \<Rightarrow> string \<Rightarrow> int ecu" where
  "get_ird_single addr i = do {
     clear_zbmodem;
     zb_shortaddr_cmd addr (chk_payload [0x06, 0xDD, 0, 0, 0, 0, 0]);
     r \<leftarrow> zb_shortaddr_reply addr i;
     let d = snd r;
     if fst r = 58 \<and> d ! 0 = 0xFB \<and> d ! 1 = 0xFB \<and> d ! 3 = 0xDA \<and> d ! 56 = 0xFE \<and> d ! 57 = 0xFE
     then do { resolve_ird i d; ret 0 }
     else if fst r = 33 \<and> d ! 0 = 0xFB \<and> d ! 1 = 0xFB \<and> d ! 3 = 0xDD \<and> d ! 31 = 0xFE \<and> d ! 32 = 0xFE
     then do { resolve_ird_DD i d; ret 0 }
     else ret (-1) }"

text \<open>
  \<open>get_ird_id_value\<close>: the id and the value of the first entry with flag 1, and the short
  address of that inverter (0 when it is not in the table); \<open>None\<close> for the result -1.
\<close>

definition ird_flagged :: "string \<Rightarrow> bool" where
  "ird_flagged l = (atoi (fld (splitString (cstr l)) 3) = 1)"

definition addr_of_id :: "inverter list \<Rightarrow> string \<Rightarrow> int" where
  "addr_of_id vs i = (case find (\<lambda>v. inv_id v = i) (table vs) of
      Some v \<Rightarrow> uint (shortaddr v) | None \<Rightarrow> 0)"

definition get_ird_id_value :: "(int \<times> string \<times> string) option ecu" where
  "get_ird_id_value = do {
     f \<leftarrow> read_file path_ird;
     vs \<leftarrow> gets inverters;
     ret (case f of
        None \<Rightarrow> None
      | Some txt \<Rightarrow> (case find ird_flagged (fgets_lines 199 txt) of
            None \<Rightarrow> None
          | Some l \<Rightarrow> (let fs = splitString (cstr l) in
              Some (addr_of_id vs (fld fs 0), fld fs 0, fld fs 2)))) }"

definition clear_ird_flag_single :: "string \<Rightarrow> int ecu" where
  "clear_ird_flag_single i = do {
     (r, l) \<leftarrow> read_line path_ird i 12;
     (if r = 1 then set_ird_entry i (atoi (fld (splitString (cstr l)) 1)) else ret ());
     ret 0 }"

definition path_set_ird :: string where
  "path_set_ird = ''/TMP/SET_IRD.CON''"

definition path_get_ird :: string where
  "path_get_ird = ''/TMP/GET_IRD.CON''"

definition clear_ird_flag_all :: "int ecu" where
  "clear_ird_flag_all = do { write_file path_set_ird []; ret 0 }"

definition try_get_ird :: "int \<Rightarrow> string \<Rightarrow> bool ecu" where
  "try_get_ird addr i = retry 3 (do { r \<leftarrow> get_ird_single addr i; ret (if r = 0 then 1 else 0) })"

definition get_ird_all :: "int ecu" where
  "get_ird_all = do {
     for_each_inverter (\<lambda>k. do {
       v \<leftarrow> get_inv k;
       try_get_ird (uint (shortaddr v)) (inv_id v);
       ret () });
     ret 0 }"

partial_function (option) set_ird_single_loop :: "ecu_state \<Rightarrow> ecu_state option" where
  "set_ird_single_loop s = (case run_state get_ird_id_value s of
     (None, s1) \<Rightarrow> Some s1
   | (Some (addr, i, value), s1) \<Rightarrow>
       set_ird_single_loop (exec (do {
         clear_ird_flag_single i;
         if addr > 0
         then do {
           send_ird_command_single addr (u8 (atoi value));
           try_get_ird addr i;
           ret () }
         else ret () }) s1))"

definition set_ird_single :: "ecu_state \<Rightarrow> ecu_state option" where
  "set_ird_single s = map_option (exec (emit MutexRelease)) (set_ird_single_loop (exec (emit MutexTake) s))"

text \<open>\<open>sscanf(buff, "%[^,],%s", &id, &value)\<close> on zeroed arrays.\<close>

definition scan_id_value :: "string \<Rightarrow> string \<times> string" where
  "scan_id_value b = (let i = takeWhile (\<lambda>c. c \<noteq> CHR '','') b in
     if i = [] then ([], [])
     else (case drop (length i) b of
         [] \<Rightarrow> (i, [])
       | c # rest \<Rightarrow> (i, takeWhile (\<lambda>c. \<not> is_space c) (dropWhile is_space rest))))"

definition set_ird_all :: "int ecu" where
  "set_ird_all = do {
     emit MutexTake;
     f \<leftarrow> read_file path_set_ird;
     (case f of
        None \<Rightarrow> ret ()
      | Some txt \<Rightarrow>
          (let buff = cstr (first_line 254 txt) in
           if length buff > 0
           then do {
             let (i, value) = scan_id_value buff;
             clear_ird_flag_all;
             (if i = ''ALL''
              then do { send_ird_command_all (u8 (atoi value)); get_ird_all; ret () }
              else ret ()) }
           else ret ()));
     emit MutexRelease;
     ret 0 }"

definition get_ird_from_inverters :: "int ecu" where
  "get_ird_from_inverters = do {
     emit MutexTake;
     f \<leftarrow> read_file path_get_ird;
     (case f of
        None \<Rightarrow> ret ()
      | Some txt \<Rightarrow>
          if cstr (first_line 255 txt) = ''ALL''
          then do { write_file path_get_ird []; get_ird_all; ret () }
          else ret ());
     emit MutexRelease;
     ret 0 }"

definition process_ird :: "ecu_state \<Rightarrow> ecu_state option" where
  "process_ird s = set_ird_single s"

definition process_ird_all :: "int ecu" where
  "process_ird_all = do { set_ird_all; get_ird_from_inverters; ret 0 }"

end
