(* ===== verification/Queue_Spec.thy ===== *)
theory Queue_Spec
  imports Command_Queues
begin

text \<open>
  What the request files guarantee. \<open>request_queue\<close> is the contract of a handler that takes
  the first line of a line file, removes every line of that id and serves the request: the
  handler ends, each id is served once, with its first request, and the file ends up empty.
  The contract holds for switching on and off and for clearing the ground-fault flag.
\<close>

section \<open>Requests\<close>

text \<open>A request: an id of twelve digits, a comma and the rest of a short line.\<close>

definition request :: "string \<Rightarrow> bool" where
  "request l = (short_line l \<and> valid_id (take 12 l) \<and> take 1 (drop 12 l) = '','')"

fun first_requests :: "string list \<Rightarrow> string list" where
  "first_requests [] = []"
| "first_requests (l # ls) = l # first_requests (filter (\<lambda>l'. \<not> keyed (take 12 l) l') ls)"

fun run_all :: "(string \<Rightarrow> unit ecu) \<Rightarrow> string list \<Rightarrow> unit ecu" where
  "run_all f [] = ret ()"
| "run_all f (l # ls) = do { f l; run_all f ls }"

lemma first_requests_subset: "set (first_requests ls) \<subseteq> set ls"
  by (induction ls rule: first_requests.induct) auto

lemma first_requests_keys: "take 12 ` set (first_requests ls) = take 12 ` set ls"
proof (induction ls rule: first_requests.induct)
  case (2 l ls)
  then show ?case by (auto simp: keyed_def image_iff; metis)
qed simp

lemma first_requests_distinct: "distinct (map (take 12) (first_requests ls))"
proof (induction ls rule: first_requests.induct)
  case (2 l ls)
  have "take 12 l \<notin> take 12 ` set (first_requests (filter (\<lambda>l'. \<not> keyed (take 12 l) l') ls))"
    by (auto simp: first_requests_keys keyed_def)
  with 2 show ?case by simp
qed simp

lemma valid_id_key: "valid_id i \<Longrightarrow> id_key i"
  by (simp add: id_key_def valid_id_no_nul) (simp add: valid_id_def)

lemma request_key: "request l \<Longrightarrow> id_key (take 12 l)"
  by (simp add: request_def valid_id_key)

lemma request_split:
  assumes "request l"
  obtains i rest where "l = i @ '','' @ rest" "valid_id i" "take 12 l = i"
proof -
  have v: "valid_id (take 12 l)" and c: "take 1 (drop 12 l) = '',''"
    using assms by (simp_all add: request_def)
  obtain rest where "drop 12 l = CHR '','' # rest"
    using c by (cases "drop 12 l") auto
  then have "l = take 12 l @ '','' @ rest" by (metis append_Cons append_Nil append_take_drop_id)
  then show ?thesis using v that by blast
qed

lemma request_fields:
  assumes "request l"
  shows "cstr l = l" "fld (splitString l) 0 = take 12 l"
proof -
  show "cstr l = l" using assms by (simp add: request_def short_line_def)
  obtain i rest where l: "l = i @ '','' @ rest" "valid_id i" "take 12 l = i"
    using assms by (rule request_split)
  have "CHR '','' \<notin> set i" using valid_id_plain[OF l(2)] by (auto simp: plain_char_def)
  then show "fld (splitString l) 0 = take 12 l" using l by (simp add: fld_def)
qed

locale request_queue = line_store del ins entries ready
  for del :: "string \<Rightarrow> int ecu" and ins :: "string \<Rightarrow> int ecu"
    and entries :: "ecu_state \<Rightarrow> string list" and ready :: "ecu_state \<Rightarrow> bool" +
  fixes serve :: "string \<Rightarrow> unit ecu"
    and loop :: "nat \<Rightarrow> ecu_state \<Rightarrow> ecu_state option"
  assumes serve_entries: "entries (exec (serve l) s) = entries s"
    and serve_ready: "ready s \<Longrightarrow> ready (exec (serve l) s)"
    and loop_stop: "ready s \<Longrightarrow> entries s = [] \<Longrightarrow> loop n s = Some s"
    and loop_step: "ready s \<Longrightarrow> entries s = l # ls \<Longrightarrow> request l \<Longrightarrow>
      loop (Suc n) s = loop n (exec (do { del (take 12 l); serve l }) s)"
begin

lemma drains:
  assumes "ready s" "\<forall>l \<in> set (entries s). request l" "length (entries s) \<le> n"
  shows "\<exists>t. loop n s = Some t \<and> ready t \<and> entries t = []
    \<and> t = exec (run_all (\<lambda>l. do { del (take 12 l); serve l }) (first_requests (entries s))) s"
  using assms
proof (induction n arbitrary: s)
  case 0
  then show ?case by (simp add: loop_stop)
next
  case (Suc n)
  show ?case
  proof (cases "entries s")
    case Nil
    with Suc.prems show ?thesis by (simp add: loop_stop)
  next
    case (Cons l ls)
    have l: "request l" using Suc.prems(2) Cons by simp
    let ?t = "exec (do { del (take 12 l); serve l }) s"
    let ?fs = "filter (\<lambda>l'. \<not> keyed (take 12 l) l') ls"
    obtain r u where d: "run_state (del (take 12 l)) s = (r, u)" by fastforce
    have u: "ready u" "entries u = ?fs"
      using del_ready[OF Suc.prems(1) request_key[OF l]] del_entries[OF Suc.prems(1) request_key[OF l]] d Cons
      by (auto simp: keyed_def)
    have t: "?t = exec (serve l) u" by (simp add: d)
    have rt: "ready ?t" "entries ?t = ?fs"
      using u serve_ready[of u l] serve_entries[of l u] by (simp_all only: t)
    have "length ?fs \<le> n" using Suc.prems(3) Cons le_trans[OF length_filter_le] by simp
    moreover have "\<forall>l \<in> set ?fs. request l" using Suc.prems(2) Cons by simp
    ultimately obtain v where v: "loop n ?t = Some v" "ready v" "entries v = []"
      "v = exec (run_all (\<lambda>l. do { del (take 12 l); serve l }) (first_requests ?fs)) ?t"
      using Suc.IH[of ?t] rt by (auto simp only: rt)
    have "loop (Suc n) s = Some v" using loop_step[OF Suc.prems(1) Cons l] v(1) by simp
    moreover have "v = exec (run_all (\<lambda>l. do { del (take 12 l); serve l }) (first_requests (entries s))) s"
      using v(4) Cons by (simp add: d case_prod_beta)
    ultimately show ?thesis using v by blast
  qed
qed

end

section \<open>The two request files\<close>

definition onoff_serve :: "string \<Rightarrow> unit ecu" where
  "onoff_serve l = turn_one (take 12 l) (atoi (fld (splitString l) 1))"

definition gfdi_serve :: "string \<Rightarrow> unit ecu" where
  "gfdi_serve l = clear_gfdi_one (take 12 l)"

lemma same_files_store:
  "same_files s t \<Longrightarrow> store_lines p t = store_lines p s"
  "same_files s t \<Longrightarrow> store_ok p tmp s \<Longrightarrow> store_ok p tmp t"
  by (simp_all add: same_files_def store_lines_def store_ok_def)

lemma turn_one_files: "same_files s (exec (turn_one i f) s)"
proof -
  have "state_io_rel same_files (turn_one i f)"
    unfolding turn_one_def by (intro eff_intros)
  then show ?thesis by (rule state_io_relE)
qed

lemma clear_gfdi_one_files: "same_files s (exec (clear_gfdi_one i) s)"
proof -
  have "state_io_rel same_files (clear_gfdi_one i)"
    unfolding clear_gfdi_one_def by (intro eff_intros)
  then show ?thesis by (rule state_io_relE)
qed

lemma run_get_turn_on_off_flag:
  assumes "store_ok path_turnonof path_turnof_tmp s"
  shows "run_state get_turn_on_off_flag s = (case store_lines path_turnonof s of
      [] \<Rightarrow> ((False, [], 0), s)
    | l # ls \<Rightarrow> ((True, fld (splitString (cstr l)) 0, atoi (fld (splitString (cstr l)) 1)), s))"
proof -
  obtain ls where ls: "files s path_turnonof = Some (concat ls)" "\<And>l. l \<in> set ls \<Longrightarrow> short_line l"
    "store_lines path_turnonof s = ls"
    using assms by (rule store_okE) blast
  have "fgets_lines 199 (concat ls) = ls" using ls(2) by (intro fgets_short) auto
  then show ?thesis using ls by (simp add: get_turn_on_off_flag_def read_file_def Let_def split: list.split)
qed

lemma run_get_clear_gfdi_flag:
  assumes "store_ok path_clrgfdi path_clrgfdi_tmp s"
  shows "run_state get_clear_gfdi_flag s = (case store_lines path_clrgfdi s of
      [] \<Rightarrow> ((False, []), s)
    | l # ls \<Rightarrow> ((True, fld (splitString (cstr l)) 0), s))"
proof -
  obtain ls where ls: "files s path_clrgfdi = Some (concat ls)" "\<And>l. l \<in> set ls \<Longrightarrow> short_line l"
    "store_lines path_clrgfdi s = ls"
    using assms by (rule store_okE) blast
  have "fgets_lines 199 (concat ls) = ls" using ls(2) by (intro fgets_short) auto
  then show ?thesis using ls by (simp add: get_clear_gfdi_flag_def read_file_def split: list.split)
qed

interpretation onoff: request_queue "\<lambda>k. delete_line path_turnonof path_turnof_tmp k 12"
    "insert_line path_turnonof" "store_lines path_turnonof" "store_ok path_turnonof path_turnof_tmp"
    onoff_serve "\<lambda>n. turn_on_off_loop"
proof unfold_locales
  fix l s n ls
  show "store_lines path_turnonof (exec (onoff_serve l) s) = store_lines path_turnonof s"
    unfolding onoff_serve_def by (rule same_files_store(1)[OF turn_one_files])
  show "store_ok path_turnonof path_turnof_tmp s \<Longrightarrow>
      store_ok path_turnonof path_turnof_tmp (exec (onoff_serve l) s)"
    unfolding onoff_serve_def by (rule same_files_store(2)[OF turn_one_files])
  show "store_ok path_turnonof path_turnof_tmp s \<Longrightarrow> store_lines path_turnonof s = [] \<Longrightarrow>
      turn_on_off_loop s = Some s"
    by (subst turn_on_off_loop.simps) (simp add: run_get_turn_on_off_flag)
  show "turn_on_off_loop s = turn_on_off_loop
      (exec (do { delete_line path_turnonof path_turnof_tmp (take 12 l) 12; onoff_serve l }) s)"
    if "store_ok path_turnonof path_turnof_tmp s" "store_lines path_turnonof s = l # ls" "request l"
    using that by (subst turn_on_off_loop.simps)
      (simp add: run_get_turn_on_off_flag request_fields clear_turn_on_off_flag_def onoff_serve_def
        split: prod.split)
qed

interpretation gfdiq: request_queue "\<lambda>k. delete_line path_clrgfdi path_clrgfdi_tmp k 12"
    "insert_line path_clrgfdi" "store_lines path_clrgfdi" "store_ok path_clrgfdi path_clrgfdi_tmp"
    gfdi_serve "\<lambda>n s. Some (exec (clear_gfdi_loop n) s)"
proof unfold_locales
  fix l s n ls
  show "store_lines path_clrgfdi (exec (gfdi_serve l) s) = store_lines path_clrgfdi s"
    unfolding gfdi_serve_def by (rule same_files_store(1)[OF clear_gfdi_one_files])
  show "store_ok path_clrgfdi path_clrgfdi_tmp s \<Longrightarrow>
      store_ok path_clrgfdi path_clrgfdi_tmp (exec (gfdi_serve l) s)"
    unfolding gfdi_serve_def by (rule same_files_store(2)[OF clear_gfdi_one_files])
  show "store_ok path_clrgfdi path_clrgfdi_tmp s \<Longrightarrow> store_lines path_clrgfdi s = [] \<Longrightarrow>
      Some (exec (clear_gfdi_loop n) s) = Some s"
    by (cases n) (simp_all add: run_get_clear_gfdi_flag)
  show "Some (exec (clear_gfdi_loop (Suc n)) s) = Some (exec (clear_gfdi_loop n)
      (exec (do { delete_line path_clrgfdi path_clrgfdi_tmp (take 12 l) 12; gfdi_serve l }) s))"
    if "store_ok path_clrgfdi path_clrgfdi_tmp s" "store_lines path_clrgfdi s = l # ls" "request l"
    using that
    by (simp add: run_get_clear_gfdi_flag request_fields clear_clear_gfdi_flag_def gfdi_serve_def
        split: prod.split)
qed


text \<open>
  C1. Switching inverters on and off ends on every well-formed request file: the file is
  empty afterwards, and what was done, between taking and releasing the record mutex, is
  one service for each id in the file, with the first request of that id.
\<close>

theorem turn_on_off_serves_each_once:
  assumes "store_ok path_turnonof path_turnof_tmp s"
    "\<forall>l \<in> set (store_lines path_turnonof s). request l"
  shows "let rs = first_requests (store_lines path_turnonof s);
      t = exec (do { emit MutexTake;
        run_all (\<lambda>l. do { delete_line path_turnonof path_turnof_tmp (take 12 l) 12; onoff_serve l }) rs;
        emit MutexRelease }) s
    in turn_on_off s = Some t \<and> store_lines path_turnonof t = []
      \<and> distinct (map (take 12) rs)
      \<and> take 12 ` set rs = take 12 ` set (store_lines path_turnonof s)"
proof -
  let ?s = "exec (emit MutexTake) s"
  have s: "same_files s ?s" by (simp add: same_files_def emit_def)
  have e: "store_lines path_turnonof ?s = store_lines path_turnonof s"
    "store_ok path_turnonof path_turnof_tmp ?s"
    using same_files_store(1)[OF s] same_files_store(2)[OF s assms(1)] by auto
  obtain t where t: "turn_on_off_loop ?s = Some t" "store_lines path_turnonof t = []"
    "t = exec (run_all (\<lambda>l. do { delete_line path_turnonof path_turnof_tmp (take 12 l) 12; onoff_serve l })
       (first_requests (store_lines path_turnonof s))) ?s"
    using onoff.drains[of ?s "length (store_lines path_turnonof s)"] e assms(2) by (auto simp only: e)
  have rel: "same_files t (exec (emit MutexRelease) t)" by (simp add: same_files_def emit_def)
  have "turn_on_off s = Some (exec (emit MutexRelease) t)" using t(1) by (simp add: turn_on_off_def)
  moreover have "store_lines path_turnonof (exec (emit MutexRelease) t) = []"
    using same_files_store(1)[OF rel] t(2) by simp
  moreover have "exec (emit MutexRelease) t = exec (do { emit MutexTake;
        run_all (\<lambda>l. do { delete_line path_turnonof path_turnof_tmp (take 12 l) 12; onoff_serve l })
          (first_requests (store_lines path_turnonof s));
        emit MutexRelease }) s"
    by (simp add: t(3) emit_def case_prod_beta)
  ultimately show ?thesis
    by (simp only: Let_def first_requests_distinct first_requests_keys simp_thms)
qed

theorem turn_on_off_serves_each_once_witness:
  defines "ls \<equiv> [''408000000001,1'' @ [NL], ''408000000002,2'' @ [NL]]"
  shows "turn_on_off (blank\<lparr>files := [path_turnonof \<mapsto> concat ls]\<rparr>) \<noteq> None"
proof -
  have ls: "\<forall>l \<in> set ls. request l" unfolding ls_def by code_simp
  then have "\<forall>l \<in> set ls. short_line l" by (auto simp: request_def)
  then have "store_ok path_turnonof path_turnof_tmp (blank\<lparr>files := [path_turnonof \<mapsto> concat ls]\<rparr>)"
    "store_lines path_turnonof (blank\<lparr>files := [path_turnonof \<mapsto> concat ls]\<rparr>) = ls"
    by (simp_all add: store_file store_file_lines path_turnonof_def path_turnof_tmp_def)
  then show ?thesis using turn_on_off_serves_each_once[of "blank\<lparr>files := [path_turnonof \<mapsto> concat ls]\<rparr>"] ls
    by (simp add: Let_def)
qed

text \<open>
  Clearing the ground-fault flag takes at most 120 requests in one pass; a well-formed
  file of at most that many lines is emptied, each id in it served once.
\<close>

lemma clear_gfdi_serves_each_once:
  assumes "store_ok path_clrgfdi path_clrgfdi_tmp s"
    "\<forall>l \<in> set (store_lines path_clrgfdi s). request l"
    "length (store_lines path_clrgfdi s) \<le> MAXINVERTERCOUNT"
  shows "store_lines path_clrgfdi (exec clear_gfdi s) = []
    \<and> exec clear_gfdi s = exec (do { emit MutexTake;
        run_all (\<lambda>l. do { delete_line path_clrgfdi path_clrgfdi_tmp (take 12 l) 12; gfdi_serve l })
          (first_requests (store_lines path_clrgfdi s));
        emit MutexRelease }) s"
proof -
  let ?s = "exec (emit MutexTake) s"
  have s: "same_files s ?s" by (simp add: same_files_def emit_def)
  have e: "store_lines path_clrgfdi ?s = store_lines path_clrgfdi s"
    "store_ok path_clrgfdi path_clrgfdi_tmp ?s"
    using same_files_store(1)[OF s] same_files_store(2)[OF s assms(1)] by auto
  obtain t where t: "exec (clear_gfdi_loop MAXINVERTERCOUNT) ?s = t" "store_lines path_clrgfdi t = []"
    "t = exec (run_all (\<lambda>l. do { delete_line path_clrgfdi path_clrgfdi_tmp (take 12 l) 12; gfdi_serve l })
       (first_requests (store_lines path_clrgfdi s))) ?s"
    using gfdiq.drains[of ?s MAXINVERTERCOUNT] e assms(2,3) by auto
  have rel: "same_files t (exec (emit MutexRelease) t)" by (simp add: same_files_def emit_def)
  have "exec clear_gfdi s = exec (emit MutexRelease) t"
    using t(1) by (simp add: clear_gfdi_def emit_def case_prod_beta)
  moreover have "store_lines path_clrgfdi (exec (emit MutexRelease) t) = []"
    using same_files_store(1)[OF rel] t(2) by simp
  moreover have "exec (emit MutexRelease) t = exec (do { emit MutexTake;
        run_all (\<lambda>l. do { delete_line path_clrgfdi path_clrgfdi_tmp (take 12 l) 12; gfdi_serve l })
          (first_requests (store_lines path_clrgfdi s));
        emit MutexRelease }) s"
    by (simp add: t(3) emit_def case_prod_beta)
  ultimately show ?thesis by simp
qed

section \<open>A malformed request\<close>

text \<open>
  A comma within the first twelve characters: the first field of the line is shorter than
  an id. No complete line compares equal to it over twelve bytes, so it is never removed.
\<close>

definition stuck_line :: "string \<Rightarrow> bool" where
  "stuck_line l = (CHR '','' \<in> set (take 12 l))"

definition stuck :: "ecu_state \<Rightarrow> bool" where
  "stuck s = (store_ok path_turnonof path_turnof_tmp s
     \<and> (\<exists>l ls. store_lines path_turnonof s = l # ls \<and> stuck_line l))"

lemma splitString_hd: "fld (splitString s) 0 = takeWhile (\<lambda>c. c \<noteq> CHR '','') s"
proof (induction s)
  case (Cons c s)
  then show ?case
    by (cases "splitString s") (auto simp: fld_def)
qed (simp add: fld_def)

lemma length_takeWhile_less_take: "x \<in> set (take n l) \<Longrightarrow> length (takeWhile (\<lambda>c. c \<noteq> x) l) < n"
proof (induction l arbitrary: n)
  case (Cons c l)
  then show ?case by (cases n) auto
qed simp

lemma short_key_no_match:
  assumes "is_line l" "length f < 12" "no_nul f" "NL \<notin> set f"
  shows "\<not> memeq l f 12"
proof
  assume m: "memeq l f 12"
  obtain b where b: "l = b @ [NL]" "NL \<notin> set b" "no_nul b" using assms(1) by (auto simp: is_line_def)
  have z: "zext 12 f = f @ replicate (12 - length f) NUL" using assms(2) by (simp add: zext_def)
  have "takeWhile (\<lambda>c. c \<noteq> NUL) (zext 12 f) = f"
    using assms(2,3) by (simp add: z takeWhile_append no_nul_def) 
  moreover have "takeWhile (\<lambda>c. c \<noteq> NUL) (zext 12 l) = take 12 l"
  proof (cases "12 \<le> length l")
    case True
    then have "zext 12 l = take 12 l" by (rule zext_take)
    moreover have "c \<noteq> NUL" if "c \<in> set (take 12 l)" for c
      using that is_line_no_nul[OF assms(1)] in_set_takeD[of c 12 l] by (auto simp: no_nul_def)
    ultimately show ?thesis by (simp add: takeWhile_eq_all_conv)
  next
    case False
    then have "zext 12 l = l @ replicate (12 - length l) NUL" by (simp add: zext_def)
    moreover have "no_nul l" using is_line_no_nul[OF assms(1)] .
    ultimately show ?thesis using False by (simp add: takeWhile_append no_nul_def)
  qed
  ultimately have f: "f = take 12 l" using m by (simp add: memeq_def)
  then have "length l < 12" using assms(2) by simp
  then have "NL \<in> set f" using f b by simp
  then show False using assms(4) by simp
qed

lemma stuck_step:
  assumes "stuck s"
  shows "\<exists>i fl. run_state get_turn_on_off_flag s = ((True, i, fl), s)
    \<and> stuck (exec (do { clear_turn_on_off_flag i; turn_one i fl }) s)"
proof -
  obtain l ls where ok: "store_ok path_turnonof path_turnof_tmp s"
    and l: "store_lines path_turnonof s = l # ls" "stuck_line l"
    using assms by (auto simp: stuck_def)
  obtain ls' where ls': "files s path_turnonof = Some (concat ls')" "\<And>k. k \<in> set ls' \<Longrightarrow> short_line k"
    "store_lines path_turnonof s = ls'" "path_turnonof \<noteq> path_turnof_tmp"
    "can_write s path_turnonof" "can_write s path_turnof_tmp"
    using ok by (rule store_okE) blast
  have lines: "short_line k" if "k \<in> set (l # ls)" for k using ls'(2,3) l(1) that by simp
  let ?i = "fld (splitString (cstr l)) 0"
  have il: "is_line l" using lines[of l] by (simp add: short_line_def)
  then obtain b where b: "l = b @ [NL]" "no_nul l" "NL \<notin> set b"
    using is_line_no_nul[OF il] by (auto simp: is_line_def)
  have ti: "?i = takeWhile (\<lambda>c. c \<noteq> CHR '','') l"
    using il by (simp add: splitString_hd)
  have "length ?i < 12" using l(2) by (simp add: ti stuck_line_def length_takeWhile_less_take)
  moreover have "no_nul ?i" using b(2) unfolding ti by (auto simp: no_nul_def dest: set_takeWhileD)
  moreover have "NL \<notin> set ?i"
  proof -
    have "CHR '','' \<in> set b" using l(2) b(1) in_set_takeD[of _ 12 l] by (auto simp: stuck_line_def NL_def)
    then have "?i = takeWhile (\<lambda>c. c \<noteq> CHR '','') b" 
      unfolding ti by (simp add: b(1) takeWhile_append1)
    then show ?thesis using b(3) by (auto dest: set_takeWhileD)
  qed
  ultimately have no: "\<not> memeq k ?i 12" if "k \<in> set (l # ls)" for k
    using lines[OF that] short_key_no_match[of k ?i] by (simp add: short_line_def)
  let ?fl = "atoi (fld (splitString (cstr l)) 1)"
  let ?d = "exec (clear_turn_on_off_flag ?i) s"
  have keep: "filter (\<lambda>k. \<not> memeq k ?i 12) ls' = ls'" using no ls'(3) l(1) by (auto simp: filter_id_conv)
  have "fgets_lines 511 (concat ls') = ls'" using ls'(2) by (intro fgets_short) auto
  then have d: "files ?d path_turnonof = Some (concat ls')" "can_write ?d = can_write s"
    using ls' keep cstr_short[OF ls'(2)]
    by (simp_all add: clear_turn_on_off_flag_def delete_line_def read_file_def write_file_def
        remove_file_def rename_file_def)
  have "stuck ?d"
    unfolding stuck_def store_ok_def
    using d ls' store_lines_concat[OF d(1) ls'(2)] l by (auto intro!: exI[of _ ls'])
  moreover have "exec (do { clear_turn_on_off_flag ?i; turn_one ?i ?fl }) s = exec (turn_one ?i ?fl) ?d"
    by (simp add: case_prod_beta)
  ultimately have "stuck (exec (do { clear_turn_on_off_flag ?i; turn_one ?i ?fl }) s)"
    using same_files_store[OF turn_one_files[of ?d ?i ?fl]] by (simp add: stuck_def)
  then show ?thesis using run_get_turn_on_off_flag[OF ok] l(1) by simp
qed

lemma stuck_loop: "turn_on_off_loop s = Some t \<Longrightarrow> \<not> stuck s"
proof (rule turn_on_off_loop.raw_induct[where P = "\<lambda>s t. \<not> stuck s"])
  fix loop s t
  assume IH: "\<And>s t. loop s = Some t \<Longrightarrow> \<not> stuck s"
    and body: "(case run_state get_turn_on_off_flag s of
       ((found, i, fl), s1) \<Rightarrow> if \<not> found then Some s1
         else loop (exec (do { clear_turn_on_off_flag i; turn_one i fl }) s1)) = Some t"
  show "\<not> stuck s"
  proof
    assume st: "stuck s"
    obtain i fl where step: "run_state get_turn_on_off_flag s = ((True, i, fl), s)"
      "stuck (exec (do { clear_turn_on_off_flag i; turn_one i fl }) s)"
      using stuck_step[OF st] by blast
    show False using body IH step by (simp add: step(1))
  qed
qed

text \<open>
  A request whose id is shorter than twelve characters makes \<open>turn_on_off\<close> loop for
  ever: \<open>delete_line\<close> compares twelve characters, so the request is never removed, and the
  loop has no bound. The record mutex stays taken.
\<close>

lemma turn_on_off_stuck:
  assumes "store_ok path_turnonof path_turnof_tmp s"
    "store_lines path_turnonof s = l # ls" "CHR '','' \<in> set (take 12 l)"
  shows "turn_on_off s = None"
proof -
  have s: "same_files s (exec (emit MutexTake) s)" by (simp add: same_files_def emit_def)
  have "stuck (exec (emit MutexTake) s)"
    using assms same_files_store[OF s] by (simp add: stuck_def stuck_line_def)
  then show ?thesis
    using stuck_loop by (cases "turn_on_off_loop (exec (emit MutexTake) s)") (auto simp: turn_on_off_def)
qed

end
