(* ===== verification/Ird_Spec.thy ===== *)
theory Ird_Spec
  imports Queue_Spec
begin

text \<open>
  The loop of \<open>set_ird_single\<close> ends: every round clears the flag of one entry, and nothing
  that happens in between, replies of the inverter included, sets a flag again.
\<close>

section \<open>Entries of the IRD file\<close>

definition ird_entry :: "string \<Rightarrow> bool" where
  "ird_entry l = (length l \<le> 99 \<and> (\<exists>i p v f. valid_id i \<and> plain p \<and> plain v \<and> plain f
     \<and> int32 (atoi p) \<and> l = i @ '','' @ p @ '','' @ v @ '','' @ f @ [NL]))"

definition ird_ok :: "ecu_state \<Rightarrow> bool" where
  "ird_ok s = (store_ok path_ird path_ird_tmp s \<and> (\<forall>l \<in> set (store_lines path_ird s). ird_entry l))"

definition ird_pending :: "ecu_state \<Rightarrow> string list" where
  "ird_pending s = filter ird_flagged (store_lines path_ird s)"

lemma ird_entryE:
  assumes "ird_entry l"
  obtains i p v f where "valid_id i" "int32 (atoi p)" "take 12 l = i" "short_line l"
    "splitString (cstr l) = [i, p, v, f @ [NL]]"
proof -
  obtain i p v f where e: "length l \<le> 99" "valid_id i" "plain p" "plain v" "plain f" "int32 (atoi p)"
    "l = i @ '','' @ p @ '','' @ v @ '','' @ f @ [NL]"
    using assms by (auto simp: ird_entry_def)
  note pl = plain_valid_id[OF e(2)] e(3-5)
  have "is_line ((i @ '','' @ p @ '','' @ v @ '','' @ f) @ [NL])"
    using pl[THEN plain_line] comma_line by (intro is_lineI) auto
  then have il: "is_line l" by (simp add: e(7))
  have "CHR '','' \<notin> set (f @ [NL])" using plain_no_comma[OF pl(4)] by (simp add: NL_def)
  then have "splitString (f @ [NL]) = [f @ [NL]]" by (rule splitString_nocomma)
  then have "splitString l = [i, p, v, f @ [NL]]"
    using pl[THEN plain_no_comma] by (simp add: e(7))
  moreover have "take 12 l = i" using e(2,7) by (simp add: valid_id_def)
  ultimately show ?thesis using that e(1,2,6) il by (simp add: short_line_def)
qed

lemma ird_entry_line:
  assumes "valid_id i" "int32 m"
  shows "ird_entry (ird_line i m)" "\<not> ird_flagged (ird_line i m)" "take 12 (ird_line i m) = i"
proof -
  have "length (fmt_d m) \<le> 11"
    using length_fmt_d[of m 10] assms(2) by (simp add: int32_def abs_if split: if_splits)
  then have len: "length (ird_line i m) \<le> 99"
    using assms(1) by (simp add: ird_line_def valid_id_def)
  have p: "plain (fmt_d m)" "plain ''''" "plain ''0''"
    using fmt_d_plain by (auto simp: plain_def plain_char_def NL_def NUL_def)
  have eq: "ird_line i m = i @ '','' @ fmt_d m @ '','' @ '''' @ '','' @ ''0'' @ [NL]"
    by (simp add: ird_line_def)
  show e: "ird_entry (ird_line i m)"
    unfolding ird_entry_def
    using assms p len eq by (intro conjI exI[of _ i] exI[of _ "fmt_d m"] exI[of _ "''''"] exI[of _ "''0''"]) simp_all
  have "cstr (ird_line i m) = ird_line i m"
    using e by (rule ird_entryE) (simp add: short_line_def)
  moreover have "splitString ''0'' = [''0'']" by simp
  moreover have "splitString [CHR ''0'', NL] = [[CHR ''0'', NL]]" by (simp add: NL_def)
  ultimately have "splitString (cstr (ird_line i m)) = [i, fmt_d m, '''', [CHR ''0'', NL]]"
    using plain_no_comma[OF plain_valid_id[OF assms(1)]] by (simp add: eq)
  moreover have "atoi [CHR ''0'', NL] = 0"
    by (simp add: atoi_def is_space_def is_digit_def digit_val_def NL_def)
  ultimately show "\<not> ird_flagged (ird_line i m)" by (simp add: ird_flagged_def fld_def)
  show "take 12 (ird_line i m) = i" using assms(1) by (simp add: ird_line_def valid_id_def)
qed

section \<open>What a round may do\<close>

definition ird_progress :: "ecu_state \<Rightarrow> ecu_state \<Rightarrow> bool" where
  "ird_progress s t = (ird_ok s \<longrightarrow> ird_ok t \<and> length (ird_pending t) \<le> length (ird_pending s))"

lemma ird_same_file:
  assumes "files t path_ird = files s path_ird" "can_write t = can_write s"
  shows "ird_progress s t"
  using assms by (simp add: ird_progress_def ird_ok_def ird_pending_def store_ok_def store_lines_def)

interpretation irdp: zb_effect ird_progress "\<lambda>_. True"
proof unfold_locales
  show "ird_progress s s" for s by (simp add: ird_progress_def)
  show "ird_progress s u" if "ird_progress s t" "ird_progress t u" for s t u
    using that unfolding ird_progress_def by linarith
qed (simp_all add: ird_same_file)

lemma set_ird_entry_effect:
  assumes "ird_ok s" "valid_id i" "int32 m"
  shows "ird_ok (exec (set_ird_entry i m) s)
    \<and> store_lines path_ird (exec (set_ird_entry i m) s)
      = filter (\<lambda>l. \<not> keyed i l) (store_lines path_ird s) @ [ird_line i m]
    \<and> ird_pending (exec (set_ird_entry i m) s) = filter (\<lambda>l. \<not> keyed i l) (ird_pending s)"
proof -
  have l: "short_line (ird_line i m)"
    using ird_entry_line(1)[OF assms(2,3)] by (rule ird_entryE) simp
  have run: "exec (set_ird_entry i m) s
      = exec (do { delete_line path_ird path_ird_tmp i 12; retry (Suc 2) (insert_line path_ird (ird_line i m)) }) s"
    by (simp add: set_ird_entry_def case_prod_beta numeral_3_eq_3 numeral_2_eq_2)
  have u: "store_ok path_ird path_ird_tmp (exec (set_ird_entry i m) s)"
    "store_lines path_ird (exec (set_ird_entry i m) s)
      = filter (\<lambda>l. \<not> keyed i l) (store_lines path_ird s) @ [ird_line i m]"
    unfolding run
    using irdq.upsert[of s i "ird_line i m" 2] assms(1) valid_id_key[OF assms(2)] l
    by (simp_all only: ird_ok_def Let_def simp_thms)
  then show ?thesis
    using assms(1) ird_entry_line[OF assms(2,3)]
    by (auto simp: ird_ok_def ird_pending_def conj_commute intro: filter_cong)
qed

lemma eff_set_ird_entry [eff_intros]:
  "valid_id i \<Longrightarrow> int32 m \<Longrightarrow> state_io_rel ird_progress (set_ird_entry i m)"
  by (auto simp: state_io_rel_def ird_progress_def set_ird_entry_effect)

lemma eff_read_line [eff_intros]: "state_io_rel ird_progress (read_line p k n)"
  unfolding read_line_def by (intro eff_intros)

lemma eff_save_result2 [eff_intros]: "state_io_rel ird_progress (save_inverter_parameters_result2 i item res)"
proof -
  have "path_ird \<noteq> path_iprocres dt" for dt by (simp add: path_iprocres_def path_ird_def)
  then have "state_io_rel ird_progress (append_file (path_iprocres dt) c)" for dt c
    by (auto simp: state_io_rel_def append_file_def intro!: ird_same_file)
  then show ?thesis
    unfolding save_inverter_parameters_result2_def by (intro eff_intros)
qed

lemma eff_resolve [eff_intros]:
  assumes "valid_id i"
  shows "state_io_rel ird_progress (resolve_ird i d)" "state_io_rel ird_progress (resolve_ird_DD i d)"
  unfolding resolve_ird_def resolve_ird_DD_def Let_def
  by (intro eff_intros assms int32_byte)+

lemma length_chk_payload: "length (chk_payload bs) = length bs + 6"
  by (simp add: chk_payload_def)

lemma eff_try_get_ird [eff_intros]:
  assumes "valid_id i"
  shows "state_io_rel ird_progress (try_get_ird addr i)"
  unfolding try_get_ird_def get_ird_single_def Let_def
  by (intro eff_intros assms) (simp_all add: length_chk_payload)

lemma eff_send_ird [eff_intros]: "state_io_rel ird_progress (send_ird_command_single addr v)"
  unfolding send_ird_command_single_def by (intro eff_intros) (simp add: length_chk_payload)

section \<open>Every flag is cleared\<close>

lemma ird_round:
  assumes ok: "ird_ok s" and some: "run_state get_ird_id_value s = (Some (addr, i, vl), s1)"
  shows "s1 = s \<and> valid_id i \<and> ird_ok (exec (clear_ird_flag_single i) s)
    \<and> length (ird_pending (exec (clear_ird_flag_single i) s)) < length (ird_pending s)"
proof -
  obtain ls where ls: "files s path_ird = Some (concat ls)" "\<And>l. l \<in> set ls \<Longrightarrow> short_line l"
    "store_lines path_ird s = ls"
    using ok unfolding ird_ok_def by (auto elim: store_okE)
  have en: "ird_entry l" if "l \<in> set ls" for l using ok ls(3) that by (simp add: ird_ok_def)
  have f199: "fgets_lines 199 (concat ls) = ls" using ls(2) by (intro fgets_short) auto
  have f99: "fgets_lines 99 (concat ls) = ls" using ls(2) by (intro fgets_short) auto
  obtain l where l: "find ird_flagged ls = Some l" "i = fld (splitString (cstr l)) 0" "s1 = s"
    using some ls(1) f199
    by (auto simp: get_ird_id_value_def read_file_def Let_def split: option.splits)
  have m: "l \<in> set ls" "ird_flagged l" using l(1) by (auto simp: find_Some_iff)
  obtain i' p v f where e: "valid_id i'" "take 12 l = i'" "splitString (cstr l) = [i', p, v, f @ [NL]]"
    using en[OF m(1)] by (rule ird_entryE)
  have i: "valid_id i" "keyed i l" using e l(2) by (simp_all add: fld_def keyed_def)
  have "\<exists>l'. find (\<lambda>l. memeq l i 12) ls = Some l' \<and> l' \<in> set ls"
  proof (cases "find (\<lambda>l. memeq l i 12) ls")
    case None
    then show ?thesis using m(1) i keyed_memeq[OF valid_id_key[OF i(1)]] by (auto simp: find_None_iff)
  qed (auto simp: find_Some_iff)
  then obtain l' where l': "find (\<lambda>l. memeq l i 12) ls = Some l'" "l' \<in> set ls" by blast
  obtain i2 p' v' f' where e': "int32 (atoi p')" "splitString (cstr l') = [i2, p', v', f' @ [NL]]"
    using en[OF l'(2)] by (rule ird_entryE)
  have run: "exec (clear_ird_flag_single i) s = exec (set_ird_entry i (atoi p')) s"
    using ls(1) f99 l'(1) e'(2)
    by (simp add: clear_ird_flag_single_def read_line_def read_file_def fld_def case_prod_beta)
  have "length (filter (\<lambda>l. \<not> keyed i l) (ird_pending s)) < length (ird_pending s)"
    using m i(2) ls(3) by (intro length_filter_less) (auto simp: ird_pending_def)
  then show ?thesis
    using set_ird_entry_effect[OF ok i(1) e'(1)] l(3) i(1) by (simp add: run)
qed

lemma set_ird_single_loop_ends:
  "ird_ok s \<Longrightarrow> \<exists>t. set_ird_single_loop s = Some t \<and> ird_ok t \<and> ird_pending t = []"
proof (induction "length (ird_pending s)" arbitrary: s rule: less_induct)
  case less
  obtain r s1 where r: "run_state get_ird_id_value s = (r, s1)" by fastforce
  have s1: "s1 = s" using r by (auto simp: get_ird_id_value_def read_file_def)
  show ?case
  proof (cases r)
    case None
    obtain ls where ls: "files s path_ird = Some (concat ls)" "\<And>l. l \<in> set ls \<Longrightarrow> short_line l"
      "store_lines path_ird s = ls"
      using less.prems unfolding ird_ok_def by (auto elim: store_okE)
    have "fgets_lines 199 (concat ls) = ls" using ls(2) by (intro fgets_short) auto
    then have "find ird_flagged ls = None"
      using r None ls(1) by (auto simp: get_ird_id_value_def read_file_def Let_def split: option.splits)
    then have "ird_pending s = []" using ls(3) by (simp add: ird_pending_def find_None_iff filter_empty_conv)
    moreover have "set_ird_single_loop s = Some s"
      using r None s1 by (subst set_ird_single_loop.simps) simp
    ultimately show ?thesis using less.prems by blast
  next
    case (Some q)
    obtain addr i vl where q: "q = (addr, i, vl)" by (cases q)
    let ?m = "if addr > 0 then do { send_ird_command_single addr (u8 (atoi vl));
        try_get_ird addr i; ret () } else ret ()"
    let ?c = "exec (clear_ird_flag_single i) s"
    let ?t = "exec (do { clear_ird_flag_single i; ?m }) s"
    have rd: "valid_id i" "ird_ok ?c" "length (ird_pending ?c) < length (ird_pending s)"
      using ird_round[OF less.prems, of addr i vl s1] r Some q by auto
    have "state_io_rel ird_progress ?m" by (intro eff_intros rd(1))
    then have "ird_progress ?c (exec ?m ?c)" by (rule state_io_relE)
    moreover have "?t = exec ?m ?c" by (simp only: exec_bind)
    ultimately have t: "ird_ok ?t" "length (ird_pending ?t) < length (ird_pending s)"
      using rd(2,3) unfolding ird_progress_def by auto
    have "set_ird_single_loop s = set_ird_single_loop ?t"
      using r s1 by (subst set_ird_single_loop.simps) (simp only: Some q prod.case option.case)
    then show ?thesis using less.hyps[OF t(2,1)] by simp
  qed
qed

text \<open>
  Setting the IRD mode of single inverters ends on every well-formed request file, even
  when an inverter has no short address or never answers, and leaves no flagged entry; the
  mutex is released.
\<close>

lemma set_ird_single_ends:
  assumes "ird_ok s"
  shows "\<exists>t. set_ird_single s = Some t \<and> ird_ok t \<and> ird_pending t = []
    \<and> (\<exists>es. trace t = es @ [MutexRelease])"
proof -
  have "ird_progress s (exec (emit MutexTake) s)" by (rule ird_same_file) (simp_all add: emit_def)
  then have "ird_ok (exec (emit MutexTake) s)" using assms by (simp add: ird_progress_def)
  then obtain t where t: "set_ird_single_loop (exec (emit MutexTake) s) = Some t" "ird_ok t" "ird_pending t = []"
    using set_ird_single_loop_ends by blast
  have same: "ird_progress t (exec (emit MutexRelease) t)" by (rule ird_same_file) (simp_all add: emit_def)
  then have "ird_ok (exec (emit MutexRelease) t)" "ird_pending (exec (emit MutexRelease) t) = []"
    using t(2,3) by (simp_all add: ird_progress_def)
  then show ?thesis using t(1) by (auto simp: set_ird_single_def emit_def)
qed

end
