(* ===== verification/Ema_Message.thy ===== *)
theory Ema_Message
  imports Line_Store
begin

text \<open>
  The messages exchanged with the EMA server
  (\<open>ECU/control_client/src/remote_control_protocol.c\<close>, \<open>msg_is_complete\<close> of \<open>mysocket.c\<close>):
  fields of decimal digits in which \<open>'A'\<close> stands for an absent digit, the header with its
  length field, acknowledgments, and the checks on what is received.
\<close>

section \<open>Fields\<close>

definition a_to_0 :: "char \<Rightarrow> char" where
  "a_to_0 c = (if c = CHR ''A'' then CHR ''0'' else c)"

definition msg_get_int :: "string \<Rightarrow> nat \<Rightarrow> int" where
  "msg_get_int s len =
     (let buffer = take len (cstr s) in
      if length (filter (\<lambda>c. c = CHR ''A'') buffer) \<ge> len then -1
      else atoi (map a_to_0 buffer))"

definition msg_version :: "string \<Rightarrow> int" where
  "msg_version msg = msg_get_int (drop 3 msg) 2"

definition msg_length :: "string \<Rightarrow> int" where
  "msg_length msg = msg_get_int (drop 5 msg) 5"

definition msg_cmd_id :: "string \<Rightarrow> int" where
  "msg_cmd_id msg = (let c = msg_get_int (drop 10 msg) 4 in
     if c = 101 then msg_get_int (drop 30 msg) 4 else c)"

definition msg_seq_id :: "string \<Rightarrow> int" where
  "msg_seq_id msg = msg_get_int (drop 14 msg) 4"

text \<open>The appending functions return the whole string.\<close>

definition msgcat_s :: "string \<Rightarrow> nat \<Rightarrow> string \<Rightarrow> string" where
  "msgcat_s s w v =
     (if w < length v then s @ take w v
      else s @ replicate (w - length v) (CHR ''0'') @ v)"

definition msgcat_d :: "string \<Rightarrow> nat \<Rightarrow> int \<Rightarrow> string" where
  "msgcat_d s w v =
     (if v < 0 then s @ replicate w (CHR ''A'')
      else if w < length (fmt_d v) then s @ take w (fmt_d v)
      else s @ replicate (w - length (fmt_d v)) (CHR ''0'') @ fmt_d v)"

section \<open>Messages\<close>

definition PROTOCOL_VERSION :: int where
  "PROTOCOL_VERSION = 13"

definition msg_Header :: "string \<Rightarrow> string" where
  "msg_Header cmd_id = take 18 (''APS'' @ fmt_0d 2 PROTOCOL_VERSION @ ''00000'' @ take 4 cmd_id @ ''AAA0'')"

text \<open>\<open>sprintf(msg_length, "%05d", strlen(sendbuffer)-1); strncpy(&sendbuffer[5], msg_length, 5)\<close>\<close>

definition put_length :: "string \<Rightarrow> string" where
  "put_length msg = take 5 msg @ take 5 (fmt_0d 5 (int (length msg) - 1)) @ drop 10 msg"

definition msg_REQ :: "string \<Rightarrow> string" where
  "msg_REQ ecuid = put_length (msg_Header ''A101'' @ ecuid @ ''A10100000000000000END'' @ [NL])"

definition ack_body :: "string \<Rightarrow> string \<Rightarrow> string \<Rightarrow> int \<Rightarrow> string" where
  "ack_body ecuid cmd_id timestamp ack_flag =
     take 12 ecuid @ take 4 cmd_id @ take 14 timestamp @ fmt_d ack_flag @ ''END'' @ [NL]"

definition msg_ACK :: "string \<Rightarrow> string \<Rightarrow> string \<Rightarrow> int \<Rightarrow> string" where
  "msg_ACK ecuid cmd_id timestamp ack_flag =
     put_length (msg_Header ''A100'' @ ack_body ecuid cmd_id timestamp ack_flag)"

section \<open>Checks\<close>

definition msg_format_check :: "string \<Rightarrow> string \<Rightarrow> int" where
  "msg_format_check ecuid msg =
     (if take 3 msg \<noteq> ''APS'' then -1
      else if msg_length msg \<noteq> int (length msg) then -1
      else if take 12 (drop 18 msg) \<noteq> take 12 ecuid \<and> msg_get_int (drop 10 msg) 4 \<noteq> 123 then -1
      else 0)"

definition msg_num_check :: "string \<Rightarrow> int \<Rightarrow> int \<Rightarrow> bool \<Rightarrow> bool" where
  "msg_num_check s num len withflag =
     (if withflag then int (length (cstr s)) = num * (len + 3) else int (length (cstr s)) = num * len + 3)"

definition find_END :: "string \<Rightarrow> nat option" where
  "find_END msg = find (\<lambda>k. take 3 (drop k msg) = ''END'') [0..<length msg]"

definition msg_get_one_section :: "string \<Rightarrow> int \<times> string" where
  "msg_get_one_section msg = (case find_END msg of
      None \<Rightarrow> (-1, [])
    | Some k \<Rightarrow> (int k, take k msg))"

text \<open>The comparison with \<open>strlen\<close> is unsigned: a negative length field is a huge number.\<close>

definition msg_is_complete :: "string \<Rightarrow> bool" where
  "msg_is_complete s = (10 \<le> length s
     \<and> atoi (map a_to_0 (take 5 (drop 5 s))) mod 2 ^ 32 \<le> int (length s))"

section \<open>Bounds of fields\<close>

text \<open>A field of \<open>n\<close> characters holds a number of at most \<open>n\<close> digits.\<close>

lemma digits_val_bound: "(\<And>c. c \<in> set s \<Longrightarrow> is_digit c) \<Longrightarrow> digits_val 0 s < 10 ^ length s"
proof (induction s)
  case (Cons c s)
  have "digit_val c \<le> 9" using Cons.prems[of c] by (auto simp: is_digit_def digit_val_def)
  then have "digit_val c * 10 ^ length s \<le> 9 * 10 ^ length s" by simp
  moreover have "digits_val 0 s < 10 ^ length s" using Cons by simp
  ultimately show ?case using digits_val_shift[of "digit_val c" s] by (simp only: digits_val.simps length_Cons power_Suc mult_0 add_0)
qed simp

lemma digits_prefix: "int (digits_val 0 (takeWhile is_digit s)) < 10 ^ n" if "length s \<le> n"
proof -
  have "digits_val 0 (takeWhile is_digit s) < 10 ^ length (takeWhile is_digit s)"
    by (rule digits_val_bound) (auto dest: set_takeWhileD)
  also have "\<dots> \<le> 10 ^ n" using that by (intro power_increasing) (auto intro: order_trans[OF length_takeWhile_le])
  finally show ?thesis by (simp only: of_nat_less_iff[symmetric, where 'a = int]) simp
qed

lemma atoi_bound:
  assumes "length s \<le> n"
  shows "atoi s < 10 ^ n" "- (10 ^ n) \<le> atoi s"
proof -
  have "atoi s < 10 ^ n \<and> - (10 ^ n) \<le> atoi s"
  proof (cases "dropWhile is_space s")
    case (Cons c cs)
    then have "length (c # cs) \<le> n" using assms by (metis length_dropWhile_le order_trans)
    then have "int (digits_val 0 (takeWhile is_digit cs)) < 10 ^ n" "int (digits_val 0 (takeWhile is_digit (c # cs))) < 10 ^ n"
      by (intro digits_prefix; simp)+
    moreover have "(0::int) < 10 ^ n" by simp
    ultimately show ?thesis unfolding atoi_def Cons list.case by (auto simp del: takeWhile.simps zero_less_power)
  next
    case Nil
    then show ?thesis by (simp add: atoi_def del: dropWhile_eq_Nil_conv)
  qed
  then show "atoi s < 10 ^ n" "- (10 ^ n) \<le> atoi s" by simp_all
qed

lemma msg_get_int_bound: "msg_get_int s n < 10 ^ n" "- (10 ^ n) \<le> msg_get_int s n"
proof -
  have "(-1::int) < 10 ^ n" by (rule less_le_trans[of _ 0]) simp_all
  moreover have "- (10 ^ n) \<le> (-1::int)" by simp
  ultimately show "msg_get_int s n < 10 ^ n" "- (10 ^ n) \<le> msg_get_int s n"
    using atoi_bound[of "map a_to_0 (take n (cstr s))" n] by (simp_all add: msg_get_int_def Let_def)
qed

section \<open>Fields round trip\<close>

lemma digit_not_A: "is_digit c \<Longrightarrow> c \<noteq> CHR ''A'' \<and> a_to_0 c = c \<and> c \<noteq> NUL"
  by (auto simp: is_digit_def a_to_0_def NUL_def)

lemma map_a_to_0_digits: "(\<And>c. c \<in> set s \<Longrightarrow> is_digit c) \<Longrightarrow> map a_to_0 s = s"
  by (simp add: digit_not_A map_idI)

lemma take_cstr_digits:
  assumes "NUL \<notin> set s"
  shows "take (length s) (cstr (s @ t)) = s"
  using assms by (auto simp: cstr_def takeWhile_append)

lemma msg_get_int_digits:
  assumes "\<And>c. c \<in> set s \<Longrightarrow> is_digit c" "s \<noteq> []"
  shows "msg_get_int (s @ t) (length s) = int (digits_val 0 s)"
proof -
  have b: "take (length s) (cstr (s @ t)) = s"
    using assms(1) digit_not_A by (intro take_cstr_digits) auto
  have "filter (\<lambda>c. c = CHR ''A'') s = []" using assms(1) digit_not_A by (auto simp: filter_empty_conv)
  then show ?thesis
    using assms atoi_digits[of s "[]"] by (simp add: msg_get_int_def b Let_def map_a_to_0_digits)
qed

lemma msg_get_int_absent: "0 < n \<Longrightarrow> msg_get_int (replicate n (CHR ''A'') @ t) n = -1"
proof -
  have "take n (cstr (replicate n (CHR ''A'') @ t)) = replicate n (CHR ''A'')"
    using take_cstr_digits[of "replicate n (CHR ''A'')" t] by (simp add: NUL_def)
  then show ?thesis by (simp add: msg_get_int_def Let_def)
qed

lemma msg_get_int_prefix:
  assumes "NUL \<notin> set s"
  shows "msg_get_int (s @ t) (length s) = msg_get_int s (length s)"
  using take_cstr_digits[OF assms, of t] take_cstr_digits[OF assms, of "[]"]
  by (simp add: msg_get_int_def)

lemma fmt_d_nonneg: "0 \<le> v \<Longrightarrow> fmt_d v = dec (nat v)"
  by (simp add: fmt_d_def)

text \<open>
  A number appended with \<open>msgcat_d\<close> in a field wide enough is what \<open>msg_get_int\<close> reads
  from that field, and every negative number is read as -1, the mark of an absent value.
\<close>

lemma field_roundtrip:
  assumes "0 < w" "v < 10 ^ w"
  shows "msg_get_int (drop (length s) (msgcat_d s w v) @ t) w = (if v < 0 then -1 else v)"
proof (cases "v < 0")
  case True
  then show ?thesis using assms by (simp add: msgcat_d_def msg_get_int_absent)
next
  case False
  let ?d = "dec (nat v)"
  have "nat v < 10 ^ w" using assms(2) False by (simp add: nat_less_iff)
  then have len: "length ?d \<le> w" using assms(1) by (rule length_dec_le)
  have f: "drop (length s) (msgcat_d s w v) = pad0 w ?d"
    using False len by (simp add: msgcat_d_def fmt_d_nonneg pad0_def)
  have "msg_get_int (pad0 w ?d @ t) (length (pad0 w ?d)) = int (digits_val 0 (pad0 w ?d))"
    using dec_digits by (intro msg_get_int_digits) (auto simp: pad0_digits simp: pad0_def)
  then show ?thesis using False len by (simp add: f length_pad0)
qed

section \<open>Acknowledgments\<close>

lemma version_text: "fmt_0d 2 PROTOCOL_VERSION = ''13''"
  by code_simp

lemma header_text: "length cmd = 4 \<Longrightarrow> msg_Header cmd = ''APS1300000'' @ cmd @ ''AAA0''"
  by (simp add: msg_Header_def version_text)

lemma put_length_form:
  assumes "length hd5 = 5" "length old = 5" "length body < 90000"
  shows "put_length (hd5 @ old @ body) = hd5 @ pad0 5 (dec (length body + 9)) @ body"
proof -
  have "length (dec (length body + 9)) \<le> 5" using assms(3) by (intro length_dec_le) auto
  then have "length (pad0 5 (dec (length body + 9))) = 5" by (rule length_pad0)
  then have "take 5 (pad0 5 (dec (length body + 9))) = pad0 5 (dec (length body + 9))" by simp
  moreover have "fmt_0d 5 (int (length (hd5 @ old @ body)) - 1) = pad0 5 (dec (length body + 9))"
    using assms by (simp add: fmt_0d_def nat_add_distrib add.commute)
  ultimately show ?thesis using assms unfolding put_length_def by simp
qed

lemma length_field:
  assumes "length hd5 = 5" "n < 100000"
  shows "msg_get_int (drop 5 (hd5 @ pad0 5 (dec n) @ body)) 5 = int n"
proof -
  have len: "length (pad0 5 (dec n)) = 5" using assms(2) length_dec_le[of n 5] by (simp add: length_pad0)
  have "msg_get_int (pad0 5 (dec n) @ body) (length (pad0 5 (dec n))) = int (digits_val 0 (pad0 5 (dec n)))"
    using dec_digits len by (intro msg_get_int_digits) (auto simp: pad0_digits)
  then show ?thesis using assms(1) len by simp
qed


text \<open>
  An acknowledgment is complete and passes the format check of the protocol once its
  newline is dropped; it carries the command and the time stamp it answers. Its body has 35
  characters (the array it is printed to has 35, so that its NUL falls outside).
\<close>

lemma ack_well_formed:
  assumes "length ecuid = 12" "length cmd = 4" "length ts = 14" "0 \<le> fl" "fl < 10"
    "no_nul ecuid" "no_nul cmd" "no_nul ts"
  shows "let m = msg_ACK ecuid cmd ts fl in
    msg_is_complete m \<and> msg_format_check ecuid (butlast m) = 0 \<and> msg_cmd_id m = 100
    \<and> take 4 (drop 30 m) = cmd \<and> take 14 (drop 34 m) = ts \<and> msg_get_int (drop 48 m) 1 = fl
    \<and> length (ack_body ecuid cmd ts fl) = 35"
proof -
  obtain d where d: "fmt_d fl = [digit_char d]" "d < 10" "fl = int d"
  proof -
    have "nat fl < 10" using assms(5) by simp
    then have "fmt_d fl = [digit_char (nat fl)]" using assms(4) by (simp add: fmt_d_nonneg dec.simps)
    then show ?thesis using that[of "nat fl"] assms(4,5) by simp
  qed
  let ?rest = "ecuid @ cmd @ ts @ [digit_char d] @ ''END'' @ [NL]"
  have body: "ack_body ecuid cmd ts fl = ?rest" using assms(1-3) by (simp add: ack_body_def d(1))
  have m: "msg_ACK ecuid cmd ts fl = ''APS13'' @ pad0 5 (dec 52) @ ''A100AAA0'' @ ?rest"
    using put_length_form[of "''APS13''" "''00000''" "''A100AAA0'' @ ?rest"] assms(1-3)
    by (simp add: msg_ACK_def body header_text)
  have p: "pad0 5 (dec 52) = ''00052''" by code_simp
  have m': "msg_ACK ecuid cmd ts fl = ''APS1300052A100AAA0'' @ ?rest"
    by (simp add: m p)
  have len: "msg_get_int (''00052'' @ t) 5 = 52" for t
  proof -
    have "msg_get_int ''00052'' 5 = 52" by code_simp
    then show ?thesis using msg_get_int_prefix[of "''00052''" t] by (simp add: NUL_def numeral_eq_Suc)
  qed
  have cmd100: "msg_get_int (''A100'' @ t) 4 = 100" for t
  proof -
    have "msg_get_int ''A100'' 4 = 100" by code_simp
    then show ?thesis using msg_get_int_prefix[of "''A100''" t] by (simp add: NUL_def numeral_eq_Suc)
  qed
  have flag1: "msg_get_int ([digit_char d] @ t) 1 = fl" for t
    using msg_get_int_digits[of "[digit_char d]" t] d(2,3) by simp
  have a52: "atoi (map a_to_0 ''00052'') = 52" by code_simp
  have bl: "butlast (msg_ACK ecuid cmd ts fl) = ''APS1300052A100AAA0'' @ ecuid @ cmd @ ts @ [digit_char d] @ ''END''"
    by (simp add: m' butlast_append)
  have "msg_is_complete (msg_ACK ecuid cmd ts fl)"
    using a52 assms(1-3) by (simp add: msg_is_complete_def m')
  moreover have "msg_format_check ecuid (butlast (msg_ACK ecuid cmd ts fl)) = 0"
    using len assms(1-3) by (simp add: bl msg_format_check_def msg_length_def)
  moreover have "msg_cmd_id (msg_ACK ecuid cmd ts fl) = 100"
    using cmd100 by (simp add: m' msg_cmd_id_def)
  moreover have "take 4 (drop 30 (msg_ACK ecuid cmd ts fl)) = cmd"
    "take 14 (drop 34 (msg_ACK ecuid cmd ts fl)) = ts"
    using assms(1-3) by (simp_all add: m')
  moreover have "msg_get_int (drop 48 (msg_ACK ecuid cmd ts fl)) 1 = fl"
    using flag1 assms(1-3) by (simp add: m')
  moreover have "length (ack_body ecuid cmd ts fl) = 35"
    using assms(1-3) by (simp add: body)
  ultimately show ?thesis by (simp add: Let_def)
qed

end
