(* ===== verification/Ema_Handlers.thy ===== *)
theory Ema_Handlers
  imports Ema_Message Command_Queues
begin

text \<open>
  The handlers of the commands of the EMA server (\<open>ECU/control_client/src\<close>: files
  \<open>inverter_*.c\<close>, \<open>ecu_flag.c\<close>, \<open>power_factor.c\<close>). Each one holds the record mutex, reads
  fixed-width fields of the message, changes files and answers with an acknowledgment. A
  handler yields its return value and the answer; \<open>r\<close> is the received message.
\<close>

section \<open>Shared parts\<close>

definition SUCCESS :: int where "SUCCESS = 0"
definition FORMAT_ERROR :: int where "FORMAT_ERROR = 1"
definition UNSUPPORTED :: int where "UNSUPPORTED = 2"
definition DB_ERROR :: int where "DB_ERROR = 3"
definition FILE_ERROR :: int where "FILE_ERROR = 5"

text \<open>\<open>strncpy(dst, &msg[off], n)\<close> on a zeroed array.\<close>

definition msg_text :: "string \<Rightarrow> nat \<Rightarrow> nat \<Rightarrow> string" where
  "msg_text msg off n = take n (cstr (drop off msg))"

definition msg_field :: "string \<Rightarrow> nat \<Rightarrow> nat \<Rightarrow> int" where
  "msg_field msg off n = msg_get_int (drop off msg) n"

fun count_errors :: "(nat \<Rightarrow> int ecu) \<Rightarrow> nat list \<Rightarrow> nat ecu" where
  "count_errors f [] = ret 0"
| "count_errors f (k # ks) = do {
     r \<leftarrow> f k;
     n \<leftarrow> count_errors f ks;
     ret (if r = -1 then n + 1 else n) }"

text \<open>The answer is built with the id of the unit.\<close>

definition answer :: "int \<Rightarrow> string \<Rightarrow> string \<Rightarrow> int \<Rightarrow> (int \<times> string) ecu" where
  "answer rv cmd timestamp ack_flag = do {
     i \<leftarrow> gets ecu_id;
     ret (rv, msg_ACK i cmd timestamp ack_flag) }"

section \<open>A111: switching on and off\<close>

definition turn_onoff_all :: "int \<Rightarrow> int ecu" where
  "turn_onoff_all type = do {
     ok \<leftarrow> write_file path_turnonof [];
     if ok then do {
       (n, ids) \<leftarrow> get_num_from_id;
       write_file path_turnonof (concat (map (\<lambda>i. cstr i @ '','' @ fmt_d type @ [NL]) ids));
       ret (int n) }
     else ret 0 }"

definition onoff_line :: "string \<Rightarrow> nat \<Rightarrow> string" where
  "onoff_line msg k = msg_text msg (k * 16) 12 @ '','' @ fmt_d (msg_field msg (k * 16 + 12) 1 + 1) @ [NL]"

text \<open>A write to a file that could be opened takes place, so no error is counted.\<close>

definition turn_onoff_num :: "string \<Rightarrow> int \<Rightarrow> int ecu" where
  "turn_onoff_num msg num = do {
     write_file path_turnonof (concat (map (onoff_line msg) [0..<nat num]));
     ret 0 }"

definition set_inverter_onoff :: "string \<Rightarrow> (int \<times> string) ecu" where
  "set_inverter_onoff r = do {
     emit MutexTake;
     let type = msg_field r 30 1;
     let num = msg_field r 31 4;
     ack \<leftarrow> (if type = 0 then do { turn_onoff_all 1; ret SUCCESS }
       else if type = 1 then do { turn_onoff_all 2; ret SUCCESS }
       else if type = 2 then
         (if \<not> msg_num_check (drop 52 r) num 13 True then ret FORMAT_ERROR
          else do { e \<leftarrow> turn_onoff_num (drop 52 r) num; ret (if e > 0 then DB_ERROR else SUCCESS) })
       else ret FORMAT_ERROR);
     emit MutexRelease;
     answer 0 ''A111'' (msg_text r 35 14) ack }"

section \<open>A112: clearing the ground-fault flag\<close>

definition clear_all :: "int ecu" where
  "clear_all = do {
     ok \<leftarrow> write_file path_clrgfdi [];
     if ok then do {
       (n, ids) \<leftarrow> get_num_from_id;
       write_file path_clrgfdi (concat (map (\<lambda>i. cstr i @ '',1'' @ [NL]) ids));
       ret 0 }
     else ret 0 }"

definition clear_num :: "string \<Rightarrow> int \<Rightarrow> int ecu" where
  "clear_num msg num = do {
     write_file path_clrgfdi (concat (map (\<lambda>k. msg_text msg (k * 16) 12 @ '',1'' @ [NL])
       (filter (\<lambda>k. msg_field msg (k * 16 + 12) 1 \<noteq> 0) [0..<nat num])));
     ret 0 }"

definition clear_inverter_gfdi :: "string \<Rightarrow> (int \<times> string) ecu" where
  "clear_inverter_gfdi r = do {
     emit MutexTake;
     let type = msg_field r 30 1;
     let num = msg_field r 31 4;
     ack \<leftarrow> (if type = 0 then do { e \<leftarrow> clear_all; ret (if e > 0 then DB_ERROR else SUCCESS) }
       else if type = 1 then
         (if \<not> msg_num_check (drop 52 r) num 13 True then ret FORMAT_ERROR
          else do { e \<leftarrow> clear_num (drop 52 r) num; ret (if e > 0 then DB_ERROR else SUCCESS) })
       else ret FORMAT_ERROR);
     a \<leftarrow> answer 0 ''A112'' (msg_text r 35 14) ack;
     emit MutexRelease;
     ret a }"

section \<open>A126 and A127: the IRD setting\<close>

definition path_ird_t :: string where
  "path_ird_t = ''/HOME/DATA/IRD_T''"

definition set_ird_item :: "string \<Rightarrow> nat \<Rightarrow> int ecu" where
  "set_ird_item msg k = do {
     let i = msg_text msg (k * 16) 12;
     let ird = msg_field msg (k * 16 + 12) 1;
     delete_line path_ird path_ird_t i 12;
     insert_line path_ird (i @ '',,'' @ fmt_d ird @ '',1'' @ [NL]) }"

definition set_ird_num :: "string \<Rightarrow> int \<Rightarrow> nat ecu" where
  "set_ird_num msg num = count_errors (set_ird_item msg) [0..<nat num]"

definition read_inverter_ird :: "string \<Rightarrow> (int \<times> string) ecu" where
  "read_inverter_ird r = do {
     emit MutexTake;
     e \<leftarrow> file_set_one ''ALL'' path_get_ird;
     a \<leftarrow> answer 0 ''A126'' (msg_text r 34 14) (if e < 0 then FILE_ERROR else SUCCESS);
     emit MutexRelease;
     ret a }"

definition set_inverter_ird :: "string \<Rightarrow> (int \<times> string) ecu" where
  "set_inverter_ird r = do {
     emit MutexTake;
     let type = msg_field r 30 1;
     let num = msg_field r 31 4;
     let ird = msg_field r 52 1;
     ack \<leftarrow> (if type = 0 then
         (if ird = 1 then do { file_set_one ''ALL,1'' path_set_ird; ret SUCCESS }
          else if ird = 2 then do { file_set_one ''ALL,2'' path_set_ird; ret SUCCESS }
          else if ird = 3 then do { file_set_one ''ALL,3'' path_set_ird; ret SUCCESS }
          else ret FORMAT_ERROR)
       else if type = 1 then
         (if \<not> msg_num_check (drop 52 r) num 13 True then ret FORMAT_ERROR
          else do { e \<leftarrow> set_ird_num (drop 52 r) num; ret (if e > 0 then DB_ERROR else SUCCESS) })
       else ret FORMAT_ERROR);
     a \<leftarrow> answer 0 ''A127'' (msg_text r 35 14) ack;
     emit MutexRelease;
     ret a }"

section \<open>A136: firmware update of inverters\<close>

definition set_update_item :: "string \<Rightarrow> nat \<Rightarrow> int ecu" where
  "set_update_item msg k = do {
     let i = msg_text msg (k * 12) 12;
     delete_line path_upinv path_upinv_tmp i 12;
     insert_line path_upinv (i @ '',,,1'' @ [NL]) }"

definition set_update_num :: "string \<Rightarrow> int \<Rightarrow> nat ecu" where
  "set_update_num msg num = count_errors (set_update_item msg) [0..<nat num]"

definition set_inverter_update :: "string \<Rightarrow> (int \<times> string) ecu" where
  "set_inverter_update r = do {
     emit MutexTake;
     let type = msg_field r 30 1;
     let num = msg_field r 31 4;
     ack \<leftarrow> (if type = 0 then ret UNSUPPORTED
       else if type = 1 then
         (if \<not> msg_num_check (drop 52 r) num 12 False then ret FORMAT_ERROR
          else do { e \<leftarrow> set_update_num (drop 52 r) num; ret (if e > 0 then DB_ERROR else SUCCESS) })
       else ret FORMAT_ERROR);
     a \<leftarrow> answer 0 ''A136'' (msg_text r 35 14) ack;
     emit MutexRelease;
     ret a }"

section \<open>A110 and A117: the maximal power\<close>

definition path_power :: string where
  "path_power = ''/HOME/DATA/POWER''"

definition maxpower_line :: "string \<Rightarrow> nat \<Rightarrow> string" where
  "maxpower_line msg k = msg_text msg (k * 18) 12 @ '','' @ pad_space 3 (fmt_d (msg_field msg (k * 18 + 12) 3))
     @ '',,,,1'' @ [NL]"

text \<open>An item whose value is absent is skipped.\<close>

definition set_maxpower_num :: "string \<Rightarrow> int \<Rightarrow> int ecu" where
  "set_maxpower_num msg num = do {
     write_file path_power (concat (map (maxpower_line msg)
       (filter (\<lambda>k. \<not> msg_field msg (k * 18 + 12) 3 < 0) [0..<nat num])));
     ret 0 }"

text \<open>The array \<open>msg\<close> has 2048 bytes, enough for 113 inverters.\<close>

definition maxpower_msg :: "int \<Rightarrow> string list \<Rightarrow> string" where
  "maxpower_msg maxpower ids =
     foldl (\<lambda>msg i. msgcat_s (msgcat_d (msgcat_s msg 12 (cstr i)) 3 maxpower) 3 ''END'') [] ids"

definition set_maxpower_all :: "int \<Rightarrow> int ecu" where
  "set_maxpower_all maxpower = do {
     (n, ids) \<leftarrow> get_num_from_id;
     let msg = maxpower_msg maxpower ids;
     set_maxpower_num msg (int (length msg div 18)) }"

definition set_inverter_maxpower :: "string \<Rightarrow> (int \<times> string) ecu" where
  "set_inverter_maxpower r = do {
     emit MutexTake;
     let type = msg_field r 30 1;
     let num = msg_field r 31 4;
     let maxpower = msg_field r 52 3;
     ack \<leftarrow> (if type = 0 then
         (if maxpower \<ge> 0 then do { e \<leftarrow> set_maxpower_all maxpower; ret (if e > 0 then DB_ERROR else SUCCESS) }
          else ret SUCCESS)
       else if type = 1 then
         (if \<not> msg_num_check (drop 52 r) num 15 True then ret FORMAT_ERROR
          else do { e \<leftarrow> set_maxpower_num (drop 52 r) num; ret (if e > 0 then DB_ERROR else SUCCESS) })
       else ret FORMAT_ERROR);
     a \<leftarrow> answer 0 ''A110'' (msg_text r 35 14) ack;
     emit MutexRelease;
     ret a }"

definition path_maxpower :: string where
  "path_maxpower = ''/TMP/MAXPOWER.CON''"

definition response_inverter_maxpower :: "string \<Rightarrow> (int \<times> string) ecu" where
  "response_inverter_maxpower r = do {
     emit MutexTake;
     e \<leftarrow> file_set_one ''ALL'' path_maxpower;
     a \<leftarrow> answer 0 ''A117'' (msg_text r 34 14) (if e < 0 then FILE_ERROR else SUCCESS);
     emit MutexRelease;
     ret a }"

section \<open>A145 and A146: the power factor\<close>

definition path_presdata :: string where
  "path_presdata = ''/TMP/PRESDATA.CON''"

definition path_setpropa :: string where
  "path_setpropa = ''/HOME/DATA/SETPROPA''"

definition path_setpropa_tmp :: string where
  "path_setpropa_tmp = ''/HOME/DATA/SETPROPA.T''"

definition response_inverter_power_factor :: "string \<Rightarrow> (int \<times> string) ecu" where
  "response_inverter_power_factor r = do {
     emit MutexTake;
     e \<leftarrow> file_set_one ''2'' path_presdata;
     a \<leftarrow> answer 0 ''A145'' (msg_text r 34 14) (if e \<noteq> 0 then FILE_ERROR else SUCCESS);
     emit MutexRelease;
     ret a }"

text \<open>
  For \<open>'A'\<close> the requested factor is encoded; for \<open>'B'\<close> the variable still holds its initial
  0. The line is written without a newline at its end. C divides towards zero, which
  matters for the value -1 of an absent field.
\<close>

definition power_factor_code :: "string \<Rightarrow> int" where
  "power_factor_code r =
     (if take 1 (drop 30 r) = ''A''
      then (let t = msg_field r 31 3 in if t = 100 then 31 else (if t < 0 then - ((- t) div 10) else t div 10) + 11)
      else if take 1 (drop 30 r) = ''B'' then 0 div 10 + 1
      else 0)"

definition set_all_inverter_power_factor :: "string \<Rightarrow> (int \<times> string) ecu" where
  "set_all_inverter_power_factor r = do {
     emit MutexTake;
     ack \<leftarrow> (if take 1 (drop 30 r) = ''A'' \<or> take 1 (drop 30 r) = ''B''
       then do {
         delete_line path_setpropa path_setpropa_tmp ''power_factor'' 12;
         e \<leftarrow> insert_line path_setpropa (''power_factor,'' @ fmt_d (power_factor_code r) @ '',1'');
         ret (if e = -1 then DB_ERROR else SUCCESS) }
       else ret FORMAT_ERROR);
     a \<leftarrow> answer 0 ''A146'' (msg_text r 34 14) ack;
     emit MutexRelease;
     ret a }"

section \<open>A119: the flag of the unit\<close>

definition path_ecu_flag :: string where
  "path_ecu_flag = ''/YUNENG/ECU_FLAG.CON''"

definition set_ecu_flag :: "string \<Rightarrow> (int \<times> string) ecu" where
  "set_ecu_flag r = do {
     emit MutexTake;
     let ecu_flag = msg_field r 44 1;
     ack \<leftarrow> (if ecu_flag = 0 then do { file_set_one ''0'' path_ecu_flag; ret SUCCESS }
       else if ecu_flag = 1 then do { file_set_one ''1'' path_ecu_flag; ret SUCCESS }
       else ret FORMAT_ERROR);
     emit (RebootTimer 10);
     a \<leftarrow> answer (-1) ''A119'' (msg_text r 30 14) ack;
     emit MutexRelease;
     ret a }"

section \<open>A102 and A103: the inverter ids\<close>

definition path_vernum :: string where
  "path_vernum = ''/YUNENG/VERNUM.CON''"

definition path_area :: string where
  "path_area = ''/YUNENG/AREA.CON''"

definition ecu_msg :: "string \<Rightarrow> nat \<Rightarrow> string \<Rightarrow> string ecu" where
  "ecu_msg sendbuffer num r = do {
     let version = ''R_1.0'';
     vn \<leftarrow> file_get_one [] 2 path_vernum;
     ar \<leftarrow> file_get_one [] 16 path_area;
     i \<leftarrow> gets ecu_id;
     let version_number = (case vn of None \<Rightarrow> [] | Some t \<Rightarrow> t);
     let area = (case ar of None \<Rightarrow> [] | Some t \<Rightarrow> t);
     let version_msg =
       (if length version_number > 0
        then fmt_0d 2 (int (length version + length area + 2 + length version_number))
          @ version @ area @ ''--'' @ version_number
        else fmt_0d 2 (int (length version)) @ version @ area);
     ret (msgcat_s (msgcat_s (msgcat_d (msgcat_s sendbuffer 12 i @ version_msg) 3 (int num))
       14 (msg_text r 34 14)) 3 ''END'') }"

definition inverter_msg :: "string \<Rightarrow> string \<Rightarrow> string" where
  "inverter_msg sendbuffer i = sendbuffer @ i @ ''00'' @ ''00000'' @ ''END''"

definition response_inverter_id :: "string \<Rightarrow> (int \<times> string) ecu" where
  "response_inverter_id r = do {
     emit MutexTake;
     (n, ids) \<leftarrow> get_num_from_id;
     buf \<leftarrow> ecu_msg ''APS13AAAAAA102AAA0'' n r;
     let out = foldl inverter_msg buf (filter (\<lambda>i. length i = 12) (map cstr ids));
     emit MutexRelease;
     ret (0, out) }"

definition add_line :: "string \<Rightarrow> nat \<Rightarrow> string" where
  "add_line msg k = msg_text msg (k * 15) 12 @ '',,,,,,'' @ [NL]"

definition add_id :: "string \<Rightarrow> int \<Rightarrow> int ecu" where
  "add_id msg num = do {
     ok \<leftarrow> append_file path_id (concat (map (add_line msg) [0..<nat num]));
     echo path_limiteid ''1'';
     ret (if ok then int (nat num) else 0) }"

definition path_idtmp :: string where
  "path_idtmp = ''/HOME/DATA/IDTMP''"

fun delete_ids :: "string \<Rightarrow> nat list \<Rightarrow> unit ecu" where
  "delete_ids msg [] = ret ()"
| "delete_ids msg (k # ks) = do {
     delete_line path_id path_idtmp (msg_text msg (k * 15) 12) 12;
     delete_ids msg ks }"

definition delete_id :: "string \<Rightarrow> int \<Rightarrow> int ecu" where
  "delete_id msg num = do { delete_ids msg [0..<nat num]; ret (int (nat num)) }"

definition clear_id :: "int ecu" where
  "clear_id = do { remove_file path_id; ret 0 }"

text \<open>
  \<open>sscanf(s, "%1d", &flag)\<close>: one character. When it is not a digit the variable keeps its
  indeterminate value, the parameter \<open>junk\<close>.
\<close>

definition scan_1d :: "int \<Rightarrow> string \<Rightarrow> int" where
  "scan_1d junk s = (case dropWhile is_space (cstr s) of
      [] \<Rightarrow> junk
    | c # cs \<Rightarrow> if is_digit c then int (digit_val c) else junk)"

definition TYPE_MAIN :: nat where
  "TYPE_MAIN = 5"

definition set_inverter_id :: "int \<Rightarrow> string \<Rightarrow> (int \<times> string) ecu" where
  "set_inverter_id junk r = do {
     emit MutexTake;
     let fl = scan_1d junk (drop 30 r);
     let num = msg_field r 31 3;
     let body = drop 51 r;
     ack \<leftarrow> (if \<not> msg_num_check body num 12 True then ret FORMAT_ERROR
       else do {
         a \<leftarrow> (if fl = 0 then do { e \<leftarrow> clear_id; ret (if e \<noteq> 0 then DB_ERROR else SUCCESS) }
           else if fl = 1 then do { n \<leftarrow> add_id body num; ret (if n < num then DB_ERROR else SUCCESS) }
           else if fl = 2 then do { n \<leftarrow> delete_id body num; ret (if n < num then DB_ERROR else SUCCESS) }
           else ret FORMAT_ERROR);
         init_inverter_A103;
         emit (RestartThread 20 TYPE_MAIN);
         ret a });
     a \<leftarrow> answer 102 ''A103'' (msg_text r 34 14) ack;
     emit MutexRelease;
     ret a }"

end
