(* ===== verification/Handler_Spec.thy ===== *)
theory Handler_Spec
  imports Ema_Handlers Ird_Spec
begin

text \<open>
  What the EMA handlers guarantee: the record mutex is taken and released once; a request
  for single inverters is in the request file exactly as the message states it, ready for
  the polling thread; the commands on the inverter list take effect on the list in use.
\<close>

section \<open>The record mutex\<close>

definition mutex_free :: "ecu_state \<Rightarrow> ecu_state \<Rightarrow> bool" where
  "mutex_free s t = (\<exists>es. trace t = trace s @ es \<and> MutexTake \<notin> set es \<and> MutexRelease \<notin> set es)"

interpretation nomutex: zb_store_effect mutex_free "\<lambda>e. e \<noteq> MutexTake \<and> e \<noteq> MutexRelease"
proof unfold_locales
  show "mutex_free s u" if "mutex_free s t" "mutex_free t u" for s t u
    using that unfolding mutex_free_def by (metis Un_iff append.assoc set_append)
qed (auto simp: mutex_free_def)

definition locked :: "ecu_state \<Rightarrow> ecu_state \<Rightarrow> bool" where
  "locked s t = (\<exists>es. trace t = trace s @ MutexTake # es @ [MutexRelease]
     \<and> MutexTake \<notin> set es \<and> MutexRelease \<notin> set es)"

lemma lockedI:
  assumes "mutex_free (exec (emit MutexTake) s) t" "trace u = trace (exec (emit MutexRelease) t)"
  shows "locked s u"
  using assms by (auto simp: locked_def mutex_free_def emit_def)

lemma mutex_free_modify [eff_intros]:
  "(\<And>s. trace (f s) = trace s) \<Longrightarrow> state_io_rel mutex_free (modify f)"
  by (auto simp: state_io_rel_def mutex_free_def)

lemma mutex_free_line_ops [eff_intros]:
  "state_io_rel mutex_free (delete_line p q k n)"
  "state_io_rel mutex_free (insert_line p l)"
  "state_io_rel mutex_free (file_set_one v p)"
  "state_io_rel mutex_free get_num_from_id"
  "state_io_rel mutex_free (echo p l)"
  "state_io_rel mutex_free (answer rv cmd ts ack)"
  unfolding delete_line_def insert_line_def search_line_def file_set_one_def get_num_from_id_def
    echo_def answer_def
  by (intro eff_intros)+

lemma mutex_free_count [eff_intros]:
  "(\<And>k. state_io_rel mutex_free (f k)) \<Longrightarrow> state_io_rel mutex_free (count_errors f ks)"
  by (induction ks) (auto intro!: eff_intros)

lemma mutex_free_delete_ids [eff_intros]: "state_io_rel mutex_free (delete_ids msg ks)"
  by (induction ks) (auto intro!: eff_intros)

lemma mutex_free_A103 [eff_intros]: "state_io_rel mutex_free init_inverter_A103"
  unfolding init_inverter_A103_def get_id_from_file_def by (intro eff_intros) simp_all

lemma mutex_free_emit [eff_intros]:
  "state_io_rel mutex_free (emit (RebootTimer n))" "state_io_rel mutex_free (emit (RestartThread n k))"
  by (rule nomutex.eff_emit; simp)+

lemma locked_tail [intro]:
  "mutex_free (exec (emit MutexTake) s) t \<Longrightarrow> locked s (exec (ret a) (exec (emit MutexRelease) t))"
  "mutex_free (exec (emit MutexTake) s) t \<Longrightarrow> locked s (exec (answer rv cmd ts ack) (exec (emit MutexRelease) t))"
  by (erule lockedI; simp add: answer_def)+

lemma mutex_free_exec [intro]:
  "state_io_rel mutex_free m \<Longrightarrow> mutex_free s (exec m s)"
  by (rule state_io_relE)

lemma mutex_free_step [intro]:
  "mutex_free s t \<Longrightarrow> state_io_rel mutex_free m \<Longrightarrow> mutex_free s (exec m t)"
  by (meson nomutex.R_trans state_io_relE)

text \<open>
  Every handler takes the record mutex first and releases it exactly once, whatever the
  message contains and whichever error it answers with.
\<close>

lemma handlers_release_mutex:
  "locked s (exec (set_inverter_onoff r) s)
   \<and> locked s (exec (clear_inverter_gfdi r) s)
   \<and> locked s (exec (read_inverter_ird r) s)
   \<and> locked s (exec (set_inverter_ird r) s)
   \<and> locked s (exec (set_inverter_update r) s)
   \<and> locked s (exec (set_inverter_maxpower r) s)
   \<and> locked s (exec (response_inverter_maxpower r) s)
   \<and> locked s (exec (response_inverter_power_factor r) s)
   \<and> locked s (exec (set_all_inverter_power_factor r) s)
   \<and> locked s (exec (set_ecu_flag r) s)
   \<and> locked s (exec (set_inverter_id junk r) s)"
  unfolding set_inverter_onoff_def clear_inverter_gfdi_def read_inverter_ird_def set_inverter_ird_def
    set_inverter_update_def set_inverter_maxpower_def response_inverter_maxpower_def
    response_inverter_power_factor_def set_all_inverter_power_factor_def set_ecu_flag_def
    set_inverter_id_def turn_onoff_all_def turn_onoff_num_def clear_all_def clear_num_def
    set_ird_num_def set_ird_item_def set_update_num_def set_update_item_def set_maxpower_all_def
    set_maxpower_num_def add_id_def delete_id_def clear_id_def Let_def exec_bind
  by (intro conjI locked_tail mutex_free_step mutex_free_exec eff_intros; simp)

section \<open>Items of a message\<close>

text \<open>A message with a head of \<open>n\<close> characters followed by items of equal length.\<close>

lemma length_concat_uniform:
  "(\<And>x. x \<in> set xs \<Longrightarrow> length (f x) = n) \<Longrightarrow> length (concat (map f xs)) = n * length xs"
  by (induction xs) simp_all

lemma drop_concat_uniform:
  "(\<And>x. x \<in> set xs \<Longrightarrow> length (f x) = n) \<Longrightarrow>
   drop (k * n) (concat (map f xs)) = concat (map f (drop k xs))"
proof (induction xs arbitrary: k)
  case (Cons x xs)
  show ?case
  proof (cases k)
    case (Suc j)
    then show ?thesis using Cons.IH[of j] Cons.prems by simp
  qed simp
qed simp

lemma map_upt_nth: "(\<And>k. k < length xs \<Longrightarrow> g k = f (xs ! k)) \<Longrightarrow> map g [0..<length xs] = map f xs"
  by (rule nth_equalityI) simp_all

lemma msg_text_prefix: "no_nul i \<Longrightarrow> length i = n \<Longrightarrow> msg_text (i @ t) 0 n = i"
  using take_cstr_digits[of i t] by (auto simp: msg_text_def no_nul_def)

lemma msg_text_drop: "msg_text msg (k + off) n = msg_text (drop k msg) off n"
  by (simp add: msg_text_def add.commute)

lemma msg_field_drop: "msg_field msg (k + off) n = msg_field (drop k msg) off n"
  by (simp add: msg_field_def add.commute)

lemma msg_field_digit: "d < 10 \<Longrightarrow> msg_field (i @ [digit_char d] @ t) (length i) 1 = int d"
  using msg_get_int_digits[of "[digit_char d]" t] by (simp add: msg_field_def)

lemma take_cstr_append:
  assumes "no_nul h" "n \<le> length h"
  shows "take n (cstr (h @ t)) = take n h"
proof -
  have "cstr (h @ t) = h @ cstr t"
    using assms(1) by (simp add: cstr_def no_nul_def takeWhile_append)
  then show ?thesis using assms(2) by simp
qed

lemma no_nul_drop: "no_nul h \<Longrightarrow> no_nul (drop k h)"
  by (auto simp: no_nul_def dest: in_set_dropD)

lemma msg_field_append:
  assumes "no_nul h" "off + n \<le> length h"
  shows "msg_field (h @ t) off n = msg_field h off n"
  using assms take_cstr_append[OF no_nul_drop[OF assms(1)], of n off t]
    take_cstr_append[OF no_nul_drop[OF assms(1)], of n off "[]"]
  by (simp add: msg_field_def msg_get_int_def)

lemma no_nul_concat: "(\<And>x. x \<in> set xs \<Longrightarrow> no_nul (f x)) \<Longrightarrow> no_nul (concat (map f xs))"
  by (auto simp: no_nul_def)

section \<open>A111 reaches the request file\<close>

definition onoff_item :: "string \<times> bool \<Rightarrow> string" where
  "onoff_item p = fst p @ [if snd p then CHR ''1'' else CHR ''0''] @ ''END''"

definition onoff_request :: "string \<times> bool \<Rightarrow> string" where
  "onoff_request p = fst p @ '','' @ [if snd p then CHR ''2'' else CHR ''1''] @ [NL]"

lemma digit_01: "CHR ''0'' = digit_char 0" "CHR ''1'' = digit_char 1"
  by (simp_all add: digit_char_def) (code_simp)+

lemma fmt_d_12: "fmt_d 1 = ''1''" "fmt_d 2 = ''2''"
  by code_simp+

lemma onoff_line_item:
  assumes "\<And>p. p \<in> set items \<Longrightarrow> valid_id (fst p)" "k < length items"
  shows "onoff_line (concat (map onoff_item items)) k = onoff_request (items ! k)"
proof -
  let ?p = "items ! k"
  let ?d = "if snd ?p then 1 else (0::nat)"
  have v: "valid_id (fst q)" if "q \<in> set items" for q using assms(1) that .
  have p: "valid_id (fst ?p)" "length (fst ?p) = 12" using v[of ?p] assms(2) by (auto simp: valid_id_def)
  have "drop (k * 16) (concat (map onoff_item items)) = concat (map onoff_item (drop k items))"
    using v by (intro drop_concat_uniform) (simp add: onoff_item_def valid_id_def)
  also have "\<dots> = onoff_item ?p @ concat (map onoff_item (drop (Suc k) items))"
    using assms(2) by (simp add: Cons_nth_drop_Suc[symmetric])
  finally obtain t where d: "drop (k * 16) (concat (map onoff_item items)) = fst ?p @ [digit_char ?d] @ t"
    by (auto simp: onoff_item_def digit_01)
  have "msg_text (concat (map onoff_item items)) (k * 16) 12 = fst ?p"
    using msg_text_drop[of _ "k * 16" 0] msg_text_prefix[OF valid_id_no_nul[OF p(1)] p(2)] by (simp add: d)
  moreover have "msg_field (concat (map onoff_item items)) (k * 16 + 12) 1 = int ?d"
    using msg_field_digit[of ?d "fst ?p" t] p(2) by (simp add: msg_field_drop d)
  ultimately show ?thesis by (simp add: onoff_line_def onoff_request_def fmt_d_12)
qed

lemma request_line:
  assumes "valid_id i" "plain t" "length t \<le> 80"
  shows "request (i @ '','' @ t @ [NL])"
proof -
  have "is_line ((i @ '','' @ t) @ [NL])"
    using plain_line[OF plain_valid_id[OF assms(1)]] plain_line[OF assms(2)] comma_line
    by (intro is_lineI) auto
  then show ?thesis using assms by (simp add: request_def short_line_def valid_id_def)
qed

lemma onoff_request_request: "valid_id (fst p) \<Longrightarrow> request (onoff_request p)"
proof -
  assume v: "valid_id (fst p)"
  have "plain [CHR ''1'']" "plain [CHR ''2'']" by (simp_all add: plain_def plain_char_def NL_def NUL_def)
  then show "request (onoff_request p)"
    using request_line[OF v, of "[if snd p then CHR ''2'' else CHR ''1'']"]
    by (simp add: onoff_request_def)
qed

text \<open>
  C26. A well-formed command A111 for single inverters is acknowledged with success, and the
  request file then holds exactly its requests, in the order of the message, with the flag
  the polling thread expects (1 for on, 2 for off): a file that \<open>turn_on_off\<close> drains.
\<close>

theorem onoff_command_reaches_queue:
  assumes "\<forall>p \<in> set items. valid_id (fst p)" "length hd52 = 52" "no_nul hd52"
    "msg_field hd52 30 1 = 2" "msg_field hd52 31 4 = int (length items)"
    "can_write s path_turnonof" "can_write s path_turnof_tmp"
  shows "let r = hd52 @ concat (map onoff_item items); t = exec (set_inverter_onoff r) s in
    result (set_inverter_onoff r) s = (0, msg_ACK (ecu_id s) ''A111'' (msg_text r 35 14) SUCCESS)
    \<and> store_ok path_turnonof path_turnof_tmp t
    \<and> store_lines path_turnonof t = map onoff_request items
    \<and> (\<forall>l \<in> set (store_lines path_turnonof t). request l)"
proof -
  let ?body = "concat (map onoff_item items)"
  let ?r = "hd52 @ ?body"
  let ?txt = "concat (map onoff_request items)"
  have v: "\<And>p. p \<in> set items \<Longrightarrow> valid_id (fst p)" using assms(1) by blast
  have fields: "msg_field ?r 30 1 = 2" "msg_field ?r 31 4 = int (length items)"
    using assms(2-5) by (simp_all add: msg_field_append)
  have "no_nul (onoff_item p)" if "p \<in> set items" for p
    using valid_id_no_nul[OF v[OF that]] by (simp add: onoff_item_def no_nul_def NUL_def)
  then have "no_nul ?body" by (intro no_nul_concat) auto
  moreover have "length ?body = 16 * length items"
    using v by (intro length_concat_uniform) (simp add: onoff_item_def valid_id_def)
  ultimately have num: "msg_num_check ?body (int (length items)) 13 True"
    by (simp add: msg_num_check_def)
  have lines: "map (onoff_line ?body) [0..<length items] = map onoff_request items"
    using onoff_line_item[OF v] by (rule map_upt_nth)
  have run: "result (set_inverter_onoff ?r) s = (0, msg_ACK (ecu_id s) ''A111'' (msg_text ?r 35 14) SUCCESS)"
    "files (exec (set_inverter_onoff ?r) s) path_turnonof = Some ?txt"
    "can_write (exec (set_inverter_onoff ?r) s) = can_write s"
    using assms(2,6)
    by (simp_all add: set_inverter_onoff_def Let_def fields num lines turn_onoff_num_def write_file_def
        emit_def answer_def del: append_assoc One_nat_def)
  have req: "request l" if "l \<in> set (map onoff_request items)" for l
    using that v onoff_request_request by auto
  then have short: "short_line l" if "l \<in> set (map onoff_request items)" for l
    using that by (auto simp: request_def)
  have lns: "store_lines path_turnonof (exec (set_inverter_onoff ?r) s) = map onoff_request items"
    using run(2) short by (rule store_lines_concat)
  have "path_turnonof \<noteq> path_turnof_tmp" by (simp add: path_turnonof_def path_turnof_tmp_def)
  then have ok: "store_ok path_turnonof path_turnof_tmp (exec (set_inverter_onoff ?r) s)"
    unfolding store_ok_def using run(2,3) assms(6,7) short by auto
  show ?thesis
    unfolding Let_def lns using run(1) ok req by (intro conjI) simp_all
qed

theorem onoff_command_reaches_queue_witness:
  defines "hd52 \<equiv> replicate 30 (CHR ''A'') @ ''20001'' @ replicate 17 (CHR ''0'')"
    and "items \<equiv> [(''408000000001'', True)]"
  shows "store_lines path_turnonof (exec (set_inverter_onoff (hd52 @ concat (map onoff_item items))) blank)
     = [''408000000001,2'' @ [NL]]"
proof -
  have "\<forall>p \<in> set items. valid_id (fst p)" "length hd52 = 52" "no_nul hd52"
    "msg_field hd52 30 1 = 2" "msg_field hd52 31 4 = int (length items)"
    unfolding hd52_def items_def by code_simp+
  then show ?thesis using onoff_command_reaches_queue[of items hd52 blank]
    by (simp add: Let_def items_def onoff_request_def)
qed

end
