(* ===== verification/Id_Spec.thy ===== *)
theory Id_Spec
  imports Handler_Spec
begin

text \<open>
  The inverter list and the commands that change it: what loading the file does to the
  table in general (duplicates are skipped, at most 120 ids are taken), and the effect of
  command A103 on the list in use.
\<close>

section \<open>Loading\<close>

definition line_id :: "string \<Rightarrow> string" where
  "line_id l = fld (splitString l) 0"

definition id_entry :: "string \<Rightarrow> bool" where
  "id_entry l = (short_line l \<and> valid_id (line_id l))"

text \<open>Appending the ids that are not in the list yet, in order.\<close>

fun add_new :: "string list \<Rightarrow> string list \<Rightarrow> string list" where
  "add_new acc [] = acc"
| "add_new acc (i # is) = (if i \<in> set acc then add_new acc is else add_new (acc @ [i]) is)"

lemma add_new_prefix: "\<exists>zs. add_new acc is = acc @ zs"
proof (induction "is" arbitrary: acc)
  case (Cons i "is")
  then show ?case by (metis add_new.simps(2) append.assoc)
qed simp

lemma add_new_distinct: "distinct acc \<Longrightarrow> distinct (add_new acc is)"
  by (induction "is" arbitrary: acc) simp_all

lemma set_add_new: "set (add_new acc is) = set acc \<union> set is"
  by (induction "is" arbitrary: acc) auto

definition table_ids :: "inverter list \<Rightarrow> string list" where
  "table_ids vs = map inv_id (table vs)"

lemma table_ids_take: "table_ids vs = takeWhile (\<lambda>i. length i = 12) (take MAXINVERTERCOUNT (map inv_id vs))"
  by (simp add: table_ids_def table_def takeWhile_map comp_def take_map)

lemma table_ids_loaded:
  assumes "map inv_id vs = acc @ replicate k []" "length acc \<le> MAXINVERTERCOUNT" "\<forall>i \<in> set acc. valid_id i"
  shows "table_ids vs = acc"
proof -
  have "\<forall>i \<in> set acc. length i = 12" using assms(3) by (simp add: valid_id_def)
  then have "takeWhile (\<lambda>i. length i = 12) (acc @ replicate j []) = acc" for j
    by (cases j) (simp_all add: takeWhile_append)
  then show ?thesis using assms(1,2) by (simp add: table_ids_take)
qed

definition loaded :: "nat \<Rightarrow> inverter list \<Rightarrow> string list \<Rightarrow> bool" where
  "loaded n vs acc = (length vs = MAXINVERTERCOUNT \<and> n = length acc \<and> n \<le> MAXINVERTERCOUNT
     \<and> distinct acc \<and> (\<forall>i \<in> set acc. valid_id i)
     \<and> map inv_id vs = acc @ replicate (MAXINVERTERCOUNT - n) [])"

lemma loaded_known:
  assumes "loaded n vs acc" "valid_id i"
  shows "known_id vs i \<longleftrightarrow> i \<in> set acc"
proof -
  have "table_ids vs = acc" using assms(1) by (auto simp: loaded_def intro: table_ids_loaded)
  moreover have "memeq i j 12 \<longleftrightarrow> i = j" if "j \<in> set acc" for j
  proof -
    have "valid_id j" using assms(1) that by (simp add: loaded_def)
    then show ?thesis using assms(2) memeq_prefix[of j 12 i] valid_id_no_nul[of j]
      by (auto simp: valid_id_def)
  qed
  ultimately show ?thesis unfolding known_id_def table_ids_def by (metis (no_types, lifting) image_eqI image_iff set_map)
qed

lemma loaded_step:
  assumes "loaded n vs acc" "n < MAXINVERTERCOUNT" "valid_id i" "i \<notin> set acc" "inv_id v = i"
  shows "loaded (n + 1) (vs[n := v]) (acc @ [i])"
proof -
  obtain j where j: "MAXINVERTERCOUNT - n = Suc j" using assms(2) by (cases "MAXINVERTERCOUNT - n") auto
  then have "MAXINVERTERCOUNT - Suc n = j" by simp
  then show ?thesis using assms j by (simp add: loaded_def map_update list_update_append)
qed

lemma load_ids_loaded:
  assumes "loaded n vs acc" "n < MAXINVERTERCOUNT" "\<forall>l \<in> set ls. id_entry l"
  shows "\<exists>m vs'. load_ids ls n vs = (m, vs') \<and> loaded m vs' (take MAXINVERTERCOUNT (add_new acc (map line_id ls)))"
  using assms
proof (induction ls arbitrary: n vs acc)
  case Nil
  then show ?case by (simp add: loaded_def)
next
  case (Cons l ls)
  let ?i = "line_id l" and ?fs = "splitString (cstr l)"
  have l: "valid_id ?i" "fld ?fs 0 = ?i"
    using Cons.prems(3) by (auto simp: id_entry_def short_line_def line_id_def)
  show ?case
  proof (cases "?i \<in> set acc")
    case True
    then show ?thesis
      using Cons.IH[OF Cons.prems(1,2)] Cons.prems(3) loaded_known[OF Cons.prems(1) l(1)] l(2)
      by (simp add: Let_def)
  next
    case False
    let ?vs = "vs[n := load_fields (vs ! n) ?fs]"
    have st: "loaded (n + 1) ?vs (acc @ [?i])"
      using loaded_step[OF Cons.prems(1,2) l(1) False] l(2) by (simp add: load_fields_def)
    have kn: "\<not> known_id vs (fld ?fs 0)" using loaded_known[OF Cons.prems(1) l(1)] False l(2) by simp
    show ?thesis
    proof (cases "n + 1 \<ge> MAXINVERTERCOUNT")
      case True
      obtain zs where zs: "add_new (acc @ [?i]) (map line_id ls) = (acc @ [?i]) @ zs"
        using add_new_prefix by blast
      have "length (acc @ [?i]) = MAXINVERTERCOUNT" using st True by (simp add: loaded_def)
      then have "take MAXINVERTERCOUNT (add_new acc (map line_id (l # ls))) = acc @ [?i]"
        using False by (simp add: zs del: append_assoc)
      then show ?thesis using kn True st by (simp add: Let_def del: add_new.simps)
    next
      case False2: False
      then show ?thesis using Cons.IH[OF st] Cons.prems(3) kn False by (simp add: Let_def)
    qed
  qed
qed

lemma init_inverter_A103_loads:
  assumes "files s path_id = Some (concat ls)" "\<forall>l \<in> set ls. id_entry l"
    "length (inverters s) = MAXINVERTERCOUNT"
  shows "let t = exec init_inverter_A103 s; ids = take MAXINVERTERCOUNT (add_new [] (map line_id ls)) in
    table_ids (inverters t) = ids \<and> ecu_total t = length ids \<and> trace t = trace s \<and> ecu_id t = ecu_id s
    \<and> files t = files s"
proof -
  let ?vs = "map clear_slot (inverters s)"
  have "fgets_lines 199 (concat ls) = ls"
    using assms(2) by (intro fgets_short) (auto simp: id_entry_def)
  moreover have "loaded 0 ?vs []"
    using assms(3) by (simp add: loaded_def clear_slot_def comp_def map_replicate_const)
  then obtain m vs' where m: "load_ids ls 0 ?vs = (m, vs')"
    "loaded m vs' (take MAXINVERTERCOUNT (add_new [] (map line_id ls)))"
    using load_ids_loaded[of 0 ?vs "[]" ls] assms(2) by (auto simp: MAXINVERTERCOUNT_def)
  moreover have "table_ids vs' = take MAXINVERTERCOUNT (add_new [] (map line_id ls))"
    using m(2) by (auto simp: loaded_def intro: table_ids_loaded)
  ultimately show ?thesis
    using assms(1) by (simp add: init_inverter_A103_def get_id_from_file_def read_file_def Let_def loaded_def)
qed

section \<open>A103\<close>

definition id_item :: "string \<Rightarrow> string" where
  "id_item i = i @ ''END''"

lemma id_items:
  assumes "\<forall>i \<in> set ids. valid_id i"
  shows "msg_num_check (concat (map id_item ids)) (int (length ids)) 12 True"
    and "k < length ids \<Longrightarrow> msg_text (concat (map id_item ids)) (k * 15) 12 = ids ! k"
proof -
  have v: "length (id_item i) = 15" "no_nul (id_item i)" if "i \<in> set ids" for i
    using that assms valid_id_no_nul[of i] by (auto simp: id_item_def valid_id_def no_nul_def NUL_def)
  have "no_nul (concat (map id_item ids))" using v by (intro no_nul_concat) auto
  moreover have "length (concat (map id_item ids)) = 15 * length ids"
    using v by (intro length_concat_uniform) auto
  ultimately show "msg_num_check (concat (map id_item ids)) (int (length ids)) 12 True"
    by (simp add: msg_num_check_def)
  assume k: "k < length ids"
  then have i: "valid_id (ids ! k)" using assms by simp
  have "drop (k * 15) (concat (map id_item ids)) = concat (map id_item (drop k ids))"
    using v by (intro drop_concat_uniform) auto
  also have "\<dots> = ids ! k @ ''END'' @ concat (map id_item (drop (Suc k) ids))"
    using k by (simp add: id_item_def Cons_nth_drop_Suc[symmetric])
  finally show "msg_text (concat (map id_item ids)) (k * 15) 12 = ids ! k"
    using msg_text_drop[of "concat (map id_item ids)" "k * 15" 0 12] i
      msg_text_prefix[of "ids ! k" 12 "''END'' @ concat (map id_item (drop (Suc k) ids))"]
    by (simp add: valid_id_no_nul valid_id_def[of "ids ! k"])
qed

definition new_line :: "string \<Rightarrow> string" where
  "new_line i = i @ '',,,,,,'' @ [NL]"

lemma new_line_entry: "valid_id i \<Longrightarrow> id_entry (new_line i) \<and> line_id (new_line i) = i"
proof -
  assume i: "valid_id i"
  have "is_line ((i @ '',,,,,,'') @ [NL])"
    using plain_line[OF plain_valid_id[OF i]] comma_line by (intro is_lineI) auto
  moreover have "CHR '','' \<notin> set i" using plain_no_comma[OF plain_valid_id[OF i]] .
  ultimately show ?thesis
    using i by (simp add: id_entry_def short_line_def line_id_def new_line_def fld_def valid_id_def)
qed

text \<open>A command A103: a head of 51 characters and the items.\<close>

definition id_command :: "char \<Rightarrow> string \<Rightarrow> string list \<Rightarrow> bool" where
  "id_command c hd51 ids = (length hd51 = 51 \<and> no_nul hd51 \<and> hd51 ! 30 = c
     \<and> msg_field hd51 31 3 = int (length ids) \<and> (\<forall>i \<in> set ids. valid_id i))"

lemma id_command_fields:
  assumes "id_command c hd51 ids" "is_digit c"
  shows "scan_1d junk (drop 30 (hd51 @ t)) = int (digit_val c)"
    "msg_field (hd51 @ t) 31 3 = int (length ids)" "drop 51 (hd51 @ t) = t"
proof -
  have h: "length hd51 = 51" "no_nul hd51" "hd51 ! 30 = c" "msg_field hd51 31 3 = int (length ids)"
    using assms(1) by (auto simp: id_command_def)
  have d: "drop 30 (hd51 @ t) = c # drop 31 (hd51 @ t)"
    using h(1,3) Cons_nth_drop_Suc[of 30 "hd51 @ t"] by (simp add: nth_append)
  have "c \<noteq> NUL" using digit_not_A[OF assms(2)] by simp
  then have "cstr (c # drop 31 (hd51 @ t)) = c # cstr (drop 31 (hd51 @ t))" by (simp add: cstr_def)
  then show "scan_1d junk (drop 30 (hd51 @ t)) = int (digit_val c)"
    using digit_not_space[OF assms(2)] assms(2) by (simp only: scan_1d_def d) simp
  show "msg_field (hd51 @ t) 31 3 = int (length ids)"
    using h by (simp add: msg_field_append)
  show "drop 51 (hd51 @ t) = t" using h(1) by simp
qed

lemma digits_12: "is_digit (CHR ''1'')" "is_digit (CHR ''2'')" "digit_val (CHR ''1'') = 1" "digit_val (CHR ''2'') = 2"
  by (simp_all add: is_digit_def digit_val_def)

lemma run_set_inverter_id:
  assumes "scan_1d junk (drop 30 r) = fl" "msg_field r 31 3 = num" "msg_num_check (drop 51 r) num 12 True"
    "fl = 1 \<and> m = add_id (drop 51 r) num \<or> fl = 2 \<and> m = delete_id (drop 51 r) num"
    "result m (exec (emit MutexTake) s) = num"
  shows "run_state (set_inverter_id junk r) s =
    (let t = exec init_inverter_A103 (exec m (exec (emit MutexTake) s)) in
     ((102, msg_ACK (ecu_id t) ''A103'' (msg_text r 34 14) SUCCESS),
      exec (emit MutexRelease) (exec (emit (RestartThread 20 TYPE_MAIN)) t)))"
  using assms
  by (auto simp: set_inverter_id_def Let_def answer_def emit_def case_prod_beta SUCCESS_def)

lemma id_limiteid: "path_id \<noteq> path_limiteid"
  by (simp add: path_id_def path_limiteid_def)

text \<open>
  Command A103 with operation 1 appends the ids of the message to the list: afterwards
  the table in use holds the old ids followed by the new ones that were not there, cut at
  120, and the main thread is about to restart.
\<close>

lemma add_command_extends_table:
  assumes "id_command (CHR ''1'') hd51 ids" "files s path_id = Some (concat old)"
    "\<forall>l \<in> set old. id_entry l" "length (inverters s) = MAXINVERTERCOUNT" "can_write s path_id"
  shows "let r = hd51 @ concat (map id_item ids); t = exec (set_inverter_id junk r) s;
      all = take MAXINVERTERCOUNT (add_new [] (map line_id old @ ids)) in
    result (set_inverter_id junk r) s = (102, msg_ACK (ecu_id s) ''A103'' (msg_text r 34 14) SUCCESS)
    \<and> table_ids (inverters t) = all \<and> ecu_total t = length all
    \<and> RestartThread 20 TYPE_MAIN \<in> set (trace t)"
proof -
  let ?body = "concat (map id_item ids)" and ?r = "hd51 @ concat (map id_item ids)"
  have ids: "\<forall>i \<in> set ids. valid_id i" using assms(1) by (simp add: id_command_def)
  note f = id_command_fields[OF assms(1) digits_12(1), unfolded digits_12]
  have lines: "map (add_line ?body) [0..<length ids] = map new_line ids"
    using id_items(2)[OF ids] by (intro map_upt_nth) (simp add: add_line_def new_line_def)
  let ?u = "exec (add_id ?body (int (length ids))) (exec (emit MutexTake) s)"
  have u: "result (add_id ?body (int (length ids))) (exec (emit MutexTake) s) = int (length ids)"
    "files ?u path_id = Some (concat (old @ map new_line ids))" "inverters ?u = inverters s"
    "ecu_id ?u = ecu_id s"
    using assms(2,5) id_limiteid
    by (simp_all add: add_id_def append_file_def echo_def write_file_def emit_def lines)
  have en: "\<forall>l \<in> set (old @ map new_line ids). id_entry l"
    using assms(3) ids new_line_entry by auto
  have li: "map line_id (old @ map new_line ids) = map line_id old @ ids"
    using ids new_line_entry by (simp add: comp_def map_idI)
  have A: "let t = exec init_inverter_A103 ?u; all = take MAXINVERTERCOUNT (add_new [] (map line_id old @ ids)) in
      table_ids (inverters t) = all \<and> ecu_total t = length all \<and> trace t = trace ?u \<and> ecu_id t = ecu_id s
      \<and> files t = files ?u"
    by (rule init_inverter_A103_loads[OF u(2) en, unfolded li u(3,4), OF assms(4)])
  have run: "run_state (set_inverter_id junk ?r) s = (let t = exec init_inverter_A103 ?u in
     ((102, msg_ACK (ecu_id t) ''A103'' (msg_text ?r 34 14) SUCCESS),
      exec (emit MutexRelease) (exec (emit (RestartThread 20 TYPE_MAIN)) t)))"
    using id_items(1)[OF ids] u(1)
    by (intro run_set_inverter_id[OF f(1) f(2), where m = "add_id ?body (int (length ids))", unfolded f(3)]) (simp_all only: of_nat_1 of_nat_numeral simp_thms)
  show ?thesis
    unfolding Let_def run using A by (simp add: Let_def emit_def)
qed


interpretation idq: line_store "\<lambda>k. delete_line path_id path_idtmp k 12"
    "insert_line path_id" "store_lines path_id" "store_ok path_id path_idtmp"
  by (rule files_line_store)

lemma delete_ids_entries:
  assumes "store_ok path_id path_idtmp s" "\<forall>k \<in> set ks. id_key (msg_text msg (k * 15) 12)"
  shows "store_ok path_id path_idtmp (exec (delete_ids msg ks) s)
    \<and> store_lines path_id (exec (delete_ids msg ks) s)
      = filter (\<lambda>l. \<forall>k \<in> set ks. \<not> keyed (msg_text msg (k * 15) 12) l) (store_lines path_id s)"
  using assms
proof (induction ks arbitrary: s)
  case (Cons k ks)
  let ?i = "msg_text msg (k * 15) 12"
  let ?u = "exec (delete_line path_id path_idtmp ?i 12) s"
  have k: "id_key ?i" using Cons.prems(2) by simp
  have u: "store_ok path_id path_idtmp ?u"
    "store_lines path_id ?u = filter (\<lambda>l. \<not> keyed ?i l) (store_lines path_id s)"
    using idq.del_ready[OF Cons.prems(1) k] idq.del_entries[OF Cons.prems(1) k] by auto
  have "exec (delete_ids msg (k # ks)) s = exec (delete_ids msg ks) ?u" by (simp add: case_prod_beta)
  then show ?case using Cons.IH[OF u(1)] Cons.prems(2) u(2) by (simp add: conj_commute)
qed simp

lemma delete_ids_keeps: "exec (delete_ids msg ks) s = s\<lparr>files := files (exec (delete_ids msg ks) s)\<rparr>"
proof (induction ks arbitrary: s)
  case (Cons k ks)
  let ?u = "exec (delete_line path_id path_idtmp (msg_text msg (k * 15) 12) 12) s"
  have u: "?u = s\<lparr>files := files ?u\<rparr>"
    by (simp add: delete_line_def read_file_def write_file_def remove_file_def rename_file_def
        split: option.split)
  have e: "exec (delete_ids msg (k # ks)) s = exec (delete_ids msg ks) ?u" by (simp add: case_prod_beta)
  show ?case unfolding e by (subst Cons.IH, subst u) simp
qed simp

lemma keyed_line_id: "id_entry l \<Longrightarrow> valid_id i \<Longrightarrow> keyed i l \<longleftrightarrow> line_id l = i"
proof -
  assume l: "id_entry l" and i: "valid_id i"
  have tw: "line_id l = takeWhile (\<lambda>c. c \<noteq> CHR '','') l" by (simp add: line_id_def splitString_hd)
  have len: "length (line_id l) = 12" using l by (simp add: id_entry_def valid_id_def)
  have "take 12 l = line_id l"
    using takeWhile_eq_take[of "\<lambda>c. c \<noteq> CHR '',''" l] len by (simp add: tw)
  then show ?thesis by (simp add: keyed_def)
qed

text \<open>
  Command A103 with operation 2 removes the ids of the message: afterwards the table in
  use holds the other ids of the list, in their old order.
\<close>

lemma delete_command_shrinks_table:
  assumes "id_command (CHR ''2'') hd51 ids" "store_ok path_id path_idtmp s"
    "\<forall>l \<in> set (store_lines path_id s). id_entry l" "length (inverters s) = MAXINVERTERCOUNT"
  shows "let r = hd51 @ concat (map id_item ids); t = exec (set_inverter_id junk r) s;
      left = take MAXINVERTERCOUNT (add_new [] (filter (\<lambda>i. i \<notin> set ids) (map line_id (store_lines path_id s)))) in
    result (set_inverter_id junk r) s = (102, msg_ACK (ecu_id s) ''A103'' (msg_text r 34 14) SUCCESS)
    \<and> table_ids (inverters t) = left \<and> ecu_total t = length left"
proof -
  let ?body = "concat (map id_item ids)" and ?r = "hd51 @ concat (map id_item ids)"
  have ids: "\<forall>i \<in> set ids. valid_id i" using assms(1) by (simp add: id_command_def)
  note f = id_command_fields[OF assms(1) digits_12(2), unfolded digits_12]
  let ?ks = "[0..<length ids]" and ?s = "exec (emit MutexTake) s"
  have sf: "same_files s ?s" by (simp add: same_files_def emit_def)
  have s: "store_ok path_id path_idtmp ?s" "store_lines path_id ?s = store_lines path_id s"
    using same_files_store[OF sf] assms(2) by auto
  have key: "msg_text ?body (k * 15) 12 = ids ! k" if "k < length ids" for k
    using id_items(2)[OF ids that] .
  let ?u = "exec (delete_ids ?body ?ks) ?s"
  let ?left = "filter (\<lambda>l. line_id l \<notin> set ids) (store_lines path_id s)"
  have u: "store_ok path_id path_idtmp ?u"
    "store_lines path_id ?u = filter (\<lambda>l. \<forall>k \<in> set ?ks. \<not> keyed (msg_text ?body (k * 15) 12) l) (store_lines path_id s)"
    using delete_ids_entries[of ?s ?ks ?body] s key ids by (auto simp: valid_id_key)
  have "(\<forall>k \<in> set ?ks. \<not> keyed (msg_text ?body (k * 15) 12) l) = (line_id l \<notin> set ids)"
    if "l \<in> set (store_lines path_id s)" for l
  proof -
    have "(\<forall>k \<in> set ?ks. \<not> keyed (msg_text ?body (k * 15) 12) l) = (\<forall>k < length ids. line_id l \<noteq> ids ! k)"
      using that assms(3) key keyed_line_id ids by auto
    then show ?thesis by (metis in_set_conv_nth)
  qed
  then have left: "store_lines path_id ?u = ?left"
    unfolding u(2) by (intro filter_cong) auto
  obtain ls where ls: "files ?u path_id = Some (concat ls)" "store_lines path_id ?u = ls"
    using u(1) by (rule store_okE) blast
  have en: "\<forall>l \<in> set ls. id_entry l" using assms(3) ls(2) left by auto
  have li: "map line_id ls = filter (\<lambda>i. i \<notin> set ids) (map line_id (store_lines path_id s))"
    using ls(2) left by (simp add: filter_map comp_def)
  have keep: "inverters ?u = inverters s" "ecu_id ?u = ecu_id s"
    by (subst delete_ids_keeps, simp add: emit_def)+
  have A: "let t = exec init_inverter_A103 ?u;
        left = take MAXINVERTERCOUNT (add_new [] (filter (\<lambda>i. i \<notin> set ids) (map line_id (store_lines path_id s)))) in
      table_ids (inverters t) = left \<and> ecu_total t = length left \<and> trace t = trace ?u \<and> ecu_id t = ecu_id s
      \<and> files t = files ?u"
    by (rule init_inverter_A103_loads[OF ls(1) en, unfolded li keep, OF assms(4)])
  have dres: "result (delete_id ?body (int (length ids))) ?s = int (length ids)"
    "exec (delete_id ?body (int (length ids))) ?s = ?u"
    by (simp_all add: delete_id_def case_prod_beta)
  have run: "run_state (set_inverter_id junk ?r) s = (let t = exec init_inverter_A103 ?u in
     ((102, msg_ACK (ecu_id t) ''A103'' (msg_text ?r 34 14) SUCCESS),
      exec (emit MutexRelease) (exec (emit (RestartThread 20 TYPE_MAIN)) t)))"
    unfolding dres(2)[symmetric]
    using id_items(1)[OF ids] dres(1)
    by (intro run_set_inverter_id[OF f(1) f(2), where m = "delete_id ?body (int (length ids))", unfolded f(3)]) (simp_all only: of_nat_1 of_nat_numeral simp_thms)
  show ?thesis
    unfolding Let_def run using A by (simp add: Let_def emit_def)
qed

end
