(* ===== verification/Ecu_Time.thy ===== *)
theory Ecu_Time
  imports Ecu_Prelude
begin

text \<open>
  Dates and times of \<open>ECU/main/src/datetime.c\<close>: the comparison of times of day, in seconds since
  midnight, with the roll-over at midnight the firmware allows for, and the seconds since 1970 of
  a date.
\<close>

section \<open>Times of day\<close>

definition compareTime :: "int \<Rightarrow> int \<Rightarrow> int \<Rightarrow> bool" where
  "compareTime durabletime thistime reportinterval =
     (if durabletime < reportinterval \<and> thistime > reportinterval
      then durabletime + (24 * 60 * 60 + 1) - thistime > reportinterval
      else durabletime - thistime \<ge> reportinterval)"

definition compareTimeLess :: "int \<Rightarrow> int \<Rightarrow> int \<Rightarrow> bool" where
  "compareTimeLess durabletime thistime reportinterval =
     (if durabletime < reportinterval \<and> thistime > reportinterval
      then durabletime + (24 * 60 * 60 + 1) - thistime \<le> reportinterval
      else durabletime - thistime < reportinterval)"

text \<open>The seconds that have passed from one time of day to a later one, within a day.\<close>

definition elapsed :: "int \<Rightarrow> int \<Rightarrow> int" where
  "elapsed from_t to_t = (to_t - from_t) mod 86400"

text \<open>
  The two comparisons are each other's negation, and \<open>compareTime\<close> is exact: an interval
  of at most half an hour has passed exactly when the elapsed time, over midnight or not,
  reaches it, provided the clock is read again within the day in which it can be told apart
  (before midnight, or in the first interval after it).
\<close>

lemma compareTime_exact:
  assumes "0 < i" "i \<le> 1800" "0 \<le> t" "t < 86400" "0 \<le> d" "d < 86400"
    "t \<le> d \<or> d < i \<and> i < t"
  shows "compareTimeLess d t i = (\<not> compareTime d t i) \<and> compareTime d t i = (elapsed t d \<ge> i)"
proof -
  have "compareTimeLess d t i = (\<not> compareTime d t i)"
    by (auto simp: compareTime_def compareTimeLess_def)
  moreover have "compareTime d t i = (elapsed t d \<ge> i)"
  proof (cases "t \<le> d")
    case True
    then have "elapsed t d = d - t" using assms by (simp add: elapsed_def)
    then show ?thesis using True assms by (auto simp: compareTime_def)
  next
    case False
    then have "(d - t) mod 86400 = (d - t + 86400) mod 86400" by simp
    also have "\<dots> = d - t + 86400" using False assms by (intro mod_pos_pos_trivial) auto
    finally have "elapsed t d = d - t + 86400" by (simp add: elapsed_def)
    then show ?thesis using False assms by (auto simp: compareTime_def)
  qed
  ultimately show ?thesis by simp
qed

section \<open>Dates\<close>

record DATETIME =
  second :: byte
  minute :: byte
  hour :: byte
  day :: byte
  month :: byte
  year :: byte
  century :: byte

text \<open>The two digits at a place of a time of fourteen digits.\<close>

definition two_digits :: "string \<Rightarrow> nat \<Rightarrow> int" where
  "two_digits t k = (ch t k - 48) * 10 + (ch t (k + 1) - 48)"

definition timeSwitch :: "string \<Rightarrow> DATETIME" where
  "timeSwitch t = \<lparr>second = u8 (two_digits t 12), minute = u8 (two_digits t 10), hour = u8 (two_digits t 8),
     day = u8 (two_digits t 6), month = u8 (two_digits t 4), year = u8 (two_digits t 2), century = u8 (two_digits t 0)\<rparr>"

definition int_wrap :: "int \<Rightarrow> int" where
  "int_wrap x = (x + 2 ^ 31) mod 2 ^ 32 - 2 ^ 31"

definition days_before :: "int list" where
  "days_before = [0, 31, 59, 90, 120, 151, 181, 212, 243, 273, 304, 334]"

text \<open>The days since 1970; every fourth year is a leap year.\<close>

definition green_days :: "DATETIME \<Rightarrow> int" where
  "green_days c = (let curyear = uint (century c) * 100 + uint (year c);
       cyear = curyear - 1970; m = uint (month c);
       years = cyear div 4 * (365 * 3 + 366) + (if 3 \<le> cyear mod 4 then (cyear mod 4 - 1) * 365 + 366 else cyear mod 4 * 365);
       months = (if 1 \<le> m \<and> m \<le> 12 then days_before ! nat (m - 1) else 0) + (if curyear mod 4 = 0 \<and> 3 \<le> m then 1 else 0) in
     years + months + (uint (day c) - 1))"

definition GreenTimeSwitch :: "DATETIME \<Rightarrow> int" where
  "GreenTimeSwitch c = (let curyear = uint (century c) * 100 + uint (year c) in
     if curyear < 1970 \<or> 9000 < curyear then 0
     else int_wrap (((green_days c * 24 + uint (hour c)) * 60 + uint (minute c)) * 60 + uint (second c)))"

definition Time_difference :: "string \<Rightarrow> string \<Rightarrow> int" where
  "Time_difference curTime lastTime =
     int_wrap (GreenTimeSwitch (timeSwitch curTime) - GreenTimeSwitch (timeSwitch lastTime))"

end
