(* ===== verification/Remote_Update.thy ===== *)
theory Remote_Update
  imports Queue_Spec Ecu_Time
begin

text \<open>
  Firmware update of inverters (\<open>ECU/main/src/remote_update.c\<close>): the image is sent in blocks
  of 64 bytes, missing blocks are sent again on request, then the inverter is told to start
  the new firmware. The request file \<open>upinv\<close> says which inverters to update.
\<close>

section \<open>Packets\<close>

text \<open>A packet without data: \<open>FC FC\<close>, two code bytes, 68 zero bytes, \<open>FE FE\<close>.\<close>

definition plain_packet :: "byte \<Rightarrow> byte \<Rightarrow> byte list" where
  "plain_packet a b = [0xFC, 0xFC, a, b] @ replicate 68 0 @ [0xFE, 0xFE]"

text \<open>
  The buffer is cleared after every block, so that a short last block is padded with zeros.
  Before the first block it is uninitialised: the model is exact for images of at least 64
  bytes.
\<close>

definition pad64 :: "byte list \<Rightarrow> byte list" where
  "pad64 bs = take 64 (bs @ replicate 64 0)"

text \<open>The part of a data packet that its check sum covers.\<close>

definition packet_body :: "byte \<Rightarrow> byte \<Rightarrow> byte \<Rightarrow> byte list \<Rightarrow> byte list" where
  "packet_body c hi lo block = [0x02, c, hi, lo] @ pad64 block"

definition data_packet :: "byte \<Rightarrow> byte \<Rightarrow> byte \<Rightarrow> byte list \<Rightarrow> byte list" where
  "data_packet c hi lo block =
     (let body = packet_body c hi lo block; check = checksum body in
      [0xFC, 0xFC] @ body @ [hi8 check, lo8 check, 0xFE, 0xFE])"

text \<open>A reply of eight bytes (or a multiple of eight), or of exactly \<open>n\<close>, with a code.\<close>

definition end_reply :: "byte \<Rightarrow> int \<times> byte list \<Rightarrow> bool" where
  "end_reply c r = (fst r mod 8 = 0 \<and> snd r ! 3 = c \<and> snd r ! 0 = 0xFB \<and> snd r ! 1 = 0xFB
     \<and> snd r ! 6 = 0xFE \<and> snd r ! 7 = 0xFE)"

definition reply8 :: "byte \<Rightarrow> int \<times> byte list \<Rightarrow> bool" where
  "reply8 c r = (fst r = 8 \<and> snd r ! 3 = c \<and> snd r ! 0 = 0xFB \<and> snd r ! 1 = 0xFB
     \<and> snd r ! 6 = 0xFE \<and> snd r ! 7 = 0xFE)"

definition reply12 :: "byte \<Rightarrow> int \<times> byte list \<Rightarrow> bool" where
  "reply12 c r = (fst r = 12 \<and> snd r ! 3 = c \<and> snd r ! 0 = 0xFB \<and> snd r ! 1 = 0xFB
     \<and> snd r ! 10 = 0xFE \<and> snd r ! 11 = 0xFE)"

section \<open>The phases of an update\<close>

definition Sendupdatepackage_start :: "nat \<Rightarrow> int ecu" where
  "Sendupdatepackage_start i = do {
     ok \<leftarrow> retry 10 (do {
       zb_send_cmd i (plain_packet 0x01 0x80);
       r \<leftarrow> zb_get_reply i;
       ret (if end_reply 0x18 r then 1 else 0) });
     ret (if ok then 1 else -1) }"

text \<open>The image for a model, by the names in \<open>Sendupdatepackage_single\<close>.\<close>

definition image_path :: "byte \<Rightarrow> string option" where
  "image_path m =
     (if m = 1 \<or> m = 2 then Some ''/HOME/UPYC250.BIN''
      else if m = 3 \<or> m = 4 then Some ''/HOME/UP500.BIN''
      else if m = 5 \<or> m = 6 then Some ''/HOME/UP1000.BIN''
      else if m = 7 then Some ''/HOME/UP600.BIN''
      else None)"

text \<open>The names in \<open>Complementupdatepackage_single\<close>.\<close>

definition complement_path :: "byte \<Rightarrow> string option" where
  "complement_path m =
     (if m = 1 \<or> m = 2 then Some ''/HOME/UPYC250.BIN''
      else if m = 3 \<or> m = 4 then Some ''/HOME/UPYC500.BIN''
      else if m = 5 \<or> m = 6 then Some ''/HOME/UPYC1000.BIN''
      else if m = 7 then Some ''/HOME/UPYC600.BIN''
      else None)"

text \<open>
  \<open>while(read(fd,package_buff,64)>0)\<close>: the image from a position on. The buffer is cleared
  between reads, so a short last block is padded with zeros.
\<close>

function send_image :: "nat \<Rightarrow> int \<Rightarrow> byte list \<Rightarrow> unit ecu" where
  "send_image i package_num img =
     (if img = [] then ret ()
      else do {
        zb_send_cmd i (data_packet 0x40 (u8 (package_num div 256)) (u8 (package_num mod 256)) (take 64 img));
        send_image i (package_num + 1) (drop 64 img) })"
  by pat_completeness auto
termination by (relation "measure (\<lambda>(i, n, img). length img)") auto

declare send_image.simps [simp del]

definition Sendupdatepackage_single :: "nat \<Rightarrow> int ecu" where
  "Sendupdatepackage_single i = do {
     v \<leftarrow> get_inv i;
     (case image_path (model v) of
        None \<Rightarrow> ret (-1)
      | Some p \<Rightarrow> do {
          f \<leftarrow> read_file p;
          (case f of
             None \<Rightarrow> ret (-2)
           | Some txt \<Rightarrow> do { send_image i 0 (bytes_of txt); ret 1 }) }) }"

text \<open>\<open>do ... while((12!=ret)&&(i<5))\<close>: at most five inquiries; the last reply is the result.\<close>

fun inquire :: "nat \<Rightarrow> nat \<Rightarrow> (int \<times> byte list) ecu" where
  "inquire 0 i = ret (-1, [])"
| "inquire (Suc n) i = do {
     zb_send_cmd i (plain_packet 0x04 0x20);
     r \<leftarrow> zb_get_reply i;
     if fst r \<noteq> 12 \<and> n > 0 then inquire n i else ret r }"

text \<open>One missing block is sent up to ten times; the reply that acknowledges it, if any.\<close>

fun resend :: "nat \<Rightarrow> nat \<Rightarrow> byte list \<Rightarrow> (byte list option) ecu" where
  "resend 0 i packet = ret None"
| "resend (Suc n) i packet = do {
     zb_send_cmd i packet;
     r \<leftarrow> zb_get_reply i;
     if reply12 0x24 r then ret (Some (snd r)) else resend n i packet }"

lemma resend_consumes:
  "run_state (resend n i packet) s = (Some d, t) \<Longrightarrow> length (zb_rx t) < length (zb_rx s)"
proof (induction n arbitrary: s)
  case (Suc n)
  obtain r u where u: "run_state (do { zb_send_cmd i packet; zb_get_reply i }) s = (r, u)" by fastforce
  have "state_io_rel consumes (do { zb_send_cmd i packet; zb_get_reply i })"
    by (simp add: state_io_rel_def run_zb_send_cmd run_zb_get_reply consumes_def Let_def
        split: list.split option.split)
  then have le: "length (zb_rx u) \<le> length (zb_rx s)"
    using u unfolding state_io_rel_def consumes_def by (metis snd_conv)
  have step: "run_state (resend (Suc n) i packet) s
      = (if reply12 0x24 r then (Some (snd r), u) else run_state (resend n i packet) u)"
    using u by (simp add: case_prod_beta split: prod.splits)
  show ?case
  proof (cases "reply12 0x24 r")
    case True
    then have "fst r = 12" by (simp add: reply12_def)
    then have "zb_rx s \<noteq> []" "zb_rx u = tl (zb_rx s)"
      using u by (auto simp: run_zb_send_cmd run_zb_get_reply Let_def
          split: if_splits list.splits option.splits)
    then have "length (zb_rx u) < length (zb_rx s)" by (cases "zb_rx s") auto
    then show ?thesis using Suc.prems step True by simp
  next
    case False
    then show ?thesis using Suc.IH[of u] Suc.prems step le by simp
  qed
qed simp

text \<open>
  The loop over the missing blocks: \<open>data\<close> is the last reply, whose bytes 4 and 5 name the
  next missing block and whose bytes 6 and 7 count those left.
\<close>

function complement_loop :: "nat \<Rightarrow> byte list \<Rightarrow> byte list \<Rightarrow> ecu_state \<Rightarrow> int \<times> ecu_state" where
  "complement_loop i img data s =
     (if be16 (data ! 6) (data ! 7) > 0
      then (let packet = data_packet 0x4F (data ! 4) (data ! 5)
                           (take 64 (drop (nat (be16 (data ! 4) (data ! 5)) * 64) img)) in
        case run_state (resend 10 i packet) s of
          (None, t) \<Rightarrow> (-1, t)
        | (Some data', t) \<Rightarrow> complement_loop i img data' (exec (delay_ms 30) t))
      else (1, s))"
  by pat_completeness auto
termination
proof (relation "measure (\<lambda>(i, img, data, s). length (zb_rx s))")
  fix i img data s packet r t d'
  assume "(r, t) = run_state (resend 10 i packet) s" "r = Some d'"
  then have "length (zb_rx t) < length (zb_rx s)" using resend_consumes[of 10 i packet s d' t] by simp
  then show "((i, img, d', exec (delay_ms 30) t), i, img, data, s)
      \<in> measure (\<lambda>(i, img, data, s). length (zb_rx s))"
    by (simp add: delay_ms_def emit_def)
qed simp

declare complement_loop.simps [simp del]

definition Complementupdatepackage_single :: "nat \<Rightarrow> int ecu" where
  "Complementupdatepackage_single i = do {
     clear_zbmodem;
     r \<leftarrow> inquire 5 i;
     if reply12 0x42 r
     then do {
       v \<leftarrow> get_inv i;
       f \<leftarrow> (case complement_path (model v) of None \<Rightarrow> ret None | Some p \<Rightarrow> read_file p);
       (case f of
          None \<Rightarrow> ret 1
        | Some txt \<Rightarrow> State (complement_loop i (bytes_of txt) (snd r))) }
     else if reply12 0x45 r then ret (-1)
     else ret 0 }"

text \<open>Up to \<open>n\<close> attempts that end with the reply of success (1) or of failure (-1); else 0.\<close>

fun order_loop :: "nat \<Rightarrow> nat \<Rightarrow> byte list \<Rightarrow> (int \<times> byte list) ecu \<Rightarrow> byte \<Rightarrow> byte \<Rightarrow> int ecu" where
  "order_loop 0 i packet reply good bad = ret 0"
| "order_loop (Suc n) i packet reply good bad = do {
     zb_send_cmd i packet;
     r \<leftarrow> reply;
     if reply8 good r then ret 1
     else if reply8 bad r then ret (-1)
     else order_loop n i packet reply good bad }"

definition Update_start :: "nat \<Rightarrow> int ecu" where
  "Update_start i = order_loop 3 i (plain_packet 0x05 0xA0) (zb_get_reply_update_start i) 0x05 0xE5"

definition Restore :: "nat \<Rightarrow> int ecu" where
  "Restore i = order_loop 3 i (plain_packet 0x06 0x60) (zb_get_reply_restore i) 0x06 0xE6"

definition Update_success_end :: "nat \<Rightarrow> int ecu" where
  "Update_success_end i = do {
     ok \<leftarrow> retry 3 (do {
       zb_send_cmd i (plain_packet 0x03 0xC0);
       r \<leftarrow> zb_get_reply i;
       ret (if end_reply 0x3C r then 1 else 0) });
     ret (if ok then 1 else -1) }"

section \<open>One inverter\<close>

text \<open>\<open>for(i=0;i<10;i++){ ret=Update_start(inverter); if(1==ret) break; }\<close>\<close>

fun start_tries :: "nat \<Rightarrow> int \<Rightarrow> nat \<Rightarrow> int ecu" where
  "start_tries 0 prev i = ret prev"
| "start_tries (Suc n) prev i = do {
     r \<leftarrow> Update_start i;
     if r = 1 then ret 1 else start_tries n r i }"

definition remote_update_single :: "nat \<Rightarrow> int ecu" where
  "remote_update_single i = do {
     Update_success_end i;
     st \<leftarrow> Sendupdatepackage_start i;
     if st = 1
     then do {
       sent \<leftarrow> Sendupdatepackage_single i;
       if sent = -1 then ret 2
       else if sent = -2 then do { Restore i; Update_success_end i; ret 3 }
       else do {
         c \<leftarrow> Complementupdatepackage_single i;
         if c = -1 then do { Restore i; Update_success_end i; ret 4 }
         else if c = 1
         then do {
           u \<leftarrow> start_tries 10 0 i;
           if u = 1 then do { Update_success_end i; ret 0 }
           else if u = -1 then do { Restore i; Update_success_end i; ret 6 }
           else ret 7 }
         else ret 5 } }
     else ret 1 }"

section \<open>The requests\<close>

text \<open>Up to \<open>n\<close> insertions with a pause of a second after each failure.\<close>

fun insert_tries :: "nat \<Rightarrow> string \<Rightarrow> string \<Rightarrow> bool ecu" where
  "insert_tries 0 p l = ret False"
| "insert_tries (Suc n) p l = do {
     r \<leftarrow> insert_line p l;
     if r = 1 then ret True else do { delay_ms 1000; insert_tries n p l } }"

definition upinv_line :: "string \<Rightarrow> string \<Rightarrow> string \<Rightarrow> string" where
  "upinv_line i res time = i @ '','' @ res @ '','' @ time @ '',0'' @ [NL]"

text \<open>
  Up to \<open>n\<close> inquiries of the version; after the first answer the entry is written again.
  The loop variable of the insertions is that of the inquiries, so the outcome is failure
  also when the insertions fail.
\<close>

fun version_tries :: "nat \<Rightarrow> nat \<Rightarrow> string \<Rightarrow> bool ecu" where
  "version_tries 0 i time = ret False"
| "version_tries (Suc n) i time = do {
     q \<leftarrow> zb_query_inverter_info i;
     if q = 1
     then do {
       updateID;
       v \<leftarrow> get_inv i;
       delete_line path_upinv path_upinv_tmp (inv_id v) 12;
       insert_tries 3 path_upinv (upinv_line (inv_id v) (fmt_d (version v)) time) }
     else version_tries n i time }"

definition remote_update_result :: "string \<Rightarrow> int \<Rightarrow> int \<Rightarrow> int ecu" where
  "remote_update_result i ver update_result = do {
     save_inverter_parameters_result2 i 135 (i @ fmt_0d 5 ver @ fmt_0d 2 update_result @ ''END'');
     ret 0 }"

text \<open>The update itself and its bookkeeping, with the fields of the request.\<close>

definition update_one :: "nat \<Rightarrow> string list \<Rightarrow> unit ecu" where
  "update_one i fs = do {
     res \<leftarrow> remote_update_single i;
     v \<leftarrow> get_inv i;
     delete_line path_upinv path_upinv_tmp (inv_id v) 12;
     insert_tries 3 path_upinv (upinv_line (inv_id v) (fld fs 1) (fld fs 2));
     ok \<leftarrow> version_tries 3 i (fld fs 2);
     v \<leftarrow> get_inv i;
     remote_update_result (inv_id v) (version v) (if ok then res else res + 10);
     ret () }"

text \<open>
  The first round switches the inverter off and notes the time; a later round updates it,
  unless 1800 seconds have passed.
\<close>

definition update_step :: "nat \<Rightarrow> unit ecu" where
  "update_step i = do {
     v \<leftarrow> get_inv i;
     (r, l) \<leftarrow> read_line path_upinv (inv_id v) 12;
     if r = 1
     then (let fs = splitString (cstr l) in
       if atoi (fld fs 3) = 1
       then
         (if updating v = 0
          then do {
            z \<leftarrow> zb_shutdown_single i;
            if z = 1
            then do {
              t \<leftarrow> acquire_time;
              upd_inv i (\<lambda>v. v\<lparr>updating := 1, updating_time := t\<rparr>) }
            else ret () }
          else do {
            t \<leftarrow> acquire_time;
            if compareTime t (updating_time v) 1800 then ret ()
            else do {
              upd_inv i (\<lambda>v. v\<lparr>updating := 0\<rparr>);
              update_one i fs } })
       else ret ())
     else ret () }"

definition remote_update :: "int ecu" where
  "remote_update = do { for_each_inverter update_step; ret 0 }"

end
