(* ===== verification/Update_Spec.thy ===== *)
theory Update_Spec
  imports Remote_Update
begin

text \<open>
  What a firmware update guarantees: the image arrives block by block with correct numbers
  and sums, success is reported only when the inverter confirmed it, and the request is not
  repeated; and what happens when the file for missing blocks is not there.
\<close>

section \<open>Effects of the phases\<close>

lemma length_plain_packet [simp]: "length (plain_packet a b) = 74"
  by (simp add: plain_packet_def)

lemma length_pad64 [simp]: "length (pad64 bs) = 64"
  by (simp add: pad64_def)

lemma length_data_packet [simp]: "length (data_packet c hi lo block) = 74"
  by (simp add: data_packet_def packet_body_def Let_def)

context zb_effect begin

lemma eff_send_image [eff_intros]: "state_io_rel R (send_image i n img)"
proof (induction i n img rule: send_image.induct)
  case (1 i n img)
  show ?case
    by (subst send_image.simps) (intro eff_intros 1; simp)
qed

lemma eff_inquire [eff_intros]: "state_io_rel R (inquire n i)"
  by (induction n) (auto intro!: eff_intros)

lemma eff_resend [eff_intros]: "length p < 256 \<Longrightarrow> state_io_rel R (resend n i p)"
  by (induction n) (auto intro!: eff_intros)

lemma eff_complement_loop: "R s (snd (complement_loop i img d s))"
proof (induction i img d s rule: complement_loop.induct)
  case (1 i img d s)
  let ?p = "data_packet 0x4F (d ! 4) (d ! 5) (take 64 (drop (nat (be16 (d ! 4) (d ! 5)) * 64) img))"
  obtain r t where rt: "run_state (resend 10 i ?p) s = (r, t)" by fastforce
  have "R s t" using state_io_relE[OF eff_resend[of ?p 10 i], of s] rt by simp
  moreover have "R t (exec (delay_ms 30) t)" by (rule state_io_relE[OF eff_delay])
  ultimately show ?case
    using 1[OF _ refl rt[symmetric]] R_refl R_trans
    by (subst complement_loop.simps) (auto simp: Let_def rt split: option.split)
qed

lemma eff_complement [eff_intros]: "state_io_rel R (Complementupdatepackage_single i)"
proof -
  have "state_io_rel R (State (complement_loop i img d))" for img d
    by (simp add: state_io_rel_def eff_complement_loop)
  then show ?thesis
    unfolding Complementupdatepackage_single_def by (intro eff_intros)
qed

lemma eff_order_loop [eff_intros]:
  "length p < 256 \<Longrightarrow> state_io_rel R reply \<Longrightarrow> state_io_rel R (order_loop n i p reply good bad)"
  by (induction n) (auto intro!: eff_intros)

lemma eff_orders [eff_intros]:
  "state_io_rel R (Update_start i)" "state_io_rel R (Restore i)" "state_io_rel R (Update_success_end i)"
  "state_io_rel R (Sendupdatepackage_start i)" "state_io_rel R (Sendupdatepackage_single i)"
  unfolding Update_start_def Restore_def Update_success_end_def Sendupdatepackage_start_def
    Sendupdatepackage_single_def
  by (intro eff_intros; simp)+

lemma eff_start_tries [eff_intros]: "state_io_rel R (start_tries n prev i)"
  by (induction n arbitrary: prev) (auto intro!: eff_intros)

lemma eff_remote_update_single [eff_intros]: "state_io_rel R (remote_update_single i)"
  unfolding remote_update_single_def by (intro eff_intros)

end

section \<open>The image\<close>

lemma packet_check:
  "be16 (data_packet c hi lo b ! 70) (data_packet c hi lo b ! 71) = checksum (take 68 (drop 2 (data_packet c hi lo b)))"
  "take 64 (drop 6 (data_packet c hi lo b)) = pad64 b"
  "data_packet c hi lo b ! 4 = hi" "data_packet c hi lo b ! 5 = lo"
proof -
  let ?body = "packet_body c hi lo b"
  have len: "length ?body = 68" by (simp add: packet_body_def)
  have p: "data_packet c hi lo b = [0xFC, 0xFC] @ ?body @ [hi8 (checksum ?body), lo8 (checksum ?body), 0xFE, 0xFE]"
    by (simp add: data_packet_def Let_def)
  have "be16 (hi8 (checksum ?body)) (lo8 (checksum ?body)) = checksum ?body"
    using checksum_bounds[of ?body] len by (intro be16_hi_lo) auto
  then show "be16 (data_packet c hi lo b ! 70) (data_packet c hi lo b ! 71) = checksum (take 68 (drop 2 (data_packet c hi lo b)))"
    using len by (simp add: p nth_append)
  show "take 64 (drop 6 (data_packet c hi lo b)) = pad64 b"
    "data_packet c hi lo b ! 4 = hi" "data_packet c hi lo b ! 5 = lo"
    by (simp_all add: p packet_body_def)
qed

text \<open>Block \<open>k\<close> of an image.\<close>

definition block :: "byte list \<Rightarrow> nat \<Rightarrow> byte list" where
  "block img k = take 64 (drop (64 * k) img)"

lemma block_Suc: "block img (Suc k) = block (drop 64 img) k"
  by (simp add: block_def add.commute)

lemma blocks_step:
  assumes "img \<noteq> []"
  shows "map f [0..<(length img + 63) div 64]
    = f 0 # map (\<lambda>k. f (Suc k)) [0..<(length (drop 64 img) + 63) div 64]"
proof -
  have "(length img + 63) div 64 = Suc ((length (drop 64 img) + 63) div 64)"
  proof -
    have "1 \<le> length img" using assms by (cases img) auto
    moreover have "(l + 63) div 64 = Suc ((l - 64 + 63) div 64)" if "1 \<le> l" for l :: nat
    proof (cases "l \<le> 64")
      case True
      then have "(l + 63) div 64 = 1" using that by (intro div_nat_eqI) auto
      then show ?thesis using True by simp
    next
      case False
      then obtain m where "l = m + 64" by (metis add.commute le_Suc_ex nat_le_linear)
      then show ?thesis by simp
    qed
    ultimately show ?thesis by simp
  qed
  then show ?thesis by (simp add: map_upt_Suc del: upt_Suc)
qed

lemma blocks_concat:
  "\<exists>z. concat (map (\<lambda>k. pad64 (block img k)) [0..<(length img + 63) div 64]) = img @ replicate z 0"
proof (induction "length img" arbitrary: img rule: less_induct)
  case less
  show ?case
  proof (cases "img = []")
    case False
    then obtain z where z: "concat (map (\<lambda>k. pad64 (block (drop 64 img) k)) [0..<(length (drop 64 img) + 63) div 64])
        = drop 64 img @ replicate z 0"
      using less.hyps[of "drop 64 img"] by auto
    have "concat (map (\<lambda>k. pad64 (block img k)) [0..<(length img + 63) div 64])
        = pad64 (take 64 img) @ drop 64 img @ replicate z 0"
      unfolding blocks_step[OF False] by (simp only: block_Suc z concat.simps) (simp add: block_def)
    also have "\<dots> = img @ replicate (if length img < 64 then 64 - length img + z else z) 0"
      by (cases "length img < 64") (auto simp: pad64_def replicate_add[symmetric])
    finally show ?thesis by blast
  qed simp
qed

lemma send_image_frames:
  assumes "shortaddr (inv_at s i) = addr" "addr \<noteq> 0"
  shows "frames (trace (exec (send_image i n img) s)) = frames (trace s)
    @ map (\<lambda>k. unicast_frame addr (data_packet 0x40 (u8 ((n + int k) div 256)) (u8 ((n + int k) mod 256)) (block img k)))
        [0..<(length img + 63) div 64]"
  using assms
proof (induction i n img arbitrary: s rule: send_image.induct)
  case (1 i n img)
  show ?case
  proof (cases "img = []")
    case True
    then show ?thesis by (simp add: send_image.simps[of i n "[]"])
  next
    case False
    let ?p = "data_packet 0x40 (u8 (n div 256)) (u8 (n mod 256)) (take 64 img)"
    obtain t where t: "run_state (zb_send_cmd i ?p) s = (1, t)"
      "frames (trace t) = frames (trace s) @ [unicast_frame addr ?p]" "shortaddr (inv_at t i) = addr"
      using 1(2,3) by (simp add: run_zb_send_cmd inv_at_def)
    have "exec (send_image i n img) s = exec (send_image i (n + 1) (drop 64 img)) t"
      using False t(1) by (subst send_image.simps) simp
    then show ?thesis
      using 1(1)[OF False t(3) 1(3)] t(2)
      by (subst blocks_step[OF False]) (simp add: block_Suc block_def[of img 0] algebra_simps)
  qed
qed

text \<open>
  C27. The whole image is sent: one frame per block of 64 bytes, to the inverter's address, in
  order; packet \<open>k\<close> carries the number \<open>k\<close> and the sum of its bytes, and the blocks put
  together are the image, padded with zeros. (The image has a full block at least: a shorter
  one is padded with what the uninitialised buffer holds.)
\<close>

theorem image_transmitted:
  assumes "image_path (model (inv_at s i)) = Some p" "files s p = Some img"
    "shortaddr (inv_at s i) = addr" "addr \<noteq> 0" "length img \<le> 64 * 65536" "64 \<le> length img"
  shows "\<exists>pkts z. result (Sendupdatepackage_single i) s = 1
    \<and> frames (trace (exec (Sendupdatepackage_single i) s)) = frames (trace s) @ map (unicast_frame addr) pkts
    \<and> (\<forall>k < length pkts. be16 (pkts ! k ! 4) (pkts ! k ! 5) = int k
        \<and> be16 (pkts ! k ! 70) (pkts ! k ! 71) = checksum (take 68 (drop 2 (pkts ! k))))
    \<and> length pkts = (length img + 63) div 64
    \<and> concat (map (\<lambda>q. take 64 (drop 6 q)) pkts) = bytes_of img @ replicate z 0"
proof -
  let ?b = "bytes_of img"
  let ?n = "(length ?b + 63) div 64"
  let ?pk = "\<lambda>k. data_packet 0x40 (u8 (int k div 256)) (u8 (int k mod 256)) (block ?b k)"
  let ?pkts = "map ?pk [0..<?n]"
  have run: "result (Sendupdatepackage_single i) s = 1"
    "exec (Sendupdatepackage_single i) s = exec (send_image i 0 ?b) s"
    using assms(1,2)
    by (simp_all add: Sendupdatepackage_single_def get_inv_def read_file_def case_prod_beta)
  have fr: "frames (trace (exec (send_image i 0 ?b) s)) = frames (trace s) @ map (unicast_frame addr) ?pkts"
    using send_image_frames[OF assms(3,4), of 0 ?b] by (simp add: comp_def)
  have num: "be16 (u8 (int k div 256)) (u8 (int k mod 256)) = int k" if "k < ?n" for k
  proof -
    have "k < 65536" using that assms(5) by (simp add: less_Suc_eq_le)
    then show ?thesis by (intro be16_u8) auto
  qed
  obtain z where z: "concat (map (\<lambda>k. pad64 (block ?b k)) [0..<?n]) = ?b @ replicate z 0"
    using blocks_concat[of ?b] by blast
  have "concat (map (\<lambda>q. take 64 (drop 6 q)) ?pkts) = ?b @ replicate z 0"
    using z by (simp add: packet_check(2) comp_def)
  moreover have "\<forall>k < length ?pkts. be16 (?pkts ! k ! 4) (?pkts ! k ! 5) = int k
        \<and> be16 (?pkts ! k ! 70) (?pkts ! k ! 71) = checksum (take 68 (drop 2 (?pkts ! k)))"
    using num by (simp add: packet_check)
  ultimately show ?thesis using run fr by (intro exI[of _ ?pkts] exI[of _ z]) simp
qed

theorem image_transmitted_witness:
  defines "s \<equiv> blank\<lparr>inverters := [empty_inverter\<lparr>inv_id := ''408000000001'', shortaddr := 77, model := 7\<rparr>],
     files := [''/HOME/UP600.BIN'' \<mapsto> replicate 100 (CHR ''F'')]\<rparr>"
  shows "result (Sendupdatepackage_single 0) s = 1"
  using image_transmitted[of s 0 "''/HOME/UP600.BIN''" "replicate 100 (CHR ''F'')" 77]
  by (auto simp: s_def slot_def image_path_def)

section \<open>Success is confirmed\<close>

text \<open>Replies are taken from the front of the queue, and ids stay.\<close>

definition trail :: "ecu_state \<Rightarrow> ecu_state \<Rightarrow> bool" where
  "trail s t = ((\<exists>k. zb_rx t = drop k (zb_rx s)) \<and> same_ids s t)"

interpretation trail: zb_effect trail "\<lambda>_. True"
proof unfold_locales
  show "trail s s" for s by (auto simp: trail_def same_ids_def intro: exI[of _ 0])
  show "trail s u" if "trail s t" "trail t u" for s t u
    using that unfolding trail_def same_ids_def by (metis drop_drop)
  show "trail s (s\<lparr>zb_rx := tl (zb_rx s)\<rparr>)" for s
    by (auto simp: trail_def same_ids_def drop_Suc intro: exI[of _ "1::nat"])
  show "trail s (s\<lparr>inverters := (inverters s)[i := v]\<rparr>)" if "inv_id v = inv_id (inv_at s i)" for s i v
    using ids.R_inv[OF that] by (auto simp: trail_def intro: exI[of _ 0])
qed (auto simp: trail_def same_ids_def intro: exI[of _ 0])

lemma trail_id: "trail s t \<Longrightarrow> inv_id (inv_at t i) = inv_id (inv_at s i)"
proof -
  assume "trail s t"
  then have m: "map inv_id (inverters t) = map inv_id (inverters s)" by (simp add: trail_def same_ids_def)
  then have "length (inverters t) = length (inverters s)" by (metis length_map)
  then show ?thesis using inv_id_at[of i t] inv_id_at[of i s] m
    by (cases "i < length (inverters s)") (auto simp: inv_at_def slot_def)
qed

lemma trail_rx: "trail s t \<Longrightarrow> set (zb_rx t) \<subseteq> set (zb_rx s)"
  by (auto simp: trail_def dest: in_set_dropD)

text \<open>A message of the inverter with this id whose reply data carry a code.\<close>

definition confirmation :: "string \<Rightarrow> byte \<Rightarrow> byte list \<Rightarrow> bool" where
  "confirmation j c bs = (20 \<le> length bs \<and> hex_string (take 6 (drop 6 bs)) = j \<and> bs ! 15 = c)"

lemma marked_reply_confirms:
  assumes "reply8 c (result (zb_get_reply_marked t i) s)"
  shows "\<exists>bs. Some bs \<in> set (zb_rx s) \<and> confirmation (inv_id (inv_at s i)) c bs"
proof -
  obtain bs rest where rx: "zb_rx s = Some bs # rest"
    using assms by (cases "zb_rx s" rule: list.exhaust; cases "hd (zb_rx s)")
      (auto simp: zb_get_reply_marked_def selectZigbee_def zb_read_def link_defs reply8_def)
  let ?d = "take 255 bs"
  have ok: "reply_from ?d (uint (shortaddr (inv_at s i))) (inv_id (inv_at s i))"
    and r: "int (length ?d) - 12 = 8" "drop 12 ?d ! 3 = c"
    using assms rx
    by (auto simp: zb_get_reply_marked_def selectZigbee_def zb_read_def link_defs reply8_def
        inv_at_def Let_def split: if_splits)
  have "hex_string (take 6 (drop 6 bs)) = inv_id (inv_at s i)"
    using ok by (simp add: reply_from_def drop_take)
  moreover have "20 \<le> length bs" "bs ! 15 = c" using r by auto
  ultimately show ?thesis using rx by (auto simp: confirmation_def)
qed

lemma order_confirmed:
  assumes "result (order_loop n i p (zb_get_reply_marked t i) good bad) s = 1"
    and "length p < 256"
  shows "\<exists>bs. Some bs \<in> set (zb_rx s) \<and> confirmation (inv_id (inv_at s i)) good bs"
  using assms(1)
proof (induction n arbitrary: s)
  case (Suc n)
  let ?u = "exec (zb_send_cmd i p) s"
  let ?r = "result (zb_get_reply_marked t i) ?u" and ?v = "exec (zb_get_reply_marked t i) ?u"
  have "state_io_rel trail (zb_get_reply_marked t i)"
    unfolding zb_get_reply_marked_def by (intro eff_intros)
  moreover have "state_io_rel trail (zb_send_cmd i p)" using assms(2) by (intro eff_intros)
  ultimately have u: "trail s ?u" "trail s ?v" by (auto intro: state_io_relE trail.R_trans)
  have step: "result (order_loop (Suc n) i p (zb_get_reply_marked t i) good bad) s
    = (if reply8 good ?r then 1 else if reply8 bad ?r then -1
       else result (order_loop n i p (zb_get_reply_marked t i) good bad) ?v)"
    by (simp add: case_prod_beta)
  show ?case
  proof (cases "reply8 good ?r")
    case True
    then show ?thesis using marked_reply_confirms[OF True] trail_rx[OF u(1)] trail_id[OF u(1)] by auto
  next
    case False
    then have "result (order_loop n i p (zb_get_reply_marked t i) good bad) ?v = 1"
      using Suc.prems step by (auto split: if_splits)
    then show ?thesis using Suc.IH trail_rx[OF u(2)] trail_id[OF u(2)] by fastforce
  qed
qed simp

lemma start_confirmed:
  assumes "result (start_tries n prev i) s = 1" "prev \<noteq> 1"
  shows "\<exists>bs. Some bs \<in> set (zb_rx s) \<and> confirmation (inv_id (inv_at s i)) 0x05 bs"
  using assms
proof (induction n arbitrary: s prev)
  case (Suc n)
  let ?r = "result (Update_start i) s" and ?v = "exec (Update_start i) s"
  have v: "trail s ?v" by (rule state_io_relE) (intro eff_intros)
  show ?case
  proof (cases "?r = 1")
    case True
    then show ?thesis
      by (intro order_confirmed[of 3 i "plain_packet 0x05 0xA0" 10 "0x05" "0xE5" s])
        (simp_all add: Update_start_def zb_get_reply_update_start_def)
  next
    case False
    then have "result (start_tries n ?r i) ?v = 1" using Suc.prems by (simp add: case_prod_beta)
    then show ?thesis using Suc.IH False trail_rx[OF v] trail_id[OF v] by fastforce
  qed
qed simp

text \<open>
  C15. An update is never reported as a success (result 0) unless a message of this very
  inverter confirmed that the new firmware was started: without one, the result is one of
  the error codes 1 to 7.
\<close>

theorem update_success_is_confirmed:
  assumes "\<forall>bs. Some bs \<in> set (zb_rx s) \<longrightarrow> \<not> confirmation (inv_id (inv_at s i)) 0x05 bs"
  shows "result (remote_update_single i) s \<in> {1..7}"
proof -
  let ?s1 = "exec (Update_success_end i) s"
  let ?s2 = "exec (Sendupdatepackage_start i) ?s1"
  let ?s3 = "exec (Sendupdatepackage_single i) ?s2"
  let ?s4 = "exec (Complementupdatepackage_single i) ?s3"
  have t1: "trail s ?s1" by (rule state_io_relE) (intro eff_intros)
  have t2: "trail ?s1 ?s2" by (rule state_io_relE) (intro eff_intros)
  have t3: "trail ?s2 ?s3" by (rule state_io_relE) (intro eff_intros)
  have t4: "trail ?s3 ?s4" by (rule state_io_relE) (intro eff_intros)
  have t: "trail s ?s4"
    using t1 t2 t3 t4 by (blast intro: trail.R_trans)
  have "result (start_tries 10 0 i) ?s4 \<noteq> 1"
    using start_confirmed[of 10 0 i ?s4] trail_rx[OF t] trail_id[OF t, of i] assms by auto
  then show ?thesis
    by (simp add: remote_update_single_def result_bind exec_bind del: run_state_bind)
qed

theorem update_success_is_confirmed_witness:
  "result (remote_update_single 0) (blank\<lparr>zb_rx := [Some [0xFC, 0xFC], None]\<rparr>) \<in> {1..7}"
  by (rule update_success_is_confirmed) (simp add: confirmation_def)

section \<open>Bookkeeping\<close>

interpretation upq: line_store "\<lambda>k. delete_line path_upinv path_upinv_tmp k 12"
    "insert_line path_upinv" "store_lines path_upinv" "store_ok path_upinv path_upinv_tmp"
  by (rule files_line_store)

lemma upinv_short:
  assumes "valid_id i" "plain res" "plain t" "length res \<le> 20" "length t \<le> 31"
  shows "short_line (upinv_line i res t)" "keyed i (upinv_line i res t)"
proof -
  have "\<forall>c \<in> set '',0''. c \<noteq> NL \<and> c \<noteq> NUL" "\<forall>c \<in> set '',''. c \<noteq> NL \<and> c \<noteq> NUL"
    by (simp_all add: NL_def NUL_def)
  then have "\<forall>c \<in> set (i @ '','' @ res @ '','' @ t @ '',0''). c \<noteq> NL \<and> c \<noteq> NUL"
    using plain_line[OF plain_valid_id[OF assms(1)]] plain_line[OF assms(2)] plain_line[OF assms(3)]
    by (simp only: set_append ball_Un simp_thms)
  then have "is_line ((i @ '','' @ res @ '','' @ t @ '',0'') @ [NL])" by (intro is_lineI) blast
  then show "short_line (upinv_line i res t)" "keyed i (upinv_line i res t)"
    using assms by (simp_all add: short_line_def upinv_line_def keyed_def valid_id_def)
qed

text \<open>
  The entry of inverter \<open>j\<close> is a single line with flag 0; the entries of the other inverters
  are kept.
\<close>

definition upinv_others :: "string \<Rightarrow> ecu_state \<Rightarrow> string list" where
  "upinv_others j s = filter (\<lambda>l. \<not> keyed j l) (store_lines path_upinv s)"

definition served :: "string \<Rightarrow> ecu_state \<Rightarrow> bool" where
  "served j s = (\<exists>res t. filter (keyed j) (store_lines path_upinv s) = [upinv_line j res t])"

definition upd_ready :: "nat \<Rightarrow> string \<Rightarrow> ecu_state \<Rightarrow> bool" where
  "upd_ready i j s = (store_ok path_upinv path_upinv_tmp s \<and> i < length (inverters s)
     \<and> inv_id (inv_at s i) = j)"

definition upd_rel :: "nat \<Rightarrow> string \<Rightarrow> ecu_state \<Rightarrow> ecu_state \<Rightarrow> bool" where
  "upd_rel i j s t = (upd_ready i j s \<longrightarrow> upd_ready i j t \<and> upinv_others j t = upinv_others j s
     \<and> (served j s \<longrightarrow> served j t))"

lemma upd_rel_files:
  assumes "files t path_upinv = files s path_upinv" "can_write t = can_write s"
    "length (inverters t) = length (inverters s)" "inv_id (inv_at t i) = inv_id (inv_at s i)"
  shows "upd_rel i j s t"
  using assms
  by (simp add: upd_rel_def upd_ready_def store_ok_def store_lines_def upinv_others_def served_def)

interpretation updr: zb_effect "upd_rel i j" "\<lambda>_. True" for i j
proof unfold_locales
  show "upd_rel i j s s" for s by (simp add: upd_rel_def)
  show "upd_rel i j s u" if "upd_rel i j s t" "upd_rel i j t u" for s t u
    using that unfolding upd_rel_def by metis
qed (auto intro!: upd_rel_files simp: inv_at_def slot_update)

lemma upinv_upsert:
  assumes "upd_ready i j s" "valid_id j" "plain res" "plain tm" "length res \<le> 20" "length tm \<le> 31"
  defines "m \<equiv> do { delete_line path_upinv path_upinv_tmp j 12;
                    insert_tries 3 path_upinv (upinv_line j res tm) }"
  shows "result m s \<and> upd_ready i j (exec m s) \<and> upinv_others j (exec m s) = upinv_others j s \<and> served j (exec m s)"
proof -
  let ?l = "upinv_line j res tm"
  note l = upinv_short[OF assms(2-6)]
  let ?u = "exec (delete_line path_upinv path_upinv_tmp j 12) s"
  have s: "store_ok path_upinv path_upinv_tmp s" using assms(1) by (simp add: upd_ready_def)
  note k = valid_id_key[OF assms(2)]
  have u: "store_ok path_upinv path_upinv_tmp ?u"
    "store_lines path_upinv ?u = upinv_others j s"
    using upq.del_ready[OF s k] upq.del_entries[OF s k] by (auto simp: upinv_others_def)
  have ins: "result (insert_line path_upinv ?l) ?u = 1"
    "store_lines path_upinv (exec (insert_line path_upinv ?l) ?u) = upinv_others j s @ [?l]"
    "store_ok path_upinv path_upinv_tmp (exec (insert_line path_upinv ?l) ?u)"
    using upq.ins_entries[OF u(1) l(1)] upq.ins_ready[OF u(1) l(1)] u(2) by auto
  have m: "result m s" "exec m s = exec (insert_line path_upinv ?l) ?u"
    using ins(1) by (simp_all add: m_def numeral_3_eq_3 case_prod_beta)
  have inv: "inverters (exec m s) = inverters s"
    unfolding m(2)
    by (simp add: delete_line_def insert_line_def search_line_def append_file_def read_file_def write_file_def
        remove_file_def rename_file_def split: option.split)
  show ?thesis
    using m(1) ins(2,3) l(2) assms(1) inv unfolding m(2)[symmetric]
    by (auto simp: upd_ready_def upinv_others_def served_def inv_at_def)
qed

lemma query_version:
  assumes "result (zb_query_inverter_info i) s = 1" "i < length (inverters s)"
  shows "0 \<le> version (inv_at (exec (zb_query_inverter_info i) s) i)
    \<and> version (inv_at (exec (zb_query_inverter_info i) s) i) < 10 ^ 9"
proof -
  let ?m = "do { clear_zbmodem; zb_send_cmd i [0xFB, 0xFB, 0x06, 0xDC, 0, 0, 0, 0, 0, 0, 0xE2, 0xFE, 0xFE]; zb_get_reply i }"
  obtain r t where rt: "run_state ?m s = (r, t)" by fastforce
  have "same_ids s t"
    using rt state_io_relE[of same_ids ?m s] by (force intro!: eff_intros simp del: run_state_bind)
  then have "i < length (inverters t)" using assms(2) by (metis length_map same_ids_def)
  moreover have "\<exists>a b c d. version (inv_at (exec (zb_query_inverter_info i) s) i) = be16 a b * 1000 + be16 c d"
    using assms(1) calculation rt
    by (auto simp: zb_query_inverter_info_def Let_def upd_inv_def inv_at_def slot_update case_prod_beta
        split: prod.splits if_splits)
  ultimately obtain a b c d where v: "version (inv_at (exec (zb_query_inverter_info i) s) i) = be16 a b * 1000 + be16 c d"
    by blast
  show ?thesis unfolding v using be16_bounds[of a b] be16_bounds[of c d] by simp
qed

lemma plain_fmt_d: "plain (fmt_d v)"
  by (simp add: plain_def fmt_d_plain)

lemma upd_relD: "state_io_rel (upd_rel i j) m \<Longrightarrow> upd_ready i j s \<Longrightarrow>
    upd_ready i j (exec m s) \<and> upinv_others j (exec m s) = upinv_others j s \<and> (served j s \<longrightarrow> served j (exec m s))"
  using state_io_relE[of "upd_rel i j" m s] by (simp add: upd_rel_def)

lemma updr_updateID [eff_intros]: "state_io_rel (upd_rel i j) updateID"
proof -
  have "path_upinv \<noteq> path_id" by (simp add: path_upinv_def path_id_def)
  then show ?thesis
    by (auto simp: state_io_rel_def updateID_def write_file_def intro!: upd_rel_files simp: inv_at_def)
qed

lemma updr_result [eff_intros]: "state_io_rel (upd_rel i j) (remote_update_result k v r)"
proof -
  have "path_upinv \<noteq> path_iprocres dt" for dt by (simp add: path_upinv_def path_iprocres_def)
  then show ?thesis
    by (auto simp: state_io_rel_def remote_update_result_def save_inverter_parameters_result2_def
        append_file_def intro!: upd_rel_files simp: inv_at_def)
qed

lemma version_tries_keeps:
  assumes "valid_id j" "plain tm" "length tm \<le> 31" "upd_ready i j s" "served j s"
  shows "let t = exec (version_tries n i tm) s in
    upd_ready i j t \<and> upinv_others j t = upinv_others j s \<and> served j t"
  using assms(4,5)
proof (induction n arbitrary: s)
  case (Suc n)
  let ?q = "result (zb_query_inverter_info i) s" and ?t = "exec (zb_query_inverter_info i) s"
  have "state_io_rel (upd_rel i j) (zb_query_inverter_info i)" by (intro eff_intros)
  note t = upd_relD[OF this Suc.prems(1)]
  show ?case
  proof (cases "?q = 1")
    case False
    then show ?thesis using Suc.IH[of ?t] t Suc.prems(2) by (simp add: case_prod_beta)
  next
    case True
    let ?u = "exec updateID ?t"
    have u: "upd_ready i j ?u" "upinv_others j ?u = upinv_others j s"
      using upd_relD[OF updr_updateID, of i j ?t] t by auto
    let ?v = "inv_at ?u i"
    have v: "inv_id ?v = j" using u(1) by (simp add: upd_ready_def)
    have "inv_at ?u i = inv_at ?t i" by (simp add: updateID_def write_file_def inv_at_def)
    then have "0 \<le> version ?v" "version ?v < 10 ^ 9"
      using query_version[OF True] Suc.prems(1) by (auto simp: upd_ready_def)
    then have len: "length (fmt_d (version ?v)) \<le> 20" using length_fmt_d[of "version ?v" 9] by simp
    have "exec (version_tries (Suc n) i tm) s = exec (do { delete_line path_upinv path_upinv_tmp j 12;
        insert_tries 3 path_upinv (upinv_line j (fmt_d (version ?v)) tm) }) ?u"
      using True v by (simp add: exec_bind get_inv_def del: run_state_bind)
    then show ?thesis
      using upinv_upsert[OF u(1) assms(1) plain_fmt_d assms(2) len assms(3)] u(2) by (simp only: Let_def)
  qed
qed simp

text \<open>
  After an update, whatever its result, the request file holds one entry of the inverter,
  with flag 0, so that the update is not repeated; the requests of other inverters are kept.
\<close>

lemma update_one_clears_request:
  assumes "store_ok path_upinv path_upinv_tmp s" "i < length (inverters s)"
    "valid_id (inv_id (inv_at s i))" "inv_id (inv_at s i) = j"
    "plain (fld fs 1)" "length (fld fs 1) \<le> 20" "plain (fld fs 2)" "length (fld fs 2) \<le> 31"
  shows "let t = exec (update_one i fs) s in store_ok path_upinv path_upinv_tmp t
    \<and> served j t \<and> upinv_others j t = upinv_others j s"
proof -
  have s: "upd_ready i j s" using assms(1,2,4) by (simp add: upd_ready_def)
  have j: "valid_id j" using assms(3,4) by simp
  let ?a = "exec (remote_update_single i) s"
  have "state_io_rel (upd_rel i j) (remote_update_single i)" by (intro eff_intros)
  note a = upd_relD[OF this s]
  then have ja: "inv_id (inv_at ?a i) = j" by (simp add: upd_ready_def)
  let ?b = "exec (do { delete_line path_upinv path_upinv_tmp j 12;
      insert_tries 3 path_upinv (upinv_line j (fld fs 1) (fld fs 2)) }) ?a"
  have b: "upd_ready i j ?b" "upinv_others j ?b = upinv_others j s" "served j ?b"
    using upinv_upsert[of i j ?a "fld fs 1" "fld fs 2"] a j assms(5-8) by auto
  let ?c = "exec (version_tries 3 i (fld fs 2)) ?b"
  have c: "upd_ready i j ?c" "upinv_others j ?c = upinv_others j s" "served j ?c"
    using version_tries_keeps[OF j assms(7,8) b(1,3), of 3] b(2) by (auto simp: Let_def)
  have run: "exec (update_one i fs) s = exec (remote_update_result (inv_id (inv_at ?c i)) (version (inv_at ?c i))
      (if result (version_tries 3 i (fld fs 2)) ?b then result (remote_update_single i) s
       else result (remote_update_single i) s + 10)) ?c"
    using ja by (simp add: update_one_def exec_bind result_bind get_inv_def del: run_state_bind)
  show ?thesis
    unfolding run Let_def
    using upd_relD[OF updr_result c(1)] c(2,3) by (simp add: upd_ready_def)
qed

section \<open>Missing blocks\<close>

text \<open>
  Blocks the inverter reports as missing are not sent again when the file named by
  \<open>Complementupdatepackage_single\<close> does not exist: the function reports that the image is
  complete (1) after the inquiry alone. For the models 3 to 7 that name differs from the name
  of the image that was sent.
\<close>

lemma missing_blocks_not_resent:
  assumes "model (inv_at s i) \<in> {3, 4, 5, 6, 7}"
    "\<forall>p. complement_path (model (inv_at s i)) = Some p \<longrightarrow> files s p = None"
    "shortaddr (inv_at s i) = addr" "addr \<noteq> 0" "i < length (inverters s)"
    "zb_rx s = Some bs # rest" "reply_from (take 255 bs) (uint addr) (inv_id (inv_at s i))"
    "reply12 0x42 (int (length (take 255 bs)) - 12, drop 12 (take 255 bs))"
  shows "complement_path (model (inv_at s i)) \<noteq> image_path (model (inv_at s i))
    \<and> result (Complementupdatepackage_single i) s = 1
    \<and> frames (trace (exec (Complementupdatepackage_single i) s))
        = frames (trace s) @ [unicast_frame addr (plain_packet 0x04 0x20)]"
proof -
  let ?r = "(int (length (take 255 bs)) - 12, drop 12 (take 255 bs))"
  let ?u = "flushed s"
  let ?pk = "plain_packet 0x04 0x20"
  have fl: "exec clear_zbmodem s = ?u" by (simp add: flushed_def)
  have len: "fst ?r = 12" using assms(8) by (simp add: reply12_def)
  obtain u where u: "run_state (zb_send_cmd i ?pk) ?u = (1, u)" "zb_rx u = zb_rx s"
    "inverters u = inverters s" "files u = files s"
    "frames (trace u) = frames (trace s) @ [unicast_frame addr ?pk]"
    using assms(3,4) by (simp add: run_zb_send_cmd)
  have iu: "inv_at u i = inv_at s i" using u(3) by (simp add: inv_at_def)
  obtain t where t: "run_state (zb_get_reply i) u = (?r, t)" "frames (trace t) = frames (trace u)"
    "files t = files u" "model (inv_at t i) = model (inv_at s i)"
    unfolding run_zb_get_reply u(2) assms(6)
    using assms(3,5,7) u(3) iu by (simp add: Let_def slot_update)
  have inq: "run_state (inquire (Suc n) i) ?u = (?r, t)" for n
    using u(1) t(1) len by simp
  obtain p where p: "complement_path (model (inv_at s i)) = Some p" "files s p = None"
    "complement_path (model (inv_at s i)) \<noteq> image_path (model (inv_at s i))"
    using assms(1,2) by (auto simp: complement_path_def image_path_def)
  have "run_state (inquire 5 i) ?u = (?r, t)" using inq[of 4] by simp
  then have "result (Complementupdatepackage_single i) s = 1 \<and> exec (Complementupdatepackage_single i) s = t"
    using assms(8) t(3,4) u(4) p(1,2)
    by (simp add: Complementupdatepackage_single_def result_bind exec_bind fl get_inv_def read_file_def
        del: run_state_bind)
  then show ?thesis using t(2) u(5) p(3) by simp
qed

text \<open>
  An inverter that was switched off for its update is left alone once half an hour has
  passed: the entry keeps its flag and the inverter stays off.
\<close>

lemma stale_update_skipped:
  assumes "updating (inv_at s i) \<noteq> 0" "compareTime (result acquire_time s) (updating_time (inv_at s i)) 1800"
  shows "exec (update_step i) s = s \<or> exec (update_step i) s = exec acquire_time s"
proof -
  obtain r l where rl: "run_state (read_line path_upinv (inv_id (inv_at s i)) 12) s = ((r, l), s)"
  proof -
    have "exec (read_line path_upinv (inv_id (inv_at s i)) 12) s = s"
      by (simp add: read_line_def read_file_def split: option.split)
    then show ?thesis using that by (metis prod.collapse)
  qed
  then show ?thesis
    using assms by (simp add: update_step_def get_inv_def Let_def case_prod_beta)
qed

end
