(* ===== verification/Zb_Process.thy ===== *)
theory Zb_Process
  imports Queue_Spec
begin

text \<open>
  The periodic jobs of \<open>ECU/main/src/zigbee.c\<close>: command files in \<open>/tmp\<close> (switching on and
  off, quick boot, IPP), finding short addresses again, and collecting reported ids.
\<close>

section \<open>Command files\<close>

text \<open>
  \<open>while(1){ memset(command,0,256); fgets(command,256,fp); if(!strlen(command)) break; ... }\<close>
  over the lines of the file; the body says whether it leaves the loop.
\<close>

fun command_loop :: "(string \<Rightarrow> bool ecu) \<Rightarrow> string list \<Rightarrow> unit ecu" where
  "command_loop body [] = ret ()"
| "command_loop body (l # ls) =
     (if length (cstr l) = 0 then ret ()
      else do {
        brk \<leftarrow> body (strip_newline (cstr l));
        if brk then ret () else command_loop body ls })"

definition path_connect :: string where
  "path_connect = ''/TMP/CONNECT.CON''"

text \<open>\<open>!strncmp(command, id, 12)\<close>, then the character at position 12 says what to do.\<close>

definition connect_one :: "string \<Rightarrow> unit ecu" where
  "connect_one command = for_each_inverter (\<lambda>k. do {
     v \<leftarrow> get_inv k;
     if take 12 command = take 12 (inv_id v)
     then do {
       (if ch command 12 = 0x63 then do { retry 3 (zb_boot_single k); ret () } else ret ());
       (if ch command 12 = 0x64 then do { retry 3 (zb_shutdown_single k); ret () } else ret ()) }
     else ret () })"

definition process_turn_on_off :: "int ecu" where
  "process_turn_on_off = do {
     f \<leftarrow> read_file path_connect;
     (case f of
        None \<Rightarrow> ret (-1)
      | Some txt \<Rightarrow> do {
          command_loop (\<lambda>command.
            if take 11 command = ''connect all'' then do { zb_turnon_inverter_broadcast; ret True }
            else if take 14 command = ''disconnect all'' then do { zb_shutdown_broadcast; ret True }
            else do { connect_one command; ret False }) (fgets_lines 255 txt);
          write_file path_connect [];
          ret 0 }) }"

definition path_qckboot :: string where
  "path_qckboot = ''/TMP/QCKBOOT.CON''"

definition process_quick_boot :: "int ecu" where
  "process_quick_boot = do {
     f \<leftarrow> read_file path_qckboot;
     (case f of
        None \<Rightarrow> ret 0
      | Some txt \<Rightarrow> do {
          (if take 1 txt = ''1''
           then for_each_inverter (\<lambda>k. do { zb_boot_waitingtime_single k; ret () })
           else ret ());
          write_file path_qckboot ''0'';
          ret 0 }) }"

definition path_ipp :: string where
  "path_ipp = ''/TMP/IPP.CON''"

definition ipp_one :: "string \<Rightarrow> unit ecu" where
  "ipp_one command = for_inverters (\<lambda>k. do {
     v \<leftarrow> get_inv k;
     if command = inv_id v then do { retry 3 (zb_ipp_single k); ret True } else ret False })"

definition process_ipp :: "int ecu" where
  "process_ipp = do {
     f \<leftarrow> read_file path_ipp;
     (case f of
        None \<Rightarrow> ret ()
      | Some txt \<Rightarrow>
          command_loop (\<lambda>command.
            if take 11 command = ''set ipp all'' then do { zb_ipp_broadcast; ret True }
            else do { ipp_one command; ret False }) (fgets_lines 255 txt));
     write_file path_ipp [];
     ret 0 }"

section \<open>Short addresses\<close>

definition needs_address :: "inverter \<Rightarrow> bool" where
  "needs_address v = (shortaddr v = 0 \<or> uint (no_getdata_num v) > 5)"

definition get_inverter_shortaddress :: "int ecu" where
  "get_inverter_shortaddress = do {
     vs \<leftarrow> gets inverters;
     (if \<exists>v \<in> set (table vs). needs_address v
      then do {
        zb_restore_ecu_panid_0xffff 0x10;
        delay_ms 5000;
        for_each_inverter (\<lambda>k. do {
          v \<leftarrow> get_inv k;
          if needs_address v then do { zb_change_inverter_panid_single k; delay_ms 500 } else ret () });
        zb_change_ecu_panid;
        delay_ms 5000;
        for_each_inverter (\<lambda>k. do {
          v \<leftarrow> get_inv k;
          if needs_address v then do { zb_get_inverter_shortaddress_single k; ret () } else ret () }) }
      else ret ());
     ret 1 }"

definition bind_nodata_inverter :: "int ecu" where
  "bind_nodata_inverter = do {
     for_each_inverter (\<lambda>k. do {
       v \<leftarrow> get_inv k;
       if uint (no_getdata_num v) > 0 then do { zb_get_inverter_shortaddress_single k; ret () } else ret () });
     ret 0 }"

section \<open>Reported ids\<close>

text \<open>
  \<open>zb_turnon_rtpid\<close>: sixty rounds of five seconds. The loop over the id bytes uses the same
  variable as the rounds, so that every report sets the round back to seven; the loop ends
  because each report takes a message from the queue.
\<close>

definition rtpid_report :: "int \<times> byte list \<Rightarrow> bool" where
  "rtpid_report r = (fst r = 11 \<and> snd r ! 2 = 0xFF \<and> snd r ! 3 = 0xFF)"

lemma rtpid_report_consumes:
  assumes "run_state zb_get_id s = (r, t)"
  shows "length (zb_rx t) \<le> length (zb_rx s)"
    "rtpid_report r \<Longrightarrow> length (zb_rx t) < length (zb_rx s)"
  using assms
  by (auto simp: zb_get_id_def selectZigbee_def zb_read_def link_defs rtpid_report_def
      split: list.splits option.splits)

lemma rx_delay: "zb_rx (exec (delay_ms n) s) = zb_rx s"
  by (simp add: delay_ms_def emit_def)

lemma rtpid_delay_consumes:
  assumes "(r, t) = run_state zb_get_id (exec (delay_ms n) s)"
  shows "length (zb_rx t) \<le> length (zb_rx s) \<and> (rtpid_report r \<longrightarrow> length (zb_rx t) < length (zb_rx s))"
  using rtpid_report_consumes[OF assms[symmetric]] by (simp add: rx_delay)

lemma rx_turnoff_rptid: "zb_rx (exec (do { delay_ms a; zb_turnoff_rptid b }) s) = zb_rx s"
  by (simp add: zb_turnoff_rptid_def link_defs)

function rtpid_loop :: "nat \<Rightarrow> ecu_state \<Rightarrow> ecu_state" where
  "rtpid_loop i s =
     (if i < 60
      then (case run_state zb_get_id (exec (delay_ms 5000) s) of
        (r, t) \<Rightarrow>
          if rtpid_report r
          then rtpid_loop 7 (exec (do { delay_ms 5000; zb_turnoff_rptid (be16 (snd r ! 0) (snd r ! 1)) }) t)
          else rtpid_loop (i + 1) (exec (delay_ms 5000) t))
      else s)"
  by pat_completeness auto
termination
proof (relation "measures [\<lambda>(i, s). length (zb_rx s), \<lambda>(i, s). 60 - i]")
  show "wf (measures [\<lambda>(i, s). length (zb_rx s), \<lambda>(i, s). 60 - i])" by simp
qed (auto simp: rx_turnoff_rptid rx_delay simp del: run_state_bind dest: rtpid_delay_consumes)

declare rtpid_loop.simps [simp del]

definition zb_turnon_rtpid :: "int ecu" where
  "zb_turnon_rtpid = do {
     zb_write (zb_frame [0x02, 0, 0, 0, 0, 0, 0, 0] 0 []);
     modify (rtpid_loop 0);
     ret 0 }"

end
