(* ===== verification/Bind_Inverters.thy ===== *)
theory Bind_Inverters
  imports Zb_Process
begin

text \<open>
  Binding of inverters (\<open>ECU/main/src/bind_inverters.c\<close>) and the change of channel that
  precedes it (\<open>process_channel\<close>, \<open>changeChannelOfInverters\<close> of \<open>channel.c\<close>).
\<close>

section \<open>Changing the channel\<close>

definition set_rate :: "int \<Rightarrow> unit ecu" where
  "set_rate r = modify (\<lambda>s. s\<lparr>rateOfProgress := u8 r\<rparr>)"

definition count_inverters :: "(inverter \<Rightarrow> bool) \<Rightarrow> int ecu" where
  "count_inverters P = gets (\<lambda>s. int (length (filter P (table (inverters s)))))"

text \<open>The channels 11 to 26, tried when the old channel is not known.\<close>

fun try_channels :: "int list \<Rightarrow> int \<Rightarrow> unit ecu" where
  "try_channels [] newChannel = ret ()"
| "try_channels (n # ns) newChannel = do {
     zb_restore_ecu_panid_0xffff n;
     for_each_inverter (\<lambda>k. do {
       v \<leftarrow> get_inv k;
       if flag v = 1 then do { zb_change_inverter_channel_one (inv_id v) newChannel; ret () } else ret () });
     set_rate (40 * (n - 10) div 16);
     try_channels ns newChannel }"

definition changeChannelOfInverters :: "int \<Rightarrow> int \<Rightarrow> unit ecu" where
  "changeChannelOfInverters oldChannel newChannel = do {
     for_each_inverter (\<lambda>k. upd_inv k (\<lambda>v. v\<lparr>flag := 1\<rparr>));
     num \<leftarrow> count_inverters (\<lambda>_. True);
     if num > 0
     then
       (if oldChannel \<noteq> 0
        then do {
          zb_restore_ecu_panid_0xffff oldChannel;
          set_rate 5;
          for_each_inverter (\<lambda>k. do {
            v \<leftarrow> get_inv k;
            if flag v = 1
            then do {
              set_rate (5 + 35 * (int k + 1) div num);
              zb_change_inverter_channel_one (inv_id v) newChannel;
              ret () }
            else ret () }) }
        else try_channels [11..26] newChannel)
     else ret () }"

definition process_channel :: "int ecu" where
  "process_channel = do {
     need \<leftarrow> channel_need_change;
     (if need
      then do {
        oldChannel \<leftarrow> getOldChannel;
        newChannel \<leftarrow> getNewChannel;
        changeChannelOfInverters oldChannel newChannel;
        saveECUChannel newChannel;
        remove_file path_changech;
        remove_file path_old_chan;
        remove_file path_new_chan }
      else ret ());
     ret 0 }"

section \<open>Messages of the binding\<close>

definition path_radui :: string where
  "path_radui = ''/TMP/RADUI.TXT''"

definition saveraduistostruct :: "string \<Rightarrow> int \<Rightarrow> unit ecu" where
  "saveraduistostruct i r = do {
     append_file path_radui (i @ '' '' @ hex_upper (nat r) @ [NL]);
     ret () }"

text \<open>The first inverter with an id.\<close>

definition upd_id :: "string \<Rightarrow> (inverter \<Rightarrow> inverter) \<Rightarrow> unit ecu" where
  "upd_id i f = for_inverters (\<lambda>k. do {
     v \<leftarrow> get_inv k;
     if inv_id v = i then do { upd_inv k f; ret True } else ret False })"

definition getaddrOldOrNew :: "string \<Rightarrow> int ecu" where
  "getaddrOldOrNew i = do {
     let command = [0xAA, 0xAA, 0xAA, 0xAA, 0x0E, 0, 0, 0, 0, 0, 0, 0xA0, 0x00, 0xAE, 0x06] @ id_bytes i;
     clear_zbmodem;
     zb_write command;
     (n, d) \<leftarrow> zigbeeRecvMsg 5;
     let inverterid = hex_string (take 6 (drop 4 d));
     if n = 11 \<and> d ! 2 = 0xFF \<and> d ! 3 = 0xFF \<and> i = inverterid
     then do {
       upd_id i (\<lambda>v. v\<lparr>shortaddr := word_of_int (be16 (d ! 0) (d ! 1))\<rparr>);
       ret 1 }
     else if n = 11 \<and> i = inverterid
     then do {
       saveraduistostruct inverterid (uint (d ! 2));
       upd_id inverterid (\<lambda>v. v\<lparr>zigbee_version := d ! 3\<rparr>);
       upd_id inverterid (\<lambda>v. v\<lparr>bindflag := 1\<rparr>);
       ret 1 }
     else ret 0 }"

text \<open>The frame has 23 bytes, of which \<open>send11order\<close> writes 21.\<close>

definition order11_frame :: "u16 \<Rightarrow> byte \<Rightarrow> string \<Rightarrow> int \<Rightarrow> byte list" where
  "order11_frame pan chan i cnt =
     zb_frame [0x11, 0, 0, hi8 (uint pan), lo8 (uint pan), chan, 0, 0] 0x08
       (id_bytes i @ [u8 ((2 * cnt) div 256), u8 ((2 * cnt) mod 256)])"

definition send11order :: "string \<Rightarrow> int \<Rightarrow> unit ecu" where
  "send11order i cnt = do {
     pan \<leftarrow> gets ecu_panid;
     chan \<leftarrow> gets ecu_channel;
     zb_write (take 21 (order11_frame pan chan i cnt));
     delay_ms 1000 }"

definition send22order :: "unit ecu" where
  "send22order = do {
     pan \<leftarrow> gets ecu_panid;
     chan \<leftarrow> gets ecu_channel;
     repeat_n 3 (do {
       zb_write (zb_frame [0x22, 0, 0, hi8 (uint pan), lo8 (uint pan), chan, 0, 0] 0 []);
       delay_ms 1000 }) }"

definition getshortadd :: "byte list \<Rightarrow> unit ecu" where
  "getshortadd recvbuff = for_each_inverter (\<lambda>k. do {
     v \<leftarrow> get_inv k;
     if inv_id v = hex_string (take 6 (drop 4 recvbuff))
     then upd_inv k (\<lambda>v. v\<lparr>shortaddr := word_of_int (be16 (recvbuff ! 0) (recvbuff ! 1))\<rparr>)
     else ret () })"

section \<open>The binding\<close>

text \<open>\<open>rateOfProgress += 1; if(rateOfProgress >= m) rateOfProgress = m;\<close>\<close>

definition advance_rate :: "byte \<Rightarrow> unit ecu" where
  "advance_rate m = modify (\<lambda>s. s\<lparr>rateOfProgress :=
     (if rateOfProgress s + 1 \<ge> m then m else rateOfProgress s + 1)\<rparr>)"

definition set_panid :: "u16 \<Rightarrow> unit ecu" where
  "set_panid p = modify (\<lambda>s. s\<lparr>ecu_panid := p\<rparr>)"

definition unbound :: "inverter \<Rightarrow> bool" where
  "unbound v = (shortaddr v = 0 \<and> bindflag v = 0)"

text \<open>Up to \<open>n\<close> inquiries with pauses of two seconds.\<close>

fun ask_address :: "nat \<Rightarrow> string \<Rightarrow> unit ecu" where
  "ask_address 0 i = ret ()"
| "ask_address (Suc n) i = do {
     r \<leftarrow> getaddrOldOrNew i;
     if r = 1 then advance_rate 64 else do { delay_ms 2000; ask_address n i } }"

text \<open>
  The first phase, in at most five passes; the result is the number of unbound inverters
  counted at the start of the last pass.
\<close>

fun address_passes :: "nat \<Rightarrow> int \<Rightarrow> int ecu" where
  "address_passes 0 num = ret num"
| "address_passes (Suc n) num0 = do {
     num \<leftarrow> count_inverters unbound;
     set_panid 0xFFFF;
     if num = 0 then ret num
     else do {
       for_each_inverter (\<lambda>k. do {
         v \<leftarrow> get_inv k;
         chan \<leftarrow> gets ecu_channel;
         if unbound v
         then do { zb_change_inverter_channel_one (inv_id v) (uint chan); delay_ms 3000 }
         else ret () });
       for_each_inverter (\<lambda>k. do {
         v \<leftarrow> get_inv k;
         if unbound v then ask_address 3 (inv_id v) else ret () });
       address_passes n num } }"

text \<open>
  The second phase: the announcement to the inverters without an address. \<open>num\<close> goes on
  counting from one pass to the next. A received message overwrites the beginning of the
  buffer \<open>buf\<close>.
\<close>

fun announce :: "nat \<Rightarrow> nat \<Rightarrow> int \<Rightarrow> byte list \<Rightarrow> byte list ecu" where
  "announce 0 k num buf = ret buf"
| "announce (Suc n) k num buf = do {
     v \<leftarrow> get_inv k;
     if length (inv_id v) = 12
     then (if shortaddr v = 0
       then do {
         send11order (inv_id v) num;
         (r, d) \<leftarrow> zigbeeRecvMsg 5;
         let buf' = d @ drop (length d) buf;
         (if r \<noteq> -1 then getshortadd buf' else ret ());
         advance_rate 89;
         announce n (Suc k) num buf' }
       else announce n (Suc k) num buf)
     else ret buf }"

fun announce_passes :: "nat \<Rightarrow> int \<Rightarrow> u16 \<Rightarrow> byte list \<Rightarrow> unit ecu" where
  "announce_passes 0 num pan buf = ret ()"
| "announce_passes (Suc n) num pan buf = do {
     c \<leftarrow> count_inverters (\<lambda>v. shortaddr v = 0);
     set_panid pan;
     buf' \<leftarrow> announce MAXINVERTERCOUNT 0 (num + c) buf;
     announce_passes n (num + c) pan buf' }"

text \<open>The inverters that have an address but are not bound yet are bound; or lose it.\<close>

definition bind_addressed :: "unit ecu" where
  "bind_addressed = for_each_inverter (\<lambda>k. do {
     v \<leftarrow> get_inv k;
     if shortaddr v \<noteq> 0 \<and> bindflag v = 0
     then do {
       b \<leftarrow> zb_off_report_id_and_bind (uint (shortaddr v));
       if b = 0 then upd_inv k (\<lambda>v. v\<lparr>shortaddr := 0\<rparr>) else ret () }
     else ret () })"

text \<open>The inverters without an address are looked for on PAN FFFF, then announced.\<close>

definition bind_search :: "u16 \<Rightarrow> int \<Rightarrow> byte list \<Rightarrow> unit ecu" where
  "bind_search temppanid num buf = do {
     set_rate 42;
     chan \<leftarrow> gets ecu_channel;
     zb_restore_ecu_panid_0xffff (uint chan);
     set_rate 43;
     num1 \<leftarrow> address_passes 5 num;
     set_rate 65;
     announce_passes 3 num1 temppanid buf }"

text \<open>All unbound inverters are told the PAN and channel, then to change now.\<close>

definition bind_move :: "u16 \<Rightarrow> unit ecu" where
  "bind_move temppanid = do {
     set_rate 90;
     set_panid temppanid;
     for_each_inverter (\<lambda>k. do {
       v \<leftarrow> get_inv k;
       c \<leftarrow> gets ecu_channel;
       if bindflag v = 0
       then repeat_n 3 (do { zb_change_inverter_channel_one (inv_id v) (uint c); ret () })
       else ret () });
     for_each_inverter (\<lambda>k. upd_inv k (\<lambda>v. v\<lparr>bindflag := 0\<rparr>));
     set_panid 0xFFFF;
     set_rate 95;
     send22order;
     delay_ms 10000;
     set_panid temppanid;
     zb_change_ecu_panid;
     ret () }"

text \<open>\<open>buf\<close>: what the uninitialised array \<open>recvbuff\<close> holds at the start.\<close>

definition bind_inverters :: "byte list \<Rightarrow> unit ecu" where
  "bind_inverters buf = do {
     temppanid \<leftarrow> gets ecu_panid;
     set_rate 0;
     process_channel;
     set_rate 40;
     zb_change_ecu_panid;
     bind_addressed;
     set_rate 41;
     num \<leftarrow> count_inverters (\<lambda>v. shortaddr v = 0);
     (if num > 0 then do { bind_search temppanid num buf; bind_move temppanid } else ret ());
     delay_ms 10000;
     set_rate 100;
     updateID }"

end
