(* ===== verification/Bind_Spec.thy ===== *)
theory Bind_Spec
  imports Bind_Inverters
begin

text \<open>
  What the periodic jobs and the binding guarantee: the ids of the table and the PAN of the
  unit survive, every inverter is told a new channel, reported ids are answered; and the
  frame of \<open>send11order\<close> that is cut short.
\<close>

section \<open>Effects\<close>

context zb_effect begin

lemma eff_command_loop [eff_intros]:
  "(\<And>c. state_io_rel R (body c)) \<Longrightarrow> state_io_rel R (command_loop body ls)"
proof (induction ls)
  case (Cons l ls)
  have "state_io_rel R (command_loop body ls)" using Cons by blast
  then show ?case unfolding command_loop.simps using Cons.prems by (intro eff_intros)
qed (simp add: eff_return)

lemma eff_rtpid_loop: "R s (rtpid_loop i s)"
proof (induction i s rule: rtpid_loop.induct)
  case (1 i s)
  obtain r t where rt: "run_state zb_get_id (exec (delay_ms 5000) s) = (r, t)" by fastforce
  have s: "R s t"
    using R_trans[OF state_io_relE[OF eff_delay] state_io_relE[OF eff_replies(6)]] rt by (metis snd_conv)
  have "state_io_rel R (do { delay_ms 5000; zb_turnoff_rptid b })" for b by (intro eff_intros)
  then have off: "R u (exec (do { delay_ms 5000; zb_turnoff_rptid b }) u)" for b u by (rule state_io_relE)
  have delay: "R t (exec (delay_ms 5000) t)" by (rule state_io_relE[OF eff_delay])
  show ?case
  proof (cases "i < 60")
    case True
    show ?thesis
    proof (cases "rtpid_report r")
      case rep: True
      let ?u = "exec (do { delay_ms 5000; zb_turnoff_rptid (be16 (snd r ! 0) (snd r ! 1)) }) t"
      have "rtpid_loop i s = rtpid_loop 7 ?u"
        using True rep by (subst rtpid_loop.simps) (simp add: rt del: run_state_bind)
      then show ?thesis using 1(1)[OF True rt[symmetric] rep] R_trans[OF R_trans[OF s off]] by simp
    next
      case False
      have "rtpid_loop i s = rtpid_loop (i + 1) (exec (delay_ms 5000) t)"
        using True False by (subst rtpid_loop.simps) (simp add: rt del: run_state_bind)
      then show ?thesis using 1(2)[OF True rt[symmetric] False] R_trans[OF R_trans[OF s delay]] by simp
    qed
  next
    case False
    then show ?thesis by (subst rtpid_loop.simps) (simp add: R_refl)
  qed
qed

lemma eff_turnon_rtpid [eff_intros]: "state_io_rel R zb_turnon_rtpid"
proof -
  have "state_io_rel R (modify (rtpid_loop 0))"
    by (simp add: state_io_rel_def eff_rtpid_loop)
  then show ?thesis
    unfolding zb_turnon_rtpid_def by (intro eff_intros eff_write wf_zb_frame) simp_all
qed

end

context zb_store_effect begin

lemma eff_jobs [eff_intros]:
  "state_io_rel R process_turn_on_off" "state_io_rel R process_quick_boot" "state_io_rel R process_ipp"
  "state_io_rel R get_inverter_shortaddress" "state_io_rel R bind_nodata_inverter"
  unfolding process_turn_on_off_def connect_one_def process_quick_boot_def process_ipp_def ipp_one_def
    get_inverter_shortaddress_def bind_nodata_inverter_def
  by (intro eff_intros)+

end

text \<open>
  The periodic jobs (command files, quick boot, IPP, short addresses, reported ids) put
  only well-formed frames on the wire and leave the ids of the inverter table as they are.
\<close>

lemma periodic_jobs_safe:
  "sends_wf s (exec process_turn_on_off s) \<and> same_ids s (exec process_turn_on_off s)
   \<and> sends_wf s (exec process_quick_boot s) \<and> same_ids s (exec process_quick_boot s)
   \<and> sends_wf s (exec process_ipp s) \<and> same_ids s (exec process_ipp s)
   \<and> sends_wf s (exec get_inverter_shortaddress s) \<and> same_ids s (exec get_inverter_shortaddress s)
   \<and> sends_wf s (exec bind_nodata_inverter s) \<and> same_ids s (exec bind_nodata_inverter s)
   \<and> sends_wf s (exec zb_turnon_rtpid s) \<and> same_ids s (exec zb_turnon_rtpid s)"
  using wire.eff_jobs[THEN state_io_relE] ids.eff_jobs[THEN state_io_relE]
    wire.eff_turnon_rtpid[THEN state_io_relE] ids.eff_turnon_rtpid[THEN state_io_relE]
  by (intro conjI)

text \<open>
  The binding also writes frames that are not well-formed, moves the progress and changes
  the channel; all of it apart from \<open>set_panid\<close> stays within such an effect.
\<close>

locale bind_effect = zb_store_effect +
  assumes visible_any: "visible e"
    and R_rate: "R s (s\<lparr>rateOfProgress := r\<rparr>)"
    and R_channel: "R s (s\<lparr>ecu_channel := c\<rparr>)"
begin

lemma eff_any_write [eff_intros]: "state_io_rel R (zb_write f)"
  unfolding zb_write_def by (rule eff_emit) (rule visible_any)

lemma eff_rate [eff_intros]: "state_io_rel R (set_rate r)" "state_io_rel R (advance_rate m)"
  by (simp_all add: state_io_rel_def set_rate_def advance_rate_def R_rate)

lemma eff_count [eff_intros]: "state_io_rel R (count_inverters P)"
  unfolding count_inverters_def by (intro eff_intros)

lemma eff_set_channel [eff_intros]: "state_io_rel R (modify (\<lambda>s. s\<lparr>ecu_channel := c\<rparr>))"
  by (simp add: state_io_rel_def R_channel)

lemma eff_try_channels [eff_intros]: "state_io_rel R (try_channels ns c)"
proof (induction ns)
  case (Cons n ns)
  show ?case unfolding try_channels.simps by (intro eff_intros Cons)
qed (simp add: eff_return)

lemma eff_config [eff_intros]:
  "state_io_rel R channel_need_change" "state_io_rel R getOldChannel" "state_io_rel R getNewChannel"
  "state_io_rel R (saveECUChannel c)"
  unfolding channel_need_change_def getOldChannel_def getNewChannel_def saveECUChannel_def echo_def
  by (intro eff_intros)+

lemma eff_process_channel [eff_intros]: "state_io_rel R process_channel"
  unfolding process_channel_def changeChannelOfInverters_def by (intro eff_intros; simp)

lemma eff_upd_id [eff_intros]: "(\<And>v. inv_id (f v) = inv_id v) \<Longrightarrow> state_io_rel R (upd_id i f)"
  unfolding upd_id_def by (intro eff_intros)

lemma eff_getaddr [eff_intros]: "state_io_rel R (getaddrOldOrNew i)"
  unfolding getaddrOldOrNew_def saveraduistostruct_def by (intro eff_intros; simp)

lemma eff_orders [eff_intros]: "state_io_rel R (send11order i c)" "state_io_rel R send22order"
  "state_io_rel R (getshortadd b)"
  unfolding send11order_def send22order_def getshortadd_def by (intro eff_intros; simp)+

lemma eff_ask_address [eff_intros]: "state_io_rel R (ask_address n i)"
  by (induction n) (auto intro!: eff_intros)

lemma eff_announce [eff_intros]: "state_io_rel R (announce n k num buf)"
proof (induction n arbitrary: k num buf)
  case (Suc n)
  show ?case unfolding announce.simps by (intro eff_intros Suc)
qed (simp add: eff_return)

lemma eff_bind_addressed [eff_intros]: "state_io_rel R bind_addressed"
proof -
  have "state_io_rel R (bind_attempts n c a)" for n c a
    by (induction n arbitrary: c) (auto intro!: eff_intros)
  then have "state_io_rel R (zb_off_report_id_and_bind a)" for a
    by (simp add: zb_off_report_id_and_bind_def)
  then show ?thesis unfolding bind_addressed_def by (intro eff_intros; simp)
qed

end

locale bind_panid_effect = bind_effect +
  assumes R_panid: "R s (s\<lparr>ecu_panid := p\<rparr>)"
begin

lemma eff_panid [eff_intros]: "state_io_rel R (set_panid p)"
  by (simp add: state_io_rel_def set_panid_def R_panid)

lemma eff_passes [eff_intros]: "state_io_rel R (address_passes n num)" "state_io_rel R (announce_passes n num p buf)"
proof -
  show "state_io_rel R (address_passes n num)"
  proof (induction n arbitrary: num)
    case (Suc n)
    show ?case unfolding address_passes.simps by (intro eff_intros Suc)
  qed (simp add: eff_return)
  show "state_io_rel R (announce_passes n num p buf)"
  proof (induction n arbitrary: num buf)
    case (Suc n)
    show ?case unfolding announce_passes.simps by (intro eff_intros Suc)
  qed (simp add: eff_return)
qed

lemma eff_bind [eff_intros]: "state_io_rel R (bind_inverters buf)"
  unfolding bind_inverters_def bind_search_def bind_move_def by (intro eff_intros; simp)

end

definition same_panid :: "ecu_state \<Rightarrow> ecu_state \<Rightarrow> bool" where
  "same_panid s t = (ecu_panid t = ecu_panid s)"

interpretation idb: bind_panid_effect same_ids "\<lambda>_. True"
  by unfold_locales (auto simp: same_ids_def)

interpretation pan: bind_effect same_panid "\<lambda>_. True"
  by unfold_locales (auto simp: same_panid_def)

text \<open>
  C30. The binding ends with the PAN id of the unit that it started with, although it works
  on PAN FFFF in between, with the progress at 100 and the ids of the table unchanged.
\<close>

theorem binding_restores_panid:
  "ecu_panid (exec (bind_inverters buf) s) = ecu_panid s
   \<and> rateOfProgress (exec (bind_inverters buf) s) = 100
   \<and> same_ids s (exec (bind_inverters buf) s)"
proof -
  have ids: "same_ids s (exec (bind_inverters buf) s)" by (rule state_io_relE) (intro eff_intros)
  have keep: "ecu_panid (exec m t) = ecu_panid t" if "state_io_rel same_panid m" for m :: "'a ecu" and t
    using state_io_relE[OF that, of t] by (simp add: same_panid_def)
  have tail: "ecu_panid (exec (do { delay_ms 10000; set_rate 100; updateID }) t) = ecu_panid t
    \<and> rateOfProgress (exec (do { delay_ms 10000; set_rate 100; updateID }) t) = 100" for t
    by (simp add: delay_ms_def emit_def set_rate_def updateID_def write_file_def u8_def)
  have zb: "state_io_rel same_panid zb_change_ecu_panid" by (intro eff_intros)
  have move: "ecu_panid (exec (bind_move p) t) = p" for p t
    by (simp add: bind_move_def exec_bind keep[OF zb] set_panid_def
        del: run_state_bind)
  let ?a = "do { set_rate 0; process_channel; set_rate 40; zb_change_ecu_panid; bind_addressed; set_rate 41;
     count_inverters (\<lambda>v. shortaddr v = 0) }"
  have "state_io_rel same_panid ?a" by (intro eff_intros)
  then have a: "ecu_panid (exec ?a s) = ecu_panid s" by (rule keep)
  have "\<exists>t. exec (bind_inverters buf) s = exec (do { delay_ms 10000; set_rate 100; updateID }) t
      \<and> ecu_panid t = ecu_panid s"
  proof (cases "result ?a s > 0")
    case True
    have "exec (bind_inverters buf) s = exec (do { delay_ms 10000; set_rate 100; updateID })
        (exec (bind_move (ecu_panid s)) (exec (bind_search (ecu_panid s) (result ?a s) buf) (exec ?a s)))"
      using True by (simp add: bind_inverters_def exec_bind result_bind del: run_state_bind)
    then show ?thesis using move by blast
  next
    case False
    have "exec (bind_inverters buf) s = exec (do { delay_ms 10000; set_rate 100; updateID }) (exec ?a s)"
      using False by (simp add: bind_inverters_def exec_bind result_bind del: run_state_bind)
    then show ?thesis using a by blast
  qed
  then show ?thesis using ids tail by metis
qed

section \<open>Frames of loops over the table\<close>

lemma inv_loop_frames:
  assumes step: "\<And>k s. P s \<Longrightarrow> k < N \<Longrightarrow>
      P (exec (body k) s) \<and> same_ids s (exec (body k) s)
      \<and> frames (trace (exec (body k) s)) = frames (trace s) @ g (inv_id (inv_at s k))"
  shows "P s \<Longrightarrow> i + length (takeWhile (\<lambda>j. length j = 12) (take n (drop i (map inv_id (inverters s))))) \<le> N
    \<Longrightarrow> P (exec (inv_loop (\<lambda>k. do { body k; ret False }) n i) s)
    \<and> frames (trace (exec (inv_loop (\<lambda>k. do { body k; ret False }) n i) s)) = frames (trace s)
      @ concat (map g (takeWhile (\<lambda>j. length j = 12) (take n (drop i (map inv_id (inverters s))))))"
proof (induction n arbitrary: i s)
  case (Suc n)
  let ?ids = "map inv_id (inverters s)"
  show ?case
  proof (cases "length (inv_id (inv_at s i)) = 12")
    case True
    then have i: "i < length (inverters s)"
      by (rule contrapos_pp) (simp add: inv_at_def slot_def empty_inverter_def)
    then have d: "drop i ?ids = inv_id (inv_at s i) # drop (Suc i) ?ids"
      by (metis Cons_nth_drop_Suc inv_id_at length_map)
    let ?t = "exec (body i) s"
    have t: "P ?t" "frames (trace ?t) = frames (trace s) @ g (inv_id (inv_at s i))" "map inv_id (inverters ?t) = ?ids"
      using step[OF Suc.prems(1), of i] Suc.prems(2) True by (auto simp: same_ids_def d)
    have "exec (inv_loop (\<lambda>k. do { body k; ret False }) (Suc n) i) s
        = exec (inv_loop (\<lambda>k. do { body k; ret False }) n (Suc i)) ?t"
      using True by (simp add: get_inv_def case_prod_beta)
    moreover have "Suc i + length (takeWhile (\<lambda>j. length j = 12) (take n (drop (Suc i) (map inv_id (inverters ?t))))) \<le> N"
      using Suc.prems(2) True by (simp add: t(3) d)
    ultimately show ?thesis using Suc.IH[OF t(1), of "Suc i"] t(2,3) True by (simp add: d)
  next
    case False
    have "takeWhile (\<lambda>j. length j = 12) (take (Suc n) (drop i ?ids)) = []"
    proof (cases "i < length (inverters s)")
      case True
      then have "drop i ?ids = inv_id (inv_at s i) # drop (Suc i) ?ids"
        by (metis Cons_nth_drop_Suc inv_id_at length_map)
      then show ?thesis using False by simp
    qed simp
    then show ?thesis using False Suc.prems(1) by (simp add: get_inv_def)
  qed
qed simp

definition ids_of :: "ecu_state \<Rightarrow> string list" where
  "ids_of s = map inv_id (table (inverters s))"

lemma ids_of_take: "ids_of s = takeWhile (\<lambda>j. length j = 12) (take MAXINVERTERCOUNT (map inv_id (inverters s)))"
  by (simp add: ids_of_def table_def takeWhile_map comp_def take_map)

lemma ids_of_cong: "inverters t = inverters s \<Longrightarrow> ids_of t = ids_of s"
  by (simp add: ids_of_def)

lemma same_ids_of: "same_ids s t \<Longrightarrow> ids_of t = ids_of s"
  by (simp add: ids_of_take same_ids_def)

lemma for_each_frames:
  assumes "\<And>k u. P u \<Longrightarrow> k < length (ids_of s) \<Longrightarrow>
      P (exec (body k) u) \<and> same_ids u (exec (body k) u)
      \<and> frames (trace (exec (body k) u)) = frames (trace u) @ g (inv_id (inv_at u k))"
    and "P s"
  shows "P (exec (for_each_inverter body) s)
    \<and> frames (trace (exec (for_each_inverter body) s)) = frames (trace s) @ concat (map g (ids_of s))"
  using inv_loop_frames[where P = P and body = body and g = g and N = "length (ids_of s)",
      OF assms(1) assms(2), of 0 MAXINVERTERCOUNT]
  by (simp add: for_each_inverter_def for_inverters_def ids_of_take)

text \<open>\<open>channel_frame\<close>: the order to one inverter; \<open>module_frame\<close>: the module moves to PAN FFFF.\<close>

definition channel_frame :: "u16 \<Rightarrow> int \<Rightarrow> string \<Rightarrow> byte list" where
  "channel_frame pan chan i =
     zb_frame [0x0F, 0, 0, hi8 (uint pan), lo8 (uint pan), u8 chan, 0, 0xA0] 0x06 (id_bytes i)"

definition module_frame :: "int \<Rightarrow> byte list" where
  "module_frame chan = zb_frame [0x05, 0, 0, 0xFF, 0xFF, u8 chan, 0, 0] 0 []"

lemma run_change_channel_one:
  "exec (zb_change_inverter_channel_one i c) s = (let t = flushed (exec (delay_ms 500) s) in
     t\<lparr>trace := trace t @ [ZbWrite (channel_frame (ecu_panid s) c i), DelayMs 1000]\<rparr>)"
  by (simp add: zb_change_inverter_channel_one_def flushed_def channel_frame_def link_defs Let_def)

lemma run_restore_0xffff:
  "frames (trace (exec (zb_restore_ecu_panid_0xffff c) s)) = frames (trace s) @ [module_frame c]
   \<and> inverters (exec (zb_restore_ecu_panid_0xffff c) s) = inverters s
   \<and> ecu_panid (exec (zb_restore_ecu_panid_0xffff c) s) = ecu_panid s
   \<and> files (exec (zb_restore_ecu_panid_0xffff c) s) = files s
   \<and> can_write (exec (zb_restore_ecu_panid_0xffff c) s) = can_write s"
  by (simp add: zb_restore_ecu_panid_0xffff_def module_frame_def zb_get_reply_from_module_def selectZigbee_def
      zb_read_def link_defs split: list.split option.split)

text \<open>A loop that updates every entry.\<close>

lemma inv_loop_updates:
  assumes f: "\<And>v. inv_id (f v) = inv_id v"
  shows "\<exists>m. exec (inv_loop (\<lambda>k. do { upd_inv k f; ret False }) n i) s
      = s\<lparr>inverters := take i (inverters s) @ map f (take m (drop i (inverters s))) @ drop (i + m) (inverters s)\<rparr>
    \<and> m = length (takeWhile (\<lambda>v. length (inv_id v) = 12) (take n (drop i (inverters s))))"
proof (induction n arbitrary: i s)
  case (Suc n)
  let ?vs = "inverters s"
  show ?case
  proof (cases "i < length ?vs \<and> length (inv_id (?vs ! i)) = 12")
    case True
    let ?t = "s\<lparr>inverters := ?vs[i := f (?vs ! i)]\<rparr>"
    have at: "inv_at s i = ?vs ! i" using True by (simp add: inv_at_def slot_def)
    have step: "exec (inv_loop (\<lambda>k. do { upd_inv k f; ret False }) (Suc n) i) s
        = exec (inv_loop (\<lambda>k. do { upd_inv k f; ret False }) n (Suc i)) ?t"
      using True by (simp add: get_inv_def upd_inv_def at)
    have dr: "drop i ?vs = ?vs ! i # drop (Suc i) ?vs" using True by (simp add: Cons_nth_drop_Suc)
    have tk: "take (Suc i) (?vs[i := f (?vs ! i)]) = take i ?vs @ [f (?vs ! i)]"
      using True by (simp add: take_Suc_conv_app_nth)
    obtain m where m: "exec (inv_loop (\<lambda>k. do { upd_inv k f; ret False }) n (Suc i)) ?t
        = ?t\<lparr>inverters := take (Suc i) (inverters ?t) @ map f (take m (drop (Suc i) (inverters ?t))) @ drop (Suc i + m) (inverters ?t)\<rparr>"
      "m = length (takeWhile (\<lambda>v. length (inv_id v) = 12) (take n (drop (Suc i) (inverters ?t))))"
      using Suc.IH[of "Suc i" ?t] by blast
    have "m = length (takeWhile (\<lambda>v. length (inv_id v) = 12) (take n (drop (Suc i) ?vs)))" using m(2) by simp
    then show ?thesis
      unfolding step m(1) using True tk by (intro exI[of _ "Suc m"]) (simp add: dr)
  next
    case False
    then have "length (inv_id (inv_at s i)) \<noteq> 12" by (auto simp: inv_at_def slot_def empty_inverter_def)
    then have "exec (inv_loop (\<lambda>k. do { upd_inv k f; ret False }) (Suc n) i) s = s" by (simp add: get_inv_def)
    moreover have "takeWhile (\<lambda>v. length (inv_id v) = 12) (take (Suc n) (drop i ?vs)) = []"
      using False by (cases "i < length ?vs") (auto simp: Cons_nth_drop_Suc[symmetric])
    ultimately show ?thesis by simp
  qed
qed (simp add: exI[of _ 0])

lemma take_table: "take (length (table vs)) vs = table vs"
proof -
  let ?w = "takeWhile (\<lambda>v. length (inv_id v) = 12) (take MAXINVERTERCOUNT vs)"
  have "length ?w \<le> MAXINVERTERCOUNT"
    using length_takeWhile_le[of "\<lambda>v. length (inv_id v) = 12" "take MAXINVERTERCOUNT vs"] by simp
  moreover have "take (length ?w) (take MAXINVERTERCOUNT vs) = ?w"
    by (rule takeWhile_eq_take[symmetric])
  ultimately have "take (length ?w) vs = ?w" by (simp add: min_def)
  then show ?thesis by (simp only: table_def)
qed

lemma for_each_updates:
  assumes "\<And>v. inv_id (f v) = inv_id v"
  shows "exec (for_each_inverter (\<lambda>k. upd_inv k f)) s = s\<lparr>inverters :=
     map f (table (inverters s)) @ drop (length (table (inverters s))) (inverters s)\<rparr>"
proof -
  obtain m where m: "exec (inv_loop (\<lambda>k. do { upd_inv k f; ret False }) MAXINVERTERCOUNT 0) s
      = s\<lparr>inverters := take 0 (inverters s) @ map f (take m (drop 0 (inverters s))) @ drop (0 + m) (inverters s)\<rparr>"
    "m = length (table (inverters s))"
    using inv_loop_updates[of f MAXINVERTERCOUNT 0 s, OF assms] unfolding table_def drop_0 by blast
  have "exec (for_each_inverter (\<lambda>k. upd_inv k f)) s
      = exec (inv_loop (\<lambda>k. do { upd_inv k f; ret False }) MAXINVERTERCOUNT 0) s"
    by (simp add: for_each_inverter_def for_inverters_def)
  then show ?thesis using m take_table[of "inverters s"] by simp
qed


section \<open>The change of channel\<close>

lemma ids_of_update:
  assumes "\<And>v. inv_id (f v) = inv_id v"
  shows "ids_of (s\<lparr>inverters := map f (table (inverters s)) @ drop (length (table (inverters s))) (inverters s)\<rparr>) = ids_of s"
proof -
  have "map inv_id (map f (table (inverters s)) @ drop (length (table (inverters s))) (inverters s))
      = map inv_id (take (length (table (inverters s))) (inverters s) @ drop (length (table (inverters s))) (inverters s))"
    using assms by (simp add: take_table)
  also have "\<dots> = map inv_id (inverters s)" by (simp only: append_take_drop_id)
  finally show ?thesis by (simp add: ids_of_take)
qed

lemma run_set_rate [simp]: "run_state (set_rate r) s = ((), s\<lparr>rateOfProgress := u8 r\<rparr>)"
  by (simp add: set_rate_def)

lemma channel_orders:
  assumes "\<And>k. k < length (ids_of s) \<Longrightarrow> flag (inv_at s k) = 1"
  shows "let t = exec (for_each_inverter (\<lambda>k. do {
            v \<leftarrow> get_inv k;
            if flag v = 1
            then do { set_rate (r k); zb_change_inverter_channel_one (inv_id v) c; ret () }
            else ret () })) s in
     frames (trace t) = frames (trace s) @ map (channel_frame (ecu_panid s) c) (ids_of s)
     \<and> inverters t = inverters s \<and> files t = files s \<and> can_write t = can_write s"
proof -
  let ?body = "\<lambda>k. do {
            v \<leftarrow> get_inv k;
            if flag v = 1
            then do { set_rate (r k); zb_change_inverter_channel_one (inv_id v) c; ret () }
            else ret () }"
  let ?P = "\<lambda>u. inverters u = inverters s \<and> ecu_panid u = ecu_panid s \<and> files u = files s \<and> can_write u = can_write s"
  have body: "?P (exec (?body k) u) \<and> same_ids u (exec (?body k) u)
      \<and> frames (trace (exec (?body k) u)) = frames (trace u) @ [channel_frame (ecu_panid s) c (inv_id (inv_at u k))]"
    if "?P u" "k < length (ids_of s)" for k u
  proof -
    have "inv_at u k = inv_at s k" using that by (simp add: inv_at_def)
    then have f: "flag (inv_at u k) = 1" using assms that by simp
    have "exec (?body k) u = exec (zb_change_inverter_channel_one (inv_id (inv_at u k)) c) (u\<lparr>rateOfProgress := u8 (r k)\<rparr>)"
      using f by (simp add: get_inv_def exec_bind result_bind del: run_state_bind)
    then show ?thesis using that
      by (simp only: run_change_channel_one) (simp add: flushed_def link_defs Let_def same_ids_def)
  qed
  show ?thesis
    using for_each_frames[of ?P s ?body "\<lambda>i. [channel_frame (ecu_panid s) c i]", OF body]
    by (simp add: Let_def concat_map_singleton)
qed

lemma change_channel_known:
  assumes "old \<noteq> 0" "0 < length (ids_of s)"
  shows "let t = exec (changeChannelOfInverters old new) s in
    frames (trace t) = frames (trace s) @ module_frame old # map (channel_frame (ecu_panid s) new) (ids_of s)
    \<and> ids_of t = ids_of s \<and> files t = files s \<and> can_write t = can_write s"
proof -
  let ?f = "\<lambda>v. v\<lparr>flag := 1\<rparr>"
  let ?n = "length (table (inverters s))"
  define s1 where "s1 = exec (for_each_inverter (\<lambda>k. upd_inv k ?f)) s"
  have s1: "s1 = s\<lparr>inverters := map ?f (table (inverters s)) @ drop ?n (inverters s)\<rparr>"
    unfolding s1_def by (rule for_each_updates) simp
  have ids1: "ids_of s1 = ids_of s" unfolding s1 by (rule ids_of_update) simp
  then have n1: "length (table (inverters s1)) = ?n" by (metis ids_of_def length_map)
  define s2 where "s2 = exec (do { zb_restore_ecu_panid_0xffff old; set_rate 5 }) s1"
  have s2: "frames (trace s2) = frames (trace s) @ [module_frame old]" "inverters s2 = inverters s1"
      "ecu_panid s2 = ecu_panid s" "files s2 = files s" "can_write s2 = can_write s"
    using run_restore_0xffff[of old s1] unfolding s2_def exec_bind by (simp_all add: s1)
  have ids2: "ids_of s2 = ids_of s" using ids1 s2(2) by (simp add: ids_of_def)
  have flag: "flag (inv_at s2 k) = 1" if "k < length (ids_of s2)" for k
  proof -
    have "k < ?n" using that ids2 by (metis ids_of_def length_map)
    then show ?thesis unfolding inv_at_def s2(2) by (simp add: s1 slot_def nth_append)
  qed
  have "exec (changeChannelOfInverters old new) s = exec (for_each_inverter (\<lambda>k. do {
            v \<leftarrow> get_inv k;
            if flag v = 1
            then do { set_rate (5 + 35 * (int k + 1) div int ?n);
                      zb_change_inverter_channel_one (inv_id v) new; ret () }
            else ret () })) s2"
    using assms n1 unfolding s2_def s1_def changeChannelOfInverters_def count_inverters_def
    by (simp add: exec_bind result_bind ids_of_def del: run_state_bind cong: if_cong)
  then show ?thesis
    using channel_orders[of s2 "\<lambda>k. 5 + 35 * (int k + 1) div int ?n" new, OF flag] s2(1,3-5) ids2
      ids_of_cong[of _ s1] s2(2) ids1
    by (simp add: Let_def)
qed

text \<open>
  When a new channel has been requested and the old one is known, the module goes to the
  old channel on PAN FFFF, every inverter of the table is sent exactly one order with the
  unit's PAN and the new channel, the new channel becomes the unit's own, and the request
  files are gone, so that the next binding does not repeat it.
\<close>

lemma channel_change_reaches_all:
  assumes "result channel_need_change s" "result getOldChannel s \<noteq> 0"
    and "can_write s path_channel" "0 < length (ids_of s)"
  shows "let t = exec process_channel s; new = result getNewChannel s in
    frames (trace t) = frames (trace s) @ module_frame (result getOldChannel s)
        # map (channel_frame (ecu_panid s) new) (ids_of s)
    \<and> ecu_channel t = u8 new \<and> ids_of t = ids_of s
    \<and> files t path_changech = None \<and> files t path_old_chan = None \<and> files t path_new_chan = None"
proof -
  let ?old = "result getOldChannel s" and ?new = "result getNewChannel s"
  let ?clean = "do { remove_file path_changech; remove_file path_old_chan; remove_file path_new_chan }"
  define s3 where "s3 = exec (changeChannelOfInverters ?old ?new) s"
  have s3: "frames (trace s3) = frames (trace s) @ module_frame ?old # map (channel_frame (ecu_panid s) ?new) (ids_of s)"
      "ids_of s3 = ids_of s" "can_write s3 = can_write s"
    using change_channel_known[OF assms(2,4), of ?new] by (simp_all add: Let_def s3_def)
  define s4 where "s4 = exec (saveECUChannel ?new) s3"
  have s4: "frames (trace s4) = frames (trace s3)" "inverters s4 = inverters s3" "ecu_channel s4 = u8 ?new"
    using assms(3) s3(3) by (simp_all add: s4_def saveECUChannel_def write_file_def echo_def)
  have "exec process_channel s = exec ?clean s4"
    using assms(1) unfolding process_channel_def s4_def s3_def
    by (simp add: exec_bind result_bind channel_need_change_def getOldChannel_def getNewChannel_def read_file_def
        del: run_state_bind)
  moreover have "ids_of (exec ?clean s4) = ids_of s"
    using s4(2) s3(2) by (simp add: ids_of_def remove_file_def)
  ultimately show ?thesis
    using s4 s3(1) by (simp add: Let_def remove_file_def)
qed

section \<open>Frames of the announcement\<close>

text \<open>
  The announcement of \<open>send11order\<close> is cut short: its length byte promises eight bytes
  of payload, the id and a 16-bit delay, but only 21 of the 23 bytes are written, so that
  the frame is not well-formed and the delay never reaches the inverter, while the complete
  frame that the code builds is well-formed.
\<close>

lemma send11order_cut_short:
  "\<exists>f. frames (trace (exec (send11order i cnt) s)) = frames (trace s) @ [f]
     \<and> f = take 21 (order11_frame (ecu_panid s) (ecu_channel s) i cnt)
     \<and> \<not> wf_frame f \<and> wf_frame (order11_frame (ecu_panid s) (ecu_channel s) i cnt)
     \<and> (\<forall>cnt'. take 21 (order11_frame (ecu_panid s) (ecu_channel s) i cnt') = f)"
proof -
  have len: "length (id_bytes i) = 6" by (simp add: id_bytes_def)
  then have wf: "wf_frame (order11_frame p c i n)" for p c n
    unfolding order11_frame_def by (intro wf_zb_frame) simp_all
  have eq: "take 21 (order11_frame p c i n) = zb_frame [0x11, 0, 0, hi8 (uint p), lo8 (uint p), c, 0, 0] 0x08 (id_bytes i)" for p c n
    using len by (simp add: order11_frame_def zb_frame_def zb_frame_from_def Let_def)
  have "\<not> wf_frame (zb_frame [0x11, 0, 0, hi8 (uint p), lo8 (uint p), c, 0, 0] 0x08 (id_bytes i))" (is "\<not> wf_frame ?f") for p c
  proof -
    have "?f ! 14 = 8" by (simp add: zb_frame_def zb_frame_from_def Let_def numeral_nat del: of_nat_numeral)
    then show ?thesis by (simp add: wf_frame_def zb_frame_def length_frame)
  qed
  then show ?thesis using wf eq by (simp add: send11order_def zb_write_def emit_def delay_ms_def)
qed

section \<open>Reported ids\<close>

text \<open>A message that reports the address and the id of an inverter, and the answer to it.\<close>

definition is_report :: "byte list \<Rightarrow> bool" where
  "is_report d = (length d = 11 \<and> d ! 2 = 0xFF \<and> d ! 3 = 0xFF)"

definition report_off :: "byte list \<Rightarrow> byte list" where
  "report_off d = (let a = be16 (d ! 0) (d ! 1) in zb_frame [0x08, hi8 a, lo8 a, 0x08, 0x88, 0x19, 0, 0] 0 [])"

lemma rtpid_silent: "zb_rx s = [] \<Longrightarrow> frames (trace (rtpid_loop i s)) = frames (trace s)"
proof (induction "60 - i" arbitrary: i s rule: less_induct)
  case less
  let ?t = "exec (do { delay_ms 5000; emit (ZbWait 30); delay_ms 5000 }) s"
  show ?case
  proof (cases "i < 60")
    case True
    have "run_state zb_get_id (exec (delay_ms 5000) s) = ((-1, []), exec (do { delay_ms 5000; emit (ZbWait 30) }) s)"
      using less.prems by (simp add: zb_get_id_def selectZigbee_def link_defs)
    then have "rtpid_loop i s = rtpid_loop (i + 1) ?t"
      using True by (subst rtpid_loop.simps) (simp add: rtpid_report_def exec_bind del: run_state_bind)
    moreover have "60 - (i + 1) < 60 - i" "zb_rx ?t = []" "frames (trace ?t) = frames (trace s)"
      using True less.prems by (simp_all add: delay_ms_def emit_def)
    ultimately show ?thesis using less.hyps by metis
  qed (simp add: rtpid_loop.simps[of i s])
qed

lemma rtpid_reports:
  assumes "zb_rx s = map Some ds" "\<forall>d \<in> set ds. is_report d" "i < 60"
  shows "frames (trace (rtpid_loop i s)) = frames (trace s) @ map report_off ds"
  using assms
proof (induction ds arbitrary: i s)
  case Nil
  then show ?case by (simp add: rtpid_silent)
next
  case (Cons d ds)
  let ?t = "exec (do { delay_ms 5000; emit (ZbWait 30); delay_ms 200 }) (s\<lparr>zb_rx := tl (zb_rx s)\<rparr>)"
  let ?u = "exec (do { delay_ms 5000; zb_turnoff_rptid (be16 (d ! 0) (d ! 1)) }) ?t"
  have d: "length d = 11" "d ! 2 = 0xFF" "d ! 3 = 0xFF" using Cons.prems(2) by (auto simp: is_report_def)
  have "run_state zb_get_id (exec (delay_ms 5000) s) = ((11, d), ?t)"
    using Cons.prems(1) d(1) by (simp add: zb_get_id_def selectZigbee_def zb_read_def link_defs)
  then have "rtpid_loop i s = rtpid_loop 7 ?u"
    using Cons.prems(3) d by (subst rtpid_loop.simps) (simp add: rtpid_report_def del: run_state_bind)
  moreover have "zb_rx ?u = map Some ds"
    using Cons.prems(1) by (simp add: zb_turnoff_rptid_def link_defs)
  moreover have "frames (trace ?u) = frames (trace s) @ [report_off d]"
    by (simp add: zb_turnoff_rptid_def link_defs report_off_def Let_def)
  ultimately show ?case using Cons.IH[of ?u 7] Cons.prems(2) by simp
qed

text \<open>
  Every inverter that reports its id while reporting is on is answered with exactly one
  order to stop reporting, addressed to the short address of its report, in the order of the
  reports and however many there are: the round counter, which the handling of a report
  overwrites, never ends the loop early.
\<close>

lemma reports_answered_once:
  assumes "zb_rx s = map Some ds" "\<forall>d \<in> set ds. is_report d"
  shows "frames (trace (exec zb_turnon_rtpid s)) = frames (trace s)
     @ zb_frame [0x02, 0, 0, 0, 0, 0, 0, 0] 0 [] # map report_off ds"
  using rtpid_reports[of "s\<lparr>trace := trace s @ [ZbWrite (zb_frame [0x02, 0, 0, 0, 0, 0, 0, 0] 0 [])]\<rparr>" ds 0] assms
  by (simp add: zb_turnon_rtpid_def zb_write_def emit_def)

end
