(* ===== verification/Net_Exchange.thy ===== *)
theory Net_Exchange
  imports Ecu_State
begin

text \<open>
  One exchange of the upload client with its server, \<open>ECU/client/src/clientSocket.c\<close>: the
  message is sent in pieces, the reply is put together from the segments that arrive until
  it is complete. The sockets and the WiFi module are the \<open>exchange\<close> of the state.
\<close>

section \<open>Definitions\<close>

definition SIZE_PER_SEND :: nat where
  "SIZE_PER_SEND = 2900"

text \<open>The reply buffer has \<open>4+99*14\<close> characters.\<close>

definition REPLY_SIZE :: nat where
  "REPLY_SIZE = 1390"

text \<open>\<open>while(length > 0)\<close>: the pieces given to \<open>send\<close>.\<close>

function send_pieces :: "string \<Rightarrow> string list" where
  "send_pieces s = (if s = [] then []
     else if SIZE_PER_SEND < length s then take SIZE_PER_SEND s # send_pieces (drop SIZE_PER_SEND s)
     else [s])"
  by pat_completeness auto
termination by (relation "measure length") (auto simp: SIZE_PER_SEND_def)

declare send_pieces.simps [simp del]

text \<open>\<open>send\<close> takes the first \<open>n\<close> pieces; after each the code waits half a second.\<close>

fun send_all :: "nat \<Rightarrow> string list \<Rightarrow> bool ecu" where
  "send_all n [] = ret True"
| "send_all 0 (p # ps) = ret False"
| "send_all (Suc n) (p # ps) = do { emit (NetSend p); delay_ms 500; send_all n ps }"

text \<open>
  The number of acknowledged records a reply announces, against the number of times it holds.
  The comparison is done on unsigned 32-bit values.
\<close>

definition ack_count :: "string \<Rightarrow> int" where
  "ack_count r = (ch r 1 - 48) * 10 + (ch r 2 - 48)"

definition acks_match :: "string \<Rightarrow> bool" where
  "acks_match r = (ack_count r mod 2 ^ 32 = ((int (length r) - 3) mod 2 ^ 32) div 14)"

text \<open>
  The receive loop: \<open>acc\<close> is \<open>recvbuff\<close>, \<open>readbuff\<close> the buffer of one \<open>recv\<close> (of which
  \<open>memset(readbuff, '\0', sizeof(readbuff))\<close> clears the size of a pointer, four characters),
  \<open>recvlen\<close> the characters received, \<open>limit\<close> the limit \<open>*recvLength\<close> of the next \<open>recv\<close>. What
  \<open>recv\<close> does not take of a segment stays for the next. The result is the value returned,
  \<open>recvbuff\<close> and \<open>*recvLength\<close>.
\<close>

function recv_reply :: "string \<Rightarrow> string \<Rightarrow> nat \<Rightarrow> nat \<Rightarrow> string list \<Rightarrow> int \<times> string \<times> nat" where
  "recv_reply acc readbuff recvlen limit [] = (-1, acc, limit)"
| "recv_reply acc readbuff recvlen limit (seg # segs) =
     (let got = take limit seg;
          left = drop limit seg;
          readbuff' = overlay got (overlay (replicate 4 NUL) readbuff);
          acc' = acc @ cstr readbuff';
          recvlen' = recvlen + length got;
          rest = (if left = [] then segs else left # segs) in
      if got = [] then (-1, acc, 0)
      else if recvlen' < 3 then recv_reply acc' readbuff' recvlen' limit rest
      else if acks_match acc' then (int recvlen', acc', recvlen')
      else if ch acc' 0 \<noteq> 49 then (0, acc', 0)
      else recv_reply acc' readbuff' recvlen' recvlen' rest)"
  by pat_completeness auto
termination
  by (relation "measure (\<lambda>(_, _, _, _, segs). sum_list (map (Suc \<circ> length) segs))") auto

declare recv_reply.simps(2) [simp del]

text \<open>
  \<open>wifi_socketb_format\<close> takes the headers of the WiFi module (\<open>'b'\<close> and eight zero characters)
  out of a reply when its length is not that of a reply; \<open>i\<close> is the position reached and
  \<open>retlength\<close> the value it returns.
\<close>

definition socketb_head :: string where
  "socketb_head = CHR ''b'' # replicate 8 NUL"

function strip_heads :: "nat \<Rightarrow> string \<Rightarrow> nat \<Rightarrow> string \<times> nat" where
  "strip_heads i data retlength =
     (if i + 9 \<le> length data
      then if take 9 (drop i data) = socketb_head
        then strip_heads (Suc i) (take i data @ drop (i + 9) data) (length data - 9)
        else strip_heads (Suc i) data retlength
      else (data, retlength))"
  by pat_completeness auto
termination
  by (relation "measure (\<lambda>(i, data, _). length data - i)") auto

declare strip_heads.simps [simp del]

definition wifi_socketb_format :: "string \<Rightarrow> string \<times> nat" where
  "wifi_socketb_format data =
     (if (int (length data) - 3) mod 14 \<noteq> 0 then strip_heads 0 data 0 else (data, length data))"

definition next_exchange :: "exchange ecu" where
  "next_exchange = do {
     e \<leftarrow> gets (\<lambda>s. server s 0);
     modify (\<lambda>s. s\<lparr>server := (\<lambda>n. server s (Suc n))\<rparr>);
     ret e }"

text \<open>
  The value returned, the reply buffer (empty before the call) and \<open>*recvLength\<close>. Over WiFi
  the message is one write, and the buffer ends with a NUL after the reply.
\<close>

definition serverCommunication_Client :: "string \<Rightarrow> (int \<times> string \<times> nat) ecu" where
  "serverCommunication_Client sendbuff = do {
     e \<leftarrow> next_exchange;
     (case e of
        NoSocket \<Rightarrow> ret (-1, [], REPLY_SIZE)
      | Wired n segs \<Rightarrow> do {
          ok \<leftarrow> send_all n (send_pieces sendbuff);
          ret (if ok then recv_reply [] (replicate REPLY_SIZE NUL) 0 REPLY_SIZE segs
               else (-1, [], REPLY_SIZE)) }
      | Wifi r \<Rightarrow> do {
          emit (NetSend sendbuff);
          ret (case r of
             None \<Rightarrow> (-1, [], REPLY_SIZE)
           | Some data \<Rightarrow> (let (data', n) = wifi_socketb_format data in (0, cstr (take n data'), n))) }) }"


section \<open>Sending\<close>

lemma concat_send_pieces [simp]: "concat (send_pieces s) = s"
proof (induction s rule: send_pieces.induct)
  case (1 s)
  then show ?case by (subst send_pieces.simps) simp
qed

lemma send_pieces_small: "p \<in> set (send_pieces s) \<Longrightarrow> p \<noteq> [] \<and> length p \<le> SIZE_PER_SEND"
proof (induction s rule: send_pieces.induct)
  case (1 s)
  then show ?case by (subst (asm) (2) send_pieces.simps) (auto simp: SIZE_PER_SEND_def split: if_splits)
qed

text \<open>What a trace gave to the network, as one stream of characters.\<close>

definition sent :: "io list \<Rightarrow> string" where
  "sent es = concat (map (\<lambda>e. case e of NetSend m \<Rightarrow> m | _ \<Rightarrow> []) es)"

lemma sent_simps [simp]:
  "sent [] = []" "sent (es @ es') = sent es @ sent es'" "sent (NetSend m # es) = m @ sent es"
  "sent (DelayMs n # es) = sent es" "sent (MutexTake # es) = sent es" "sent (MutexRelease # es) = sent es"
  "sent (DelayTicks n # es) = sent es" "sent (WifiTake # es) = sent es" "sent (WifiRelease # es) = sent es"
  "sent (FtpThread b p q # es) = sent es"
  by (simp_all add: sent_def)

section \<open>Receiving\<close>

text \<open>
  A complete reply: the mark of acceptance, the number of acknowledged records in two digits
  and their times. Its segments are kept whole when each fits the limit of its \<open>recv\<close> and is
  either shorter than the cleared part of the buffer or not shorter than any before it.
\<close>

definition complete_reply :: "string \<Rightarrow> bool" where
  "complete_reply r = (no_nul r \<and> 3 \<le> length r \<and> ch r 0 = 49
     \<and> (\<exists>n. ack_count r = int n \<and> n \<le> 99 \<and> length r = 3 + 14 * n))"

fun clean_split :: "nat \<Rightarrow> nat \<Rightarrow> string list \<Rightarrow> bool" where
  "clean_split M tot [] = True"
| "clean_split M tot (g # gs) = (g \<noteq> [] \<and> length g \<le> (if tot < 3 then REPLY_SIZE else tot)
     \<and> (length g < 4 \<or> M \<le> length g) \<and> clean_split (max M (length g)) (tot + length g) gs)"

definition zero_from :: "nat \<Rightarrow> string \<Rightarrow> bool" where
  "zero_from M b = (\<forall>c \<in> set (drop M b). c = NUL)"

lemma cstr_zeros: "no_nul g \<Longrightarrow> (z = [] \<or> hd z = NUL) \<Longrightarrow> cstr (g @ z) = g"
  by (cases z) (auto simp: cstr_def no_nul_def takeWhile_append)

lemma zero_from_overlay:
  assumes "zero_from M b"
  shows "zero_from (max M (length g)) (overlay g (overlay (replicate 4 NUL) b))"
proof -
  have "drop (max M (length g)) (overlay g (overlay (replicate 4 NUL) b))
    = drop (max M (length g)) (replicate 4 NUL @ drop 4 b)"
    using drop_overlay[of g "max M (length g)" "overlay (replicate 4 NUL) b"] by (simp add: overlay_def[of "replicate 4 NUL"])
  moreover have "c = NUL" if "c \<in> set (drop (max M (length g)) (replicate 4 NUL @ drop 4 b))" for c
  proof -
    have "c \<in> set (replicate 4 NUL) \<or> c \<in> set (drop (max M (length g) - 4 + 4) b)"
      using that by (auto dest: in_set_dropD)
    moreover have "set (drop (max M (length g) - 4 + 4) b) \<subseteq> set (drop M b)"
      by (rule set_drop_subset_set_drop) simp
    ultimately show ?thesis using assms by (auto simp: zero_from_def)
  qed
  ultimately show ?thesis unfolding zero_from_def by metis
qed

lemma recv_segment:
  assumes "zero_from M b" "no_nul g" "length g < 4 \<or> M \<le> length g"
  shows "cstr (overlay g (overlay (replicate 4 NUL) b)) = g"
proof -
  let ?o = "overlay (replicate 4 NUL) b"
  have "drop (length g) ?o = [] \<or> hd (drop (length g) ?o) = NUL"
  proof (cases "length g < 4")
    case True
    then show ?thesis by (simp add: overlay_def hd_append)
  next
    case False
    then have g: "drop (length g) ?o = drop (length g) b" "M \<le> length g"
      using assms(3) by (simp_all add: overlay_def)
    have "set (drop (length g) b) \<subseteq> set (drop M b)" using g(2) by (rule set_drop_subset_set_drop)
    then show ?thesis using assms(1) g(1) by (cases "drop (length g) b") (auto simp: zero_from_def)
  qed
  then show ?thesis using assms(2) unfolding overlay_def[of g] by (rule cstr_zeros[rotated])
qed


lemma acks_match_complete: "complete_reply r \<Longrightarrow> acks_match r"
  by (auto simp: complete_reply_def acks_match_def)

lemma ch_prefix: "i < length a \<Longrightarrow> ch (a @ b) i = ch a i"
  by (simp add: ch_def nth_append)

text \<open>No proper prefix of a complete reply is taken for the whole.\<close>

lemma prefix_not_complete:
  assumes "complete_reply (a @ b)" "3 \<le> length a" "b \<noteq> []"
  shows "\<not> acks_match a \<and> ch a 0 = 49"
proof -
  obtain n where n: "ack_count (a @ b) = int n" "n \<le> 99" "length (a @ b) = 3 + 14 * n"
    using assms(1) by (auto simp: complete_reply_def)
  have c: "ack_count a = int n"
    using n(1) assms(2) by (simp add: ack_count_def ch_prefix)
  have "length a < 3 + 14 * n" using n(3) assms(3) by (cases b) simp_all
  then have b: "length a - 3 < n * 14" using assms(2) by simp
  then have "(length a - 3) div 14 < n" by (rule less_mult_imp_div_less)
  moreover have "((int (length a) - 3) mod 2 ^ 32) div 14 = int ((length a - 3) div 14)"
  proof -
    have "int (length a) - 3 = int (length a - 3)" using assms(2) by simp
    moreover have "int (length a - 3) < 2 ^ 32" using b n(2) by simp
    then have "int (length a - 3) mod 2 ^ 32 = int (length a - 3)" by (intro mod_pos_pos_trivial) simp_all
    ultimately show ?thesis by (simp only: zdiv_int of_nat_numeral)
  qed
  moreover have "int n mod 2 ^ 32 = int n" using n(2) by (intro mod_pos_pos_trivial) simp_all
  ultimately have "\<not> acks_match a" using c unfolding acks_match_def by (simp only: of_nat_eq_iff)
  moreover have "ch (a @ b) 0 = 49" using assms(1) by (simp add: complete_reply_def)
  then have "ch a 0 = 49" using assms(2) ch_prefix[of 0 a b] by (cases a) simp_all
  ultimately show ?thesis by simp
qed

lemma recv_reply_step:
  assumes "zero_from M b" "no_nul g" "length g < 4 \<or> M \<le> length g" "g \<noteq> []" "length g \<le> limit"
  shows "recv_reply acc b tot limit (g # gs) =
    (let tot' = tot + length g; b' = overlay g (overlay (replicate 4 NUL) b) in
     if tot' < 3 then recv_reply (acc @ g) b' tot' limit gs
     else if acks_match (acc @ g) then (int tot', acc @ g, tot')
     else if ch (acc @ g) 0 \<noteq> 49 then (0, acc @ g, 0)
     else recv_reply (acc @ g) b' tot' tot' gs)"
  using recv_segment[OF assms(1-3)] assms(4,5) by (simp add: recv_reply.simps(2) Let_def)

lemma recv_reply_complete:
  assumes "complete_reply (acc @ concat segs)" "concat segs \<noteq> []" "zero_from M b"
    "clean_split M (length acc) segs" "limit = (if length acc < 3 then REPLY_SIZE else length acc)"
  shows "recv_reply acc b (length acc) limit segs
    = (int (length (acc @ concat segs)), acc @ concat segs, length (acc @ concat segs))"
  using assms
proof (induction segs arbitrary: acc M b limit)
  case Nil
  then show ?case by simp
next
  case (Cons g gs)
  let ?b = "overlay g (overlay (replicate 4 NUL) b)" and ?a = "acc @ g"
  have g: "no_nul g" "g \<noteq> []" "length g < 4 \<or> M \<le> length g" "length g \<le> limit"
    using Cons.prems by (auto simp: complete_reply_def)
  note step = recv_reply_step[OF Cons.prems(3) g(1,3,2,4), of acc "length acc" gs]
  show ?case
  proof (cases "concat gs = []")
    case True
    then have "complete_reply ?a" using Cons.prems(1) by (simp del: concat_eq_Nil_conv)
    then have "3 \<le> length ?a" "acks_match ?a"
      using acks_match_complete[of ?a] by (simp_all add: complete_reply_def)
    then show ?thesis using True by (simp add: step Let_def del: concat_eq_Nil_conv)
  next
    case False
    have r: "complete_reply (?a @ concat gs)" using Cons.prems(1) by simp
    have IH: "recv_reply ?a ?b (length ?a) (if length ?a < 3 then REPLY_SIZE else length ?a) gs
      = (int (length (?a @ concat gs)), ?a @ concat gs, length (?a @ concat gs))"
      using Cons.prems(4) zero_from_overlay[OF Cons.prems(3), of g]
      by (intro Cons.IH[OF r False]) auto
    show ?thesis
    proof (cases "length ?a < 3")
      case True
      then have "length acc < 3" by simp
      then show ?thesis using IH True Cons.prems(5) step by (simp add: Let_def)
    next
      case nt: False
      then have "\<not> acks_match ?a" "ch ?a 0 = 49"
        using prefix_not_complete[OF r _ False] by simp_all
      then show ?thesis using IH nt by (simp add: step Let_def)
    qed
  qed
qed



text \<open>
  Without that condition the reply is damaged: the buffer of \<open>recv\<close> keeps the end of an earlier,
  longer segment, which is read again.
\<close>

lemma split_reply_garbled:
  "recv_reply [] (replicate 40 NUL) 0 REPLY_SIZE [''10120170908'', ''080000'']
   = (17, ''1012017090808000070908'', 17)"
  by (simp add: recv_reply.simps Let_def REPLY_SIZE_def overlay_def cstr_def NUL_def acks_match_def ack_count_def ch_def
      numeral_nat)

end
