(* ===== verification/Record_Store.thy ===== *)
theory Record_Store
  imports Ecu_State
begin

text \<open>
  Records with a send flag. Measurements, inverter status and the results of commands are
  appended to one file per day in a directory of each kind; a record is a line that ends with
  its key (a time or a command number), a comma and the flag: \<open>1\<close> to be sent, \<open>2\<close> sent and
  not acknowledged, \<open>0\<close> done. \<open>client.c\<close> and \<open>control_client.c\<close> repeat the same scans of a
  directory with the layout of each kind of record; the scans are defined once here.
\<close>

section \<open>Scans of a directory\<close>

text \<open>
  \<open>fgets\<close> with a buffer of \<open>MAXINVERTERCOUNT*RECORDLENGTH+RECORDTAIL+18\<close> characters.
\<close>

definition record_lines :: "string \<Rightarrow> string list" where
  "record_lines txt = fgets_lines (120 * 150 + 100 + 17) txt"

definition dir_paths :: "string \<Rightarrow> ecu_state \<Rightarrow> string list" where
  "dir_paths d s = map (\<lambda>n. d @ ''/'' @ n) (dir_order s d)"

text \<open>
  The frame of every scan: the lock is taken, a missing directory is created (and the scan
  finds nothing), the lock is released.
\<close>

definition in_dir :: "string \<Rightarrow> 'a \<Rightarrow> (string list \<Rightarrow> 'a ecu) \<Rightarrow> 'a ecu" where
  "in_dir d nothing scan = do {
     emit MutexTake;
     ok \<leftarrow> gets (\<lambda>s. dir_exists s d);
     ps \<leftarrow> gets (dir_paths d);
     r \<leftarrow> (if ok then scan ps
          else do { modify (\<lambda>s. s\<lparr>dir_exists := (dir_exists s)(d := True)\<rparr>); ret nothing });
     emit MutexRelease;
     ret r }"

text \<open>Whether some line of the files satisfies a condition.\<close>

fun any_line :: "(string \<Rightarrow> bool) \<Rightarrow> string list \<Rightarrow> bool ecu" where
  "any_line P [] = ret False"
| "any_line P (p # ps) = do {
     f \<leftarrow> read_file p;
     (case f of
        None \<Rightarrow> any_line P ps
      | Some txt \<Rightarrow> if (\<exists>l \<in> set (record_lines txt). P (cstr l)) then ret True else any_line P ps) }"

text \<open>
  \<open>fseek(fp,-2L,SEEK_CUR); fputc(flag,fp)\<close> on the first line that satisfies the condition.
\<close>

fun flag_first :: "(string \<Rightarrow> bool) \<Rightarrow> char \<Rightarrow> string list \<Rightarrow> string list option" where
  "flag_first P c [] = None"
| "flag_first P c (l # ls) =
     (if P (cstr l) then Some (l[length l - 2 := c] # ls)
      else map_option ((#) l) (flag_first P c ls))"

text \<open>The files are opened with \<open>"r+"\<close>; one that cannot be written is passed over.\<close>

fun change_line :: "(string \<Rightarrow> bool) \<Rightarrow> char \<Rightarrow> string list \<Rightarrow> bool ecu" where
  "change_line P c [] = ret False"
| "change_line P c (p # ps) = do {
     f \<leftarrow> read_file p;
     ok \<leftarrow> gets (\<lambda>s. can_write s p);
     (case f of
        None \<Rightarrow> change_line P c ps
      | Some txt \<Rightarrow>
          if \<not> ok then change_line P c ps
          else (case flag_first P c (record_lines txt) of
              None \<Rightarrow> change_line P c ps
            | Some ls \<Rightarrow> do { modify (\<lambda>s. s\<lparr>files := (files s)(p \<mapsto> concat ls)\<rparr>); ret True })) }"

text \<open>
  The first line that satisfies \<open>P\<close>, and whether there is another one: after it in the same
  file by the condition \<open>P2\<close>, or in a later file by \<open>P3\<close>. The code waits a second when it has
  found the first.
\<close>

fun search_line2 :: "(string \<Rightarrow> bool) \<Rightarrow> (string \<Rightarrow> bool) \<Rightarrow> (string \<Rightarrow> bool) \<Rightarrow> string list
    \<Rightarrow> (string \<times> bool) option ecu" where
  "search_line2 P P2 P3 [] = ret None"
| "search_line2 P P2 P3 (p # ps) = do {
     f \<leftarrow> read_file p;
     (case f of
        None \<Rightarrow> search_line2 P P2 P3 ps
      | Some txt \<Rightarrow> (case dropWhile (\<lambda>l. \<not> P (cstr l)) (record_lines txt) of
            [] \<Rightarrow> search_line2 P P2 P3 ps
          | l # ls \<Rightarrow> do {
              delay_ms 1000;
              if (\<exists>l' \<in> set ls. P2 (cstr l')) then ret (Some (cstr l, True))
              else do { another \<leftarrow> any_line P3 ps; ret (Some (cstr l, another)) } })) }"

text \<open>Every file without a line that satisfies the condition is unlinked.\<close>

fun delete_files :: "(string \<Rightarrow> bool) \<Rightarrow> string list \<Rightarrow> unit ecu" where
  "delete_files P [] = ret ()"
| "delete_files P (p # ps) = do {
     f \<leftarrow> read_file p;
     (case f of
        None \<Rightarrow> ret ()
      | Some txt \<Rightarrow> if (\<exists>l \<in> set (record_lines txt). P (cstr l)) then ret () else remove_file p);
     delete_files P ps }"

section \<open>The layouts\<close>

text \<open>The character \<open>k\<close> places before the end of the line.\<close>

definition from_end :: "string \<Rightarrow> nat \<Rightarrow> char" where
  "from_end b k = b ! (length b - k)"

definition rec_flag :: "string \<Rightarrow> char" where
  "rec_flag b = from_end b 2"

text \<open>Measurements and status: \<open>body,time,flag\<close> and a newline, with a time of 14 characters.\<close>

definition timed :: "string \<Rightarrow> bool" where
  "timed b = (18 < length b \<and> from_end b 3 = CHR '','' \<and> from_end b 18 = CHR '','')"

definition rec_time :: "string \<Rightarrow> string" where
  "rec_time b = take 14 (drop (length b - 17) b)"

text \<open>Results of the unit: \<open>body,item,flag\<close> and a newline, with an item of 3 characters.\<close>

definition item_line :: "string \<Rightarrow> bool" where
  "item_line b = (18 < length b \<and> from_end b 3 = CHR '','' \<and> from_end b 7 = CHR '','')"

definition rec_item :: "string \<Rightarrow> string" where
  "rec_item b = take 3 (drop (length b - 6) b)"

text \<open>
  Results of inverters: \<open>body,id,item,flag\<close> and a newline. A line of 19 characters has no
  character 20 places before its end (the code reads the one before its buffer there); the
  model takes it as no comma.
\<close>

definition inv_item_line :: "string \<Rightarrow> bool" where
  "inv_item_line b = (item_line b \<and> 20 \<le> length b \<and> from_end b 20 = CHR '','')"

definition rec_inverter :: "string \<Rightarrow> string" where
  "rec_inverter b = take 12 (drop (length b - 19) b)"

text \<open>
  \<open>memcpy(data, buff, strlen(buff)-k); data[strlen(buff)-k] = '\n'\<close> after
  \<open>memset(data, '\0', sizeof(data)/sizeof(data[0]))\<close>, which clears four characters.
\<close>

definition cleared4 :: "string \<Rightarrow> string" where
  "cleared4 data = overlay (replicate 4 NUL) data"

definition copy_body :: "nat \<Rightarrow> string \<Rightarrow> string \<Rightarrow> string" where
  "copy_body k b data = overlay (take (length b - k) b @ [NL]) (cleared4 data)"


definition dir_data :: string where
  "dir_data = ''/HOME/RECORD/DATA''"

definition dir_inversta :: string where
  "dir_inversta = ''/HOME/RECORD/INVERSTA''"

definition dir_proc_res :: string where
  "dir_proc_res = ''/HOME/DATA/PROC_RES''"

definition dir_iprocres :: string where
  "dir_iprocres = ''/HOME/DATA/IPROCRES''"

section \<open>Measurements: \<open>client.c\<close>\<close>

definition detection_resendflag2 :: "int ecu" where
  "detection_resendflag2 = do {
     r \<leftarrow> in_dir dir_data False (any_line (\<lambda>b. timed b \<and> rec_flag b = CHR ''2''));
     ret (if r then 1 else 0) }"

definition change_resendflag :: "string \<Rightarrow> char \<Rightarrow> int ecu" where
  "change_resendflag time fl = do {
     r \<leftarrow> in_dir dir_data False (change_line (\<lambda>b. timed b \<and> memeq time (rec_time b) 14) fl);
     ret (if r then 1 else 0) }"

text \<open>
  The searches return whether a record was found, and leave its text in \<open>data\<close>, its key in
  \<open>time\<close> (or \<open>item\<close>), and whether there is another one in \<open>*flag\<close>.
\<close>

definition found_record :: "nat \<Rightarrow> (string \<Rightarrow> string) \<Rightarrow> string \<Rightarrow> string \<Rightarrow> (string \<times> bool) option
    \<Rightarrow> bool \<times> string \<times> string \<times> bool" where
  "found_record k key data time r = (case r of
      None \<Rightarrow> (False, cleared4 data, time, False)
    | Some (b, another) \<Rightarrow> (True, copy_body k b data, overlay (key b) time, another))"

definition search_readflag :: "string \<Rightarrow> string \<Rightarrow> char \<Rightarrow> (bool \<times> string \<times> string \<times> bool) ecu" where
  "search_readflag data time sendflag = (let P = (\<lambda>b. timed b \<and> rec_flag b = sendflag) in do {
     r \<leftarrow> in_dir dir_data None (search_line2 P P P);
     ret (found_record 18 rec_time data time r) })"

definition delete_file_resendflag0 :: "unit ecu" where
  "delete_file_resendflag0 =
     in_dir dir_data () (delete_files (\<lambda>b. timed b \<and> rec_flag b \<noteq> CHR ''0''))"

section \<open>Status of the inverters: \<open>control_client.c\<close>\<close>

text \<open>The first two do not look at the commas.\<close>

definition detection_statusflag :: "char \<Rightarrow> int ecu" where
  "detection_statusflag fl = do {
     r \<leftarrow> in_dir dir_inversta False (any_line (\<lambda>b. 18 < length b \<and> rec_flag b = fl));
     ret (if r then 1 else 0) }"

definition change_statusflag1 :: "int ecu" where
  "change_statusflag1 = do {
     r \<leftarrow> in_dir dir_inversta False
       (change_line (\<lambda>b. 18 < length b \<and> rec_flag b = CHR ''2'') (CHR ''1''));
     ret (if r then 1 else 0) }"

definition delete_statusflag0 :: "unit ecu" where
  "delete_statusflag0 =
     in_dir dir_inversta () (delete_files (\<lambda>b. timed b \<and> rec_flag b \<noteq> CHR ''0''))"

definition change_statusflag :: "string \<Rightarrow> char \<Rightarrow> int ecu" where
  "change_statusflag time fl = do {
     r \<leftarrow> in_dir dir_inversta False (change_line (\<lambda>b. timed b \<and> memeq time (rec_time b) 14) fl);
     ret (if r then 1 else 0) }"

definition search_statusflag :: "string \<Rightarrow> string \<Rightarrow> char \<Rightarrow> (bool \<times> string \<times> string \<times> bool) ecu" where
  "search_statusflag data time sendflag = (let P = (\<lambda>b. timed b \<and> rec_flag b = sendflag) in do {
     r \<leftarrow> in_dir dir_inversta None (search_line2 P P P);
     ret (found_record 18 rec_time data time r) })"

definition exist_inverter_abnormal_status :: "int ecu" where
  "exist_inverter_abnormal_status = do {
     r \<leftarrow> detection_statusflag (CHR ''1'');
     ret (if r = 1 then 1 else 0) }"

section \<open>Results of commands: \<open>control_client.c\<close>\<close>

definition delete_pro_result_flag0 :: "unit ecu" where
  "delete_pro_result_flag0 =
     in_dir dir_proc_res () (delete_files (\<lambda>b. item_line b \<and> rec_flag b \<noteq> CHR ''0''))"

definition delete_inv_pro_result_flag0 :: "unit ecu" where
  "delete_inv_pro_result_flag0 =
     in_dir dir_iprocres () (delete_files (\<lambda>b. inv_item_line b \<and> rec_flag b \<noteq> CHR ''0''))"

definition change_pro_result_flag :: "string \<Rightarrow> char \<Rightarrow> int ecu" where
  "change_pro_result_flag item fl = do {
     r \<leftarrow> in_dir dir_proc_res False
       (change_line (\<lambda>b. item_line b \<and> rec_flag b = CHR ''1'' \<and> memeq item (rec_item b) 4) fl);
     ret (if r then 1 else 0) }"

definition change_inv_pro_result_flag :: "string \<Rightarrow> char \<Rightarrow> int ecu" where
  "change_inv_pro_result_flag item fl = do {
     r \<leftarrow> in_dir dir_iprocres False
       (change_line (\<lambda>b. inv_item_line b \<and> rec_flag b = CHR ''1'' \<and> memeq item (rec_item b) 4) fl);
     ret (if r then 1 else 0) }"

text \<open>In the later files the code looks for a comma 18 places before the end, not 7.\<close>

definition search_pro_result_flag :: "string \<Rightarrow> string \<Rightarrow> char \<Rightarrow> (bool \<times> string \<times> string \<times> bool) ecu" where
  "search_pro_result_flag data item sendflag = (let P = (\<lambda>b. item_line b \<and> rec_flag b = sendflag) in do {
     r \<leftarrow> in_dir dir_proc_res None (search_line2 P P (\<lambda>b. timed b \<and> rec_flag b = sendflag));
     ret (found_record 7 rec_item data item r) })"

text \<open>Here it is in the rest of the same file that it looks 18 places before the end.\<close>

definition search_inv_pro_result_flag :: "string \<Rightarrow> string \<Rightarrow> string \<Rightarrow> char
    \<Rightarrow> (bool \<times> string \<times> string \<times> string \<times> bool) ecu" where
  "search_inv_pro_result_flag data item inverterid sendflag =
    (let P = (\<lambda>b. inv_item_line b \<and> rec_flag b = sendflag) in do {
     r \<leftarrow> in_dir dir_iprocres None (search_line2 P (\<lambda>b. timed b \<and> rec_flag b = sendflag) P);
     ret (case r of
        None \<Rightarrow> (False, cleared4 data, item, inverterid, False)
      | Some (b, another) \<Rightarrow>
          (True, copy_body 20 b data, overlay (rec_item b) item, overlay (rec_inverter b) inverterid, another)) })"

section \<open>Adding records: \<open>file.c\<close>\<close>

definition day_file :: "string \<Rightarrow> string \<Rightarrow> string" where
  "day_file d date_time = d @ ''/'' @ take 8 date_time @ ''.DAT''"

definition save_record :: "string \<Rightarrow> string \<Rightarrow> unit ecu" where
  "save_record sendbuff date_time = do {
     emit MutexTake;
     append_file (day_file dir_data date_time) ([NL] @ sendbuff @ '','' @ date_time @ '',1'' @ [NL]);
     emit MutexRelease }"

definition save_status :: "string \<Rightarrow> string \<Rightarrow> int ecu" where
  "save_status res date_time = do {
     append_file (day_file dir_inversta date_time) ([NL] @ res @ '','' @ date_time @ '',1'' @ [NL]);
     ret 0 }"

text \<open>A newline at the end of the result is taken off first.\<close>

definition save_process_result :: "int \<Rightarrow> string \<Rightarrow> int ecu" where
  "save_process_result item res = do {
     dt \<leftarrow> gets datetime;
     let res' = (if res \<noteq> [] \<and> last res = NL then butlast res else res);
     append_file (day_file dir_proc_res dt)
       ([NL] @ res' @ '','' @ pad_space 3 (fmt_d item) @ '',1'' @ [NL]);
     ret 0 }"

definition save_inverter_parameters_result :: "inverter \<Rightarrow> int \<Rightarrow> string \<Rightarrow> int ecu" where
  "save_inverter_parameters_result v item res = do {
     dt \<leftarrow> gets datetime;
     append_file (day_file dir_iprocres dt)
       ([NL] @ res @ '','' @ inv_id v @ '','' @ pad_space 3 (fmt_d item) @ '',1'' @ [NL]);
     ret 0 }"

end
