(* ===== verification/Record_Spec.thy ===== *)
theory Record_Spec
  imports Record_Store Net_Exchange
begin

text \<open>
  What the record files promise. The files of a directory are abstracted to the list of their
  records (text, key, flag); the scans of \<open>Record_Store\<close> implement the operations of
  \<open>record_store\<close> on that list: find the first record with a flag, set the flag of the first
  record with a key, drop files all of whose records are done.
\<close>

section \<open>The files of a directory as one list of lines\<close>

definition file_lines :: "string option \<Rightarrow> string list" where
  "file_lines f = (case f of None \<Rightarrow> [] | Some txt \<Rightarrow> record_lines txt)"

definition all_lines :: "(string \<rightharpoonup> string) \<Rightarrow> string list \<Rightarrow> string list" where
  "all_lines fs ps = concat (map (\<lambda>p. file_lines (fs p)) ps)"

lemma file_lines_simps [simp]: "file_lines None = []" "file_lines (Some txt) = record_lines txt"
  by (simp_all add: file_lines_def)

lemma all_lines_simps [simp]:
  "all_lines fs [] = []" "all_lines fs (p # ps) = file_lines (fs p) @ all_lines fs ps"
  by (simp_all add: all_lines_def)

lemma all_lines_cong: "(\<And>p. p \<in> set ps \<Longrightarrow> fs p = gs p) \<Longrightarrow> all_lines fs ps = all_lines gs ps"
  by (induction ps) auto

text \<open>A record file of complete lines that fit the buffer.\<close>

definition record_line :: "string \<Rightarrow> bool" where
  "record_line l = (is_line l \<and> length l \<le> 120 * 150 + 100 + 17)"

definition good_file :: "string \<Rightarrow> bool" where
  "good_file txt = (\<exists>ls. txt = concat ls \<and> (\<forall>l \<in> set ls. record_line l))"

lemma record_lines_concat: "\<forall>l \<in> set ls. record_line l \<Longrightarrow> record_lines (concat ls) = ls"
  unfolding record_lines_def by (rule fgets_lines_concat) (simp add: record_line_def)

lemma good_lines:
  "good_file txt \<Longrightarrow> concat (record_lines txt) = txt \<and> (\<forall>l \<in> set (record_lines txt). record_line l)"
  using record_lines_concat by (auto simp: good_file_def)

lemma record_line_cstr [simp]: "record_line l \<Longrightarrow> cstr l = l"
  by (simp add: record_line_def)

definition good_files :: "string list \<Rightarrow> ecu_state \<Rightarrow> bool" where
  "good_files ps s = (\<forall>p \<in> set ps. \<forall>txt. files s p = Some txt \<longrightarrow> can_write s p \<and> good_file txt)"

lemma good_files_all: "good_files ps s \<Longrightarrow> l \<in> set (all_lines (files s) ps) \<Longrightarrow> record_line l"
proof (induction ps)
  case (Cons p ps)
  then show ?case by (cases "files s p") (auto simp: good_files_def dest: good_lines)
qed simp

section \<open>The scans on the list of lines\<close>

lemma run_any_line:
  "run_state (any_line P ps) s = ((\<exists>l \<in> set (all_lines (files s) ps). P (cstr l)), s)"
  by (induction ps) (auto simp: read_file_def split: option.splits)

lemma dropWhile_append_case:
  "dropWhile P (xs @ ys) = (case dropWhile P xs of [] \<Rightarrow> dropWhile P ys | z # zs \<Rightarrow> z # zs @ ys)"
  by (induction xs) auto

text \<open>The record found, and whether the same condition holds of a later line.\<close>

lemma run_search_line2:
  "run_state (search_line2 P P P ps) s = (case dropWhile (\<lambda>l. \<not> P (cstr l)) (all_lines (files s) ps) of
      [] \<Rightarrow> (None, s)
    | l # ls \<Rightarrow> (Some (cstr l, \<exists>l' \<in> set ls. P (cstr l')), s\<lparr>trace := trace s @ [DelayMs 1000]\<rparr>))"
proof (induction ps)
  case (Cons p ps)
  show ?case
  proof (cases "files s p")
    case None
    then show ?thesis using Cons by (simp add: read_file_def)
  next
    case (Some tx)
    show ?thesis
    proof (cases "dropWhile (\<lambda>l. \<not> P (cstr l)) (record_lines tx)")
      case Nil
      then show ?thesis using Cons Some
        by (simp add: read_file_def dropWhile_append_case del: dropWhile_eq_Nil_conv)
    next
      case l: (Cons l ls)
      then show ?thesis using Some
        by (auto simp: read_file_def delay_ms_def emit_def run_any_line dropWhile_append_case)
    qed
  qed
qed simp

text \<open>Whatever the later conditions are, the record found is the first one.\<close>

lemma run_search_first:
  "map_option fst (result (search_line2 P P2 P3 ps) s)
     = map_option cstr (find (\<lambda>l. P (cstr l)) (all_lines (files s) ps))
   \<and> (\<exists>es. exec (search_line2 P P2 P3 ps) s = s\<lparr>trace := trace s @ es\<rparr> \<and> set es \<subseteq> {DelayMs 1000})"
proof (induction ps)
  case Nil
  show ?case by (auto intro!: exI[of _ "[]"])
next
  case (Cons p ps)
  have find: "find (\<lambda>l. P (cstr l)) (xs @ ys) = (case dropWhile (\<lambda>l. \<not> P (cstr l)) xs of
      [] \<Rightarrow> find (\<lambda>l. P (cstr l)) ys | l # _ \<Rightarrow> Some l)" for xs ys
    by (induction xs) auto
  show ?case
  proof (cases "files s p")
    case None
    then show ?thesis using Cons by (simp add: read_file_def)
  next
    case (Some tx)
    show ?thesis
    proof (cases "dropWhile (\<lambda>l. \<not> P (cstr l)) (record_lines tx)")
      case Nil
      then show ?thesis using Cons Some find[of "record_lines tx"]
        by (simp add: read_file_def del: dropWhile_eq_Nil_conv)
    next
      case l: (Cons l ls)
      then show ?thesis using Some find[of "record_lines tx"]
        by (auto simp: read_file_def delay_ms_def emit_def run_any_line intro!: exI[of _ "[DelayMs 1000]"])
    qed
  qed
qed

definition mark_lines :: "(string \<Rightarrow> bool) \<Rightarrow> char \<Rightarrow> string list \<Rightarrow> string list" where
  "mark_lines P c ls = (case flag_first P c ls of None \<Rightarrow> ls | Some ls' \<Rightarrow> ls')"

lemma flag_first_append:
  "flag_first P c (xs @ ys) = (case flag_first P c xs of
      None \<Rightarrow> map_option ((@) xs) (flag_first P c ys) | Some zs \<Rightarrow> Some (zs @ ys))"
proof (induction xs)
  case Nil
  show ?case by (cases "flag_first P c ys") simp_all
next
  case (Cons x xs)
  then show ?case by (cases "flag_first P c xs"; cases "flag_first P c ys") simp_all
qed

lemma flag_first_None: "flag_first P c ls = None \<longleftrightarrow> (\<forall>l \<in> set ls. \<not> P (cstr l))"
  by (induction ls) auto

lemma flag_first_lines:
  "flag_first P c ls = Some ls' \<Longrightarrow> (\<And>l. l \<in> set ls \<Longrightarrow> P (cstr l) \<Longrightarrow> Q (l[length l - 2 := c]))
   \<Longrightarrow> (\<And>l. l \<in> set ls \<Longrightarrow> Q l) \<Longrightarrow> \<forall>l \<in> set ls'. Q l"
  by (induction ls arbitrary: ls') (auto split: if_splits)

text \<open>A line keeps its form when its flag is set.\<close>

definition flag_char :: "char \<Rightarrow> bool" where
  "flag_char c = (c \<noteq> NL \<and> c \<noteq> NUL)"

lemma flag_chars [simp]: "flag_char (CHR ''0'')" "flag_char (CHR ''1'')" "flag_char (CHR ''2'')"
  by (simp_all add: flag_char_def NL_def NUL_def)

lemma record_line_flag:
  assumes "record_line l" "18 < length l" "flag_char c"
  shows "record_line (l[length l - 2 := c])"
proof -
  obtain b where b: "l = b @ [NL]" "NL \<notin> set b" "no_nul b"
    using assms(1) by (auto simp: record_line_def is_line_def)
  have i: "length l - 2 < length b" using b(1) assms(2) by simp
  have "l[length l - 2 := c] = b[length l - 2 := c] @ [NL]"
    using i unfolding b(1) by (simp add: list_update_append)
  moreover have "NL \<notin> set (b[length l - 2 := c])"
    using b(2) assms(3) set_update_subset_insert[of b "length l - 2" c] by (auto simp: flag_char_def)
  moreover have "no_nul (b[length l - 2 := c])"
    using b(3) assms(3) set_update_subset_insert[of b "length l - 2" c] by (auto simp: no_nul_def flag_char_def)
  ultimately have "is_line (l[length l - 2 := c])" unfolding is_line_def by blast
  then show ?thesis using assms(1) by (simp add: record_line_def)
qed

lemma change_line_files:
  obtains fs where "exec (change_line P c ps) s = s\<lparr>files := fs\<rparr>" "\<And>q. q \<notin> set ps \<Longrightarrow> fs q = files s q"
proof -
  have "\<exists>fs. exec (change_line P c ps) s = s\<lparr>files := fs\<rparr> \<and> (\<forall>q. q \<notin> set ps \<longrightarrow> fs q = files s q)"
  proof (induction ps)
    case Nil
    show ?case by (auto intro: exI[of _ "files s"])
  next
    case (Cons p ps)
    then show ?case by (auto simp: read_file_def split: option.splits)
  qed
  then show ?thesis using that by blast
qed

lemma mark_lines_append:
  "mark_lines P c (xs @ ys) = (if \<exists>l \<in> set xs. P (cstr l) then mark_lines P c xs @ ys else xs @ mark_lines P c ys)"
proof (cases "flag_first P c xs")
  case None
  moreover from this have "\<not> (\<exists>l \<in> set xs. P (cstr l))" by (simp add: flag_first_None)
  ultimately show ?thesis by (auto simp: mark_lines_def flag_first_append split: option.splits)
next
  case (Some zs)
  then have "\<exists>l \<in> set xs. P (cstr l)" using flag_first_None[of P c xs] by auto
  with Some show ?thesis by (simp add: mark_lines_def flag_first_append)
qed

text \<open>Setting a flag, on the list of lines; the files stay well formed.\<close>

lemma exec_change_line:
  assumes "good_files ps s" "distinct ps" "flag_char c" "\<And>l. P l \<Longrightarrow> 18 < length l"
  shows "result (change_line P c ps) s = (\<exists>l \<in> set (all_lines (files s) ps). P (cstr l))
     \<and> all_lines (files (exec (change_line P c ps) s)) ps = mark_lines P c (all_lines (files s) ps)
     \<and> good_files ps (exec (change_line P c ps) s)"
  using assms(1,2)
proof (induction ps)
  case Nil
  then show ?case by (simp add: mark_lines_def)
next
  case (Cons p ps)
  have ps: "good_files ps s" "distinct ps" "p \<notin> set ps"
    using Cons.prems by (auto simp: good_files_def)
  note IH = Cons.IH[OF ps(1,2)]
  let ?t = "exec (change_line P c ps) s"
  have keep: "files ?t p = files s p" "can_write ?t = can_write s"
    using change_line_files[of P c ps s] ps(3) by force+
  show ?case
  proof (cases "files s p")
    case None
    then show ?thesis using IH keep by (simp add: read_file_def good_files_def)
  next
    case (Some tx)
    then have p: "can_write s p" "good_file tx" using Cons.prems(1) by (auto simp: good_files_def)
    show ?thesis
    proof (cases "flag_first P c (record_lines tx)")
      case None
      then have "\<not> (\<exists>l \<in> set (record_lines tx). P (cstr l))" by (simp add: flag_first_None)
      then show ?thesis using IH keep Some None p
        by (auto simp: read_file_def good_files_def mark_lines_append)
    next
      case m: (Some ls)
      then have ex: "\<exists>l \<in> set (record_lines tx). P (cstr l)" using flag_first_None[of P c "record_lines tx"] by auto
      have "\<forall>l \<in> set ls. record_line l"
        using flag_first_lines[OF m, of record_line] good_lines[OF p(2)] record_line_flag assms(3,4) by simp
      then have ls: "record_lines (concat ls) = ls" "good_file (concat ls)"
        by (auto simp: record_lines_concat good_file_def)
      have r: "run_state (change_line P c (p # ps)) s = (True, s\<lparr>files := (files s)(p \<mapsto> concat ls)\<rparr>)"
        using Some m p(1) by (simp add: read_file_def)
      have "all_lines (\<lambda>a. if a = p then Some (concat ls) else files s a) ps = all_lines (files s) ps"
        using ps(3) by (intro all_lines_cong) auto
      moreover have "mark_lines P c (record_lines tx) = ls" using m by (simp add: mark_lines_def)
      moreover have "good_files (p # ps) (s\<lparr>files := (files s)(p \<mapsto> concat ls)\<rparr>)"
        using Cons.prems(1) ls(2) p(1) by (simp add: good_files_def)
      ultimately show ?thesis using Some ex ls(1) unfolding r by (auto simp: mark_lines_append)
    qed
  qed
qed

lemma run_delete_files:
  "run_state (delete_files P ps) s = ((), s\<lparr>files := (\<lambda>p. if p \<in> set ps
      \<and> \<not> (\<exists>l \<in> set (file_lines (files s p)). P (cstr l)) then None else files s p)\<rparr>)"
proof (induction ps arbitrary: s)
  case Nil
  show ?case by simp
next
  case (Cons p ps)
  show ?case
  proof (cases "files s p")
    case None
    then show ?thesis using Cons by (auto simp: read_file_def intro!: ecu_state.equality ext)
  next
    case (Some tx)
    then show ?thesis
      by (auto simp: read_file_def remove_file_def Cons intro!: ecu_state.equality ext)
  qed
qed

lemma run_acquire_time:
  "run_state acquire_time s = (case clock s of [] \<Rightarrow> (0, s) | x # xs \<Rightarrow> (x, s\<lparr>clock := xs\<rparr>))"
  by (simp add: acquire_time_def split: list.splits)

text \<open>A directory scan: only the trace and the existence of the directory change around it.\<close>

lemma run_in_dir:
  "dir_exists s d \<Longrightarrow> run_state (in_dir d r0 scan) s
     = (let (r, t) = run_state (scan (dir_paths d s)) (s\<lparr>trace := trace s @ [MutexTake]\<rparr>) in
        (r, t\<lparr>trace := trace t @ [MutexRelease]\<rparr>))"
  by (simp add: in_dir_def emit_def dir_paths_def Let_def split: prod.splits)

section \<open>Records\<close>

type_synonym rec = "string \<times> string \<times> char"

definition rflag :: "rec \<Rightarrow> char" where
  "rflag r = snd (snd r)"

lemma rflag_simp [simp]: "rflag (b, k, f) = f"
  by (simp add: rflag_def)

definition parse :: "nat \<Rightarrow> (string \<Rightarrow> string) \<Rightarrow> string \<Rightarrow> rec" where
  "parse off key l = (take (length l - off) l, key l, rec_flag l)"

definition records :: "(string \<Rightarrow> bool) \<Rightarrow> nat \<Rightarrow> (string \<Rightarrow> string) \<Rightarrow> string \<Rightarrow> ecu_state \<Rightarrow> rec list" where
  "records ok off key d s = map (parse off key) (filter ok (all_lines (files s) (dir_paths d s)))"

definition dir_ready :: "string \<Rightarrow> ecu_state \<Rightarrow> bool" where
  "dir_ready d s = (dir_exists s d \<and> distinct (dir_order s d) \<and> good_files (dir_paths d s) s)"

text \<open>The first record that is selected gets the flag.\<close>

fun mark :: "(rec \<Rightarrow> bool) \<Rightarrow> char \<Rightarrow> rec list \<Rightarrow> rec list" where
  "mark sel c [] = []"
| "mark sel c ((b, k, f) # rs) = (if sel (b, k, f) then (b, k, c) # rs else (b, k, f) # mark sel c rs)"

definition unfinished :: "rec \<Rightarrow> bool" where
  "unfinished r = (rflag r \<noteq> CHR ''0'')"

text \<open>What a scan leaves alone: the servers, the clock, what was sent.\<close>

definition quiet :: "ecu_state \<Rightarrow> ecu_state \<Rightarrow> bool" where
  "quiet s t = (server t = server s \<and> clock t = clock s \<and> sent (trace t) = sent (trace s)
     \<and> ema_connect t = ema_connect s \<and> ema_send t = ema_send s \<and> ema_recv t = ema_recv s \<and> ecu_id t = ecu_id s)"

lemma quiet_refl [simp]: "quiet s s"
  by (simp add: quiet_def)

lemma quiet_trans: "quiet s t \<Longrightarrow> quiet t u \<Longrightarrow> quiet s u"
  by (simp add: quiet_def)

locale layout =
  fixes ok :: "string \<Rightarrow> bool" and off :: nat and key :: "string \<Rightarrow> string"
  assumes ok_len: "ok l \<Longrightarrow> 18 < length l"
    and ok_flag: "ok l \<Longrightarrow> ok (l[length l - 2 := c])"
    and key_flag: "ok l \<Longrightarrow> key (l[length l - 2 := c]) = key l"
    and off_ge: "3 \<le> off"
begin

lemma parse_flag: "ok l \<Longrightarrow> parse off key (l[length l - 2 := c]) = (take (length l - off) l, key l, c)"
  using ok_len[of l] off_ge by (simp add: parse_def key_flag rec_flag_def from_end_def)

lemma find_records:
  "find (\<lambda>r. rflag r = c) (map (parse off key) (filter ok ls))
     = map_option (parse off key) (find (\<lambda>l. ok l \<and> rec_flag l = c) ls)"
  by (induction ls) (auto simp: parse_def)

lemma mark_records:
  "\<forall>l \<in> set ls. record_line l \<Longrightarrow>
   map (parse off key) (filter ok (mark_lines (\<lambda>l. ok l \<and> sel (parse off key l)) c ls))
     = mark sel c (map (parse off key) (filter ok ls))"
proof (induction ls)
  case Nil
  then show ?case by (simp add: mark_lines_def)
next
  case (Cons l ls)
  have "mark_lines P c (l # ls) = (if P (cstr l) then l[length l - 2 := c] # ls else l # mark_lines P c ls)" for P
    by (auto simp: mark_lines_def split: option.splits)
  then show ?case using Cons by (auto simp: ok_flag parse_flag) (auto simp: parse_def)
qed

text \<open>Setting a flag in the directory.\<close>

lemma dir_change:
  assumes "dir_ready d s" "flag_char c"
  shows "let t = exec (in_dir d False (change_line (\<lambda>l. ok l \<and> sel (parse off key l)) c)) s in
     result (in_dir d False (change_line (\<lambda>l. ok l \<and> sel (parse off key l)) c)) s
       = (\<exists>r \<in> set (records ok off key d s). sel r)
     \<and> records ok off key d t = mark sel c (records ok off key d s) \<and> dir_ready d t \<and> quiet s t"
proof -
  let ?P = "\<lambda>l. ok l \<and> sel (parse off key l)" and ?ps = "dir_paths d s"
  let ?s1 = "s\<lparr>trace := trace s @ [MutexTake]\<rparr>"
  have g: "good_files ?ps s" "good_files ?ps ?s1" "distinct ?ps" and e: "dir_exists s d"
    using assms(1) by (auto simp: dir_ready_def dir_paths_def good_files_def distinct_map inj_on_def)
  have lines: "record_line l" if "l \<in> set (all_lines (files s) ?ps)" for l
    using good_files_all[OF g(1) that] .
  obtain fs where t: "exec (change_line ?P c ?ps) ?s1 = ?s1\<lparr>files := fs\<rparr>" by (rule change_line_files) blast
  note ch = exec_change_line[OF g(2,3) assms(2), of ?P]
  have ex: "(\<exists>l \<in> set (all_lines (files s) ?ps). ?P (cstr l)) = (\<exists>r \<in> set (records ok off key d s). sel r)"
    using lines by (auto simp: records_def)
  have m: "map (parse off key) (filter ok (all_lines fs ?ps)) = mark sel c (records ok off key d s)"
    using ch t mark_records[of "all_lines (files s) ?ps" sel c] lines ok_len by (auto simp: records_def)
  show ?thesis
    using ch ok_len t ex m e assms(1)
    by (auto simp: run_in_dir Let_def case_prod_beta records_def dir_paths_def dir_ready_def good_files_def quiet_def)
qed

text \<open>The search finds the first record with the flag.\<close>

lemma dir_search:
  assumes "dir_ready d s" "\<And>l. P l = (ok l \<and> rec_flag l = c)"
  shows "let t = exec (in_dir d None (search_line2 P P2 P3)) s in
     (case result (in_dir d None (search_line2 P P2 P3)) s of
        None \<Rightarrow> find (\<lambda>r. rflag r = c) (records ok off key d s) = None
      | Some (b, _) \<Rightarrow> ok b \<and> record_line b
          \<and> find (\<lambda>r. rflag r = c) (records ok off key d s) = Some (parse off key b))
     \<and> records ok off key d t = records ok off key d s \<and> dir_ready d t \<and> quiet s t"
proof -
  let ?ps = "dir_paths d s" and ?s1 = "s\<lparr>trace := trace s @ [MutexTake]\<rparr>"
  have g: "good_files ?ps s" and e: "dir_exists s d" using assms(1) by (auto simp: dir_ready_def)
  have lines: "record_line l" if "l \<in> set (all_lines (files s) ?ps)" for l
    using good_files_all[OF g that] .
  obtain es where t: "exec (search_line2 P P2 P3 ?ps) ?s1 = ?s1\<lparr>trace := trace ?s1 @ es\<rparr>" "set es \<subseteq> {DelayMs 1000}"
    using run_search_first[of P P2 P3 ?ps ?s1] by blast
  have q: "sent es = []"
    using t(2) by (induction es) (auto simp: sent_def)
  have "find (\<lambda>l. P (cstr l)) (all_lines (files s) ?ps) = find (\<lambda>l. ok l \<and> rec_flag l = c) (all_lines (files s) ?ps)"
    using lines assms(2) by (intro find_cong) auto
  then have f: "map_option fst (result (search_line2 P P2 P3 ?ps) ?s1)
      = map_option cstr (find (\<lambda>l. ok l \<and> rec_flag l = c) (all_lines (files s) ?ps))"
    using run_search_first[of P P2 P3 ?ps ?s1] by simp
  have r: "case result (search_line2 P P2 P3 ?ps) ?s1 of
        None \<Rightarrow> find (\<lambda>r. rflag r = c) (records ok off key d s) = None
      | Some (b, _) \<Rightarrow> ok b \<and> record_line b
          \<and> find (\<lambda>r. rflag r = c) (records ok off key d s) = Some (parse off key b)"
  proof (cases "find (\<lambda>l. ok l \<and> rec_flag l = c) (all_lines (files s) ?ps)")
    case None
    then show ?thesis using f by (simp add: records_def find_records)
  next
    case (Some l)
    then have l: "record_line l" "ok l" using lines by (auto simp: find_Some_iff)
    then show ?thesis using f Some by (auto simp: records_def find_records split: option.splits)
  qed
  show ?thesis
    using r t q e assms(1)
    by (auto simp: run_in_dir Let_def case_prod_beta records_def dir_paths_def dir_ready_def good_files_def quiet_def)
qed

text \<open>Unlinking finished files.\<close>

lemma dir_delete:
  assumes "dir_ready d s" "\<And>l. P l = (ok l \<and> rec_flag l \<noteq> CHR ''0'')"
  shows "let t = exec (in_dir d () (delete_files P)) s in
     filter unfinished (records ok off key d t) = filter unfinished (records ok off key d s)
     \<and> set (records ok off key d t) \<subseteq> set (records ok off key d s) \<and> dir_ready d t \<and> quiet s t"
proof -
  let ?ps = "dir_paths d s"
  have g: "good_files ?ps s" and e: "dir_exists s d" using assms(1) by (auto simp: dir_ready_def)
  define fs where "fs = (\<lambda>p. if p \<in> set ?ps \<and> \<not> (\<exists>l \<in> set (file_lines (files s p)). P (cstr l)) then None else files s p)"
  have gone: "filter unfinished (map (parse off key) (filter ok (file_lines (fs p))))
      = filter unfinished (map (parse off key) (filter ok (file_lines (files s p))))
    \<and> set (file_lines (fs p)) \<subseteq> set (file_lines (files s p))" if "p \<in> set ?ps" for p
  proof -
    have "record_line l" if "l \<in> set (file_lines (files s p))" for l
      using good_files_all[OF g, of l] \<open>p \<in> set ?ps\<close> that by (auto simp: all_lines_def)
    then have "\<not> unfinished (parse off key l)"
      if "\<not> (\<exists>l \<in> set (file_lines (files s p)). P (cstr l))" "l \<in> set (file_lines (files s p))" "ok l" for l
      using that assms(2) by (auto simp: unfinished_def parse_def)
    then show ?thesis by (auto simp: fs_def filter_empty_conv)
  qed
  have "filter unfinished (map (parse off key) (filter ok (all_lines fs qs)))
      = filter unfinished (map (parse off key) (filter ok (all_lines (files s) qs)))
    \<and> set (all_lines fs qs) \<subseteq> set (all_lines (files s) qs)" if "set qs \<subseteq> set ?ps" for qs
    using that by (induction qs) (use gone in auto)
  note all = this[of ?ps]
  have "run_state (in_dir d () (delete_files P)) s = ((), s\<lparr>files := fs, trace := trace s @ [MutexTake, MutexRelease]\<rparr>)"
    using e by (simp add: run_in_dir run_delete_files fs_def cong: if_cong)
  moreover have "good_files ?ps (s\<lparr>files := fs\<rparr>)" using g by (auto simp: good_files_def fs_def)
  ultimately show ?thesis
    using all assms(1) by (auto simp: Let_def records_def dir_paths_def dir_ready_def good_files_def quiet_def)
qed

text \<open>When every record is done, so is every file that holds one, and all are unlinked.\<close>

lemma dir_delete_done:
  assumes "dir_ready d s" "\<And>l. P l = (ok l \<and> rec_flag l \<noteq> CHR ''0'')"
    "\<forall>r \<in> set (records ok off key d s). \<not> unfinished r"
  shows "records ok off key d (exec (in_dir d () (delete_files P)) s) = []"
proof -
  let ?ps = "dir_paths d s"
  have g: "good_files ?ps s" and e: "dir_exists s d" using assms(1) by (auto simp: dir_ready_def)
  have "\<not> P (cstr l)" if "l \<in> set (all_lines (files s) ?ps)" for l
    using that assms(2,3) good_files_all[OF g that] by (auto simp: records_def unfinished_def parse_def)
  then have none: "\<not> (\<exists>l \<in> set (file_lines (files s p)). P (cstr l))" if "p \<in> set ?ps" for p
    using that by (auto simp: all_lines_def)
  have "all_lines (\<lambda>p. if p \<in> set ?ps \<and> \<not> (\<exists>l \<in> set (file_lines (files s p)). P (cstr l)) then None else files s p) qs = []"
    if "set qs \<subseteq> set ?ps" for qs
    using that none by (induction qs) auto
  from this[of ?ps] show ?thesis
    using e by (simp add: run_in_dir run_delete_files records_def dir_paths_def cong: if_cong)
qed

end

end
