(* ===== verification/Record_Files.thy ===== *)
theory Record_Files
  imports Record_Spec
begin

text \<open>
  The interface of the record files that the upload loops use, \<open>record_store\<close>, its
  interpretation on the four directories of the unit, and what follows for them.
\<close>

section \<open>Marking a record\<close>

abbreviation rkey :: "rec \<Rightarrow> string" where
  "rkey r \<equiv> fst (snd r)"

abbreviation rbody :: "rec \<Rightarrow> string" where
  "rbody r \<equiv> fst r"

definition pending :: "char \<Rightarrow> rec list \<Rightarrow> rec list" where
  "pending c rs = filter (\<lambda>r. rflag r = c) rs"

lemma find_pending: "find (\<lambda>r. rflag r = c) rs = (case pending c rs of [] \<Rightarrow> None | r # _ \<Rightarrow> Some r)"
  by (induction rs) (auto simp: pending_def)

lemma mark_keys [simp]: "map rkey (mark sel c rs) = map rkey rs" "map rbody (mark sel c rs) = map rbody rs"
  by (induction sel c rs rule: mark.induct) auto

lemma mark_none: "(\<And>r. r \<in> set rs \<Longrightarrow> \<not> sel r) \<Longrightarrow> mark sel c rs = rs"
  by (induction sel c rs rule: mark.induct) auto

lemma mark_cong: "(\<And>r. r \<in> set rs \<Longrightarrow> sel r = sel' r) \<Longrightarrow> mark sel c rs = mark sel' c rs"
  by (induction sel c rs rule: mark.induct) auto

text \<open>When the record selected first is one of those waiting, one less waits.\<close>

lemma pending_mark:
  assumes "find sel rs = Some r" "rflag r = c" "c' \<noteq> c"
  shows "length (pending c rs) = Suc (length (pending c (mark sel c' rs)))"
  using assms by (induction sel c' rs rule: mark.induct) (auto simp: pending_def split: if_splits)

text \<open>With distinct keys, marking the first waiting record by its key takes it off the list.\<close>

lemma pending_mark_key:
  assumes "distinct (map rkey rs)" "pending c rs = r # rest" "c' \<noteq> c" "\<And>r'. r' \<in> set rs \<Longrightarrow> sel r' = (rkey r' = rkey r)"
  shows "pending c (mark sel c' rs) = rest"
  using assms
proof (induction sel c' rs rule: mark.induct)
  case (2 sel c' b k f rs)
  show ?case
  proof (cases "f = c")
    case True
    then have "r = (b, k, f)" "rest = pending c rs" using "2.prems"(2) by (auto simp: pending_def)
    then show ?thesis using "2.prems" True by (simp add: pending_def)
  next
    case False
    then have p: "pending c rs = r # rest" using "2.prems"(2) by (simp add: pending_def)
    then have "r \<in> set (pending c rs)" by simp
    then have "r \<in> set rs" by (simp add: pending_def)
    then have "k \<noteq> rkey r" using "2.prems"(1) by force
    then have "\<not> sel (b, k, f)" using "2.prems"(4) by simp
    moreover from this have "pending c (mark sel c' rs) = rest"
      using "2.IH" "2.prems" p by simp
    ultimately show ?thesis using False by (simp add: pending_def)
  qed
qed (simp add: pending_def)

text \<open>So does marking by a condition that only records with that flag satisfy.\<close>

lemma pending_mark_first:
  assumes "pending c rs = r # rest" "c' \<noteq> c" "sel r" "\<And>r'. sel r' \<Longrightarrow> rflag r' = c"
  shows "pending c (mark sel c' rs) = rest"
  using assms by (induction sel c' rs rule: mark.induct) (auto simp: pending_def split: if_splits)

lemma pending_mark_le: "c' \<noteq> c \<Longrightarrow> length (pending c (mark sel c' rs)) \<le> length (pending c rs)"
  by (induction sel c' rs rule: mark.induct) (auto simp: pending_def)

lemma pending_mark_other:
  "c' \<noteq> c \<Longrightarrow> (\<And>r. r \<in> set (pending c rs) \<Longrightarrow> \<not> sel r) \<Longrightarrow> pending c (mark sel c' rs) = pending c rs"
  by (induction sel c' rs rule: mark.induct) (auto simp: pending_def split: if_splits)

section \<open>The interface\<close>

locale record_store =
  fixes recs :: "ecu_state \<Rightarrow> rec list"
    and ready :: "ecu_state \<Rightarrow> bool"
    and search :: "char \<Rightarrow> (bool \<times> string \<times> string \<times> bool) ecu"
    and change :: "string \<Rightarrow> char \<Rightarrow> int ecu"
    and delete :: "unit ecu"
    and matches :: "string \<Rightarrow> string \<Rightarrow> bool"
    and guard :: "rec \<Rightarrow> bool"
  assumes search_found: "ready s \<Longrightarrow> (case pending c (recs s) of
        [] \<Rightarrow> \<not> fst (result (search c) s)
      | r # _ \<Rightarrow> (\<exists>d m. result (search c) s = (True, d, rkey r, m) \<and> cstr d = rbody r @ [NL]))"
    and search_keeps: "ready s \<Longrightarrow>
      recs (exec (search c) s) = recs s \<and> ready (exec (search c) s) \<and> quiet s (exec (search c) s)"
    and change_marks: "ready s \<Longrightarrow> flag_char c \<Longrightarrow>
      result (change k c) s = (if \<exists>r \<in> set (recs s). matches k (rkey r) \<and> guard r then 1 else 0)
      \<and> recs (exec (change k c) s) = mark (\<lambda>r. matches k (rkey r) \<and> guard r) c (recs s)
      \<and> ready (exec (change k c) s) \<and> quiet s (exec (change k c) s)"
    and delete_finished: "ready s \<Longrightarrow>
      filter unfinished (recs (exec delete s)) = filter unfinished (recs s)
      \<and> set (recs (exec delete s)) \<subseteq> set (recs s) \<and> ready (exec delete s) \<and> quiet s (exec delete s)"
    and matches_key: "ready s \<Longrightarrow> r \<in> set (recs s) \<Longrightarrow> r' \<in> set (recs s)
      \<Longrightarrow> matches (rkey r) (rkey r') = (rkey r' = rkey r)"
begin

text \<open>Nothing that still waits is lost by deleting.\<close>

lemma delete_pending:
  assumes "ready s" "c \<noteq> CHR ''0''"
  shows "pending c (recs (exec delete s)) = pending c (recs s)"
proof -
  have "pending c rs = pending c (filter unfinished rs)" for rs
    using assms(2) by (auto simp: pending_def unfinished_def intro!: filter_cong)
  then show ?thesis using delete_finished[OF assms(1)] by metis
qed

text \<open>Several attempts at setting a flag do what one does: a failed one found no record.\<close>

lemma retry_change:
  assumes "ready s" "flag_char c"
  shows "let t = exec (retry (Suc n) (change k c)) s in
     recs t = mark (\<lambda>r. matches k (rkey r) \<and> guard r) c (recs s) \<and> ready t \<and> quiet s t"
  using assms(1)
proof (induction n arbitrary: s)
  case 0
  then show ?case using change_marks[OF 0 assms(2), of k] by (simp add: exec_bind Let_def del: run_state_bind)
next
  case (Suc n)
  let ?t = "exec (change k c) s" and ?m = "mark (\<lambda>r. matches k (rkey r) \<and> guard r) c"
  note ch = change_marks[OF Suc.prems assms(2), of k]
  show ?case
  proof (cases "\<exists>r \<in> set (recs s). matches k (rkey r) \<and> guard r")
    case True
    then show ?thesis using ch by (simp add: exec_bind Let_def del: run_state_bind)
  next
    case False
    then have "?m (recs s) = recs s" by (intro mark_none) auto
    moreover have "exec (retry (Suc (Suc n)) (change k c)) s = exec (retry (Suc n) (change k c)) ?t"
      using ch False by (simp add: exec_bind del: run_state_bind)
    ultimately show ?thesis using Suc.IH[of ?t] ch by (auto simp: Let_def intro: quiet_trans)
  qed
qed

text \<open>The record found first, once marked, does not wait any more.\<close>

lemma found_marked:
  assumes "ready s" "distinct (map rkey (recs s))" "pending c (recs s) = r # rest" "flag_char c'" "c' \<noteq> c"
    "\<And>r. rflag r = c \<Longrightarrow> guard r" "\<And>r'. r' \<in> set (recs s) \<Longrightarrow> rkey r' = rkey r \<Longrightarrow> guard r'"
  shows "result (change (rkey r) c') s = 1 \<and> pending c (recs (exec (change (rkey r) c') s)) = rest"
proof -
  have "r \<in> set (pending c (recs s))" using assms(3) by simp
  then have r: "r \<in> set (recs s)" "rflag r = c" by (auto simp: pending_def)
  have sel: "(matches (rkey r) (rkey r') \<and> guard r') = (rkey r' = rkey r)" if "r' \<in> set (recs s)" for r'
    using that matches_key[OF assms(1) r(1) that] assms(7) by blast
  have "\<exists>r' \<in> set (recs s). matches (rkey r) (rkey r') \<and> guard r'" using r(1) sel by blast
  then show ?thesis
    using change_marks[OF assms(1,4), of "rkey r"] pending_mark_key[OF assms(2,3,5) sel] by simp
qed

end

section \<open>The directories provide it\<close>

lemma flag_update:
  assumes "18 < length l"
  shows "2 < k \<Longrightarrow> k \<le> length l \<Longrightarrow> from_end (l[length l - 2 := c]) k = from_end l k"
    "k - m \<ge> 3 \<Longrightarrow> k \<le> length l \<Longrightarrow> take m (drop (length l - k) (l[length l - 2 := c])) = take m (drop (length l - k) l)"
  using assms by (auto simp: from_end_def drop_update_swap)

interpretation ltimed: layout timed 18 rec_time
  by unfold_locales (auto simp: timed_def rec_time_def flag_update)

interpretation litem: layout item_line 7 rec_item
  by unfold_locales (auto simp: item_line_def rec_item_def flag_update)

interpretation linv: layout inv_item_line 20 rec_item
  by unfold_locales (auto simp: inv_item_line_def item_line_def rec_item_def flag_update)

text \<open>A found line, copied into a cleared buffer.\<close>

lemma cstr_copy_body: "record_line b \<Longrightarrow> cstr (copy_body k b []) = take (length b - k) b @ [NL]"
proof -
  assume "record_line b"
  then have b: "no_nul b" by (simp add: record_line_def is_line_no_nul)
  then have "no_nul (take (length b - k) b)" by (auto simp: no_nul_def dest: in_set_takeD)
  then have "no_nul (take (length b - k) b @ [NL])" by (simp add: no_nul_def)
  moreover have "drop n (cleared4 []) = [] \<or> hd (drop n (cleared4 [])) = NUL" for n
    by (cases "n < 4") (auto simp: cleared4_def overlay_def)
  ultimately show ?thesis unfolding copy_body_def overlay_def by (rule cstr_zeros)
qed

lemma found_record_None [simp]: "found_record k key data time None = (False, cleared4 data, time, False)"
  by (simp add: found_record_def)

context layout
begin

lemma stores:
  assumes search: "\<And>c. search c = do {
      r \<leftarrow> in_dir d None (search_line2 (\<lambda>l. ok l \<and> rec_flag l = c) (P2 c) (P3 c));
      ret (found_record off key [] [] r) }"
    and change: "\<And>k c. change k c = do {
      r \<leftarrow> in_dir d False (change_line (\<lambda>l. ok l \<and> matches k (rkey (parse off key l)) \<and> guard (parse off key l)) c);
      ret (if r then 1 else 0) }"
    and delete: "delete = in_dir d () (delete_files (\<lambda>l. ok l \<and> rec_flag l \<noteq> CHR ''0''))"
    and matches: "\<And>l l'. ok l \<Longrightarrow> record_line l \<Longrightarrow> ok l' \<Longrightarrow> record_line l'
      \<Longrightarrow> matches (key l) (key l') = (key l' = key l)"
  shows "record_store (records ok off key d) (dir_ready d) search change delete matches guard"
proof unfold_locales
  fix s c
  assume s: "dir_ready d s"
  note sr = dir_search[OF s, where c = c and ?P2.0 = "P2 c" and ?P3.0 = "P3 c", OF refl, unfolded Let_def]
  show "case pending c (records ok off key d s) of
        [] \<Rightarrow> \<not> fst (result (search c) s)
      | r # _ \<Rightarrow> (\<exists>d m. result (search c) s = (True, d, rkey r, m) \<and> cstr d = rbody r @ [NL])"
    using sr
    by (cases "result (in_dir d None (search_line2 (\<lambda>l. ok l \<and> rec_flag l = c) (P2 c) (P3 c))) s")
      (auto simp: search found_record_def find_pending parse_def cstr_copy_body overlay_def result_bind
        split: list.splits simp del: run_state_bind)
  show "records ok off key d (exec (search c) s) = records ok off key d s \<and> dir_ready d (exec (search c) s)
      \<and> quiet s (exec (search c) s)"
    using sr by (simp add: search exec_bind del: run_state_bind)
next
  fix s k c
  assume s: "dir_ready d s" and c: "flag_char c"
  show "result (change k c) s = (if \<exists>r \<in> set (records ok off key d s). matches k (rkey r) \<and> guard r then 1 else 0)
      \<and> records ok off key d (exec (change k c) s) = mark (\<lambda>r. matches k (rkey r) \<and> guard r) c (records ok off key d s)
      \<and> dir_ready d (exec (change k c) s) \<and> quiet s (exec (change k c) s)"
    using dir_change[OF s c, of "\<lambda>r. matches k (rkey r) \<and> guard r", unfolded Let_def]
    by (simp add: change exec_bind result_bind del: run_state_bind)
next
  fix s
  assume s: "dir_ready d s"
  show "filter unfinished (records ok off key d (exec delete s)) = filter unfinished (records ok off key d s)
      \<and> set (records ok off key d (exec delete s)) \<subseteq> set (records ok off key d s)
      \<and> dir_ready d (exec delete s) \<and> quiet s (exec delete s)"
    using dir_delete[OF s refl, unfolded Let_def] by (simp add: delete)
next
  fix s r r'
  assume s: "dir_ready d s" and "r \<in> set (records ok off key d s)" "r' \<in> set (records ok off key d s)"
  then obtain l l' where "r = parse off key l" "ok l" "record_line l" "r' = parse off key l'" "ok l'" "record_line l'"
    using good_files_all[of "dir_paths d s" s] by (auto simp: records_def dir_ready_def)
  then show "matches (rkey r) (rkey r') = (rkey r' = rkey r)" using matches by (auto simp: parse_def)
qed

end

lemma memeq_key: "length k = n \<Longrightarrow> no_nul k \<Longrightarrow> length k' = n \<Longrightarrow> memeq k' k n = (k' = k)"
  using memeq_prefix[of k n k'] by simp

lemma memeq_sym: "memeq a b n = memeq b a n"
  by (auto simp: memeq_def)

lemma record_part_no_nul: "record_line l \<Longrightarrow> no_nul (take m (drop n l))"
proof -
  assume "record_line l"
  then have "no_nul l" by (simp add: record_line_def is_line_no_nul)
  then show ?thesis by (auto simp: no_nul_def dest: in_set_takeD in_set_dropD)
qed

lemma rec_time_key: "timed l \<Longrightarrow> record_line l \<Longrightarrow> length (rec_time l) = 14 \<and> no_nul (rec_time l)"
  by (auto simp: timed_def rec_time_def record_part_no_nul)

lemma rec_item_key: "item_line l \<Longrightarrow> record_line l \<Longrightarrow> length (rec_item l) = 3 \<and> no_nul (rec_item l)"
  by (auto simp: item_line_def rec_item_def record_part_no_nul)

text \<open>An item is compared over four characters, its terminator included.\<close>

lemma memeq_item: "length k = 3 \<Longrightarrow> length k' = 3 \<Longrightarrow> memeq k k' 4 = (k' = k)"
  by (auto simp: memeq_def zext_def numeral_nat)

abbreviation data_records :: "ecu_state \<Rightarrow> rec list" where
  "data_records \<equiv> records timed 18 rec_time dir_data"

abbreviation status_records :: "ecu_state \<Rightarrow> rec list" where
  "status_records \<equiv> records timed 18 rec_time dir_inversta"

abbreviation result_records :: "ecu_state \<Rightarrow> rec list" where
  "result_records \<equiv> records item_line 7 rec_item dir_proc_res"

abbreviation inv_result_records :: "ecu_state \<Rightarrow> rec list" where
  "inv_result_records \<equiv> records inv_item_line 20 rec_item dir_iprocres"

text \<open>The search for a result of an inverter, without its id.\<close>

definition search_inv_result :: "char \<Rightarrow> (bool \<times> string \<times> string \<times> bool) ecu" where
  "search_inv_result c = do {
     r \<leftarrow> search_inv_pro_result_flag [] [] [] c;
     ret (case r of (fnd, d, k, i, m) \<Rightarrow> (fnd, d, k, m)) }"

lemma search_inv_result_alt:
  "search_inv_result c = do {
     r \<leftarrow> in_dir dir_iprocres None (search_line2 (\<lambda>l. inv_item_line l \<and> rec_flag l = c)
       (\<lambda>l. timed l \<and> rec_flag l = c) (\<lambda>l. inv_item_line l \<and> rec_flag l = c));
     ret (found_record 20 rec_item [] [] r) }"
  unfolding search_inv_result_def search_inv_pro_result_flag_def Let_def
  by (simp, intro arg_cong2[where f = State_Monad.bind] ext refl) (auto simp: found_record_def split: option.splits)

interpretation data: record_store data_records "dir_ready dir_data" "search_readflag [] []"
    change_resendflag delete_file_resendflag0 "\<lambda>t k. memeq t k 14" "\<lambda>_. True"
  by (rule ltimed.stores[where d = dir_data and ?P2.0 = "\<lambda>c l. timed l \<and> rec_flag l = c"
        and ?P3.0 = "\<lambda>c l. timed l \<and> rec_flag l = c"])
    (simp_all add: search_readflag_def change_resendflag_def delete_file_resendflag0_def Let_def parse_def
      rec_time_key memeq_key eq_commute)

interpretation status: record_store status_records "dir_ready dir_inversta" "search_statusflag [] []"
    change_statusflag delete_statusflag0 "\<lambda>t k. memeq t k 14" "\<lambda>_. True"
  by (rule ltimed.stores[where d = dir_inversta and ?P2.0 = "\<lambda>c l. timed l \<and> rec_flag l = c"
        and ?P3.0 = "\<lambda>c l. timed l \<and> rec_flag l = c"])
    (simp_all add: search_statusflag_def change_statusflag_def delete_statusflag0_def Let_def parse_def
      rec_time_key memeq_key eq_commute)

interpretation results: record_store result_records "dir_ready dir_proc_res" "search_pro_result_flag [] []"
    change_pro_result_flag delete_pro_result_flag0 "\<lambda>t k. memeq t k 4" "\<lambda>r. rflag r = CHR ''1''"
  by (rule litem.stores[where d = dir_proc_res and ?P2.0 = "\<lambda>c l. item_line l \<and> rec_flag l = c"
        and ?P3.0 = "\<lambda>c l. timed l \<and> rec_flag l = c"])
    (simp_all add: search_pro_result_flag_def change_pro_result_flag_def delete_pro_result_flag0_def Let_def
      parse_def rec_item_key memeq_item conj_commute)

interpretation inv_results: record_store inv_result_records "dir_ready dir_iprocres" search_inv_result
    change_inv_pro_result_flag delete_inv_pro_result_flag0 "\<lambda>t k. memeq t k 4" "\<lambda>r. rflag r = CHR ''1''"
  by (rule linv.stores[where d = dir_iprocres and ?P2.0 = "\<lambda>c l. timed l \<and> rec_flag l = c"
        and ?P3.0 = "\<lambda>c l. inv_item_line l \<and> rec_flag l = c"])
    (simp_all add: search_inv_result_alt change_inv_pro_result_flag_def delete_inv_pro_result_flag0_def Let_def
      parse_def rec_item_key memeq_item conj_commute inv_item_line_def)

section \<open>Properties\<close>


text \<open>A directory with one file, for concrete cases.\<close>

definition one_file :: "string \<Rightarrow> string \<Rightarrow> string list \<Rightarrow> ecu_state" where
  "one_file d n ls = blank\<lparr>files := [d @ ''/'' @ n \<mapsto> concat ls], dir_order := (\<lambda>_. [n])\<rparr>"

lemma one_file_records:
  assumes "\<forall>l \<in> set ls. record_line l"
  shows "dir_ready d (one_file d n ls)"
    "records ok off key d (one_file d n ls) = map (parse off key) (filter ok ls)"
  using assms record_lines_concat[OF assms]
  by (auto simp: dir_ready_def one_file_def dir_paths_def good_files_def good_file_def records_def)

lemma short_records: "\<forall>l \<in> set ls. is_line l \<and> length l \<le> 99 \<Longrightarrow> \<forall>l \<in> set ls. record_line l"
  by (auto simp: record_line_def)

definition sample_lines :: "string list" where
  "sample_lines = [[NL], ''AB,20170908080000,2'' @ [NL], [NL], ''CDE,20170908080500,1'' @ [NL]]"

definition sample :: ecu_state where
  "sample = one_file dir_data ''20170908.DAT'' sample_lines"

lemma sample_records:
  "dir_ready dir_data sample"
  "data_records sample = [(''AB'', ''20170908080000'', CHR ''2''), (''CDE'', ''20170908080500'', CHR ''1'')]"
proof -
  have "\<forall>l \<in> set sample_lines. is_line l \<and> length l \<le> 99" by code_simp
  then have ls: "\<forall>l \<in> set sample_lines. record_line l" by (rule short_records)
  show "dir_ready dir_data sample" unfolding sample_def using ls by (rule one_file_records)
  have "map (parse 18 rec_time) (filter timed sample_lines)
    = [(''AB'', ''20170908080000'', CHR ''2''), (''CDE'', ''20170908080500'', CHR ''1'')]"
    by code_simp
  then show "data_records sample = [(''AB'', ''20170908080000'', CHR ''2''), (''CDE'', ''20170908080500'', CHR ''1'')]"
    unfolding sample_def one_file_records(2)[OF ls] .
qed

lemma sample_other: "d \<noteq> dir_data \<Longrightarrow> d @ ''/20170908.DAT'' \<noteq> dir_data @ ''/20170908.DAT'' \<Longrightarrow> dir_ready d sample"
  by (simp add: sample_def dir_ready_def one_file_def dir_paths_def good_files_def)




section \<open>Adding a record\<close>

text \<open>A text without line ends or terminators.\<close>

definition one_line :: "string \<Rightarrow> bool" where
  "one_line s = (NL \<notin> set s \<and> no_nul s)"

definition timed_line :: "string \<Rightarrow> string \<Rightarrow> char \<Rightarrow> string" where
  "timed_line b t c = b @ '','' @ t @ '','' @ [c] @ [NL]"

lemma parse_timed_line:
  assumes "length t = 14" "b \<noteq> []"
  shows "timed (timed_line b t c)" "parse 18 rec_time (timed_line b t c) = (b, t, c)"
proof -
  have l: "length (timed_line b t c) = length b + 18" using assms(1) by (simp add: timed_line_def)
  have "from_end (timed_line b t c) 18 = CHR '',''" "from_end (timed_line b t c) 3 = CHR '',''"
    "rec_flag (timed_line b t c) = c" "rec_time (timed_line b t c) = t"
    using assms(1) unfolding rec_flag_def from_end_def rec_time_def l
    by (simp_all add: timed_line_def nth_append)
  then show "timed (timed_line b t c)" "parse 18 rec_time (timed_line b t c) = (b, t, c)"
    using assms(2) l by (simp_all add: timed_def parse_def) (simp add: timed_line_def)
qed

lemma record_timed_line:
  assumes "one_line b" "one_line t" "flag_char c" "length b + length t + 4 \<le> 120 * 150 + 100 + 17"
  shows "record_line (timed_line b t c)"
proof -
  have "is_line (timed_line b t c)"
    unfolding is_line_def timed_line_def using assms(1-3)
    by (intro exI[of _ "b @ '','' @ t @ '','' @ [c]"]) (auto simp: one_line_def flag_char_def no_nul_def NL_def NUL_def)
  then show ?thesis using assms(4) by (simp add: record_line_def timed_line_def)
qed

text \<open>Appending to one file of the directory appends to the records of that file.\<close>

lemma all_lines_append:
  assumes "p \<in> set ps" "distinct ps" "file_lines f = file_lines (fs p) @ ls"
  obtains xs ys where "all_lines fs ps = xs @ ys" "all_lines (fs(p := f)) ps = xs @ ls @ ys"
proof -
  obtain as bs where ps: "ps = as @ p # bs" using assms(1) by (metis split_list)
  have "all_lines (fs(p := f)) qs = all_lines fs qs" if "p \<notin> set qs" for qs
    using that by (intro all_lines_cong) auto
  moreover have "all_lines gs (us @ vs) = all_lines gs us @ all_lines gs vs" for gs us vs
    by (simp add: all_lines_def)
  ultimately have "all_lines fs ps = (all_lines fs as @ file_lines (fs p)) @ all_lines fs bs"
    "all_lines (fs(p := f)) ps = (all_lines fs as @ file_lines (fs p)) @ ls @ all_lines fs bs"
    using assms(2,3) unfolding ps by (simp_all del: fun_upd_apply add: fun_upd_same)
  then show ?thesis using that by blast
qed

text \<open>
  What is saved is found. A measurement saved under its time is a record of the directory
  with that text, that time and the flag "to be sent", put among the others, which stay as
  they are and in their order; so the next search for records to be sent finds one. The text
  is not empty and fits the line buffer of the scans.
\<close>

lemma saved_record_waits:
  assumes "dir_ready dir_data s" "take 8 t @ ''.DAT'' \<in> set (dir_order s dir_data)"
    "can_write s (day_file dir_data t)" "length t = 14" "one_line t" "one_line b" "b \<noteq> []" "length b \<le> 18000"
  defines "u \<equiv> exec (save_record b t) s"
  shows "(\<exists>xs ys. data_records s = xs @ ys \<and> data_records u = xs @ (b, t, CHR ''1'') # ys)
    \<and> dir_ready dir_data u \<and> fst (result (search_readflag [] [] (CHR ''1'')) u)"
proof -
  let ?p = "day_file dir_data t" and ?ps = "dir_paths dir_data s" and ?l = "timed_line b t (CHR ''1'')"
  define f where "f = (case files s ?p of None \<Rightarrow> [] | Some old \<Rightarrow> old) @ [NL] @ ?l"
  have u: "u = s\<lparr>files := (files s)(?p \<mapsto> f), trace := trace s @ [MutexTake, MutexRelease]\<rparr>"
    using assms(3) by (simp add: u_def save_record_def append_file_def emit_def f_def timed_line_def split: option.splits)
  have p: "?p \<in> set ?ps" "distinct ?ps" and g: "good_files ?ps s"
    using assms(1,2) by (auto simp: dir_ready_def dir_paths_def day_file_def distinct_map inj_on_def)
  have l: "record_line ?l" "record_line [NL]"
    using record_timed_line[OF assms(6,5), of "CHR ''1''"] assms(4,8)
    by (auto simp: record_line_def is_line_def no_nul_def intro: exI[of _ "[]"])
  define ls where "ls = file_lines (files s ?p)"
  have ls: "file_lines (files s ?p) = ls" "\<forall>l \<in> set ls. record_line l" "f = concat (ls @ [[NL], ?l])"
  proof -
    have "(case files s ?p of None \<Rightarrow> [] | Some old \<Rightarrow> old) = concat ls \<and> (\<forall>l \<in> set ls. record_line l)"
      using g p(1) good_lines by (cases "files s ?p") (auto simp: ls_def good_files_def)
    then show "\<forall>l \<in> set ls. record_line l" "f = concat (ls @ [[NL], ?l])" by (simp_all add: f_def)
  qed (simp add: ls_def)
  have all: "\<forall>l \<in> set (ls @ [[NL], ?l]). record_line l" using ls(2) l by auto
  have f: "file_lines (Some f) = file_lines (files s ?p) @ [[NL], ?l]" "good_file f"
    using record_lines_concat[OF all] ls(1) all unfolding ls(3) file_lines_simps good_file_def by (simp only:, blast)
  obtain xs ys where xy: "all_lines (files s) ?ps = xs @ ys"
    "all_lines ((files s)(?p \<mapsto> f)) ?ps = xs @ [[NL], ?l] @ ys"
    using all_lines_append[where fs = "files s" and f = "Some f", OF p f(1)] by blast
  have "\<not> timed [NL]" by (simp add: timed_def)
  then have r: "data_records s = map (parse 18 rec_time) (filter timed xs) @ map (parse 18 rec_time) (filter timed ys)"
    "data_records u = map (parse 18 rec_time) (filter timed xs) @ (b, t, CHR ''1'') # map (parse 18 rec_time) (filter timed ys)"
    using xy parse_timed_line[OF assms(4,7)] by (simp_all add: records_def u dir_paths_def)
  have "good_files ?ps u" using g f(2) assms(3) by (auto simp: good_files_def u)
  then have ready: "dir_ready dir_data u" using assms(1) by (simp add: dir_ready_def u dir_paths_def)
  have "pending (CHR ''1'') (data_records u) \<noteq> []" by (simp add: r(2) pending_def)
  then have "fst (result (search_readflag [] [] (CHR ''1'')) u)"
    using data.search_found[OF ready, of "CHR ''1''"] by (auto split: list.splits)
  then show ?thesis using r ready by blast
qed

end
