(* ===== verification/Upload_Client.thy ===== *)
theory Upload_Client
  imports Record_Store Net_Exchange Ecu_Time
begin

text \<open>
  The upload client, \<open>ECU/client/src/client.c\<close>: records with flag 1 are sent to the server
  one by one; an accepted record gets flag 2, acknowledged ones flag 0. Between one and three
  in the morning the records that were never acknowledged are asked about and sent again.
\<close>

section \<open>Flags after a reply\<close>

text \<open>The times a reply acknowledges, when its count agrees with its length.\<close>

definition ack_times :: "string \<Rightarrow> string list" where
  "ack_times readbuff =
     (if 3 \<le> length readbuff \<and> acks_match readbuff
      then map (\<lambda>i. take 14 (drop (3 + i * 14) readbuff)) [0..<nat (ack_count readbuff)]
      else [])"

fun clear_each :: "string list \<Rightarrow> unit ecu" where
  "clear_each [] = ret ()"
| "clear_each (t # ts) = do { retry 3 (change_resendflag t (CHR ''0'')); clear_each ts }"

definition clear_send_flag :: "string \<Rightarrow> int ecu" where
  "clear_send_flag readbuff = do { clear_each (ack_times readbuff); ret 0 }"

definition update_send_flag :: "string \<Rightarrow> int ecu" where
  "update_send_flag send_date_time = do {
     retry 3 (do {
       r \<leftarrow> change_resendflag send_date_time (CHR ''2'');
       (if r = 1 then ret () else delay_ms 1000);
       ret r });
     ret 0 }"

section \<open>Sending\<close>

definition send_record :: "string \<Rightarrow> string \<Rightarrow> int ecu" where
  "send_record sendbuff send_date_time = do {
     (sendbytes, readbuff, readbytes) \<leftarrow> serverCommunication_Client sendbuff;
     if sendbytes = -1 then ret (-1)
     else if readbytes < 3 then ret (-1)
     else do {
       (if ch readbuff 0 = 49 then do { update_send_flag send_date_time; ret () } else ret ());
       clear_send_flag readbuff;
       ret 0 } }"

definition preprocess :: "int ecu" where
  "preprocess = do {
     r \<leftarrow> detection_resendflag2;
     if r = 0 then ret 0
     else do {
       i \<leftarrow> gets ecu_id;
       (sendbytes, readbuff, readbytes) \<leftarrow>
         serverCommunication_Client (cstr (''APS13AAA22'' @ zext 12 i) @ [NL]);
       if sendbytes = -1 then ret (-1)
       else if readbytes > 3 then do { clear_send_flag readbuff; ret 0 }
       else ret (-1) } }"

text \<open>
  The loops end when no record is found, or an exchange fails; the value \<open>None\<close> is a loop that
  never ends. \<open>data\<close> and \<open>time\<close> are the buffers of the caller, cleared after each record sent.
\<close>

partial_function (option) resend_loop :: "string \<Rightarrow> string \<Rightarrow> ecu_state \<Rightarrow> ecu_state option" where
  "resend_loop data time s =
     (case run_state (search_readflag data time (CHR ''2'')) s of ((found, data1, time1, another), s1) \<Rightarrow>
       if \<not> found then Some s1
       else (case run_state (send_record (cstr data1) time1) s1 of (res, s2) \<Rightarrow>
         if res = -1 then Some s2 else resend_loop [] [] s2))"

definition resend_record :: "ecu_state \<Rightarrow> ecu_state option" where
  "resend_record s = resend_loop [] [] s"

text \<open>
  The loop over the records to be sent: it also ends when five minutes have passed since the
  round began. The result is the last time read and the two buffers.
\<close>

partial_function (option) upload_loop :: "int \<Rightarrow> int \<Rightarrow> string \<Rightarrow> string \<Rightarrow> ecu_state
    \<Rightarrow> ((int \<times> string \<times> string) \<times> ecu_state) option" where
  "upload_loop lasttime thistime data time s =
     (case run_state (search_readflag data time (CHR ''1'')) s of ((found, data1, time1, another), s1) \<Rightarrow>
       if \<not> found then Some ((thistime, data1, time1), s1)
       else if compareTime thistime lasttime 300 then Some ((thistime, data1, time1), s1)
       else (case run_state (send_record (cstr data1) time1) s1 of (res, s2) \<Rightarrow>
         if res = -1 then Some ((thistime, data1, time1), s2)
         else (case run_state acquire_time s2 of (t, s3) \<Rightarrow> upload_loop lasttime t [] [] s3)))"

section \<open>One round of the thread\<close>

definition RT_TICK_PER_SECOND :: int where
  "RT_TICK_PER_SECOND = 100"

text \<open>The argument of \<open>rt_thread_delay\<close>, an unsigned 32-bit number of ticks.\<close>

definition pause_ticks :: "int \<Rightarrow> int \<Rightarrow> nat option" where
  "pause_ticks thistime lasttime =
     (if thistime < 300 \<and> lasttime > 300
      then if thistime + (24 * 60 * 60 + 1) - lasttime < 300
        then Some (nat ((300 - ((thistime + (24 * 60 * 60 + 1)) + lasttime) * RT_TICK_PER_SECOND) mod 2 ^ 32))
        else None
      else if thistime - lasttime < 300
        then Some (nat (((300 + lasttime - thistime) * RT_TICK_PER_SECOND) mod 2 ^ 32))
        else None)"

definition get_hour :: "int ecu" where
  "get_hour = gets (\<lambda>s. (ch (datetime s) 8 - 48) * 10 + (ch (datetime s) 9 - 48))"

definition night_round :: "ecu_state \<Rightarrow> ecu_state option" where
  "night_round s = (let (h, s1) = run_state get_hour s in
     if h = 2 \<or> h = 1
     then map_option (exec delete_file_resendflag0) (resend_record (exec preprocess s1))
     else Some s1)"

definition client_round :: "string \<Rightarrow> string \<Rightarrow> ecu_state \<Rightarrow> ((string \<times> string) \<times> ecu_state) option" where
  "client_round data time s = (let (lasttime, s1) = run_state acquire_time s in
     case night_round s1 of
       None \<Rightarrow> None
     | Some s2 \<Rightarrow> (case upload_loop lasttime lasttime data time s2 of
         None \<Rightarrow> None
       | Some ((thistime, data1, time1), s3) \<Rightarrow>
           Some ((data1, time1), exec (do {
             delete_file_resendflag0;
             (case pause_ticks thistime lasttime of
                None \<Rightarrow> ret ()
              | Some n \<Rightarrow> emit (DelayTicks n)) }) s3)))"

end
