(* ===== verification/Client_Spec.thy ===== *)
theory Client_Spec
  imports Upload_Client Record_Files
begin

text \<open>
  What the upload client achieves: each round ends, every record that waits is sent once and
  in order when the server accepts it, and what it does to the records.
\<close>

section \<open>One exchange\<close>

text \<open>What an exchange yields for a message.\<close>

definition outcome :: "exchange \<Rightarrow> string \<Rightarrow> int \<times> string \<times> nat" where
  "outcome e msg = (case e of
      NoSocket \<Rightarrow> (-1, [], REPLY_SIZE)
    | Wired n segs \<Rightarrow>
        if length (send_pieces msg) \<le> n then recv_reply [] (replicate REPLY_SIZE NUL) 0 REPLY_SIZE segs
        else (-1, [], REPLY_SIZE)
    | Wifi None \<Rightarrow> (-1, [], REPLY_SIZE)
    | Wifi (Some d) \<Rightarrow> (let (d', n) = wifi_socketb_format d in (0, cstr (take n d'), n)))"

text \<open>The exchange fails, or the reply is an acceptance.\<close>

definition fails :: "exchange \<Rightarrow> string \<Rightarrow> bool" where
  "fails e msg = (case outcome e msg of (r, _, n) \<Rightarrow> r = -1 \<or> n < 3)"

definition reply_of :: "exchange \<Rightarrow> string \<Rightarrow> string" where
  "reply_of e msg = fst (snd (outcome e msg))"

definition accepts :: "exchange \<Rightarrow> string \<Rightarrow> bool" where
  "accepts e msg = (\<not> fails e msg \<and> ch (reply_of e msg) 0 = 49)"

definition same_dirs :: "ecu_state \<Rightarrow> ecu_state \<Rightarrow> bool" where
  "same_dirs s t = (files t = files s \<and> can_write t = can_write s \<and> dir_exists t = dir_exists s
     \<and> dir_order t = dir_order s)"

lemma same_dirs_records [simp]:
  assumes "same_dirs s t"
  shows "records ok off key d t = records ok off key d s" "dir_ready d t = dir_ready d s"
  using assms by (simp_all add: same_dirs_def records_def dir_ready_def dir_paths_def good_files_def)

lemma exec_send_all:
  "result (send_all n ps) s = (length ps \<le> n)
   \<and> (length ps \<le> n \<longrightarrow> sent (trace (exec (send_all n ps) s)) = sent (trace s) @ concat ps)
   \<and> same_dirs s (exec (send_all n ps) s) \<and> clock (exec (send_all n ps) s) = clock s
   \<and> server (exec (send_all n ps) s) = server s"
  by (induction n ps arbitrary: s rule: send_all.induct) (auto simp: emit_def delay_ms_def same_dirs_def)

lemma exec_exchange:
  fixes s msg
  defines "t \<equiv> exec (serverCommunication_Client msg) s"
  shows "result (serverCommunication_Client msg) s = outcome (server s 0) msg
    \<and> same_dirs s t \<and> clock t = clock s \<and> server t = (\<lambda>n. server s (Suc n))
    \<and> (fst (outcome (server s 0) msg) \<noteq> -1 \<longrightarrow> sent (trace t) = sent (trace s) @ msg)"
proof (cases "server s 0")
  case NoSocket
  then show ?thesis
    by (simp add: t_def serverCommunication_Client_def next_exchange_def outcome_def same_dirs_def)
next
  case (Wired n segs)
  let ?s = "s\<lparr>server := \<lambda>n. server s (Suc n)\<rparr>"
  have "same_dirs ?s u = same_dirs s u" for u by (simp add: same_dirs_def)
  then show ?thesis using Wired exec_send_all[of n "send_pieces msg" ?s]
    by (simp add: t_def serverCommunication_Client_def next_exchange_def outcome_def exec_bind result_bind
        del: run_state_bind)
next
  case (Wifi r)
  then show ?thesis
    by (cases r) (simp_all add: t_def serverCommunication_Client_def next_exchange_def outcome_def same_dirs_def
        emit_def Let_def case_prod_beta)
qed

section \<open>Setting flags\<close>

abbreviation keyed_time :: "string \<Rightarrow> rec \<Rightarrow> bool" where
  "keyed_time t r \<equiv> memeq t (rkey r) 14"

lemma exec_clear_each:
  assumes "dir_ready dir_data s"
  shows "let t = exec (clear_each ts) s in
     data_records t = fold (\<lambda>t. mark (keyed_time t) (CHR ''0'')) ts (data_records s)
     \<and> dir_ready dir_data t \<and> quiet s t"
  using assms
proof (induction ts arbitrary: s)
  case Nil
  then show ?case by simp
next
  case (Cons t ts)
  let ?s = "exec (retry 3 (change_resendflag t (CHR ''0''))) s"
  have s: "data_records ?s = mark (keyed_time t) (CHR ''0'') (data_records s)" "dir_ready dir_data ?s" "quiet s ?s"
    using data.retry_change[OF Cons.prems, of "CHR ''0''" 2 t] by (simp_all add: Let_def numeral_3_eq_3)
  show ?case using Cons.IH[OF s(2)] s(1,3) by (auto simp: Let_def exec_bind intro: quiet_trans simp del: run_state_bind)
qed

text \<open>The record was just found, so the first attempt sets its flag.\<close>

lemma exec_update_send_flag:
  assumes "dir_ready dir_data s" "r \<in> set (data_records s)"
  shows "let t = exec (update_send_flag (rkey r)) s in
     data_records t = mark (keyed_time (rkey r)) (CHR ''2'') (data_records s) \<and> dir_ready dir_data t \<and> quiet s t"
proof -
  note ch = data.change_marks[OF assms(1), of "CHR ''2''" "rkey r"]
  have "\<exists>r' \<in> set (data_records s). keyed_time (rkey r) r'" using assms(2) by (intro bexI[of _ r]) simp_all
  then have "result (change_resendflag (rkey r) (CHR ''2'')) s = 1" using ch by simp
  then have "exec (update_send_flag (rkey r)) s = exec (change_resendflag (rkey r) (CHR ''2'')) s"
    by (simp add: update_send_flag_def exec_bind result_bind numeral_3_eq_3 del: run_state_bind)
  then show ?thesis using ch by simp
qed

text \<open>Sending the record: what becomes of it, and of the acknowledged ones.\<close>

lemma send_record_fails:
  "fails (server s 0) msg \<Longrightarrow> result (send_record msg t) s = -1"
  using exec_exchange[of msg s]
  by (auto simp: send_record_def result_bind exec_bind fails_def split: prod.splits simp del: run_state_bind)

lemma send_record_accepted:
  assumes "dir_ready dir_data s" "r \<in> set (data_records s)" "accepts (server s 0) msg"
  shows "let t = exec (send_record msg (rkey r)) s in
     result (send_record msg (rkey r)) s = 0
     \<and> data_records t = fold (\<lambda>t. mark (keyed_time t) (CHR ''0'')) (ack_times (reply_of (server s 0) msg))
         (mark (keyed_time (rkey r)) (CHR ''2'') (data_records s))
     \<and> dir_ready dir_data t \<and> clock t = clock s \<and> server t = (\<lambda>n. server s (Suc n))
     \<and> sent (trace t) = sent (trace s) @ msg"
proof -
  obtain sb rb n where o: "outcome (server s 0) msg = (sb, rb, n)" by (metis prod_cases3)
  have a: "sb \<noteq> -1" "\<not> n < 3" "ch rb 0 = 49" "reply_of (server s 0) msg = rb"
    using assms(3) o by (auto simp: accepts_def fails_def reply_of_def)
  let ?s1 = "exec (serverCommunication_Client msg) s"
  have s1: "result (serverCommunication_Client msg) s = (sb, rb, n)" "data_records ?s1 = data_records s"
    "dir_ready dir_data ?s1" "clock ?s1 = clock s" "server ?s1 = (\<lambda>n. server s (Suc n))"
    "sent (trace ?s1) = sent (trace s) @ msg"
    using exec_exchange[of msg s] o a(1) assms(1) by auto
  let ?s2 = "exec (update_send_flag (rkey r)) ?s1"
  have s2: "data_records ?s2 = mark (keyed_time (rkey r)) (CHR ''2'') (data_records s)"
    "dir_ready dir_data ?s2" "quiet ?s1 ?s2"
    using exec_update_send_flag[OF s1(3), of r] s1(2) assms(2) by (simp_all add: Let_def)
  note s3 = exec_clear_each[OF s2(2), of "ack_times rb", unfolded Let_def]
  have "run_state (send_record msg (rkey r)) s = (0, exec (clear_each (ack_times rb)) ?s2)"
    using s1(1) a by (intro prod_eqI)
      (simp_all add: send_record_def clear_send_flag_def result_bind exec_bind del: run_state_bind)
  then show ?thesis
    using s1 s2 s3 a(4) by (simp add: Let_def quiet_def)
qed

section \<open>The upload loop\<close>

text \<open>One iteration: no record, or a record whose exchange fails or is accepted.\<close>

lemma found_none:
  assumes "dir_ready dir_data s" "pending c (data_records s) = []"
  shows "\<not> fst (result (search_readflag [] [] c) s)"
  using data.search_found[OF assms(1), of c] assms(2) by simp

lemma found_some:
  assumes "dir_ready dir_data s" "pending c (data_records s) = r # rest"
  obtains d m where "run_state (search_readflag [] [] c) s = ((True, d, rkey r, m), exec (search_readflag [] [] c) s)"
    "cstr d = rbody r @ [NL]" "r \<in> set (data_records s)"
proof -
  have "r \<in> set (pending c (data_records s))" using assms(2) by simp
  then have "r \<in> set (data_records s)" by (simp add: pending_def)
  moreover obtain d m where "result (search_readflag [] [] c) s = (True, d, rkey r, m)" "cstr d = rbody r @ [NL]"
    using data.search_found[OF assms(1), of c] assms(2) by auto
  ultimately show ?thesis using that by (metis prod.collapse)
qed

text \<open>
  The records after the first waiting one was sent and accepted: it does not wait any more, nor
  do acknowledged ones.
\<close>

lemma pending_fold_le:
  "c \<noteq> CHR ''0'' \<Longrightarrow> length (pending c (fold (\<lambda>t. mark (sel t) (CHR ''0'')) ts rs)) \<le> length (pending c rs)"
proof (induction ts arbitrary: rs)
  case (Cons t ts)
  have "length (pending c (mark (sel t) (CHR ''0'') rs)) \<le> length (pending c rs)"
    using Cons.prems by (intro pending_mark_le) simp
  then show ?case using Cons.IH[OF Cons.prems, of "mark (sel t) (CHR ''0'') rs"] by simp
qed simp

lemma pending_fold_other:
  "c \<noteq> CHR ''0'' \<Longrightarrow> (\<And>t r. t \<in> set ts \<Longrightarrow> r \<in> set (pending c rs) \<Longrightarrow> \<not> sel t r)
   \<Longrightarrow> pending c (fold (\<lambda>t. mark (sel t) (CHR ''0'')) ts rs) = pending c rs"
proof (induction ts arbitrary: rs)
  case (Cons t ts)
  then have "pending c (mark (sel t) (CHR ''0'') rs) = pending c rs" by (intro pending_mark_other) auto
  moreover from this have "pending c (fold (\<lambda>t. mark (sel t) (CHR ''0'')) ts (mark (sel t) (CHR ''0'') rs))
      = pending c (mark (sel t) (CHR ''0'') rs)"
    using Cons.prems by (intro Cons.IH) auto
  ultimately show ?case by simp
qed simp

lemma fold_mark_keys: "map rkey (fold (\<lambda>t. mark (sel t) c) ts rs) = map rkey rs"
  by (induction ts arbitrary: rs) auto

lemma send_first:
  assumes "dir_ready dir_data s" "distinct (map rkey (data_records s))" "pending (CHR ''1'') (data_records s) = r # rest"
    "accepts (server s 0) msg"
  defines "t \<equiv> exec (send_record msg (rkey r)) s"
  shows "length (pending (CHR ''1'') (data_records t)) \<le> length rest"
    "(\<And>a r'. a \<in> set (ack_times (reply_of (server s 0) msg)) \<Longrightarrow> r' \<in> set rest \<Longrightarrow> \<not> keyed_time a r')
      \<Longrightarrow> pending (CHR ''1'') (data_records t) = rest"
    "map rkey (data_records t) = map rkey (data_records s)"
proof -
  have "r \<in> set (pending (CHR ''1'') (data_records s))" using assms(3) by simp
  then have r: "r \<in> set (data_records s)" by (simp add: pending_def)
  have t: "data_records t = fold (\<lambda>t. mark (keyed_time t) (CHR ''0'')) (ack_times (reply_of (server s 0) msg))
         (mark (keyed_time (rkey r)) (CHR ''2'') (data_records s))"
    using send_record_accepted[OF assms(1) r assms(4)] by (simp add: Let_def t_def)
  have sel: "keyed_time (rkey r) r' = (rkey r' = rkey r)" if "r' \<in> set (data_records s)" for r'
    using data.matches_key[OF assms(1) r that] .
  have m: "pending (CHR ''1'') (mark (keyed_time (rkey r)) (CHR ''2'') (data_records s)) = rest"
    using pending_mark_key[OF assms(2,3) _ sel] by simp
  show "length (pending (CHR ''1'') (data_records t)) \<le> length rest"
    unfolding t m[symmetric] by (rule pending_fold_le) simp
  show "pending (CHR ''1'') (data_records t) = rest"
    if "\<And>a r'. a \<in> set (ack_times (reply_of (server s 0) msg)) \<Longrightarrow> r' \<in> set rest \<Longrightarrow> \<not> keyed_time a r'"
    unfolding t using that m by (subst pending_fold_other) auto
  show "map rkey (data_records t) = map rkey (data_records s)" by (simp add: t fold_mark_keys)
qed

text \<open>
  C3. The upload of a round always ends. When no two measurements have the same time, and
  every exchange either fails or brings an acceptance (whatever times it acknowledges, and
  whatever the clock says), the loop over the waiting records returns.
\<close>

theorem upload_terminates:
  assumes "dir_ready dir_data s" "distinct (map rkey (data_records s))"
    "\<forall>n msg. fails (server s n) msg \<or> accepts (server s n) msg"
  shows "\<exists>out. upload_loop lasttime thistime [] [] s = Some out"
  using assms
proof (induction "length (pending (CHR ''1'') (data_records s))" arbitrary: s thistime rule: less_induct)
  case less
  let ?s1 = "exec (search_readflag [] [] (CHR ''1'')) s"
  have s1: "data_records ?s1 = data_records s" "dir_ready dir_data ?s1" "server ?s1 = server s"
    using data.search_keeps[OF less.prems(1), of "CHR ''1''"] by (auto simp: quiet_def)
  show ?case
  proof (cases "pending (CHR ''1'') (data_records s)")
    case Nil
    then show ?thesis using found_none[OF less.prems(1) Nil]
      by (cases "run_state (search_readflag [] [] (CHR ''1'')) s") (auto simp: upload_loop.simps)
  next
    case (Cons r rest)
    obtain d m where f: "run_state (search_readflag [] [] (CHR ''1'')) s = ((True, d, rkey r, m), ?s1)"
      "cstr d = rbody r @ [NL]" "r \<in> set (data_records s)"
      using found_some[OF less.prems(1) Cons] by metis
    let ?msg = "rbody r @ [NL]"
    let ?s2 = "exec (send_record ?msg (rkey r)) ?s1"
    show ?thesis
    proof (cases "fails (server s 0) ?msg")
      case True
      then show ?thesis using f s1(3) send_record_fails[of ?s1 ?msg "rkey r"]
        by (subst upload_loop.simps) (auto split: prod.splits)
    next
      case False
      then have acc: "accepts (server ?s1 0) ?msg" using less.prems(3) s1(3) by auto
      let ?s3 = "exec acquire_time ?s2"
      have s3: "data_records ?s3 = data_records ?s2" "dir_ready dir_data ?s3 = dir_ready dir_data ?s2" "server ?s3 = server ?s2"
        by (auto simp: run_acquire_time records_def dir_paths_def dir_ready_def good_files_def split: list.splits)
      note sr = send_record_accepted[OF s1(2) _ acc, of r, unfolded Let_def]
      have p: "pending (CHR ''1'') (data_records ?s1) = r # rest" using Cons s1(1) by simp
      note first = send_first[OF s1(2) _ p acc]
      have dis: "distinct (map rkey (data_records ?s1))" using less.prems(2) s1(1) by simp
      have "\<exists>out. upload_loop lasttime t [] [] ?s3 = Some out" for t
        using first(1,3)[OF dis] sr f(3) s1 s3 less.prems(2,3) Cons by (intro less.hyps) auto
      then show ?thesis using f sr s1(1)
        by (subst upload_loop.simps) (auto split: prod.splits)
    qed
  qed
qed


text \<open>A server that accepts every record and acknowledges nothing.\<close>

abbreviation accepting :: "ecu_state \<Rightarrow> ecu_state" where
  "accepting s \<equiv> s\<lparr>server := (\<lambda>_. Wifi (Some ''100''))\<rparr>"

lemma accepting_outcome:
  "fails (Wifi (Some ''100'')) msg = False" "reply_of (Wifi (Some ''100'')) msg = ''100''"
  "accepts (Wifi (Some ''100'')) msg" "ack_times ''100'' = []"
proof -
  have "outcome (Wifi (Some ''100'')) msg = (0, ''100'', 3)"
    by (simp add: outcome_def wifi_socketb_format_def cstr_def NUL_def)
  then show "fails (Wifi (Some ''100'')) msg = False" "reply_of (Wifi (Some ''100'')) msg = ''100''"
    "accepts (Wifi (Some ''100'')) msg"
    by (simp_all add: fails_def reply_of_def accepts_def ch_def)
  show "ack_times ''100'' = []" by (simp add: ack_times_def acks_match_def ack_count_def ch_def)
qed

lemma accepting_records [simp]:
  "records ok off key d (accepting (s\<lparr>clock := ts\<rparr>)) = records ok off key d s"
  "dir_ready d (accepting (s\<lparr>clock := ts\<rparr>)) = dir_ready d s"
  by (simp_all add: records_def dir_ready_def dir_paths_def good_files_def)

theorem upload_terminates_witness:
  "\<exists>out. upload_loop 0 0 [] [] (accepting (sample\<lparr>clock := [5]\<rparr>)) = Some out"
  using upload_terminates[of "accepting (sample\<lparr>clock := [5]\<rparr>)" 0 0] sample_records
  by (simp add: accepting_outcome)


section \<open>Sending again what was not acknowledged\<close>

text \<open>Marking a record that has the flag already changes nothing.\<close>

lemma mark_same:
  assumes "distinct (map rkey rs)" "r \<in> set rs" "rflag r = c" "\<And>r'. r' \<in> set rs \<Longrightarrow> sel r' = (rkey r' = rkey r)"
  shows "mark sel c rs = rs"
  using assms
proof (induction sel c rs rule: mark.induct)
  case (2 sel c b k f rs)
  show ?case
  proof (cases "r = (b, k, f)")
    case True
    then show ?thesis using "2.prems"(3,4) by simp
  next
    case False
    then have r: "r \<in> set rs" using "2.prems"(2) by simp
    then have "k \<noteq> rkey r" using "2.prems"(1) by force
    then show ?thesis using "2.IH" "2.prems" r by simp
  qed
qed simp

text \<open>The state in which the loop stays.\<close>

definition unacked :: "string \<Rightarrow> string \<Rightarrow> ecu_state \<Rightarrow> bool" where
  "unacked data time s = (data = [] \<and> time = [] \<and> dir_ready dir_data s \<and> distinct (map rkey (data_records s))
     \<and> pending (CHR ''2'') (data_records s) \<noteq> []
     \<and> (\<forall>n msg. \<not> fails (server s n) msg \<and> reply_of (server s n) msg = ''100''))"

lemma unacked_step:
  assumes "unacked data time s"
  obtains d t m s1 where "run_state (search_readflag data time (CHR ''2'')) s = ((True, d, t, m), s1)"
    "result (send_record (cstr d) t) s1 = 0" "unacked [] [] (exec (send_record (cstr d) t) s1)"
proof -
  have data: "data = []" "time = []" and ready: "dir_ready dir_data s"
    and dis: "distinct (map rkey (data_records s))" and pend: "pending (CHR ''2'') (data_records s) \<noteq> []"
    and srv: "\<forall>n msg. \<not> fails (server s n) msg \<and> reply_of (server s n) msg = ''100''"
    using assms by (auto simp: unacked_def)
  obtain r rest where p: "pending (CHR ''2'') (data_records s) = r # rest"
    using pend by (cases "pending (CHR ''2'') (data_records s)") auto
  let ?s1 = "exec (search_readflag [] [] (CHR ''2'')) s" and ?msg = "rbody r @ [NL]"
  have s1: "data_records ?s1 = data_records s" "dir_ready dir_data ?s1" "server ?s1 = server s"
    using data.search_keeps[OF ready, of "CHR ''2''"] by (auto simp: quiet_def)
  obtain d m where f: "run_state (search_readflag [] [] (CHR ''2'')) s = ((True, d, rkey r, m), ?s1)"
    "cstr d = ?msg" "r \<in> set (data_records s)"
    using found_some[OF ready p] by metis
  have acc: "accepts (server ?s1 0) ?msg" using srv s1(3) by (simp add: accepts_def ch_def)
  have "r \<in> set (data_records ?s1)" using f(3) s1(1) by simp
  note sr = send_record_accepted[OF s1(2) this acc, unfolded Let_def]
  have "ack_times ''100'' = []" by (simp add: ack_times_def acks_match_def ack_count_def ch_def)
  moreover have "mark (keyed_time (rkey r)) (CHR ''2'') (data_records s) = data_records s"
  proof (rule mark_same[OF dis f(3)])
    have "r \<in> set (pending (CHR ''2'') (data_records s))" using p by simp
    then show "rflag r = CHR ''2''" by (simp add: pending_def)
  qed (rule data.matches_key[OF ready f(3)])
  ultimately have "unacked [] [] (exec (send_record ?msg (rkey r)) ?s1)" "result (send_record ?msg (rkey r)) ?s1 = 0"
    using sr s1 srv dis pend by (simp_all add: unacked_def)
  then show ?thesis using f data that by metis
qed

lemma unacked_loop: "resend_loop data time s = Some y \<Longrightarrow> \<not> unacked data time s"
proof (rule resend_loop.raw_induct[where P = "\<lambda>data time s y. \<not> unacked data time s"])
  fix loop data time s y
  assume IH: "\<And>data time s y. loop data time s = Some y \<Longrightarrow> \<not> unacked data time s"
    and body: "(case run_state (search_readflag data time (CHR ''2'')) s of ((found, data1, time1, another), s1) \<Rightarrow>
       if \<not> found then Some s1
       else (case run_state (send_record (cstr data1) time1) s1 of (res, s2) \<Rightarrow>
         if res = -1 then Some s2 else loop [] [] s2)) = Some y"
  show "\<not> unacked data time s"
  proof
    assume "unacked data time s"
    then obtain d t m s1 where st: "run_state (search_readflag data time (CHR ''2'')) s = ((True, d, t, m), s1)"
      "result (send_record (cstr d) t) s1 = 0" "unacked [] [] (exec (send_record (cstr d) t) s1)"
      by (rule unacked_step)
    have "loop [] [] (exec (send_record (cstr d) t) s1) = Some y"
      using body st(1,2) by (cases "run_state (send_record (cstr d) t) s1") simp
    then show False using IH st(3) by blast
  qed
qed

text \<open>
  C24. A server that accepts but does not acknowledge holds the client for ever. At night the
  records with flag 2 are sent again, and an accepted record gets flag 2, which it has: when
  one waits for its acknowledgement and every exchange brings the acceptance of nothing
  (\<open>100\<close>), the loop does not end, whatever the clock says.
\<close>

theorem resend_never_ends:
  assumes "dir_ready dir_data s" "distinct (map rkey (data_records s))"
    "pending (CHR ''2'') (data_records s) \<noteq> []"
    "\<forall>n msg. \<not> fails (server s n) msg \<and> reply_of (server s n) msg = ''100''"
  shows "resend_record s = None"
proof -
  have "unacked [] [] s" using assms by (simp add: unacked_def)
  then have "resend_loop [] [] s \<noteq> Some y" for y using unacked_loop by blast
  then show ?thesis by (cases "resend_loop [] [] s") (auto simp: resend_record_def)
qed

theorem resend_never_ends_witness: "resend_record (accepting (sample\<lparr>clock := []\<rparr>)) = None"
  using resend_never_ends[of "accepting (sample\<lparr>clock := []\<rparr>)"] sample_records
  by (simp add: accepting_outcome pending_def)

section \<open>The pause between rounds\<close>

text \<open>
  The pause of the thread. Within a day, a round that took less than five minutes is
  followed by exactly the rest of the five minutes, at most 30000 ticks, and a longer one by no
  pause. A round that ends after midnight within five minutes of its start asks for more ticks
  than \<open>rt_timer_start\<close> takes (half the range), more than eight months.
\<close>

lemma pause_bounds:
  assumes "0 \<le> lasttime" "lasttime < 86400" "0 \<le> thistime" "thistime < 86400"
  shows "(lasttime \<le> thistime \<longrightarrow> (case pause_ticks thistime lasttime of
        Some n \<Rightarrow> int n = (300 - (thistime - lasttime)) * 100 \<and> n \<le> 30000 \<and> thistime - lasttime < 300
      | None \<Rightarrow> 300 \<le> thistime - lasttime))
    \<and> (thistime < 300 \<and> 86100 < lasttime \<and> thistime + 86400 - lasttime < 299 \<longrightarrow>
        (\<exists>n. pause_ticks thistime lasttime = Some n \<and> 2 ^ 31 \<le> n))"
proof (intro conjI impI)
  assume "lasttime \<le> thistime"
  then show "case pause_ticks thistime lasttime of
        Some n \<Rightarrow> int n = (300 - (thistime - lasttime)) * 100 \<and> n \<le> 30000 \<and> thistime - lasttime < 300
      | None \<Rightarrow> 300 \<le> thistime - lasttime"
    using assms by (auto simp: pause_ticks_def RT_TICK_PER_SECOND_def)
next
  assume a: "thistime < 300 \<and> 86100 < lasttime \<and> thistime + 86400 - lasttime < 299"
  define x where "x = 300 - (thistime + (24 * 60 * 60 + 1) + lasttime) * 100"
  have "- (2 ^ 31) \<le> x" "x < 0" using a assms by (simp_all add: x_def)
  moreover have "(x + 2 ^ 32) mod 2 ^ 32 = x + 2 ^ 32"
    using calculation by (intro mod_pos_pos_trivial) simp_all
  ultimately have "x mod 2 ^ 32 = x + 2 ^ 32" by (simp only: mod_add_self2)
  then have "2 ^ 31 \<le> nat (x mod 2 ^ 32)" using \<open>- (2 ^ 31) \<le> x\<close> by simp
  then show "\<exists>n. pause_ticks thistime lasttime = Some n \<and> 2 ^ 31 \<le> n"
    using a by (simp add: pause_ticks_def RT_TICK_PER_SECOND_def x_def)
qed

end
