(* ===== verification/Power_Limit.thy ===== *)
theory Power_Limit
  imports Ema_Handlers Record_Store
begin

text \<open>
  Power limits, \<open>ECU/main/src/setpower.c\<close>: the file \<open>/home/data/power\<close> has a line
  \<open>id,limit,limit in the inverter,fixed,fixed in the inverter,flag\<close> per inverter; a line with
  flag 1 is a request, which the polling thread sends to the inverter, reads back, and
  answers with a result record.
\<close>

section \<open>The file\<close>

definition path_power_tmp :: string where
  "path_power_tmp = ''/HOME/DATA/_POWER''"

text \<open>
  \<open>memcmp(&linedata[strlen(linedata)-len-1], compareData, len)\<close>: what stands before the last
  character. For a line of at most \<open>len\<close> characters the code reads before its buffer; the
  model takes that as no match. The buffer of the caller is returned with the value.
\<close>

definition read_line_end :: "string \<Rightarrow> string \<Rightarrow> nat \<Rightarrow> (int \<times> string) ecu" where
  "read_line_end filename compareData len = do {
     fin \<leftarrow> read_file filename;
     (case fin of
        None \<Rightarrow> ret (-1, [])
      | Some txt \<Rightarrow>
          ret (case find (\<lambda>l. len + 1 \<le> length (cstr l)
                  \<and> memeq (drop (length (cstr l) - len - 1) (cstr l)) compareData len) (fgets_lines 99 txt) of
                 Some l \<Rightarrow> (1, l) | None \<Rightarrow> (-1, []))) }"

definition power_fields :: "nat \<Rightarrow> string list option ecu" where
  "power_fields i = do {
     v \<leftarrow> get_inv i;
     r \<leftarrow> read_line path_power (inv_id v) 12;
     ret (if fst r = 1 then Some (splitString (cstr (snd r))) else None) }"

text \<open>The two values are left as they are when the inverter has no line.\<close>

definition getpower :: "nat \<Rightarrow> int \<Rightarrow> int \<Rightarrow> (int \<times> int) ecu" where
  "getpower i limitedpower stationarypower = do {
     f \<leftarrow> power_fields i;
     ret (case f of None \<Rightarrow> (limitedpower, stationarypower)
        | Some fs \<Rightarrow> (atoi (fld fs 1), atoi (fld fs 3))) }"

definition get_maximum_power :: "nat \<Rightarrow> int ecu" where
  "get_maximum_power i = do {
     f \<leftarrow> power_fields i;
     ret (case f of None \<Rightarrow> -1 | Some fs \<Rightarrow> if atoi (fld fs 1) \<noteq> 0 then atoi (fld fs 1) else -1) }"

text \<open>Without a line the code returns an uninitialised variable, \<open>junk\<close> here.\<close>

definition get_fixed_power :: "int \<Rightarrow> nat \<Rightarrow> int ecu" where
  "get_fixed_power junk i = do {
     f \<leftarrow> power_fields i;
     ret (case f of None \<Rightarrow> junk | Some fs \<Rightarrow> atoi (fld fs 3)) }"

definition power_line :: "string \<Rightarrow> int \<Rightarrow> int \<Rightarrow> int \<Rightarrow> int \<Rightarrow> char \<Rightarrow> string" where
  "power_line i a b c d f = i @ '','' @ fmt_d a @ '','' @ fmt_d b @ '','' @ fmt_d c @ '','' @ fmt_d d
     @ '','' @ [f] @ [NL]"

text \<open>The line of the inverter is replaced by one made from its fields.\<close>

definition update_power :: "nat \<Rightarrow> (string list \<Rightarrow> string \<Rightarrow> string) \<Rightarrow> unit ecu" where
  "update_power i new = do {
     f \<leftarrow> power_fields i;
     (case f of
        None \<Rightarrow> ret ()
      | Some fs \<Rightarrow> do {
          v \<leftarrow> get_inv i;
          delete_line path_power path_power_tmp (inv_id v) 12;
          retry 3 (insert_line path_power (new fs (inv_id v)));
          ret () }) }"

definition updatemaxpower :: "nat \<Rightarrow> int \<Rightarrow> unit ecu" where
  "updatemaxpower i limitedresult = update_power i (\<lambda>fs k.
     power_line k limitedresult (atoi (fld fs 2)) (atoi (fld fs 3)) (atoi (fld fs 4)) (CHR ''0''))"

definition updatemaxflag :: "nat \<Rightarrow> unit ecu" where
  "updatemaxflag i = update_power i (\<lambda>fs k.
     power_line k (atoi (fld fs 1)) (atoi (fld fs 2)) (atoi (fld fs 3)) (atoi (fld fs 4)) (CHR ''0''))"

definition updatefixedpower :: "nat \<Rightarrow> int \<Rightarrow> unit ecu" where
  "updatefixedpower i stationaryresult = update_power i (\<lambda>fs k.
     power_line k (atoi (fld fs 1)) (atoi (fld fs 2)) (atoi (fld fs 3)) stationaryresult (CHR ''0''))"

definition updatefixedflag :: "nat \<Rightarrow> unit ecu" where
  "updatefixedflag i = update_power i (\<lambda>fs k.
     power_line k (atoi (fld fs 1)) (atoi (fld fs 2)) (atoi (fld fs 3)) (atoi (fld fs 4)) (CHR ''1''))"

section \<open>Commands to the inverter\<close>

text \<open>The panels of the system; an inverter of model 3 has two.\<close>

definition calcount :: "nat ecu" where
  "calcount = gets (\<lambda>s. sum_list (map (\<lambda>v. if model v = 3 then 2 else 1) (table (inverters s))))"

definition power_body :: "byte \<Rightarrow> byte \<Rightarrow> byte list" where
  "power_body cmd pw = [0xFB, 0xFB, 0x06, cmd, pw, 0, 0, 0, 0, 0, 0, 0xFE, 0xFE]"

text \<open>The sum of the bytes 2 to 8 goes to the bytes 9 and 10.\<close>

definition with_sum :: "byte list \<Rightarrow> byte list" where
  "with_sum b = (let check = sum_list (map uint (take 7 (drop 2 b))) in
     b[9 := hi8 check, 10 := lo8 check])"

definition power_reply :: "int \<times> byte list \<Rightarrow> int" where
  "power_reply r = (let d = snd r in
     if fst r = 13 \<and> d ! 0 = 0xFB \<and> d ! 1 = 0xFB \<and> d ! 11 = 0xFE \<and> d ! 12 = 0xFE
     then if d ! 3 = 0xDE then 1 else if d ! 3 = 0xDF then 2 else -1
     else -1)"

definition setfixedpowerone :: "nat \<Rightarrow> byte \<Rightarrow> int ecu" where
  "setfixedpowerone i pw = do {
     zb_send_cmd i (power_body 0xC4 pw);
     r \<leftarrow> zb_get_reply i;
     ret (power_reply r) }"

definition setfixedpowerall :: "byte \<Rightarrow> int ecu" where
  "setfixedpowerall pw = do { zb_broadcast_cmd (power_body 0xA4 pw); ret 1 }"

definition setlimitedpowerone :: "nat \<Rightarrow> byte \<Rightarrow> int ecu" where
  "setlimitedpowerone i pw = do {
     zb_send_cmd i (with_sum (power_body 0xC3 pw));
     r \<leftarrow> zb_get_reply i;
     ret (power_reply r) }"

definition setlimitedpowerall :: "byte \<Rightarrow> int ecu" where
  "setlimitedpowerall pw = do { zb_broadcast_cmd (with_sum (power_body 0xA3 pw)); ret 0 }"

section \<open>Limits in watts and in the units of the inverter\<close>

text \<open>
  \<open>limitedvalue\<close> is a \<open>char\<close>: the product is cut to eight bits, and divided by four after
  that for model 7. The values stay below the range of \<open>int\<close> for limits under 290,000.
\<close>

definition limit_value :: "byte \<Rightarrow> int \<Rightarrow> byte" where
  "limit_value md limitedpower = (let v = u8 ((limitedpower * 7395) div 2 ^ 14) in
     if md = 7 then u8 (uint v div 4) else v)"

definition limit_watts :: "byte \<Rightarrow> byte \<Rightarrow> int" where
  "limit_watts md b = (let r = (uint b * 2 ^ 14) div 7395 in if md = 7 then r * 4 else r)"

section \<open>Serving the requests\<close>

text \<open>
  The limits of all inverters in one message: the number of entries in its header, and the
  length (one too small, as if a newline stood at the end) where it has that many digits.
\<close>

definition power_entry_text :: "string \<Rightarrow> string" where
  "power_entry_text l = (let fs = splitString (cstr l) in fld fs 0 @ fmt_0d 3 (atoi (fld fs 2)) @ ''020250END'')"

definition digit_of :: "nat \<Rightarrow> nat \<Rightarrow> char" where
  "digit_of n d = chr (48 + n div d mod 10)"

definition max_power_message :: "string \<Rightarrow> string list \<Rightarrow> string" where
  "max_power_message i ls = (let num = length ls;
     m = ''APS13AAAAAA117AAA1'' @ i @ ''0000'' @ ''00000000000000'' @ ''END'' @ concat (map power_entry_text ls);
     m = m[30 := chr (num div 1000 + 48), 31 := digit_of num 100, 32 := digit_of num 10, 33 := digit_of num 1];
     n = length m;
     m = (if 10000 < n then m[5 := chr ((n - 1) div 10000 + 48)] else m);
     m = (if 1000 < n then m[6 := digit_of (n - 1) 1000] else m);
     m = (if 100 < n then m[7 := digit_of (n - 1) 100] else m);
     m = (if 10 < n then m[8 := digit_of (n - 1) 10] else m) in
     if 0 < n then m[9 := digit_of (n - 1) 1] else m)"

definition save_max_power_result_all :: "int ecu" where
  "save_max_power_result_all = do {
     i \<leftarrow> gets ecu_id;
     f \<leftarrow> read_file path_power;
     save_process_result 117 (max_power_message i (case f of None \<Rightarrow> [] | Some txt \<Rightarrow> fgets_lines 199 txt));
     ret 0 }"

definition save_max_power_result_one :: "nat \<Rightarrow> int \<Rightarrow> unit ecu" where
  "save_max_power_result_one i pw = do {
     v \<leftarrow> get_inv i;
     save_inverter_parameters_result v 117 (inv_id v @ fmt_0d 3 pw @ ''020300END'');
     ret () }"

text \<open>The value in use is read back and recorded; the result is whether it was read.\<close>

definition read_back :: "nat \<Rightarrow> int ecu" where
  "read_back i = do {
     r \<leftarrow> zb_query_protect_parameter i;
     v \<leftarrow> get_inv i;
     if fst r = 1
     then do {
       let limitedresult = limit_watts (model v) (snd r ! 5);
       updatemaxpower i limitedresult;
       save_max_power_result_one i limitedresult;
       ret 1 }
     else ret 0 }"

text \<open>One request: the body of the loop over the inverters; \<open>continue\<close> goes on to the next one.\<close>

definition limit_one :: "string list \<Rightarrow> unit ecu" where
  "limit_one fs = for_inverters (\<lambda>k. do {
     v \<leftarrow> get_inv k;
     if take 12 (fld fs 0) = take 12 (inv_id v)
     then do {
       updatemaxflag k;
       if model v = 0 then ret False
       else do {
         retry 3 (do { setlimitedpowerone k (limit_value (model v) (atoi (fld fs 1))); read_back k });
         ret True } }
     else ret False })"

partial_function (option) max_power_loop :: "ecu_state \<Rightarrow> ecu_state option" where
  "max_power_loop s = (case run_state (read_line_end path_power ''1'' 1) s of
     ((r, line), s1) \<Rightarrow>
       if r = -1 then Some s1
       else (let fs = splitString (cstr line) in
         max_power_loop (exec (if atoi (fld fs 5) = 1 \<and> atoi (fld fs 1) \<noteq> 0 then limit_one fs else ret ()) s1)))"

definition process_max_power :: "ecu_state \<Rightarrow> ecu_state option" where
  "process_max_power s = map_option (exec (emit MutexRelease)) (max_power_loop (exec (emit MutexTake) s))"

text \<open>
  Reading the limits of all inverters on request; the buffer for the request takes twelve
  characters, of a file that holds \<open>ALL\<close>.
\<close>

definition read_max_power :: "int ecu" where
  "read_max_power = do {
     emit MutexTake;
     f \<leftarrow> read_file path_maxpower;
     (if (case f of None \<Rightarrow> False | Some txt \<Rightarrow> (case fgets_lines 49 txt of [] \<Rightarrow> False | l # _ \<Rightarrow> cstr l = ''ALL''))
      then do {
        for_each_inverter (\<lambda>k. do { retry 3 (read_back k); ret () });
        write_file path_maxpower [];
        ret () }
      else ret ());
     emit MutexRelease;
     ret 0 }"

definition processpower :: "ecu_state \<Rightarrow> ecu_state option" where
  "processpower s = map_option (exec read_max_power) (process_max_power s)"

end
