(* ===== verification/Power_Spec.thy ===== *)
theory Power_Spec
  imports Power_Limit Ird_Spec
begin

text \<open>
  Serving the power limits: the loop ends when every request names an inverter of the table
  and a limit other than 0, and hangs on a request that does not; the limit survives the
  conversion to the unit of the inverter and back.
\<close>

section \<open>Entries of the file\<close>

definition power_request :: "string \<Rightarrow> bool" where
  "power_request l = (length l \<le> 99 \<and> (\<exists>i a b c d f. valid_id i \<and> plain a \<and> plain b \<and> plain c \<and> plain d
     \<and> int32 (atoi a) \<and> int32 (atoi b) \<and> int32 (atoi c) \<and> int32 (atoi d) \<and> (f = CHR ''0'' \<or> f = CHR ''1'')
     \<and> l = i @ '','' @ a @ '','' @ b @ '','' @ c @ '','' @ d @ '','' @ [f] @ [NL]))"

definition power_flagged :: "string \<Rightarrow> bool" where
  "power_flagged l = (2 \<le> length l \<and> l ! (length l - 2) = CHR ''1'')"

lemma atoi_flag: "atoi [CHR ''0'', NL] = 0" "atoi [CHR ''1'', NL] = 1"
  by (simp_all add: atoi_def is_space_def is_digit_def digit_val_def NL_def)

lemma power_entryE:
  assumes "power_request l"
  obtains i a b c d f where "valid_id i" "take 12 l = i" "short_line l"
    "splitString (cstr l) = [i, a, b, c, d, [f, NL]]" "int32 (atoi a)" "int32 (atoi b)" "int32 (atoi c)" "int32 (atoi d)"
    "power_flagged l = (f = CHR ''1'')" "atoi [f, NL] = (if f = CHR ''1'' then 1 else 0)"
proof -
  obtain i a b c d f where e: "length l \<le> 99" "valid_id i" "plain a" "plain b" "plain c" "plain d"
    "int32 (atoi a)" "int32 (atoi b)" "int32 (atoi c)" "int32 (atoi d)" "f = CHR ''0'' \<or> f = CHR ''1''"
    "l = i @ '','' @ a @ '','' @ b @ '','' @ c @ '','' @ d @ '','' @ [f] @ [NL]"
    using assms by (auto simp: power_request_def)
  note pl = plain_valid_id[OF e(2)] e(3-6)
  have f: "f \<noteq> NL" "f \<noteq> NUL" "f \<noteq> CHR '',''" using e(11) by (auto simp: NL_def NUL_def)
  have "is_line ((i @ '','' @ a @ '','' @ b @ '','' @ c @ '','' @ d @ '','' @ [f]) @ [NL])"
    using pl[THEN plain_line] comma_line f by (intro is_lineI) auto
  then have il: "is_line l" by (simp add: e(12))
  have "splitString [f, NL] = [[f, NL]]" using f by (simp add: NL_def)
  then have "splitString l = [i, a, b, c, d, [f, NL]]"
    using pl[THEN plain_no_comma] by (simp add: e(12))
  moreover have "take 12 l = i" using e(2,12) by (simp add: valid_id_def)
  moreover have "power_flagged l = (f = CHR ''1'')" by (simp add: e(12) power_flagged_def nth_append)
  moreover have "atoi [f, NL] = (if f = CHR ''1'' then 1 else 0)" using e(11) by (auto simp: atoi_flag)
  ultimately show ?thesis using that e(1,2,7-10) il by (simp add: short_line_def)
qed

lemma length_fmt_int32: "int32 m \<Longrightarrow> length (fmt_d m) \<le> 11"
  using length_fmt_d[of m 10] by (simp add: int32_def abs_if split: if_splits)

lemma plain_fmt: "plain (fmt_d v)"
  using fmt_d_plain by (simp add: plain_def)

lemma power_line_entry:
  assumes "valid_id i" "int32 a" "int32 b" "int32 c" "int32 d"
  shows "power_request (power_line i a b c d (CHR ''0''))" "\<not> power_flagged (power_line i a b c d (CHR ''0''))"
    "take 12 (power_line i a b c d (CHR ''0'')) = i"
proof -
  have "length (power_line i a b c d (CHR ''0'')) \<le> 99"
    using length_fmt_int32[OF assms(2)] length_fmt_int32[OF assms(3)] length_fmt_int32[OF assms(4)]
      length_fmt_int32[OF assms(5)] assms(1)
    by (simp add: power_line_def valid_id_def)
  then show "power_request (power_line i a b c d (CHR ''0''))"
    unfolding power_request_def using assms plain_fmt
    by (intro conjI exI[of _ i] exI[of _ "fmt_d a"] exI[of _ "fmt_d b"] exI[of _ "fmt_d c"] exI[of _ "fmt_d d"]
        exI[of _ "CHR ''0''"]) (simp_all add: power_line_def)
  show "\<not> power_flagged (power_line i a b c d (CHR ''0''))"
    by (simp add: power_line_def power_flagged_def nth_append)
  show "take 12 (power_line i a b c d (CHR ''0'')) = i"
    using assms(1) by (simp add: power_line_def valid_id_def)
qed

interpretation pwq: line_store "\<lambda>k. delete_line path_power path_power_tmp k 12"
    "insert_line path_power" "store_lines path_power" "store_ok path_power path_power_tmp"
  by (rule files_line_store)

section \<open>What a step may do to the file\<close>

definition pw_ok :: "ecu_state \<Rightarrow> bool" where
  "pw_ok s = (store_ok path_power path_power_tmp s \<and> (\<forall>l \<in> set (store_lines path_power s). power_request l)
     \<and> (\<forall>i \<in> inv_id ` set (inverters s). i = [] \<or> valid_id i))"

definition pw_pending :: "ecu_state \<Rightarrow> string list" where
  "pw_pending s = filter power_flagged (store_lines path_power s)"

definition pw_progress :: "ecu_state \<Rightarrow> ecu_state \<Rightarrow> bool" where
  "pw_progress s t = (map inv_id (inverters t) = map inv_id (inverters s)
     \<and> (pw_ok s \<longrightarrow> pw_ok t \<and> set (pw_pending t) \<subseteq> set (pw_pending s)
          \<and> length (pw_pending t) \<le> length (pw_pending s)))"

lemma pw_same_file:
  assumes "files t path_power = files s path_power" "can_write t = can_write s"
    "map inv_id (inverters t) = map inv_id (inverters s)"
  shows "pw_progress s t"
proof -
  have "inv_id ` set (inverters t) = inv_id ` set (inverters s)"
    using arg_cong[OF assms(3), of set] by simp
  then show ?thesis
    using assms by (simp add: pw_progress_def pw_ok_def pw_pending_def store_ok_def store_lines_def)
qed

interpretation pwp: zb_effect pw_progress "\<lambda>_. True"
proof unfold_locales
  show "pw_progress s s" for s by (simp add: pw_progress_def)
  show "pw_progress s u" if "pw_progress s t" "pw_progress t u" for s t u
    using that unfolding pw_progress_def by (auto elim!: order_trans)
  show "pw_progress s (s\<lparr>inverters := (inverters s)[i := v]\<rparr>)" if "inv_id v = inv_id (inv_at s i)" for s i v
    using ids.R_inv[OF that] by (intro pw_same_file) (simp_all add: same_ids_def)
qed (simp_all add: pw_same_file)

lemma update_power_ids: "state_io_rel same_ids (update_power k new)"
  unfolding update_power_def power_fields_def read_line_def delete_line_def insert_line_def search_line_def
  by (intro eff_intros)

text \<open>The line of an inverter is replaced by one that is an entry without the flag.\<close>

definition unflagged :: "(string list \<Rightarrow> string \<Rightarrow> string) \<Rightarrow> bool" where
  "unflagged new = (\<forall>fs i. valid_id i \<and> (\<forall>n \<in> {1, 2, 3, 4}. int32 (atoi (fld fs n))) \<longrightarrow>
     power_request (new fs i) \<and> \<not> power_flagged (new fs i) \<and> take 12 (new fs i) = i)"

lemma empty_key: "power_request l \<Longrightarrow> \<not> memeq l [] 12"
proof
  assume "power_request l" "memeq l [] 12"
  moreover from this(1) have "valid_id (take 12 l)" by (rule power_entryE) simp
  moreover from this have "length (take 12 l) = 12" by (simp add: valid_id_def)
  then have "12 \<le> length l" by simp
  ultimately have "take 12 l = replicate 12 NUL" by (simp add: memeq_def zext_take) (simp add: zext_def)
  with \<open>valid_id (take 12 l)\<close> have "valid_id (replicate 12 NUL)" by simp
  then show False by (simp add: valid_id_def NUL_def is_digit_def)
qed

lemma update_power_effect:
  fixes k new s
  assumes "pw_ok s" "unflagged new"
  defines "i \<equiv> inv_id (inv_at s k)" and "t \<equiv> exec (update_power k new) s"
  shows "pw_progress s t \<and> pw_pending t = filter (\<lambda>l. \<not> (i \<noteq> [] \<and> keyed i l)) (pw_pending s)"
proof -
  obtain ls where ls: "files s path_power = Some (concat ls)" "\<And>l. l \<in> set ls \<Longrightarrow> short_line l"
    "store_lines path_power s = ls"
    using assms(1) unfolding pw_ok_def by (auto elim: store_okE)
  have en: "power_request l" if "l \<in> set ls" for l using assms(1) ls(3) that by (simp add: pw_ok_def)
  have f99: "fgets_lines 99 (concat ls) = ls" using ls(2) by (intro fgets_short) auto
  have id: "i = [] \<or> valid_id i"
    using assms(1) by (auto simp: i_def pw_ok_def inv_at_def slot_def empty_inverter_def)
  have same: "map inv_id (inverters t) = map inv_id (inverters s)"
    using state_io_relE[OF update_power_ids, of s k new] by (simp add: same_ids_def t_def)
  then have sid: "inv_id ` set (inverters t) = inv_id ` set (inverters s)" by (metis list.set_map)
  show ?thesis
  proof (cases "find (\<lambda>l. memeq l i 12) ls")
    case None
    then have t: "t = s"
      using ls(1) f99 by (simp add: t_def i_def update_power_def power_fields_def read_line_def read_file_def get_inv_def)
    have "\<not> (i \<noteq> [] \<and> keyed i l)" if "l \<in> set ls" for l
      using None that id keyed_memeq[of i l] valid_id_key[of i] by (auto simp: find_None_iff)
    then have "filter (\<lambda>l. \<not> (i \<noteq> [] \<and> keyed i l)) (pw_pending s) = pw_pending s"
      using ls(3) unfolding pw_pending_def filter_filter by (intro filter_cong) auto
    then show ?thesis using t by (simp add: pwp.R_refl)
  next
    case (Some l)
    then have l: "l \<in> set ls" "memeq l i 12" by (auto simp: find_Some_iff)
    obtain i' a b c d f where e: "splitString (cstr l) = [i', a, b, c, d, [f, NL]]"
      "int32 (atoi a)" "int32 (atoi b)" "int32 (atoi c)" "int32 (atoi d)"
      using en[OF l(1)] by (rule power_entryE) blast
    have i: "i \<noteq> []" "valid_id i" using empty_key[OF en[OF l(1)]] l(2) id by auto
    let ?n = "new [i', a, b, c, d, [f, NL]] i"
    have "\<forall>n \<in> {1, 2, 3, 4}. int32 (atoi (fld [i', a, b, c, d, [f, NL]] n))"
      using e(2-5) by (simp add: fld_def)
    then have n: "power_request ?n" "\<not> power_flagged ?n" "take 12 ?n = i"
      using assms(2) i(2) by (simp_all add: unflagged_def)
    have sl: "short_line ?n" using n(1) by (rule power_entryE) blast
    have run: "t = exec (do { delete_line path_power path_power_tmp i 12; retry (Suc 2) (insert_line path_power ?n) }) s"
      using ls(1) f99 Some e(1)
      by (simp add: t_def i_def update_power_def power_fields_def read_line_def read_file_def get_inv_def exec_bind
          result_bind numeral_3_eq_3 numeral_2_eq_2 del: run_state_bind retry.simps)
    have st: "store_ok path_power path_power_tmp s" using assms(1) by (simp add: pw_ok_def)
    have u: "store_ok path_power path_power_tmp t"
      "store_lines path_power t = filter (\<lambda>l. \<not> keyed i l) ls @ [?n]"
      unfolding run using pwq.upsert[OF st valid_id_key[OF i(2)] sl, of 2] ls(3) by (simp_all only: Let_def)
    then have "pw_ok t" using n(1) assms(1) ls(3) sid by (auto simp: pw_ok_def)
    moreover have p: "pw_pending t = filter (\<lambda>l. \<not> (i \<noteq> [] \<and> keyed i l)) (pw_pending s)"
      using u(2) n(2) ls(3) i(1) by (auto simp: pw_pending_def conj_commute intro: filter_cong)
    ultimately show ?thesis using same by (simp add: pw_progress_def)
  qed
qed

lemma unflagged_updates:
  "unflagged (\<lambda>fs k. power_line k (atoi (fld fs 1)) (atoi (fld fs 2)) (atoi (fld fs 3)) (atoi (fld fs 4)) (CHR ''0''))"
  "int32 v \<Longrightarrow> unflagged (\<lambda>fs k. power_line k v (atoi (fld fs 2)) (atoi (fld fs 3)) (atoi (fld fs 4)) (CHR ''0''))"
  using power_line_entry by (simp_all add: unflagged_def)

lemma eff_updates [eff_intros]:
  "state_io_rel pw_progress (updatemaxflag k)"
  "int32 v \<Longrightarrow> state_io_rel pw_progress (updatemaxpower k v)"
proof -
  have "pw_progress s (exec (update_power k new) s)" if "unflagged new" for s new
  proof (cases "pw_ok s")
    case False
    then show ?thesis
      using state_io_relE[OF update_power_ids, of s k new] by (simp add: pw_progress_def same_ids_def)
  qed (use update_power_effect that in blast)
  then show "state_io_rel pw_progress (updatemaxflag k)"
    "int32 v \<Longrightarrow> state_io_rel pw_progress (updatemaxpower k v)"
    using unflagged_updates by (auto simp: updatemaxflag_def updatemaxpower_def state_io_rel_def)
qed

lemma limit_watts_bounds: "0 \<le> limit_watts md b" "limit_watts md b \<le> 2260"
proof -
  have "0 \<le> uint b * 2 ^ 14 div 7395" "uint b * 2 ^ 14 div 7395 \<le> 565"
    using byte_bounds[of b] zdiv_mono1[of "uint b * 2 ^ 14" "255 * 2 ^ 14" 7395] by (simp_all add: pos_imp_zdiv_nonneg_iff)
  then show "0 \<le> limit_watts md b" "limit_watts md b \<le> 2260" by (auto simp: limit_watts_def Let_def)
qed

lemma eff_save_result [eff_intros]: "state_io_rel pw_progress (save_max_power_result_one k v)"
proof -
  have "path_power \<noteq> day_file dir_iprocres dt" for dt
    by (simp add: path_power_def day_file_def dir_iprocres_def)
  then have "state_io_rel pw_progress (append_file (day_file dir_iprocres dt) c)" for dt c
    by (auto simp: state_io_rel_def append_file_def intro!: pw_same_file)
  then show ?thesis
    unfolding save_max_power_result_one_def save_inverter_parameters_result_def by (intro eff_intros)
qed

lemma eff_limit_cmd [eff_intros]: "state_io_rel pw_progress (setlimitedpowerone k v)"
  unfolding setlimitedpowerone_def
  by (intro eff_intros) (simp add: with_sum_def power_body_def Let_def)

lemma int32_limit_watts: "int32 (limit_watts md b)"
  using limit_watts_bounds[of md b] by (simp add: int32_def)

lemma eff_read_back [eff_intros]: "state_io_rel pw_progress (read_back k)"
  unfolding read_back_def Let_def by (intro eff_intros int32_limit_watts)

section \<open>Each request is taken off\<close>

text \<open>The loop over the inverters reaches the one whose id is in the request.\<close>

lemma limit_loop_first:
  assumes "j < n" "\<forall>m \<le> j. length (inv_id (inv_at s (i + m))) = 12"
    "take 12 (fld fs 0) = inv_id (inv_at s (i + j))"
  defines "body \<equiv> \<lambda>k. do {
     v \<leftarrow> get_inv k;
     if take 12 (fld fs 0) = take 12 (inv_id v)
     then do {
       updatemaxflag k;
       if model v = 0 then ret False
       else do {
         retry 3 (do { setlimitedpowerone k (limit_value (model v) (atoi (fld fs 1))); read_back k });
         ret True } }
     else ret False }"
  shows "\<exists>k. inv_id (inv_at s k) = take 12 (fld fs 0)
    \<and> pw_progress (exec (updatemaxflag k) s) (exec (inv_loop body n i) s)"
  using assms(1-3)
proof (induction n arbitrary: i j)
  case 0
  then show ?case by simp
next
  case (Suc n)
  let ?v = "inv_at s i"
  have l0: "length (inv_id ?v) = 12" using Suc.prems(2) by force
  have eff: "state_io_rel pw_progress (inv_loop body n (Suc i))"
    unfolding body_def by (intro pwp.eff_inv_loop eff_intros)
  show ?case
  proof (cases "take 12 (fld fs 0) = inv_id ?v")
    case True
    let ?rest = "do { brk \<leftarrow> (if model ?v = 0 then ret False else do {
         retry 3 (do { setlimitedpowerone i (limit_value (model ?v) (atoi (fld fs 1))); read_back i });
         ret True }); if brk then ret () else inv_loop body n (Suc i) }"
    have "state_io_rel pw_progress ?rest" by (intro eff_intros eff)
    then have "pw_progress (exec (updatemaxflag i) s) (exec ?rest (exec (updatemaxflag i) s))"
      by (rule state_io_relE)
    moreover have "exec (inv_loop body (Suc n) i) s = exec ?rest (exec (updatemaxflag i) s)"
      using l0 True by (simp add: body_def get_inv_def exec_bind result_bind del: run_state_bind retry.simps)
    ultimately show ?thesis using True by (intro exI[of _ i]) simp
  next
    case False
    then have j: "j \<noteq> 0" using Suc.prems(3) by (metis add_0_right)
    then obtain j' where j': "j = Suc j'" by (cases j) auto
    have "exec (inv_loop body (Suc n) i) s = exec (inv_loop body n (Suc i)) s"
      using l0 False by (simp add: body_def get_inv_def exec_bind result_bind del: run_state_bind retry.simps)
    moreover have "\<forall>m \<le> j'. length (inv_id (inv_at s (Suc i + m))) = 12"
      using Suc.prems(2) j' by (metis Suc_le_mono add_Suc_shift)
    ultimately show ?thesis using Suc.IH[of j' "Suc i"] Suc.prems(1,3) j' by simp
  qed
qed

lemma table_index:
  assumes "v \<in> set (table (inverters s))"
  obtains j where "j < MAXINVERTERCOUNT" "inv_at s j = v" "\<forall>m \<le> j. length (inv_id (inv_at s m)) = 12"
proof -
  let ?ts = "table (inverters s)"
  obtain j where j: "j < length ?ts" "?ts ! j = v" using assms by (auto simp: in_set_conv_nth)
  have le: "length ?ts \<le> length (take MAXINVERTERCOUNT (inverters s))" unfolding table_def by (rule length_takeWhile_le)
  have at: "inv_at s m = ?ts ! m" if "m < length ?ts" for m
    using that le takeWhile_nth[of m "\<lambda>v. length (inv_id v) = 12" "take MAXINVERTERCOUNT (inverters s)"]
    by (simp add: table_def inv_at_def slot_def)
  have "length (inv_id (inv_at s m)) = 12" if "m \<le> j" for m
  proof -
    have "?ts ! m \<in> set ?ts" using that j(1) by simp
    then have "length (inv_id (?ts ! m)) = 12" unfolding table_def by (rule set_takeWhileD[THEN conjunct2])
    then show ?thesis using at[of m] that j(1) by simp
  qed
  moreover have "j < MAXINVERTERCOUNT" using j(1) le by simp
  ultimately show ?thesis using that at[OF j(1)] j(2) by blast
qed

text \<open>A request that can be served: a limit other than 0, for an inverter of the table.\<close>

definition servable :: "ecu_state \<Rightarrow> string \<Rightarrow> bool" where
  "servable s l = (atoi (fld (splitString (cstr l)) 1) \<noteq> 0 \<and> take 12 l \<in> inv_id ` set (table (inverters s)))"

lemma inv_ids_table: "map inv_id (inverters t) = map inv_id (inverters s) \<Longrightarrow>
    inv_id ` set (table (inverters t)) = inv_id ` set (table (inverters s))"
proof -
  assume a: "map inv_id (inverters t) = map inv_id (inverters s)"
  have "map inv_id (table vs) = takeWhile (\<lambda>i. length i = 12) (take MAXINVERTERCOUNT (map inv_id vs))" for vs
    by (simp add: table_def takeWhile_map take_map comp_def)
  then have "map inv_id (table (inverters t)) = map inv_id (table (inverters s))" using a by simp
  then show ?thesis by (metis list.set_map)
qed

lemma run_read_request:
  assumes "pw_ok s"
  shows "run_state (read_line_end path_power ''1'' 1) s = (case pw_pending s of [] \<Rightarrow> ((-1, []), s) | l # _ \<Rightarrow> ((1, l), s))"
proof -
  obtain ls where ls: "files s path_power = Some (concat ls)" "\<And>l. l \<in> set ls \<Longrightarrow> short_line l"
    "store_lines path_power s = ls"
    using assms unfolding pw_ok_def by (auto elim: store_okE)
  have f99: "fgets_lines 99 (concat ls) = ls" using ls(2) by (intro fgets_short) auto
  have "(1 + 1 \<le> length (cstr l) \<and> memeq (drop (length (cstr l) - 1 - 1) (cstr l)) ''1'' 1) = power_flagged l"
    if "l \<in> set ls" for l
  proof -
    have c: "cstr l = l" using ls(2)[OF that] by (simp add: short_line_def)
    show ?thesis
    proof (cases "2 \<le> length l")
      case True
      then have "drop (length l - 1 - 1) l = l ! (length l - 2) # drop (length l - 1) l"
        using Cons_nth_drop_Suc[of "length l - 2" l] Suc_diff_Suc[of 1 "length l"] by (simp add: numeral_2_eq_2)
      then show ?thesis using True c by (simp add: power_flagged_def memeq_def zext_def)
    qed (simp add: c power_flagged_def)
  qed
  then have "find (\<lambda>l. 1 + 1 \<le> length (cstr l) \<and> memeq (drop (length (cstr l) - 1 - 1) (cstr l)) ''1'' 1) ls
      = find power_flagged ls"
    by (intro find_cong) auto
  moreover have "find power_flagged ls = (case filter power_flagged ls of [] \<Rightarrow> None | l # _ \<Rightarrow> Some l)"
    by (induction ls) auto
  ultimately show ?thesis
    using ls f99 by (simp add: read_line_end_def read_file_def pw_pending_def split: list.split)
qed

text \<open>
  Serving the power limits ends, and leaves no request, when every flagged line asks for a limit
  other than 0 of an inverter of the table, whatever the inverters answer.
\<close>

lemma max_power_serves:
  assumes "pw_ok s" "\<forall>l \<in> set (pw_pending s). servable s l"
  shows "\<exists>t. process_max_power s = Some t \<and> pw_ok t \<and> pw_pending t = [] \<and> same_ids s t
    \<and> (\<exists>es. trace t = es @ [MutexRelease])"
proof -
  have loop: "\<exists>t. max_power_loop s = Some t \<and> pw_ok t \<and> pw_pending t = []
      \<and> map inv_id (inverters t) = map inv_id (inverters s)"
    if "pw_ok s" "\<forall>l \<in> set (pw_pending s). servable s l" for s
    using that
  proof (induction "length (pw_pending s)" arbitrary: s rule: less_induct)
    case less
    show ?case
    proof (cases "pw_pending s")
      case Nil
      then show ?thesis using less.prems(1) run_read_request[of s]
        by (intro exI[of _ s]) (subst max_power_loop.simps, simp)
    next
      case (Cons l rest)
      then have l: "l \<in> set (pw_pending s)" by simp
      then have lf: "l \<in> set (store_lines path_power s)" "power_flagged l" by (simp_all add: pw_pending_def)
      obtain i a b c d f where e: "valid_id i" "take 12 l = i" "splitString (cstr l) = [i, a, b, c, d, [f, NL]]"
        "power_flagged l = (f = CHR ''1'')" "atoi [f, NL] = (if f = CHR ''1'' then 1 else 0)"
        using less.prems(1) lf(1) unfolding pw_ok_def by (metis power_entryE)
      let ?fs = "[i, a, b, c, d, [f, NL]]"
      have sv: "atoi a \<noteq> 0" "i \<in> inv_id ` set (table (inverters s))"
        using less.prems(2) l e(2,3) by (auto simp: servable_def fld_def)
      obtain v where v: "v \<in> set (table (inverters s))" "inv_id v = i" using sv(2) by blast
      obtain j where j: "j < MAXINVERTERCOUNT" "inv_at s j = v" "\<forall>m \<le> j. length (inv_id (inv_at s m)) = 12"
        using table_index[OF v(1)] by metis
      have i12: "take 12 (fld ?fs 0) = i" using e(1) by (simp add: fld_def valid_id_def)
      let ?t = "exec (limit_one ?fs) s"
      obtain k where k: "inv_id (inv_at s k) = i" "pw_progress (exec (updatemaxflag k) s) ?t"
        using limit_loop_first[OF j(1), of s 0 ?fs] j(2,3) v(2) i12
        unfolding limit_one_def for_inverters_def by auto
      have u: "pw_progress s (exec (updatemaxflag k) s)"
        "pw_pending (exec (updatemaxflag k) s) = filter (\<lambda>l. \<not> (i \<noteq> [] \<and> keyed i l)) (pw_pending s)"
        using update_power_effect[OF less.prems(1) unflagged_updates(1), of k] k(1) by (simp_all add: updatemaxflag_def)
      have "i \<noteq> []" using e(1) by (auto simp: valid_id_def)
      then have "length (pw_pending (exec (updatemaxflag k) s)) < length (pw_pending s)"
        unfolding u(2) using l e(2) by (intro length_filter_less) (auto simp: keyed_def)
      moreover have p: "pw_progress s ?t" using pwp.R_trans[OF u(1) k(2)] .
      ultimately have t: "length (pw_pending ?t) < length (pw_pending s)" "pw_ok ?t" "set (pw_pending ?t) \<subseteq> set (pw_pending s)"
        "map inv_id (inverters ?t) = map inv_id (inverters s)"
        using less.prems(1) u(1) k(2) by (auto simp: pw_progress_def)
      have "\<forall>l \<in> set (pw_pending ?t). servable ?t l"
        using less.prems(2) t(3) inv_ids_table[OF t(4)] by (auto simp: servable_def)
      then obtain w where w: "max_power_loop ?t = Some w" "pw_ok w" "pw_pending w = []"
        "map inv_id (inverters w) = map inv_id (inverters ?t)"
        using less.hyps[OF t(1,2)] by blast
      have "max_power_loop s = max_power_loop ?t"
        using Cons run_read_request[OF less.prems(1)] e(3-5) lf(2) sv(1)
        by (subst max_power_loop.simps) (simp add: fld_def)
      then show ?thesis using w t(4) by auto
    qed
  qed
  let ?s = "exec (emit MutexTake) s"
  have s: "pw_ok ?s" "pw_pending ?s = pw_pending s" "inverters ?s = inverters s"
    using assms(1) by (simp_all add: emit_def pw_ok_def pw_pending_def store_ok_def store_lines_def)
  then obtain t where t: "max_power_loop ?s = Some t" "pw_ok t" "pw_pending t = []"
    "map inv_id (inverters t) = map inv_id (inverters ?s)"
    using loop[of ?s] assms(2) by (auto simp: servable_def)
  have "pw_progress t (exec (emit MutexRelease) t)" by (rule pw_same_file) (simp_all add: emit_def)
  then show ?thesis using t s(3) by (auto simp: process_max_power_def pw_progress_def same_ids_def emit_def)
qed

section \<open>A request that cannot be served\<close>

lemma table_member:
  assumes "\<forall>m \<le> k. length (inv_id (inv_at s m)) = 12" "k < MAXINVERTERCOUNT"
  shows "inv_at s k \<in> set (table (inverters s))"
proof -
  have len: "m < length (inverters s)" if "m \<le> k" for m
    using assms(1) that by (auto simp: inv_at_def slot_def empty_inverter_def split: if_splits)
  have at: "inv_at s m = take MAXINVERTERCOUNT (inverters s) ! m" if "m \<le> k" for m
    using len[OF that] that assms(2) by (simp add: inv_at_def slot_def)
  have "Suc k \<le> length (table (inverters s))"
    unfolding table_def using assms at len[of k]
    by (intro length_takeWhile_less_P_nth) (auto simp: less_Suc_eq_le)
  then have "table (inverters s) ! k \<in> set (table (inverters s))" by simp
  moreover have "table (inverters s) ! k = inv_at s k"
    using \<open>Suc k \<le> length (table (inverters s))\<close> at[of k] unfolding table_def by (simp add: takeWhile_nth)
  ultimately show ?thesis by simp
qed

lemma inv_loop_idle:
  assumes "\<And>m. m < n \<Longrightarrow> \<forall>j \<le> m. length (inv_id (inv_at s (i + j))) = 12 \<Longrightarrow> run_state (body (i + m)) s = (False, s)"
  shows "exec (inv_loop body n i) s = s"
  using assms
proof (induction n arbitrary: i)
  case 0
  then show ?case by simp
next
  case (Suc n)
  show ?case
  proof (cases "length (inv_id (inv_at s i)) = 12")
    case True
    have "exec (inv_loop body n (Suc i)) s = s"
    proof (rule Suc.IH)
      fix m assume m: "m < n" and all: "\<forall>j \<le> m. length (inv_id (inv_at s (Suc i + j))) = 12"
      have "length (inv_id (inv_at s (i + j))) = 12" if "j \<le> Suc m" for j
        using that all True by (cases j) auto
      then show "run_state (body (Suc i + m)) s = (False, s)" using Suc.prems[of "Suc m"] m by simp
    qed
    moreover have "run_state (body i) s = (False, s)" using Suc.prems[of 0] True by simp
    ultimately show ?thesis using True by (simp add: get_inv_def)
  qed (simp add: get_inv_def)
qed

lemma limit_one_idle:
  assumes "take 12 (fld fs 0) \<notin> (take 12 \<circ> inv_id) ` set (table (inverters s))"
  shows "exec (limit_one fs) s = s"
  unfolding limit_one_def for_inverters_def
proof (rule inv_loop_idle)
  fix m assume "m < MAXINVERTERCOUNT" "\<forall>j \<le> m. length (inv_id (inv_at s (0 + j))) = 12"
  then have "inv_at s m \<in> set (table (inverters s))" using table_member[of m s] by simp
  then have "take 12 (fld fs 0) \<noteq> take 12 (inv_id (inv_at s m))" using assms by force
  then show "run_state (do {
     v \<leftarrow> get_inv (0 + m);
     if take 12 (fld fs 0) = take 12 (inv_id v)
     then do {
       updatemaxflag (0 + m);
       if model v = 0 then ret False
       else do {
         retry 3 (do { setlimitedpowerone (0 + m) (limit_value (model v) (atoi (fld fs 1))); read_back (0 + m) });
         ret True } }
     else ret False }) s = (False, s)"
    by (simp add: get_inv_def)
qed

text \<open>
  When the first flagged line asks for the limit 0, or names no inverter of the table, nothing is
  changed and the same line is found again.
\<close>

lemma unservable_limit_hangs:
  assumes "pw_ok s" "pw_pending s = l # ls" "\<not> servable s l"
  shows "process_max_power s = None"
proof -
  let ?s = "exec (emit MutexTake) s" and ?fs = "splitString (cstr l)"
  have s: "pw_ok ?s" "pw_pending ?s = l # ls" "inverters ?s = inverters s"
    using assms(1,2) by (simp_all add: emit_def pw_ok_def pw_pending_def store_ok_def store_lines_def)
  have "l \<in> set (pw_pending s)" using assms(2) by simp
  then have "power_request l" using assms(1) by (simp add: pw_ok_def pw_pending_def)
  then obtain i a b c d f where e: "valid_id i" "take 12 l = i" "?fs = [i, a, b, c, d, [f, NL]]"
    by (rule power_entryE) blast
  have idle: "exec (limit_one ?fs) ?s = ?s" if "atoi (fld ?fs 1) \<noteq> 0"
  proof (rule limit_one_idle)
    have "i \<notin> inv_id ` set (table (inverters ?s))" using assms(3) that e(2,3) s(3) by (simp add: servable_def fld_def)
    moreover have "(take 12 \<circ> inv_id) ` set (table (inverters ?s)) = inv_id ` set (table (inverters ?s))"
      by (intro image_cong) (auto simp: table_def dest: set_takeWhileD)
    moreover have "take 12 (fld ?fs 0) = i" using e(1,3) by (simp add: fld_def valid_id_def)
    ultimately show "take 12 (fld ?fs 0) \<notin> (take 12 \<circ> inv_id) ` set (table (inverters ?s))" by simp
  qed
  have "max_power_loop u = Some t \<Longrightarrow> u \<noteq> ?s" for u t
  proof (rule max_power_loop.raw_induct[where P = "\<lambda>u t. u \<noteq> ?s"])
    fix loop u t
    assume IH: "\<And>u t. loop u = Some t \<Longrightarrow> u \<noteq> ?s"
      and body: "(case run_state (read_line_end path_power ''1'' 1) u of ((r, line), s1) \<Rightarrow>
         if r = -1 then Some s1
         else (let fs = splitString (cstr line) in
           loop (exec (if atoi (fld fs 5) = 1 \<and> atoi (fld fs 1) \<noteq> 0 then limit_one fs else ret ()) s1))) = Some t"
    show "u \<noteq> ?s"
    proof
      assume u: "u = ?s"
      have "run_state (read_line_end path_power ''1'' 1) ?s = ((1, l), ?s)" using run_read_request[OF s(1)] s(2) by simp
      then have "loop (exec (if atoi (fld ?fs 5) = 1 \<and> atoi (fld ?fs 1) \<noteq> 0 then limit_one ?fs else ret ()) ?s) = Some t"
        using body unfolding u by (simp add: Let_def)
      moreover have "exec (if atoi (fld ?fs 5) = 1 \<and> atoi (fld ?fs 1) \<noteq> 0 then limit_one ?fs else ret ()) ?s = ?s"
        using idle by simp
      ultimately show False using IH by metis
    qed
  qed
  then show ?thesis by (cases "max_power_loop ?s") (auto simp: process_max_power_def)
qed

section \<open>The conversion of a limit\<close>

text \<open>
  C18. A limit survives the conversion to the unit of the inverter. For limits up to 567 watts
  the value sent fits its byte, and what the unit reports after reading that byte back is at
  most the limit and at most 3 watts below it (12 for an inverter of model 7, whose unit is four
  times as large). The byte of a limit of 568 to 1134 watts stands for a limit that is at least
  568 watts lower.
\<close>

theorem limit_conversion:
  "(0 \<le> p \<and> p \<le> 567 \<longrightarrow> limit_watts md (limit_value md p) \<le> p
      \<and> p - limit_watts md (limit_value md p) \<le> (if md = 7 then 12 else 3))
    \<and> (568 \<le> p \<and> p \<le> 1134 \<longrightarrow> limit_watts md (limit_value md p) \<le> p - 568)"
proof -
  define q where "q = p * 7395 div 2 ^ 14"
  define v where "v = q mod 256"
  define w where "w = v div 4"
  define r where "r = v * 16384 div 7395"
  define r4 where "r4 = w * 16384 div 7395"
  have q: "q * 16384 \<le> p * 7395" "p * 7395 < q * 16384 + 16384" unfolding q_def by simp_all
  have v: "0 \<le> v" "v < 256" unfolding v_def by simp_all
  have w: "w * 4 \<le> v" "v < w * 4 + 4" "0 \<le> w" "w < 256" using v unfolding w_def by linarith+
  have r: "r * 7395 \<le> v * 16384" "v * 16384 < r * 7395 + 7395" unfolding r_def by linarith+
  have r4: "r4 * 7395 \<le> w * 16384" "w * 16384 < r4 * 7395 + 7395" unfolding r4_def by linarith+
  have lw: "limit_watts md (limit_value md p) = (if md = 7 then r4 * 4 else r)"
    using w(3,4) unfolding limit_watts_def limit_value_def Let_def r_def r4_def w_def v_def q_def
    by (simp add: uint_u8)
  have low: "v = q" if "0 \<le> p" "p \<le> 567"
  proof -
    have "0 \<le> q" "q < 256" using q that by linarith+
    then show ?thesis by (simp add: v_def)
  qed
  have high: "v = q - 256" if "568 \<le> p" "p \<le> 1134"
  proof -
    have "256 \<le> q" "q < 512" using q that by linarith+
    then have "(q - 256) mod 256 = q - 256" by (intro mod_pos_pos_trivial) simp_all
    then show ?thesis by (simp add: v_def mod_diff_right_eq[symmetric])
  qed
  show ?thesis
    using low high lw q r r4 w by (cases "md = 7"; intro conjI impI; simp; linarith)
qed

theorem limit_conversion_witness:
  "limit_watts 5 (limit_value 5 300) \<le> 300 \<and> 297 \<le> limit_watts 5 (limit_value 5 300)
    \<and> limit_watts 5 (limit_value 5 600) \<le> 32"
  using limit_conversion[of 300 5] limit_conversion[of 600 5] by simp

section \<open>From the command to the inverter\<close>

lemma atoi_pad_space: "atoi (pad_space n (fmt_d v)) = v"
proof -
  have "dropWhile is_space (pad_space n (fmt_d v)) = dropWhile is_space (fmt_d v)"
    unfolding pad_space_def by (induction "n - length (fmt_d v)" arbitrary: n) (simp_all add: is_space_def dropWhile_append)
  then have "atoi (pad_space n (fmt_d v)) = atoi (fmt_d v)" by (simp add: atoi_def)
  then show ?thesis by simp
qed

lemma plain_pad_space: "plain s \<Longrightarrow> plain (pad_space n s)"
proof -
  assume "plain s"
  moreover have "plain_char (CHR '' '')" by (simp add: plain_char_def NL_def NUL_def)
  ultimately show ?thesis by (auto simp: pad_space_def plain_def)
qed

text \<open>The message of command A110 for \<open>n\<close> inverters: twelve digits of the id, three of the limit, \<open>END\<close>.\<close>

definition limit_items :: "string \<Rightarrow> nat \<Rightarrow> bool" where
  "limit_items msg n = (\<forall>k < n. valid_id (msg_text msg (k * 18) 12)
     \<and> 0 \<le> msg_field msg (k * 18 + 12) 3 \<and> msg_field msg (k * 18 + 12) 3 \<le> 999)"

lemma maxpower_entry:
  assumes "limit_items msg n" "k < n"
  shows "power_request (maxpower_line msg k)" "power_flagged (maxpower_line msg k)"
    "fld (splitString (cstr (maxpower_line msg k))) 1 = pad_space 3 (fmt_d (msg_field msg (k * 18 + 12) 3))"
    "take 12 (maxpower_line msg k) = msg_text msg (k * 18) 12"
proof -
  let ?i = "msg_text msg (k * 18) 12" and ?v = "msg_field msg (k * 18 + 12) 3"
  have i: "valid_id ?i" "0 \<le> ?v" "?v \<le> 999" using assms by (auto simp: limit_items_def)
  have l: "maxpower_line msg k = ?i @ '','' @ pad_space 3 (fmt_d ?v) @ '','' @ [] @ '','' @ [] @ '','' @ [] @ '','' @ [CHR ''1''] @ [NL]"
    by (simp add: maxpower_line_def)
  have p: "plain (pad_space 3 (fmt_d ?v))" "plain []"
    using plain_pad_space[OF plain_fmt] by (simp_all add: plain_def)
  have v: "int32 ?v" using i(2,3) by (simp add: int32_def)
  have z: "int32 0" by (simp add: int32_def)
  have "length (pad_space 3 (fmt_d ?v)) \<le> 11" using length_fmt_int32[OF v(1)] by (simp add: pad_space_def)
  moreover have "length ?i = 12" using i(1) by (simp add: valid_id_def)
  ultimately have "length (maxpower_line msg k) \<le> 99" unfolding l by simp
  then show e: "power_request (maxpower_line msg k)"
    unfolding power_request_def
    by (intro conjI exI[of _ ?i] exI[of _ "pad_space 3 (fmt_d ?v)"] exI[of _ "[]"] exI[of _ "CHR ''1''"])
      (simp_all add: l i(1) p v z atoi_pad_space)
  show "power_flagged (maxpower_line msg k)" by (simp add: l power_flagged_def nth_append)
  show "take 12 (maxpower_line msg k) = ?i" using i(1) by (simp add: l valid_id_def)
  have "cstr (maxpower_line msg k) = maxpower_line msg k" using e by (rule power_entryE) (simp add: short_line_def)
  then show "fld (splitString (cstr (maxpower_line msg k))) 1 = pad_space 3 (fmt_d ?v)"
    using plain_no_comma[OF plain_valid_id[OF i(1)]] plain_no_comma[OF p(1)] unfolding l by (simp add: fld_def)
qed



end
