(* ===== verification/Comm_Config.thy ===== *)
theory Comm_Config
  imports Ema_Handlers
begin

text \<open>
  The commands A106 and A107, which read and set the communication parameters of the upload
  client and of the control client (\<open>ECU/control_client/src/comm_config.c\<close>), and A108, which
  runs a command line (\<open>custom_command.c\<close>, \<open>mysystem\<close> of \<open>mycommand.c\<close>).
\<close>

section \<open>Parameters\<close>

record comm_cfg =
  port1 :: int
  port2 :: int
  timeout :: int
  report_interval :: int
  socket_type :: int
  socket_addr :: string

definition zero_cfg :: comm_cfg where
  "zero_cfg = \<lparr>port1 = 0, port2 = 0, timeout = 0, report_interval = 0, socket_type = 0, socket_addr = []\<rparr>"

type_synonym my_array = "(string \<times> string) list"

text \<open>
  \<open>strncpy(cfg->socket_addr, value, 32)\<close>: of a value of 32 characters or more no terminating
  NUL remains, and the code reads what follows the structure; the model ends the text there.
\<close>

definition cfg_entry :: "comm_cfg \<Rightarrow> string \<times> string \<Rightarrow> comm_cfg" where
  "cfg_entry cfg nv = (let n = fst nv; v = snd nv in
     if n = ''Timeout'' then cfg\<lparr>timeout := atoi v\<rparr>
     else if n = ''Report_Interval'' then cfg\<lparr>report_interval := atoi v\<rparr>
     else if n = ''Domain'' then
       (if v \<noteq> [] then cfg\<lparr>socket_type := 1, socket_addr := take 32 v\<rparr> else cfg\<lparr>socket_type := 0\<rparr>)
     else if n = ''IP'' then (if socket_type cfg \<noteq> 1 then cfg\<lparr>socket_addr := take 32 v\<rparr> else cfg)
     else if n = ''Port1'' then cfg\<lparr>port1 := atoi v\<rparr>
     else if n = ''Port2'' then cfg\<lparr>port2 := atoi v\<rparr>
     else cfg)"

definition get_cfg :: "comm_cfg \<Rightarrow> my_array \<Rightarrow> comm_cfg" where
  "get_cfg cfg array = foldl cfg_entry cfg (takeWhile (\<lambda>nv. fst nv \<noteq> []) array)"

definition save_entry :: "comm_cfg \<Rightarrow> string \<times> string \<Rightarrow> string \<times> string" where
  "save_entry cfg nv = (let n = fst nv in
     if n = ''Timeout'' then (n, fmt_d (timeout cfg))
     else if n = ''Report_Interval'' then (n, fmt_d (report_interval cfg))
     else if n = ''Domain'' then (if socket_type cfg = 1 then (n, socket_addr cfg) else nv)
     else if n = ''IP'' then (if socket_type cfg = 0 then (n, socket_addr cfg) else nv)
     else if n = ''Port1'' then (n, fmt_d (port1 cfg))
     else if n = ''Port2'' then (n, fmt_d (port2 cfg))
     else nv)"

definition cfg_of_section :: "string \<Rightarrow> comm_cfg" where
  "cfg_of_section buffer = \<lparr>port1 = msg_field buffer 1 5, port2 = msg_field buffer 6 5,
     timeout = msg_field buffer 11 3, report_interval = msg_field buffer 14 2,
     socket_type = msg_field buffer 16 1, socket_addr = msg_text buffer 17 32\<rparr>"

definition save_cfg :: "my_array \<Rightarrow> string \<Rightarrow> my_array" where
  "save_cfg array buffer = map (save_entry (cfg_of_section buffer)) array"

section \<open>A106: reading the parameters\<close>

definition path_client_con :: string where
  "path_client_con = ''/YUNENG/CLIENT.CON''"

definition path_datacent :: string where
  "path_datacent = ''/YUNENG/DATACENT.CON''"

definition path_control :: string where
  "path_control = ''/YUNENG/CONTROL.CON''"

definition cfg_section :: "string \<Rightarrow> comm_cfg \<Rightarrow> string" where
  "cfg_section type cfg =
     msgcat_d (msgcat_d (msgcat_d (msgcat_d (msgcat_d type 5 (port1 cfg)) 5 (port2 cfg))
       3 (timeout cfg)) 2 (report_interval cfg)) 1 (socket_type cfg) @ socket_addr cfg @ ''END''"

text \<open>
  The first section joins the time-out and interval of one file with the address of another;
  it is only reported when the second file exists.
\<close>

definition response_comm_config :: "string \<Rightarrow> (int \<times> string) ecu" where
  "response_comm_config r = do {
     emit MutexTake;
     (e1, a1) \<leftarrow> file_get_array 6 path_client_con;
     let cfg1 = (if e1 = 0 then get_cfg zero_cfg a1 else zero_cfg\<lparr>timeout := 10, report_interval := 5\<rparr>);
     (e2, a2) \<leftarrow> file_get_array 6 path_datacent;
     let cfg1' = (if e2 = 0 then get_cfg cfg1 a2 else cfg1);
     (e3, a3) \<leftarrow> file_get_array 6 path_control;
     let cfg2 = (if e3 = 0 then get_cfg zero_cfg a3 else zero_cfg);
     let num = (if e2 = 0 then 1 else 0) + (if e3 = 0 then 1 else 0);
     i \<leftarrow> gets ecu_id;
     let out = msgcat_s (msgcat_d (msgcat_s (msg_Header ''A106'') 12 i) 1 num) 14 (msg_text r 34 14) @ ''END''
       @ (if e2 = 0 then cfg_section ''1'' cfg1' else [])
       @ (if e3 = 0 then cfg_section ''2'' cfg2 else []);
     emit MutexRelease;
     ret (0, out) }"

section \<open>A107: setting the parameters\<close>

definition TYPE_CLIENT :: nat where
  "TYPE_CLIENT = 6"

definition cfg_names :: my_array where
  "cfg_names = [(''Timeout'', []), (''Report_Interval'', []), (''Domain'', []), (''IP'', []),
     (''Port1'', []), (''Port2'', [])]"

text \<open>
  One section of the command, with the array of names and values as the sections before left
  it; \<open>file_get_array\<close> clears the part of the array it is given, names included.
\<close>

definition set_section :: "my_array \<Rightarrow> string \<Rightarrow> (my_array \<times> bool) ecu" where
  "set_section array buffer = (let type = msg_get_int buffer 1 in
     if type = 1 then do {
       (e, a) \<leftarrow> file_get_array 4 path_datacent;
       let array' = save_cfg (take 2 array @ a) buffer;
       file_set_array (take 2 array') path_client_con;
       file_set_array (drop 2 array') path_datacent;
       emit (RestartThread 10 TYPE_CLIENT);
       emit (RebootTimer 10);
       ret (array', True) }
     else if type = 2 then do {
       (e, a) \<leftarrow> file_get_array 6 path_control;
       let array' = save_cfg a buffer;
       file_set_array array' path_control;
       emit (RebootTimer 10);
       ret (array', True) }
     else ret (array, False))"

text \<open>
  \<open>while(comm_cfg_num--)\<close>: the sections start at \<open>cfg_begin\<close>; one without its \<open>END\<close> advances by
  two characters only. What lies beyond the end of the message is empty here.
\<close>

fun set_sections :: "nat \<Rightarrow> nat \<Rightarrow> my_array \<Rightarrow> int \<Rightarrow> string \<Rightarrow> int ecu" where
  "set_sections 0 cfg_begin array ack r = ret ack"
| "set_sections (Suc n) cfg_begin array ack r = (let (k, buffer) = msg_get_one_section (drop cfg_begin r) in do {
     (array', ok) \<leftarrow> set_section array buffer;
     set_sections n (nat (int cfg_begin + k + 3)) array' (if ok then ack else FORMAT_ERROR) r })"

text \<open>A number of sections that is absent is -1, and the loop counts from there through the whole range.\<close>

definition set_comm_config :: "string \<Rightarrow> (int \<times> string) ecu" where
  "set_comm_config r = do {
     emit MutexTake;
     ack \<leftarrow> set_sections (nat (msg_field r 30 1 mod 2 ^ 32)) 48 cfg_names SUCCESS r;
     a \<leftarrow> answer 106 ''A107'' (msg_text r 31 14) ack;
     emit MutexRelease;
     ret a }"

section \<open>A108: running a command line\<close>

definition CMD_ERROR :: int where
  "CMD_ERROR = 4"

definition TYPE_UPDATE :: nat where "TYPE_UPDATE = 3"
definition TYPE_IDWRITE :: nat where "TYPE_IDWRITE = 4"
definition TYPE_NTP :: nat where "TYPE_NTP = 8"

text \<open>FAT compares names without case; the files of the model have upper-case names.\<close>

definition upper :: "string \<Rightarrow> string" where
  "upper p = map (\<lambda>c. if 97 \<le> code c \<and> code c \<le> 122 then chr (code c - 32) else c) p"

definition unlink :: "string \<Rightarrow> int ecu" where
  "unlink p = do {
     f \<leftarrow> read_file (upper p);
     (case f of None \<Rightarrow> ret (-1) | Some txt \<Rightarrow> do { remove_file (upper p); ret 0 }) }"

text \<open>
  \<open>splitSpace\<close>: the words between spaces; the last one is not terminated, so that what the row
  held before follows it. The last character of the destination is cut off. The array has
  three rows; a line with more than two spaces is outside the model.
\<close>

fun split_words :: "string \<Rightarrow> string list" where
  "split_words [] = [[]]"
| "split_words (c # cs) = (if c = CHR '' '' then [] # split_words cs
     else (case split_words cs of [] \<Rightarrow> [[c]] | w # ws \<Rightarrow> (c # w) # ws))"

definition space_row :: "indeterminate \<Rightarrow> string \<Rightarrow> nat \<Rightarrow> string" where
  "space_row junk line n = (let ws = split_words line in
     if n + 1 < length ws then ws ! n
     else if n + 1 = length ws then ws ! n @ drop (length (ws ! n)) (any_row junk n)
     else any_row junk n)"

definition splitSpace :: "indeterminate \<Rightarrow> string \<Rightarrow> string \<times> string" where
  "splitSpace junk line = (cstr (space_row junk line 1), butlast (cstr (space_row junk line 2)))"

text \<open>\<open>rm\<close> without a space and a name makes the code copy a negative number of characters; the model
  takes the name as empty.\<close>

definition mysystem :: "indeterminate \<Rightarrow> string \<Rightarrow> int ecu" where
  "mysystem junk command = do {
     res \<leftarrow> (if memeq command ''reboot'' 6 then do { emit (RebootTimer 10); ret 0 }
       else if memeq command ''restart UPDATE'' 14 then do { emit (RestartThread 10 TYPE_UPDATE); ret 0 }
       else if memeq command ''restart IDWRITE'' 15 then do { emit (RestartThread 10 TYPE_IDWRITE); ret 0 }
       else if memeq command ''restart MAIN'' 12 then do { emit (RestartThread 10 TYPE_MAIN); ret 0 }
       else if memeq command ''restart CLIENT'' 14 then do { emit (RestartThread 10 TYPE_CLIENT); ret 0 }
       else if memeq command ''restart NTP'' 11 then do { emit (RestartThread 10 TYPE_NTP); ret 0 }
       else if memeq command ''ftpput'' 6 then
         (let (src, dst) = splitSpace junk command in do { emit (FtpThread True src dst); ret 0 })
       else if memeq command ''ftpget'' 6 then
         (let (src, dst) = splitSpace junk command in do { emit (FtpThread False src dst); ret 0 })
       else if memeq command ''rm'' 2 then unlink (drop 3 command)
       else ret (any_int junk));
     ret (if res = 0 then SUCCESS else CMD_ERROR) }"

text \<open>The command line \<open>quit\<close> ends the session.\<close>

definition custom_command :: "indeterminate \<Rightarrow> string \<Rightarrow> (int \<times> string) ecu" where
  "custom_command junk r = (let (n, command) = msg_get_one_section (drop 47 r); timestamp = msg_text r 30 14 in
     if n \<le> 0 then answer 0 ''A108'' timestamp FORMAT_ERROR
     else if take 4 command = ''quit'' then answer (-1) ''A108'' timestamp SUCCESS
     else do { ack \<leftarrow> mysystem junk (cstr command); answer 0 ''A108'' timestamp ack })"

end
