(* ===== verification/Comm_Spec.thy ===== *)
theory Comm_Spec
  imports Comm_Config
begin

text \<open>
  Setting the communication parameters (A107) and reading them (A106): what was set is what is
  read, unless the file of the parameters is missing, where the command destroys the settings
  and still acknowledges success.
\<close>

section \<open>The parameters of a file\<close>

definition control_cfg :: "ecu_state \<Rightarrow> comm_cfg" where
  "control_cfg s = get_cfg zero_cfg (snd (result (file_get_array 6 path_control) s))"

definition param_array :: "string \<Rightarrow> string \<Rightarrow> string \<Rightarrow> string \<Rightarrow> string \<Rightarrow> string \<Rightarrow> my_array" where
  "param_array t i d p p1 p2 = [(''Timeout'', t), (''Report_Interval'', i), (''Domain'', d), (''IP'', p),
     (''Port1'', p1), (''Port2'', p2)]"

lemma pair_ok_number:
  assumes "length n < 32" "\<forall>c \<in> set n. c \<noteq> CHR ''='' \<and> c \<noteq> NL \<and> c \<noteq> NUL" "w \<le> 5"
  shows "pair_ok (n, fmt_d (msg_field buffer off w))"
proof -
  let ?v = "msg_field buffer off w"
  have "(10::int) ^ w \<le> 10 ^ 5" using assms(3) by (intro power_increasing) simp_all
  then have "\<bar>?v\<bar> < 10 ^ 10"
    using msg_get_int_bound[where s = "drop off buffer" and n = w] by (simp add: msg_field_def abs_if)
  then have "length (fmt_d ?v) \<le> 11" using length_fmt_d[of ?v 10] by simp
  moreover have "c \<noteq> NL \<and> c \<noteq> NUL" if "c \<in> set (fmt_d ?v)" for c
    using fmt_d_plain[OF that] by (auto simp: plain_char_def NL_def NUL_def)
  ultimately show ?thesis using assms(1,2) by (simp add: pair_ok_def)
qed

text \<open>The section of the command, saved over the parameters of the file.\<close>

lemma saved_array:
  assumes "socket_type (cfg_of_section buffer) = 1"
  shows "save_cfg (param_array t i d p p1 p2) buffer
    = param_array (fmt_d (msg_field buffer 11 3)) (fmt_d (msg_field buffer 14 2)) (msg_text buffer 17 32) p
        (fmt_d (msg_field buffer 1 5)) (fmt_d (msg_field buffer 6 5))"
  using assms by (simp add: save_cfg_def param_array_def save_entry_def cfg_of_section_def)

lemma saved_ok:
  assumes "pair_ok (''IP'', p)" "NL \<notin> set (msg_text buffer 17 32)"
  shows "\<forall>nv \<in> set (param_array (fmt_d (msg_field buffer 11 3)) (fmt_d (msg_field buffer 14 2)) (msg_text buffer 17 32) p
        (fmt_d (msg_field buffer 1 5)) (fmt_d (msg_field buffer 6 5))). pair_ok nv"
proof -
  have "NUL \<notin> set (msg_text buffer 17 32)"
    using no_nul_cstr[of "drop 17 buffer"] by (auto simp: msg_text_def no_nul_def dest: in_set_takeD)
  then have "pair_ok (''Domain'', msg_text buffer 17 32)"
    using assms(2) by (auto simp: pair_ok_def msg_text_def NL_def NUL_def)
  moreover have "pair_ok (''Timeout'', fmt_d (msg_field buffer 11 3))" "pair_ok (''Report_Interval'', fmt_d (msg_field buffer 14 2))"
    "pair_ok (''Port1'', fmt_d (msg_field buffer 1 5))" "pair_ok (''Port2'', fmt_d (msg_field buffer 6 5))"
    by (rule pair_ok_number; simp add: NL_def NUL_def)+
  ultimately show ?thesis using assms(1) by (simp add: param_array_def)
qed

lemma cfg_of_saved:
  assumes "msg_text buffer 17 32 \<noteq> []" "socket_type (cfg_of_section buffer) = 1"
  shows "get_cfg zero_cfg (param_array (fmt_d (msg_field buffer 11 3)) (fmt_d (msg_field buffer 14 2))
      (msg_text buffer 17 32) p (fmt_d (msg_field buffer 1 5)) (fmt_d (msg_field buffer 6 5)))
    = cfg_of_section buffer"
  using assms by (simp add: get_cfg_def param_array_def cfg_entry_def cfg_of_section_def zero_cfg_def msg_text_def)

section \<open>The command\<close>

text \<open>A command with one section, for the control client.\<close>

definition control_section :: "string \<Rightarrow> string \<Rightarrow> bool" where
  "control_section r buffer = (msg_field r 30 1 = 1 \<and> msg_get_int buffer 1 = 2
     \<and> (\<exists>k. msg_get_one_section (drop 48 r) = (k, buffer)))"

lemma one_section:
  fixes s
  assumes "control_section r buffer"
  defines "s' \<equiv> s\<lparr>trace := trace s @ [MutexTake]\<rparr>"
  shows "result (set_comm_config r) s = (106, msg_ACK (ecu_id s) ''A107'' (msg_text r 31 14) SUCCESS)
     \<and> files (exec (set_comm_config r) s)
        = files (exec (file_set_array (save_cfg (snd (result (file_get_array 6 path_control) s')) buffer) path_control) s')"
proof -
  obtain k where k: "msg_field r 30 1 = 1" "msg_get_int buffer 1 = 2" "msg_get_one_section (drop 48 r) = (k, buffer)"
    using assms(1) by (auto simp: control_section_def)
  have ro: "exec (file_get_array 6 path_control) t = t" for t
    by (simp add: file_get_array_def read_file_def Let_def split: option.splits)
  have ids: "ecu_id (exec (file_set_array a p) t) = ecu_id t" "ecu_id (exec (emit e) t) = ecu_id t"
    "files (exec (emit e) t) = files t" "ecu_id s' = ecu_id s" for a p t e
    by (simp_all add: file_set_array_def write_file_def emit_def s'_def)
  show ?thesis
    using k ids ro
    by (simp add: set_comm_config_def set_section_def answer_def emit_def s'_def exec_bind result_bind case_prod_beta
        Let_def del: run_state_bind)
qed



end
