(* ===== verification/C_Float.thy ===== *)
theory C_Float
  imports Ecu_Prelude "HOL-Library.Log_Nat"
begin

text \<open>
  Floating-point numbers as the C code uses them: a \<open>float\<close> or \<open>double\<close> is the rational number
  it stands for, and an operation is the exact one followed by rounding to the nearest number
  with 24 (or 53) significant bits, ties to even. The code that is modelled stays far from
  the bounds of the exponents, so that overflow and subnormal numbers do not arise.
\<close>

section \<open>Rounding\<close>

definition pow2 :: "int \<Rightarrow> rat" where
  "pow2 e = (if 0 \<le> e then 2 ^ nat e else 1 / 2 ^ nat (- e))"

text \<open>The exponent of the leading bit of a positive number.\<close>

definition lead :: "rat \<Rightarrow> int" where
  "lead x = (case quotient_of x of (a, b) \<Rightarrow>
     (let k = bitlen a - bitlen b in if pow2 k \<le> x then k else k - 1))"

definition half_even :: "rat \<Rightarrow> int" where
  "half_even x = (let n = \<lfloor>x\<rfloor>; d = x - of_int n in
     if d < 1 / 2 then n else if 1 / 2 < d then n + 1 else if even n then n else n + 1)"

definition round_to :: "nat \<Rightarrow> rat \<Rightarrow> rat" where
  "round_to p x = (if x = 0 then 0
     else (let e = lead \<bar>x\<bar> - int p + 1 in sgn x * (of_int (half_even (\<bar>x\<bar> / pow2 e)) * pow2 e)))"

abbreviation f32 :: "rat \<Rightarrow> rat" where
  "f32 \<equiv> round_to 24"

abbreviation f64 :: "rat \<Rightarrow> rat" where
  "f64 \<equiv> round_to 53"

text \<open>The conversion \<open>(int)x\<close> cuts off the fraction.\<close>

definition to_int :: "rat \<Rightarrow> int" where
  "to_int x = (if x < 0 then - \<lfloor>- x\<rfloor> else \<lfloor>x\<rfloor>)"

section \<open>Printing and reading\<close>

text \<open>\<open>%.nf\<close>: the exact value rounded to \<open>n\<close> decimals.\<close>

definition fmt_f :: "nat \<Rightarrow> rat \<Rightarrow> string" where
  "fmt_f n x = (let k = nat (half_even (\<bar>x\<bar> * 10 ^ n)) in
     (if x < 0 then ''-'' else []) @ dec (k div 10 ^ n)
       @ (if n = 0 then [] else ''.'' @ pad0 n (dec (k mod 10 ^ n))))"

text \<open>
  \<open>atof\<close>: an optional sign, digits with an optional point, and an optional exponent. What
  is not a number reads as 0. Infinities, NaN and hexadecimal forms are outside the model.
\<close>

definition read_exponent :: "string \<Rightarrow> int" where
  "read_exponent s = (case s of [] \<Rightarrow> 0
    | c # cs \<Rightarrow> if c = CHR ''e'' \<or> c = CHR ''E'' then
        (let body = (if cs \<noteq> [] \<and> (hd cs = CHR ''-'' \<or> hd cs = CHR ''+'') then tl cs else cs);
             n = int (digits_val 0 (takeWhile is_digit body)) in
         if cs \<noteq> [] \<and> hd cs = CHR ''-'' then - n else n)
      else 0)"

definition pow10 :: "int \<Rightarrow> rat" where
  "pow10 e = (if 0 \<le> e then 10 ^ nat e else 1 / 10 ^ nat (- e))"

definition read_unsigned :: "string \<Rightarrow> rat" where
  "read_unsigned s = (let w = takeWhile is_digit s; r = dropWhile is_digit s;
     point = (r \<noteq> [] \<and> hd r = CHR ''.'');
     fr = (if point then takeWhile is_digit (tl r) else []);
     rest = (if point then dropWhile is_digit (tl r) else r) in
     if w = [] \<and> fr = [] then 0
     else of_nat (digits_val 0 (w @ fr)) * pow10 (read_exponent rest - int (length fr)))"

definition atof :: "string \<Rightarrow> rat" where
  "atof s = (case dropWhile is_space s of
      [] \<Rightarrow> 0
    | c # cs \<Rightarrow> f64 (if c = CHR ''-'' then - read_unsigned cs
        else if c = CHR ''+'' then read_unsigned cs else read_unsigned (c # cs)))"

section \<open>Laws of rounding\<close>

lemma pow2_pos [simp]: "0 < pow2 e"
  by (simp add: pow2_def)

lemma pow2_nonneg [simp]: "0 \<le> pow2 e"
  by (simp add: pow2_def)

lemma pow2_not_neg [simp]: "\<not> pow2 e < 0"
  by (simp add: not_less)

lemma abs_pow2 [simp]: "\<bar>pow2 e\<bar> = pow2 e"
  by simp

lemma pow2_add: "pow2 (a + b) = pow2 a * pow2 b"
proof -
  have n: "pow2 e = 2 powi e" for e
    by (simp add: pow2_def power_int_def field_simps)
  show ?thesis by (simp add: n power_int_add)
qed

lemma pow2_nat: "pow2 (int n) = 2 ^ n"
  by (simp add: pow2_def)

lemma half_even_near: "\<bar>of_int (half_even x) - x\<bar> \<le> 1 / 2"
proof -
  define d where "d = x - of_int \<lfloor>x\<rfloor>"
  have "0 \<le> d" "d < 1" unfolding d_def by linarith+
  moreover have "half_even x = (if d < 1 / 2 then \<lfloor>x\<rfloor> else if 1 / 2 < d then \<lfloor>x\<rfloor> + 1
      else if even \<lfloor>x\<rfloor> then \<lfloor>x\<rfloor> else \<lfloor>x\<rfloor> + 1)"
    by (simp add: half_even_def Let_def d_def)
  moreover have "of_int (half_even x) - x = of_int (half_even x - \<lfloor>x\<rfloor>) - d" by (simp add: d_def)
  ultimately show ?thesis by (auto simp: abs_if split: if_splits)
qed

lemma half_even_of_int [simp]: "half_even (of_int n) = n"
  by (simp add: half_even_def)

lemma half_even_unique: "\<bar>of_int n - x\<bar> < 1 / 2 \<Longrightarrow> half_even x = n"
proof -
  assume "\<bar>of_int n - x\<bar> < 1 / 2"
  moreover have "\<bar>of_int (half_even x) - x\<bar> \<le> 1 / 2" by (rule half_even_near)
  ultimately have "\<bar>(of_int (half_even x) :: rat) - of_int n\<bar> < 1" by linarith
  then show ?thesis by linarith
qed

lemma lead_bounds:
  assumes "0 < x"
  shows "pow2 (lead x) \<le> x" "x < pow2 (lead x + 1)"
proof -
  obtain a b where q: "quotient_of x = (a, b)" by (cases "quotient_of x")
  have b: "0 < b" using quotient_of_denom_pos[OF q] .
  have x: "x = of_int a / of_int b" using quotient_of_div[OF q] .
  have a: "0 < a" using assms b x by (simp add: zero_less_divide_iff)
  define m n where "m = bitlen a" and "n = bitlen b"
  have pos: "0 < m" "0 < n"
    using a b bitlen_nonneg[of a] bitlen_nonneg[of b] bitlen_eq_zero_iff[of a] bitlen_eq_zero_iff[of b]
    unfolding m_def n_def by linarith+
  have A: "pow2 (m - 1) \<le> of_int a" "of_int a < pow2 m"
  proof -
    have "2 ^ nat (m - 1) \<le> a \<and> a < 2 ^ nat m" using bitlen_bounds[OF a] by (simp add: m_def)
    moreover have "pow2 (m - 1) = of_int (2 ^ nat (m - 1))" "pow2 m = of_int (2 ^ nat m)"
      using pos by (simp_all add: pow2_def)
    ultimately show "pow2 (m - 1) \<le> of_int a" "of_int a < pow2 m" by (simp_all only: of_int_le_iff of_int_less_iff)
  qed
  have B: "pow2 (n - 1) \<le> of_int b" "of_int b < pow2 n"
  proof -
    have "2 ^ nat (n - 1) \<le> b \<and> b < 2 ^ nat n" using bitlen_bounds[OF b] by (simp add: n_def)
    moreover have "pow2 (n - 1) = of_int (2 ^ nat (n - 1))" "pow2 n = of_int (2 ^ nat n)"
      using pos by (simp_all add: pow2_def)
    ultimately show "pow2 (n - 1) \<le> of_int b" "of_int b < pow2 n" by (simp_all only: of_int_le_iff of_int_less_iff)
  qed
  have lo: "pow2 (m - n - 1) \<le> x"
  proof -
    have "pow2 (m - n - 1) * of_int b \<le> pow2 (m - n - 1) * pow2 n"
      using B(2) by (intro mult_left_mono) auto
    also have "\<dots> = pow2 (m - 1)" by (simp add: pow2_add[symmetric])
    finally have "pow2 (m - n - 1) * of_int b \<le> of_int a" using A(1) by simp
    then show ?thesis using b by (simp add: x pos_le_divide_eq)
  qed
  have hi: "x < pow2 (m - n + 1)"
  proof -
    have "pow2 m = pow2 (m - n + 1) * pow2 (n - 1)" by (simp add: pow2_add[symmetric])
    also have "\<dots> \<le> pow2 (m - n + 1) * of_int b" using B(1) by (intro mult_left_mono) (auto intro: less_imp_le)
    finally have "of_int a < pow2 (m - n + 1) * of_int b" using A(2) by simp
    then show ?thesis using b by (simp add: x pos_divide_less_eq)
  qed
  have l: "lead x = (if pow2 (m - n) \<le> x then m - n else m - n - 1)"
    by (simp add: lead_def q m_def n_def)
  show "pow2 (lead x) \<le> x" "x < pow2 (lead x + 1)" using lo hi by (auto simp: l)
qed

text \<open>The relative error of a rounding to \<open>p\<close> bits.\<close>

lemma round_to_error: "\<bar>round_to p x - x\<bar> \<le> \<bar>x\<bar> / 2 ^ p"
proof (cases "x = 0")
  case False
  define y e where "y = \<bar>x\<bar>" and "e = lead y - int p + 1"
  have y: "0 < y" "x = sgn x * y" using False by (simp_all add: y_def sgn_mult_abs)
  have "\<bar>round_to p x - x\<bar> = \<bar>of_int (half_even (y / pow2 e)) * pow2 e - y\<bar>"
  proof -
    have "round_to p x - x = sgn x * (of_int (half_even (y / pow2 e)) * pow2 e - y)"
      using False y(2) by (simp add: round_to_def y_def e_def Let_def right_diff_distrib)
    then show ?thesis using False by (simp add: abs_mult abs_sgn_eq)
  qed
  also have "\<dots> = \<bar>of_int (half_even (y / pow2 e)) - y / pow2 e\<bar> * pow2 e"
  proof -
    have "of_int (half_even (y / pow2 e)) * pow2 e - y = (of_int (half_even (y / pow2 e)) - y / pow2 e) * pow2 e"
      using pow2_pos[of e] by (simp add: left_diff_distrib less_imp_neq[symmetric])
    then show ?thesis by (simp add: abs_mult)
  qed
  also have "\<dots> \<le> 1 / 2 * pow2 e" using half_even_near by (intro mult_right_mono) (auto intro: less_imp_le)
  also have "\<dots> = pow2 (lead y) / 2 ^ p"
  proof -
    have "pow2 e * 2 ^ p = pow2 (lead y + 1)" by (simp add: pow2_nat[symmetric] pow2_add[symmetric] e_def)
    also have "\<dots> = pow2 (lead y) * 2" by (subst pow2_add) (simp add: pow2_def)
    finally show ?thesis by (simp add: field_simps)
  qed
  also have "\<dots> \<le> \<bar>x\<bar> / 2 ^ p" using lead_bounds(1)[OF y(1)] by (simp add: y_def divide_right_mono)
  finally show ?thesis .
qed (simp add: round_to_def)

lemma round_to_nonneg: "0 \<le> x \<Longrightarrow> 0 \<le> round_to p x"
proof -
  assume "0 \<le> x"
  moreover have "0 \<le> half_even y" if "0 \<le> y" for y
    using that by (auto simp: half_even_def Let_def)
  ultimately show ?thesis by (auto simp: round_to_def Let_def less_imp_le intro!: mult_nonneg_nonneg)
qed

text \<open>Rounding with a known exponent.\<close>

lemma lead_unique: "pow2 e \<le> x \<Longrightarrow> x < pow2 (e + 1) \<Longrightarrow> lead x = e"
proof -
  assume x: "pow2 e \<le> x" "x < pow2 (e + 1)"
  have mono: "pow2 a \<le> pow2 b" if "a \<le> b" for a b
  proof -
    have "pow2 b = pow2 a * pow2 (b - a)" using pow2_add[of a "b - a"] by simp
    moreover have "1 \<le> pow2 (b - a)" using that by (simp add: pow2_def)
    then have "pow2 a * 1 \<le> pow2 a * pow2 (b - a)" by (rule mult_left_mono) simp
    ultimately show ?thesis by simp
  qed
  have p: "0 < x" using x(1) pow2_pos[of e] by linarith
  have "\<not> lead x < e"
    using mono[of "lead x + 1" e] lead_bounds(2)[OF p] x(1) by auto
  moreover have "\<not> e < lead x"
    using mono[of "e + 1" "lead x"] lead_bounds(1)[OF p] x(2) by auto
  ultimately show ?thesis by simp
qed

lemma round_to_at:
  assumes "pow2 (e + int p - 1) \<le> x" "x < pow2 (e + int p)"
  shows "round_to p x = of_int (half_even (x / pow2 e)) * pow2 e"
proof -
  have "0 < x" using assms(1) pow2_pos[of "e + int p - 1"] by linarith
  moreover have "lead x = e + int p - 1" using assms by (intro lead_unique) simp_all
  ultimately show ?thesis by (simp add: round_to_def Let_def)
qed

text \<open>An integer of at most \<open>p\<close> bits is not changed.\<close>

lemma round_to_int:
  assumes "0 \<le> n" "n < 2 ^ p"
  shows "round_to p (of_int n) = of_int n"
proof (cases "n = 0")
  case False
  define x :: rat where "x = of_int n"
  have x: "0 < x" using False assms(1) by (simp add: x_def)
  have "lead x < int p"
  proof (rule ccontr)
    assume "\<not> lead x < int p"
    then have "lead x = int p + int (nat (lead x - int p))" by simp
    then have "pow2 (lead x) = 2 ^ p * 2 ^ nat (lead x - int p)" by (metis pow2_add pow2_nat)
    moreover have "(1::rat) \<le> 2 ^ nat (lead x - int p)" by simp
    ultimately have "2 ^ p * 1 \<le> pow2 (lead x)" by (metis mult_left_mono zero_le_power zero_le_numeral)
    then have "(2::rat) ^ p \<le> x" using lead_bounds(1)[OF x] by simp
    then have "(of_int (2 ^ p) :: rat) \<le> of_int n" by (simp add: x_def)
    then show False using assms(2) by (simp only: of_int_le_iff)
  qed
  define k where "k = nat (int p - 1 - lead x)"
  have k: "lead x - int p + 1 = - int k" using \<open>lead x < int p\<close> by (simp add: k_def)
  have d: "x / pow2 (- int k) = of_int (n * 2 ^ k)" by (simp add: pow2_def x_def)
  have "round_to p x = of_int (half_even (x / pow2 (- int k))) * pow2 (- int k)"
    using x k by (simp add: round_to_def Let_def)
  also have "\<dots> = of_int (n * 2 ^ k) * pow2 (- int k)" by (simp only: d half_even_of_int)
  also have "\<dots> = x" by (simp add: pow2_def x_def)
  finally show ?thesis by (simp add: x_def)
qed (simp add: round_to_def)

lemma to_int_near:
  assumes "0 \<le> x" "\<bar>x - of_int n\<bar> < 1"
  shows "to_int x = n \<or> to_int x = n - 1"
proof -
  have "of_int (n - 1) < x" "x < of_int (n + 1)" using assms(2) by (auto simp: abs_if split: if_splits)
  then have "\<lfloor>x\<rfloor> = n \<or> \<lfloor>x\<rfloor> = n - 1" by linarith
  then show ?thesis using assms(1) by (simp add: to_int_def)
qed

text \<open>Rounding errors as linear bounds.\<close>

lemma f32_error:
  assumes "0 \<le> x"
  shows "f32 x \<le> x + x / 16777216" "x - x / 16777216 \<le> f32 x" "0 \<le> f32 x"
  using round_to_error[of 24 x] assms round_to_nonneg[OF assms, of 24] by (auto simp: abs_if split: if_splits)

lemma f64_error:
  assumes "0 \<le> x"
  shows "f64 x \<le> x + x / 16777216" "x - x / 16777216 \<le> f64 x" "0 \<le> f64 x"
proof -
  have "\<bar>f64 x - x\<bar> \<le> x / 2 ^ 53" using round_to_error[of 53 x] assms by simp
  also have "\<dots> \<le> x / 16777216" using assms by (intro divide_left_mono) auto
  finally show "f64 x \<le> x + x / 16777216" "x - x / 16777216 \<le> f64 x" by (simp_all add: abs_if split: if_splits)
qed (rule round_to_nonneg[OF assms])

section \<open>Reading what was printed\<close>

text \<open>What follows the decimals, such as the end of a line, is not read.\<close>

definition number_end :: "string \<Rightarrow> bool" where
  "number_end t = (t = [] \<or> hd t = NL \<or> hd t = CHR '','')"

lemma number_end_facts:
  assumes "number_end t"
  shows "takeWhile is_digit t = []" "dropWhile is_digit t = t" "read_exponent t = 0"
  using assms by (cases t; auto simp: number_end_def is_digit_def read_exponent_def NL_def)+

lemma atof_decimals_end:
  assumes "b < 10 ^ n" "0 < n" "number_end t"
  shows "atof (dec a @ ''.'' @ pad0 n (dec b) @ t) = f64 (of_nat (a * 10 ^ n + b) / 10 ^ n)"
proof -
  let ?s = "dec a @ ''.'' @ pad0 n (dec b) @ t"
  have len: "length (pad0 n (dec b)) = n" using length_dec_le[OF assms(1,2)] by (rule length_pad0)
  have dig: "is_digit c" if "c \<in> set (pad0 n (dec b))" for c
    using that by (rule pad0_digits) (rule dec_digits)
  obtain c cs where s: "dec a = c # cs" by (cases "dec a") auto
  have c: "is_digit c" using dec_digits[of c a] s by simp
  have tw: "takeWhile is_digit ?s = dec a" "dropWhile is_digit ?s = ''.'' @ pad0 n (dec b) @ t"
    using dec_digits by (auto simp: takeWhile_append dropWhile_append is_digit_def)
  have tp: "takeWhile is_digit (pad0 n (dec b) @ t) = pad0 n (dec b)" "dropWhile is_digit (pad0 n (dec b) @ t) = t"
    using dig number_end_facts(1,2)[OF assms(3)] by (simp_all add: takeWhile_append2 dropWhile_append2)
  have v: "digits_val 0 (dec a @ pad0 n (dec b)) = a * 10 ^ n + b"
    using digits_val_shift[of a "pad0 n (dec b)"] len by (simp add: digits_val_append)
  have "read_unsigned ?s = of_nat (a * 10 ^ n + b) / 10 ^ n"
    using tw tp v len assms(2) number_end_facts(3)[OF assms(3)]
    by (simp add: read_unsigned_def Let_def pow10_def
        del: takeWhile_eq_all_conv dropWhile_eq_Nil_conv)
  moreover have "atof ?s = f64 (read_unsigned ?s)"
    using digit_not_space[OF c] digit_not_sign[OF c] by (simp add: atof_def s)
  ultimately show ?thesis by (simp only:)
qed

lemma atof_decimals:
  assumes "b < 10 ^ n" "0 < n"
  shows "atof (dec a @ ''.'' @ pad0 n (dec b)) = f64 (of_nat (a * 10 ^ n + b) / 10 ^ n)"
  using atof_decimals_end[OF assms, of "[]"] by (simp add: number_end_def)

lemma half_even_nonneg: "0 \<le> x \<Longrightarrow> 0 \<le> half_even x"
  by (auto simp: half_even_def Let_def)

lemma fmt_f_chars: "c \<in> set (fmt_f n x) \<Longrightarrow> is_digit c \<or> c = CHR ''-'' \<or> c = CHR ''.''"
  by (auto simp: fmt_f_def Let_def split: if_splits dest: dec_digits intro: pad0_digits dec_digits)

lemma atof_fmt_f_end:
  assumes "0 \<le> x" "0 < n" "number_end t"
  shows "atof (fmt_f n x @ t) = f64 (of_int (half_even (x * 10 ^ n)) / 10 ^ n)"
proof -
  define k where "k = nat (half_even (x * 10 ^ n))"
  have k: "int k = half_even (x * 10 ^ n)" using assms(1) half_even_nonneg[of "x * 10 ^ n"] by (simp add: k_def)
  have "fmt_f n x = dec (k div 10 ^ n) @ ''.'' @ pad0 n (dec (k mod 10 ^ n))"
    using assms by (simp add: fmt_f_def k_def Let_def)
  moreover have "atof (dec (k div 10 ^ n) @ ''.'' @ pad0 n (dec (k mod 10 ^ n)) @ t)
      = f64 (of_nat (k div 10 ^ n * 10 ^ n + k mod 10 ^ n) / 10 ^ n)"
    using assms(2,3) by (intro atof_decimals_end) simp_all
  moreover have "(of_nat k :: rat) = of_int (half_even (x * 10 ^ n))" by (metis k of_int_of_nat_eq)
  ultimately show ?thesis by (simp only: div_mult_mod_eq append_assoc)
qed

lemma atof_fmt_f:
  assumes "0 \<le> x" "0 < n"
  shows "atof (fmt_f n x) = f64 (of_int (half_even (x * 10 ^ n)) / 10 ^ n)"
  using atof_fmt_f_end[OF assms, of "[]"] by (simp add: number_end_def)

end
