(* ===== verification/Ac_Protection.thy ===== *)
theory Ac_Protection
  imports Ema_Handlers C_Float
begin

text \<open>
  The commands A130, A131 and A132 for the seventeen grid protection parameters
  (\<open>ECU/control_client/src/inverter_ac_protection.c\<close>, \<open>get_protection_from_file\<close> of
  \<open>myfile.c\<close>). The static arrays \<open>pro_value\<close> and \<open>pro_flag\<close>, which every handler clears first,
  are one map from names to values of type \<open>float\<close>.
\<close>

definition pro_name :: "string list" where
  "pro_name = [''under_voltage_fast'', ''over_voltage_fast'', ''under_voltage_slow'', ''over_voltage_slow'',
     ''under_frequency_fast'', ''over_frequency_fast'', ''under_frequency_slow'', ''over_frequency_slow'',
     ''voltage_triptime_fast'', ''voltage_triptime_slow'', ''frequency_triptime_fast'',
     ''frequency_triptime_slow'', ''grid_recovery_time'', ''regulated_dc_working_point'',
     ''under_voltage_stage_2'', ''voltage_3_clearance_time'', ''start_time'']"

type_synonym parameters = "string \<rightharpoonup> rat"

definition path_setpropi :: string where
  "path_setpropi = ''/HOME/DATA/SETPROPI''"

section \<open>Values\<close>

definition float_div10 :: "rat \<Rightarrow> rat" where
  "float_div10 x = f32 (x / 10)"

definition float_mul10 :: "rat \<Rightarrow> rat" where
  "float_mul10 x = f32 (x * 10)"

text \<open>A field of the message as a value with some decimals; an absent one leaves the parameter unset.\<close>

definition get_ac_protection :: "string \<Rightarrow> string \<Rightarrow> nat \<Rightarrow> nat \<Rightarrow> parameters \<Rightarrow> parameters" where
  "get_ac_protection name s len decimal pro = (let value = msg_get_int s len in
     if name \<in> set pro_name \<and> 0 \<le> value
     then pro(name \<mapsto> (float_div10 ^^ decimal) (f32 (of_int value))) else pro)"

definition format_ecu_ac_protection :: "string \<Rightarrow> nat \<Rightarrow> parameters \<Rightarrow> int" where
  "format_ecu_ac_protection name decimal pro = (case pro name of
      None \<Rightarrow> -1
    | Some v \<Rightarrow> if name \<in> set pro_name then to_int ((float_mul10 ^^ decimal) v) else -1)"

section \<open>The files\<close>

text \<open>The first field of a line selects the first name it is a prefix of.\<close>

definition protection_line :: "parameters \<Rightarrow> string \<Rightarrow> parameters" where
  "protection_line pro l = (let fs = splitString (cstr l) in
     case find (\<lambda>n. take (length (fld fs 0)) n = fld fs 0) pro_name of
       None \<Rightarrow> pro
     | Some n \<Rightarrow> pro(n \<mapsto> f32 (atof (fld fs 1))))"

definition get_protection_from_file :: "parameters ecu" where
  "get_protection_from_file = do {
     f \<leftarrow> read_file path_setpropa;
     ret (case f of None \<Rightarrow> Map.empty
        | Some txt \<Rightarrow> foldl protection_line Map.empty (fgets_lines 199 txt)) }"

definition query_ecu_ac_protection :: "parameters ecu" where
  "query_ecu_ac_protection = get_protection_from_file"

definition set_names :: "parameters \<Rightarrow> string list" where
  "set_names pro = filter (\<lambda>n. pro n \<noteq> None) pro_name"

definition all_line :: "parameters \<Rightarrow> string \<Rightarrow> string" where
  "all_line pro n = n @ '','' @ fmt_f 2 (the (pro n)) @ '',1'' @ [NL]"

text \<open>A write to a file that could be opened takes place, so no error is counted.\<close>

definition save_ac_protection_all :: "parameters \<Rightarrow> int ecu" where
  "save_ac_protection_all pro = do {
     write_file path_setpropa (concat (map (all_line pro) (set_names pro)));
     ret 0 }"

definition num_line :: "parameters \<Rightarrow> string \<Rightarrow> string \<Rightarrow> string" where
  "num_line pro i n = i @ '','' @ n @ '','' @ fmt_f 6 (the (pro n)) @ '',1'' @ [NL]"

definition save_ac_protection_num :: "parameters \<Rightarrow> string \<Rightarrow> int \<Rightarrow> int ecu" where
  "save_ac_protection_num pro msg num = do {
     write_file path_setpropi (concat (map (\<lambda>k.
       concat (map (num_line pro (msg_text msg (k * 12) 12)) (set_names pro))) [0..<nat num]));
     ret 0 }"

section \<open>A130: reading the parameters of the unit\<close>

definition msgcat_parameter_range :: "string \<Rightarrow> string" where
  "msgcat_parameter_range msg = msgcat_s msg 30 (replicate 30 (CHR ''A''))"

definition query_ecu_maxpower :: int where
  "query_ecu_maxpower = -1"

definition cat_parameters :: "parameters \<Rightarrow> (string \<times> nat \<times> nat) list \<Rightarrow> string \<Rightarrow> string" where
  "cat_parameters pro ps msg =
     foldl (\<lambda>m (name, width, decimal). msgcat_d m width (format_ecu_ac_protection name decimal pro)) msg ps"

definition response_ecu_ac_protection_17 :: "string \<Rightarrow> (int \<times> string) ecu" where
  "response_ecu_ac_protection_17 r = do {
     emit MutexTake;
     pro \<leftarrow> query_ecu_ac_protection;
     i \<leftarrow> gets ecu_id;
     let head = msgcat_s (msgcat_s (msgcat_s (msg_Header ''A130'') 12 i) 14 (msg_text r 34 14)) 3 ''END'';
     let first = cat_parameters pro [(''under_voltage_slow'', 3, 0), (''over_voltage_slow'', 3, 0),
       (''under_frequency_slow'', 3, 1), (''over_frequency_slow'', 3, 1), (''grid_recovery_time'', 5, 0)] head;
     let second = cat_parameters pro [(''under_voltage_fast'', 3, 0), (''over_voltage_fast'', 3, 0),
       (''under_frequency_fast'', 3, 1), (''over_frequency_fast'', 3, 1),
       (''voltage_triptime_fast'', 6, 2), (''voltage_triptime_slow'', 6, 2),
       (''frequency_triptime_fast'', 6, 2), (''frequency_triptime_slow'', 6, 2),
       (''regulated_dc_working_point'', 3, 1), (''under_voltage_stage_2'', 3, 0),
       (''voltage_3_clearance_time'', 6, 2), (''start_time'', 5, 0)]
       (msgcat_d (msgcat_parameter_range first) 3 query_ecu_maxpower);
     emit MutexRelease;
     ret (0, msgcat_s second 3 ''END'') }"

section \<open>A132: setting the parameters\<close>

text \<open>Name, place, width and decimals of the fields, in the order of the code.\<close>

definition ac_fields :: "(string \<times> nat \<times> nat \<times> nat) list" where
  "ac_fields = [(''under_voltage_slow'', 50, 3, 0), (''over_voltage_slow'', 53, 3, 0),
     (''under_frequency_slow'', 56, 3, 1), (''over_frequency_slow'', 59, 3, 1),
     (''grid_recovery_time'', 62, 5, 0), (''under_voltage_fast'', 67, 3, 0),
     (''over_voltage_fast'', 70, 3, 0), (''under_frequency_fast'', 73, 3, 1),
     (''over_frequency_fast'', 76, 3, 1), (''voltage_triptime_fast'', 79, 6, 2),
     (''voltage_triptime_slow'', 85, 6, 2), (''frequency_triptime_fast'', 91, 6, 2),
     (''frequency_triptime_slow'', 97, 6, 2), (''regulated_dc_working_point'', 103, 3, 1),
     (''under_voltage_stage_2'', 106, 3, 0), (''voltage_3_clearance_time'', 109, 6, 2),
     (''start_time'', 115, 5, 0)]"

definition ac_parameters :: "string \<Rightarrow> parameters" where
  "ac_parameters r =
     foldl (\<lambda>pro (name, off, len, decimal). get_ac_protection name (drop off r) len decimal pro) Map.empty ac_fields"

definition set_inverter_ac_protection_17 :: "string \<Rightarrow> (int \<times> string) ecu" where
  "set_inverter_ac_protection_17 r = do {
     emit MutexTake;
     let pro = ac_parameters r;
     let inverter_num = msg_field r 44 3;
     if inverter_num = 0 then do {
       e \<leftarrow> save_ac_protection_all pro;
       a \<leftarrow> answer 130 ''A132'' (msg_text r 30 14) (if e > 0 then DB_ERROR else SUCCESS);
       emit MutexRelease;
       ret a }
     else do {
       ack \<leftarrow> (if \<not> msg_num_check (drop 123 r) inverter_num 12 False then ret FORMAT_ERROR
         else do { e \<leftarrow> save_ac_protection_num pro (drop 123 r) inverter_num;
                   ret (if e > 0 then DB_ERROR else SUCCESS) });
       a \<leftarrow> answer 0 ''A132'' (msg_text r 30 14) ack;
       emit MutexRelease;
       ret a } }"

section \<open>A131: having the parameters of the inverters read\<close>

definition read_inverter_ac_protection_17 :: "string \<Rightarrow> (int \<times> string) ecu" where
  "read_inverter_ac_protection_17 r = do {
     emit MutexTake;
     e \<leftarrow> file_set_one ''2'' path_presdata;
     a \<leftarrow> answer 0 ''A131'' (msg_text r 34 14) (if e \<noteq> 0 then FILE_ERROR else SUCCESS);
     emit MutexRelease;
     ret a }"

end
