(* ===== verification/Protection_Spec.thy ===== *)
theory Protection_Spec
  imports Ac_Protection
begin

text \<open>
  What a grid protection parameter set by the server becomes: the values with no or one
  decimal are reported back as they were set, those with two decimals may come back one unit
  of the last decimal too low, because the conversion to an integer cuts off.
\<close>

section \<open>Printing and reading two decimals\<close>

lemma fmt_two_decimals:
  assumes "0 \<le> x" "\<bar>of_int k - x * 100\<bar> < 1 / 2"
  shows "fmt_f 2 x = dec (nat k div 100) @ ''.'' @ pad0 2 (dec (nat k mod 100))"
  using assms half_even_unique[OF assms(2)] by (simp add: fmt_f_def Let_def)

lemma read_back_decimals:
  assumes "0 \<le> x" "\<bar>of_int k - x * 100\<bar> < 1 / 2" "0 \<le> k"
  shows "atof (fmt_f 2 x) = f64 (of_int k / 100)"
  using atof_fmt_f[of x 2] half_even_unique[OF assms(2)] assms(1) by simp

text \<open>A value as it is set, written to the file, read back and reported.\<close>

definition reported :: "nat \<Rightarrow> int \<Rightarrow> int" where
  "reported decimal v =
     to_int ((float_mul10 ^^ decimal) (f32 (atof (fmt_f 2 ((float_div10 ^^ decimal) (f32 (of_int v)))))))"

lemma reported_0:
  assumes "0 \<le> v" "v < 2 ^ 24"
  shows "reported 0 v = v"
proof -
  have f: "f32 (of_int v) = of_int v" using assms by (rule round_to_int)
  have "v < 2 ^ 53" using assms(2) by simp
  with assms(1) have g: "f64 (of_int v) = of_int v" by (rule round_to_int)
  have "atof (fmt_f 2 (of_int v)) = f64 (of_int (v * 100) / 100)"
    using assms by (intro read_back_decimals) auto
  then have "atof (fmt_f 2 (of_int v)) = of_int v" by (simp add: g)
  then show ?thesis using assms(1) by (simp add: reported_def f to_int_def)
qed

lemma reported_2:
  assumes "0 \<le> v" "v < 10 ^ 6"
  shows "reported 2 v = v \<or> reported 2 v = v - 1"
proof -
  define x where "x = rat_of_int v"
  have x: "0 \<le> x" "x \<le> 1000000" using assms by (simp_all add: x_def)
  have "v < 2 ^ 24" using assms by simp
  then have f: "f32 x = x" unfolding x_def using assms(1) by (intro round_to_int) auto
  define r1 r2 where "r1 = f32 (x / 10)" and "r2 = f32 (r1 / 10)"
  have r1: "r1 \<le> x / 10 + x / 10 / 16777216" "x / 10 - x / 10 / 16777216 \<le> r1" "0 \<le> r1"
    using f32_error[of "x / 10"] x by (simp_all add: r1_def)
  have r2: "r2 \<le> r1 / 10 + r1 / 10 / 16777216" "r1 / 10 - r1 / 10 / 16777216 \<le> r2" "0 \<le> r2"
    using f32_error[of "r1 / 10"] r1(3) by (simp_all add: r2_def)
  have "x - r2 * 100 < 1 / 2" "r2 * 100 - x < 1 / 2" using r1 r2 x by linarith+
  then have "\<bar>x - r2 * 100\<bar> < 1 / 2" unfolding abs_less_iff by linarith
  then have a: "atof (fmt_f 2 r2) = f64 (x / 100)"
    unfolding x_def using r2(3) assms(1) by (intro read_back_decimals) auto
  define g h where "g = f64 (x / 100)" and "h = f32 g"
  have g: "g \<le> x / 100 + x / 100 / 16777216" "x / 100 - x / 100 / 16777216 \<le> g" "0 \<le> g"
    using f64_error[of "x / 100"] x by (simp_all add: g_def)
  have h: "h \<le> g + g / 16777216" "g - g / 16777216 \<le> h" "0 \<le> h"
    using f32_error[OF g(3)] by (simp_all add: h_def)
  define m1 m2 where "m1 = f32 (h * 10)" and "m2 = f32 (m1 * 10)"
  have m1: "m1 \<le> h * 10 + h * 10 / 16777216" "h * 10 - h * 10 / 16777216 \<le> m1" "0 \<le> m1"
    using f32_error[of "h * 10"] h(3) by (simp_all add: m1_def)
  have m2: "m2 \<le> m1 * 10 + m1 * 10 / 16777216" "m1 * 10 - m1 * 10 / 16777216 \<le> m2" "0 \<le> m2"
    using f32_error[of "m1 * 10"] m1(3) by (simp_all add: m2_def)
  have "x - m2 < 1" "m2 - x < 1" using g h m1 m2 x by linarith+
  then have "\<bar>m2 - x\<bar> < 1" unfolding abs_less_iff by linarith
  then have "to_int m2 = v \<or> to_int m2 = v - 1" unfolding x_def by (rule to_int_near[OF m2(3)])
  moreover have "reported 2 v = to_int m2"
    using a f by (simp add: reported_def numeral_2_eq_2 float_div10_def float_mul10_def x_def r1_def r2_def g_def h_def
        m1_def m2_def)
  ultimately show ?thesis by simp
qed

text \<open>
  One decimal. In units of the last place \<open>u\<close> of \<open>v / 10\<close> that value is \<open>A / 5\<close> with an integer
  \<open>A\<close>, so it is rounded by at most 2/5; ten times that is at most half a unit of \<open>v\<close>, whose
  significand is even.
\<close>

lemma half_even_tie: "\<bar>x - of_int n\<bar> \<le> 1 / 2 \<Longrightarrow> even n \<Longrightarrow> half_even x = n"
proof (cases "\<bar>x - of_int n\<bar> < 1 / 2")
  case False
  assume a: "\<bar>x - of_int n\<bar> \<le> 1 / 2" "even n"
  then consider "x = of_int n + 1 / 2" | "x = of_int n - 1 / 2" using False by (auto simp: abs_if split: if_splits)
  then show ?thesis
  proof cases
    case 1
    then have "\<lfloor>x\<rfloor> = n" by linarith
    then show ?thesis using 1 a(2) by (simp add: half_even_def)
  next
    case 2
    then have "\<lfloor>x\<rfloor> = n - 1" by linarith
    then show ?thesis using 2 a(2) by (simp add: half_even_def)
  qed
qed (simp add: half_even_unique abs_minus_commute)

lemma round_to_ge:
  assumes "pow2 e \<le> x" "x < pow2 (e + 1)" "0 < p"
  shows "pow2 e \<le> round_to p x"
proof -
  let ?u = "pow2 (e - int p + 1)"
  have u: "pow2 e = of_int (2 ^ (p - 1)) * ?u"
    using assms(3) by (simp add: pow2_nat[symmetric] pow2_add[symmetric] of_nat_diff)
  have "round_to p x = of_int (half_even (x / ?u)) * ?u"
    using assms by (intro round_to_at) (simp_all add: algebra_simps)
  moreover have "2 ^ (p - 1) \<le> half_even (x / ?u)"
  proof -
    have "of_int (2 ^ (p - 1)) \<le> x / ?u" using assms(1) u by (simp add: pos_le_divide_eq)
    then have "2 ^ (p - 1) \<le> \<lfloor>x / ?u\<rfloor>" by (simp only: le_floor_iff)
    moreover have "\<lfloor>x / ?u\<rfloor> \<le> half_even (x / ?u)" by (simp add: half_even_def Let_def)
    ultimately show ?thesis by simp
  qed
  ultimately show ?thesis unfolding u by (simp only: mult_right_mono of_int_le_iff pow2_nonneg)
qed

lemma mul10_of_tenth:
  assumes "0 < v" "v < 1000"
  shows "f32 (f32 (f64 (of_int v / 10)) * 10) = of_int v"
proof -
  define x where "x = rat_of_int v / 10"
  define f where "f = lead x"
  define u where "u = pow2 (f - 23)"
  define C where "C = v * 2 ^ nat (18 - f)"
  have x: "0 < x" "x < 100" using assms by (simp_all add: x_def)
  have f: "pow2 f \<le> x" "x < pow2 (f + 1)" using lead_bounds[OF x(1)] by (simp_all add: f_def)
  have u: "0 < u" by (simp add: u_def)
  have scale: "pow2 (f - 23 + int k) = 2 ^ k * u" for k by (simp add: u_def pow2_add pow2_nat)
  have ends: "pow2 f = 2 ^ 23 * u" "pow2 (f + 1) = 2 ^ 24 * u"
    using scale[of 23] scale[of 24] by (simp_all add: add.commute)
  have "f < 7"
  proof (rule ccontr)
    assume "\<not> f < 7"
    then have "128 \<le> pow2 f" using power_increasing[of 7 "nat f" "2::rat"] by (simp add: pow2_def)
    then show False using f(1) x(2) by simp
  qed
  then have "pow2 (18 - f) = 2 ^ nat (18 - f)" by (simp add: pow2_def)
  moreover have "pow2 (18 - f) * (32 * u) = 1"
  proof -
    have "32 * u = pow2 (f - 18)" using scale[of 5] by simp
    then show ?thesis using pow2_add[of "18 - f" "f - 18"] by (simp add: pow2_def)
  qed
  ultimately have xC: "x = of_int C * (16 / 5) * u" by (simp add: x_def C_def field_simps)
  have y: "5 * 2 ^ 19 \<le> C" "C < 5 * 2 ^ 20"
  proof -
    have "2 ^ 23 * u \<le> of_int C * (16 / 5) * u" "of_int C * (16 / 5) * u < 2 ^ 24 * u"
      using f unfolding ends xC .
    then have "2 ^ 23 \<le> rat_of_int C * (16 / 5)" "rat_of_int C * (16 / 5) < 2 ^ 24"
      using u by (simp_all only: mult_le_cancel_right_pos mult_less_cancel_right_pos)
    then show "5 * 2 ^ 19 \<le> C" "C < 5 * 2 ^ 20" by simp_all
  qed
  define x' where "x' = f64 x"
  define n where "n = half_even (x' / u)"
  have e: "\<bar>x' / u - of_int C * (16 / 5)\<bar> \<le> 1 / 100"
  proof -
    have "\<bar>x' - x\<bar> \<le> x / 2 ^ 53" using round_to_error[of 53 x] x by (simp add: x'_def)
    then have "\<bar>x' - x\<bar> / u \<le> x / 2 ^ 53 / u" using u by (intro divide_right_mono) auto
    also have "x / 2 ^ 53 / u = of_int C * (16 / 5) / 2 ^ 53" using u by (simp add: xC)
    also have "\<dots> \<le> 1 / 100" using y(2) by simp
    finally have "\<bar>(x' - x) / u\<bar> \<le> 1 / 100" using u by simp
    moreover have "(x' - x) / u = x' / u - of_int C * (16 / 5)" using u by (simp add: xC diff_divide_distrib)
    ultimately show ?thesis by (simp only:)
  qed
  have "pow2 f \<le> x'" unfolding x'_def using f by (intro round_to_ge) simp_all
  moreover have "x' < pow2 (f + 1)"
  proof -
    have "rat_of_int C * (16 / 5) + 1 / 100 < 2 ^ 24" using y(2) by simp
    then have "x' / u < 2 ^ 24" using e by linarith
    then show ?thesis using u ends(2) by (simp add: pos_divide_less_eq)
  qed
  ultimately have r: "f32 x' = of_int n * u"
    using round_to_at[of "f - 23" 24 x'] by (simp add: n_def u_def add.commute)
  have n: "\<bar>5 * n - 16 * C\<bar> \<le> 2"
  proof -
    have "\<bar>rat_of_int n - x' / u\<bar> \<le> 1 / 2" unfolding n_def by (rule half_even_near)
    then have "5 * rat_of_int n - 16 * rat_of_int C < 3" "16 * rat_of_int C - 5 * rat_of_int n < 3"
      using e unfolding abs_le_iff by linarith+
    then have "rat_of_int (5 * n - 16 * C) < rat_of_int 3" "rat_of_int (16 * C - 5 * n) < rat_of_int 3" by simp_all
    then have "5 * n - 16 * C < 3" "16 * C - 5 * n < 3" by (simp_all only: of_int_less_iff)
    then show ?thesis by linarith
  qed
  have v: "rat_of_int v = of_int (32 * C) * u"
  proof -
    have "rat_of_int v = x * 10" by (simp add: x_def)
    then show ?thesis by (simp add: xC)
  qed
  have w: "f32 x' * 10 = of_int (10 * n) * u" by (simp add: r)
  define D where "D = 10 * n - 32 * C"
  have "\<bar>D\<bar> \<le> 4" using n by (simp add: D_def)
  then have D: "\<bar>rat_of_int D\<bar> \<le> 4" by linarith
  have wb: "32 * C - 4 \<le> 10 * n" "10 * n \<le> 32 * C + 4" using n by linarith+
  show ?thesis
  proof (cases "10 * n < 2 ^ 27")
    case True
    have g: "pow2 (f - 20) = 8 * u" using scale[of 3] by simp
    have "f32 (f32 x' * 10) = of_int (half_even (f32 x' * 10 / pow2 (f - 20))) * pow2 (f - 20)"
    proof (rule round_to_at)
      have "2 ^ 26 \<le> 10 * n" using wb(1) y(1) by simp
      then have "rat_of_int (2 ^ 26) * u \<le> of_int (10 * n) * u" using u by (simp only: mult_right_mono of_int_le_iff less_imp_le)
      then show "pow2 (f - 20 + int 24 - 1) \<le> f32 x' * 10" unfolding w using scale[of 26] by (simp add: algebra_simps)
      have "rat_of_int (10 * n) * u < of_int (2 ^ 27) * u" using True u by (simp only: mult_strict_right_mono of_int_less_iff)
      then show "f32 x' * 10 < pow2 (f - 20 + int 24)" unfolding w using scale[of 27] by (simp add: algebra_simps)
    qed
    moreover have "half_even (f32 x' * 10 / pow2 (f - 20)) = 4 * C"
    proof (rule half_even_tie)
      have "f32 x' * 10 / pow2 (f - 20) - of_int (4 * C) = of_int D / 8"
        unfolding w g D_def using u by (simp add: field_simps)
      then show "\<bar>f32 x' * 10 / pow2 (f - 20) - of_int (4 * C)\<bar> \<le> 1 / 2"
        using D by (simp only: abs_divide)
    qed simp
    ultimately have "f32 (f32 x' * 10) = of_int v" by (simp add: g v)
    then show ?thesis by (simp only: x'_def x_def)
  next
    case False
    have g: "pow2 (f - 19) = 16 * u" using scale[of 4] by simp
    have "f32 (f32 x' * 10) = of_int (half_even (f32 x' * 10 / pow2 (f - 19))) * pow2 (f - 19)"
    proof (rule round_to_at)
      have "rat_of_int (2 ^ 27) * u \<le> of_int (10 * n) * u" using False u by (simp only: mult_right_mono of_int_le_iff less_imp_le not_less)
      then show "pow2 (f - 19 + int 24 - 1) \<le> f32 x' * 10" unfolding w using scale[of 27] by (simp add: algebra_simps)
      have "10 * n < 2 ^ 28" using wb(2) y(2) by simp
      then have "rat_of_int (10 * n) * u < of_int (2 ^ 28) * u" using u by (simp only: mult_strict_right_mono of_int_less_iff)
      then show "f32 x' * 10 < pow2 (f - 19 + int 24)" unfolding w using scale[of 28] by (simp add: algebra_simps)
    qed
    moreover have "half_even (f32 x' * 10 / pow2 (f - 19)) = 2 * C"
    proof (rule half_even_tie)
      have "f32 x' * 10 / pow2 (f - 19) - of_int (2 * C) = of_int D / 16"
        unfolding w g D_def using u by (simp add: field_simps)
      then show "\<bar>f32 x' * 10 / pow2 (f - 19) - of_int (2 * C)\<bar> \<le> 1 / 2"
        using D by (simp only: abs_divide)
    qed simp
    ultimately have "f32 (f32 x' * 10) = of_int v" by (simp add: g v)
    then show ?thesis by (simp only: x'_def x_def)
  qed
qed

lemma reported_1:
  assumes "0 \<le> v" "v < 1000"
  shows "reported 1 v = v"
proof -
  define x where "x = rat_of_int v / 10"
  have x: "0 \<le> x" "x \<le> 100" using assms by (simp_all add: x_def)
  have "v < 2 ^ 24" using assms by simp
  then have f: "f32 (of_int v) = of_int v" using assms(1) by (intro round_to_int) auto
  have "x * 100 - f32 x * 100 < 1 / 2" "f32 x * 100 - x * 100 < 1 / 2" using f32_error[OF x(1)] x by linarith+
  then have "\<bar>of_int (10 * v) - f32 x * 100\<bar> < 1 / 2" unfolding abs_less_iff by (simp add: x_def)
  then have "atof (fmt_f 2 (f32 x)) = f64 (of_int (10 * v) / 100)"
    using f32_error(3)[OF x(1)] assms(1) by (intro read_back_decimals) auto
  then have "reported 1 v = to_int (f32 (f32 (f64 (of_int v / 10)) * 10))"
    by (simp add: reported_def float_div10_def float_mul10_def f x_def)
  moreover have "f32 (f32 (f64 (of_int v / 10)) * 10) = of_int v"
  proof (cases "v = 0")
    case True
    then show ?thesis by (simp add: round_to_def)
  qed (use mul10_of_tenth assms in simp)
  ultimately show ?thesis using assms(1) by (simp add: to_int_def)
qed

text \<open>The smallest value with two decimals, 0.01, is reported as 0.\<close>

lemma reported_one_hundredth: "reported 2 1 = 0"
proof -
  have h: "half_even (1 / 100 / pow2 (-59)) = 5764607523034235" "half_even (5764607523034235 * pow2 (-59) / pow2 (-30)) = 10737418"
    "half_even (10737418 * pow2 (-30) * 10 / pow2 (-27)) = 13421772"
    "half_even (13421772 * pow2 (-27) * 10 / pow2 (-24)) = 16777215"
    by (rule half_even_unique half_even_tie; simp add: pow2_def)+
  have "f64 (1 / 100) = 5764607523034235 * pow2 (-59)"
    using round_to_at[of "-59" 53 "1 / 100", unfolded h] by (simp add: pow2_def)
  moreover have "f32 (5764607523034235 * pow2 (-59)) = 10737418 * pow2 (-30)"
    using round_to_at[of "-30" 24 "5764607523034235 * pow2 (-59)", unfolded h] by (simp add: pow2_def)
  moreover have "f32 (10737418 * pow2 (-30) * 10) = 13421772 * pow2 (-27)"
    using round_to_at[of "-27" 24 "10737418 * pow2 (-30) * 10", unfolded h] by (simp add: pow2_def)
  moreover have "f32 (13421772 * pow2 (-27) * 10) = 16777215 * pow2 (-24)"
    using round_to_at[of "-24" 24 "13421772 * pow2 (-27) * 10", unfolded h] by (simp add: pow2_def)
  ultimately have b: "f32 (f32 (f32 (f64 (1 / 100)) * 10) * 10) = 16777215 * pow2 (-24)" by (simp only:)
  define x where "x = (float_div10 ^^ 2) (f32 (rat_of_int 1))"
  have "f32 1 = 1" using round_to_int[of 1 24] by simp
  then have x: "x = f32 (f32 (1 / 10) / 10)" by (simp add: x_def float_div10_def numeral_2_eq_2)
  have r1: "f32 (1 / 10) \<le> 1 / 10 + 1 / 10 / 16777216" "1 / 10 - 1 / 10 / 16777216 \<le> f32 (1 / 10)" "0 \<le> f32 (1 / 10)"
    using f32_error[of "1 / 10"] by simp_all
  define q where "q = f32 (1 / 10) / 10"
  have q: "q \<le> 1 / 50" "1 / 150 \<le> q" using r1 unfolding q_def by linarith+
  have "1 - x * 100 < 1 / 2" "x * 100 - 1 < 1 / 2" "0 \<le> x"
    using f32_error[of q] q r1 unfolding x q_def[symmetric] by (simp_all add: q_def) 
  moreover from this have "\<bar>of_int 1 - x * 100\<bar> < 1 / 2" unfolding abs_less_iff by simp
  ultimately have "atof (fmt_f 2 x) = f64 (of_int 1 / 100)" by (intro read_back_decimals) simp_all
  then have "reported 2 1 = to_int (f32 (f32 (f32 (f64 (1 / 100)) * 10) * 10))"
    by (simp add: reported_def x_def float_mul10_def numeral_2_eq_2)
  moreover have "\<lfloor>16777215 * pow2 (-24)\<rfloor> = 0" by (simp add: floor_eq_iff pow2_def)
  ultimately show ?thesis by (simp add: b to_int_def)
qed

section \<open>The file\<close>

lemma fmt_f_plain: "plain (fmt_f n x)"
  using fmt_f_chars[of _ n x] by (fastforce simp: plain_def plain_char_def is_digit_def NL_def NUL_def)

lemma pro_names:
  "n \<in> set pro_name \<Longrightarrow> plain n \<and> length n \<le> 30 \<and> find (\<lambda>m. take (length n) m = n) pro_name = Some n"
proof -
  have "\<forall>n \<in> set pro_name. list_all plain_char n \<and> length n \<le> 30 \<and> find (\<lambda>m. take (length n) m = n) pro_name = Some n"
    by code_simp
  then show "n \<in> set pro_name \<Longrightarrow> plain n \<and> length n \<le> 30 \<and> find (\<lambda>m. take (length n) m = n) pro_name = Some n"
    by (simp add: plain_def list_all_iff)
qed

lemma all_line_read:
  assumes "n \<in> set pro_name"
  shows "is_line (all_line pro n)"
    "protection_line m (all_line pro n) = m(n \<mapsto> f32 (atof (fmt_f 2 (the (pro n)))))"
proof -
  have p: "plain n" "plain (fmt_f 2 (the (pro n)))" using pro_names[OF assms] fmt_f_plain by auto
  have "is_line ((n @ '','' @ fmt_f 2 (the (pro n)) @ '',1'') @ [NL])"
    using p[THEN plain_line] by (intro is_lineI) (auto simp: NL_def NUL_def)
  then show l: "is_line (all_line pro n)" by (simp add: all_line_def)
  have "splitString (all_line pro n) = [n, fmt_f 2 (the (pro n)), [CHR ''1'', NL]]"
    using p[THEN plain_no_comma] by (simp add: all_line_def NL_def)
  then show "protection_line m (all_line pro n) = m(n \<mapsto> f32 (atof (fmt_f 2 (the (pro n)))))"
    using l pro_names[OF assms] by (simp add: protection_line_def fld_def)
qed

lemma foldl_lines:
  assumes "set ns \<subseteq> set pro_name"
  shows "foldl protection_line m (map (all_line pro) ns)
    = (\<lambda>n. if n \<in> set ns then Some (f32 (atof (fmt_f 2 (the (pro n))))) else m n)"
  using assms by (induction ns arbitrary: m) (auto simp: all_line_read(2) fun_eq_iff)

text \<open>The parameters as the unit reads them back from the file.\<close>

lemma query_after_save:
  assumes "can_write s path_setpropa" "\<And>n x. pro n = Some x \<Longrightarrow> length (fmt_f 2 x) \<le> 20" "dom pro \<subseteq> set pro_name"
  shows "result query_ecu_ac_protection (exec (save_ac_protection_all pro) s)
    = (\<lambda>n. map_option (\<lambda>x. f32 (atof (fmt_f 2 x))) (pro n))"
proof -
  have sub: "set (set_names pro) \<subseteq> set pro_name" by (auto simp: set_names_def)
  have "length (all_line pro n) \<le> 199" if "n \<in> set (set_names pro)" for n
    using that pro_names[of n] assms(2)[of n "the (pro n)"] by (auto simp: all_line_def set_names_def)
  then have "fgets_lines 199 (concat (map (all_line pro) (set_names pro))) = map (all_line pro) (set_names pro)"
    using sub all_line_read(1) by (intro fgets_lines_concat) auto
  then have "result query_ecu_ac_protection (exec (save_ac_protection_all pro) s)
      = foldl protection_line Map.empty (map (all_line pro) (set_names pro))"
    using assms(1) by (simp add: query_ecu_ac_protection_def get_protection_from_file_def read_file_def
        save_ac_protection_all_def write_file_def)
  also have "\<dots> = (\<lambda>n. map_option (\<lambda>x. f32 (atof (fmt_f 2 x))) (pro n))"
    unfolding foldl_lines[OF sub] using assms(3) by (auto simp: fun_eq_iff set_names_def)
  finally show ?thesis .
qed

section \<open>The fields of the command\<close>

lemma parameter_value:
  assumes "distinct (map fst ps)" "(n, off, len, d) \<in> set ps" "n \<in> set pro_name"
  shows "foldl (\<lambda>pro (name, off, len, decimal). get_ac_protection name (drop off r) len decimal pro) m ps n
    = (if 0 \<le> msg_field r off len then Some ((float_div10 ^^ d) (f32 (of_int (msg_field r off len)))) else m n)"
  using assms(1,2)
proof (induction ps arbitrary: m)
  case (Cons p ps)
  have other: "foldl (\<lambda>pro (name, off, len, decimal). get_ac_protection name (drop off r) len decimal pro) m qs n = m n"
    if "n \<notin> fst ` set qs" for qs :: "(string \<times> nat \<times> nat \<times> nat) list" and m
    using that by (induction qs arbitrary: m) (auto simp: get_ac_protection_def Let_def)
  show ?case
  proof (cases "p = (n, off, len, d)")
    case True
    then have "n \<notin> fst ` set ps" using Cons.prems(1) by auto
    then show ?thesis using True other assms(3) by (simp add: get_ac_protection_def msg_field_def Let_def)
  next
    case False
    then have i: "(n, off, len, d) \<in> set ps" using Cons.prems(2) by auto
    obtain n' off' len' d' where p: "p = (n', off', len', d')" by (cases p) auto
    have "n' \<noteq> n" using Cons.prems(1) i p by force
    then have "get_ac_protection n' (drop off' r) len' d' m n = m n" by (simp add: get_ac_protection_def Let_def)
    then show ?thesis using Cons.IH[of "get_ac_protection n' (drop off' r) len' d' m"] Cons.prems(1) i p by simp
  qed
qed simp

lemma ac_fields_facts:
  "distinct (map fst ac_fields)" "n \<in> set pro_name \<Longrightarrow> \<exists>off len d. (n, off, len, d) \<in> set ac_fields"
  "(n, off, len, d) \<in> set ac_fields \<Longrightarrow> n \<in> set pro_name \<and> len \<le> 6 \<and> (d = 0 \<or> d = 1 \<and> len = 3 \<or> d = 2)"
proof -
  show "distinct (map fst ac_fields)" by code_simp
  have "\<forall>n \<in> set pro_name. n \<in> fst ` set ac_fields" by code_simp
  then show "n \<in> set pro_name \<Longrightarrow> \<exists>off len d. (n, off, len, d) \<in> set ac_fields" by force
  have "\<forall>(n, off, len, d) \<in> set ac_fields. n \<in> set pro_name \<and> len \<le> 6 \<and> (d = 0 \<or> d = 1 \<and> len = 3 \<or> d = 2)"
    by code_simp
  then show "(n, off, len, d) \<in> set ac_fields \<Longrightarrow> n \<in> set pro_name \<and> len \<le> 6 \<and> (d = 0 \<or> d = 1 \<and> len = 3 \<or> d = 2)"
    by auto
qed

lemma length_fmt_f:
  assumes "0 \<le> x" "x \<le> 2000000"
  shows "length (fmt_f 2 x) \<le> 20"
proof -
  define k where "k = half_even (x * 100)"
  have "rat_of_int k \<le> x * 100 + 1 / 2" using half_even_near[of "x * 100"] unfolding k_def abs_le_iff by linarith
  then have "rat_of_int k \<le> rat_of_int 300000000" using assms(2) by simp
  then have "k \<le> 300000000" by (simp only: of_int_le_iff)
  then have "nat k div 100 < 10 ^ 9" by simp
  then have "length (dec (nat k div 100)) \<le> 9" by (rule length_dec_le) simp
  moreover have "length (pad0 2 (dec (nat k mod 100))) = 2" by (intro length_pad0 length_dec_le) simp_all
  ultimately show ?thesis using assms(1) by (simp add: fmt_f_def k_def Let_def)
qed

lemma ac_parameters_value:
  assumes "(n, off, len, d) \<in> set ac_fields"
  shows "ac_parameters r n = (if 0 \<le> msg_field r off len
      then Some ((float_div10 ^^ d) (f32 (of_int (msg_field r off len)))) else None)"
  using parameter_value[OF ac_fields_facts(1) assms, of r Map.empty] ac_fields_facts(3)[OF assms]
  by (simp add: ac_parameters_def)

lemma ac_parameters_dom: "dom (ac_parameters r) \<subseteq> set pro_name"
proof -
  have "dom m \<subseteq> set pro_name \<Longrightarrow> dom (foldl (\<lambda>pro (name, off, len, decimal).
      get_ac_protection name (drop off r) len decimal pro) m ps) \<subseteq> set pro_name" for m ps
  proof (induction ps arbitrary: m)
    case (Cons p ps)
    obtain n' off' len' d' where p: "p = (n', off', len', d')" by (cases p) auto
    show ?case using Cons.prems
      by (simp add: p, intro Cons.IH) (auto simp: get_ac_protection_def Let_def split: if_splits)
  qed simp
  then show ?thesis by (simp add: ac_parameters_def)
qed

lemma float_div10_bounds: "0 \<le> x \<Longrightarrow> x \<le> 2000000 \<Longrightarrow> 0 \<le> float_div10 x \<and> float_div10 x \<le> 2000000"
  using f32_error[of "x / 10"] by (simp add: float_div10_def)

lemma ac_parameters_length: "ac_parameters r n = Some x \<Longrightarrow> length (fmt_f 2 x) \<le> 20"
proof -
  assume a: "ac_parameters r n = Some x"
  then have "n \<in> set pro_name" using ac_parameters_dom[of r] by auto
  then obtain off len d where i: "(n, off, len, d) \<in> set ac_fields" using ac_fields_facts(2) by blast
  define v where "v = msg_field r off len"
  have x: "x = (float_div10 ^^ d) (f32 (of_int v))" "0 \<le> v"
    using a ac_parameters_value[OF i, of r] by (auto simp: v_def split: if_splits)
  have "len \<le> 6" using ac_fields_facts(3)[OF i] by simp
  then have "(10::int) ^ len \<le> 10 ^ 6" by (intro power_increasing) simp_all
  then have "v < 10 ^ 6" using msg_get_int_bound(1)[of "drop off r" len] by (simp add: v_def msg_field_def)
  then have "rat_of_int v \<le> 1000000" by simp
  then have "0 \<le> f32 (rat_of_int v) \<and> f32 (rat_of_int v) \<le> 2000000"
    using f32_error[of "rat_of_int v"] x(2) by simp
  then have "0 \<le> x \<and> x \<le> 2000000" unfolding x(1)
    by (induction d) (simp_all add: float_div10_bounds)
  then show ?thesis by (simp add: length_fmt_f)
qed



end
