(* ===== verification/Ema_Link.thy ===== *)
theory Ema_Link
  imports Comm_Config Ac_Protection
begin

text \<open>
  The connection of the control client with the server: sending and receiving over a socket
  (\<open>send_socket\<close>, \<open>recv_socket\<close> of \<open>ECU/control_client/src/mysocket.c\<close>) or over the WiFi module,
  and the table of command handlers (\<open>add_functions\<close>, \<open>first_time_info\<close>, \<open>get_socket_config\<close> of
  \<open>control_client.c\<close>). The sockets and the module are the environment: \<open>ema_connect\<close>,
  \<open>ema_send\<close> and \<open>ema_recv\<close> of the state say how the next operations end.
\<close>

section \<open>The environment\<close>

definition next_connect :: "bool ecu" where
  "next_connect = do {
     ok \<leftarrow> gets (\<lambda>s. ema_connect s 0);
     modify (\<lambda>s. s\<lparr>ema_connect := (\<lambda>n. ema_connect s (Suc n))\<rparr>);
     ret ok }"

definition next_send :: "bool ecu" where
  "next_send = do {
     ok \<leftarrow> gets (\<lambda>s. ema_send s 0);
     modify (\<lambda>s. s\<lparr>ema_send := (\<lambda>n. ema_send s (Suc n))\<rparr>);
     ret ok }"

definition next_recv :: "string list ecu" where
  "next_recv = do {
     segs \<leftarrow> gets (\<lambda>s. ema_recv s 0);
     modify (\<lambda>s. s\<lparr>ema_recv := (\<lambda>n. ema_recv s (Suc n))\<rparr>);
     ret segs }"

text \<open>
  \<open>client_socket_init(randport(sockcfg), ...)\<close>: \<open>randport\<close> reads the clock to choose one of two
  ports; which one is part of the environment.
\<close>

definition open_socket :: "bool ecu" where
  "open_socket = do { acquire_time; next_connect }"

section \<open>Sending\<close>

text \<open>
  The length, without the newline at the end, is written over the characters 5 to 9. A text of
  fewer than five characters is not changed by that (its NUL comes first).
\<close>

definition set_length :: "string \<Rightarrow> string" where
  "set_length b = (if length b < 5 then b
     else take 5 b @ take 5 (fmt_0d 5 (int (length b) - 1)) @ drop 10 b)"

definition with_newline :: "string \<Rightarrow> string" where
  "with_newline b = (if b \<noteq> [] \<and> last b = NL then b else b @ [NL])"

fun send_tries :: "nat \<Rightarrow> string \<Rightarrow> bool ecu" where
  "send_tries 0 b = ret False"
| "send_tries (Suc n) b = do {
     ok \<leftarrow> next_send;
     if ok then do { emit (NetSend b); ret True } else send_tries n b }"

text \<open>
  Whether the message was sent, and the buffer of the caller afterwards: the newline is cut off
  only after a success.
\<close>

definition send_socket :: "string \<Rightarrow> (bool \<times> string) ecu" where
  "send_socket sendbuffer = (let b = set_length (with_newline sendbuffer) in do {
     ok \<leftarrow> send_tries 3 b;
     ret (ok, if ok then butlast b else b) })"

text \<open>\<open>SendToSocketC\<close> of the WiFi module sends the text as it is.\<close>

definition wifi_send :: "string \<Rightarrow> bool ecu" where
  "wifi_send b = do {
     ok \<leftarrow> next_send;
     (if ok then emit (NetSend b) else ret ());
     ret ok }"

section \<open>Receiving\<close>

text \<open>
  \<open>recv_socket\<close>: \<open>sizeof(recv_buffer)\<close> is the size of a pointer, so at most four characters are
  taken at a time; what is left of a segment stays for the next \<open>recv\<close>. An empty segment is
  the end of the connection, the end of the list a time-out. The result is the value returned
  and the text received.
\<close>

function recv_msg :: "string \<Rightarrow> nat \<Rightarrow> string list \<Rightarrow> int \<times> string" where
  "recv_msg acc recv_count [] = (-1, acc)"
| "recv_msg acc recv_count (seg # segs) =
     (let got = take 4 seg;
          acc' = acc @ cstr got;
          recv_count' = recv_count + length got;
          rest = (if drop 4 seg = [] then segs else drop 4 seg # segs) in
      if got = [] then (-1, acc')
      else if msg_is_complete acc' then (int recv_count', acc')
      else recv_msg acc' recv_count' rest)"
  by pat_completeness auto
termination
  by (relation "measure (\<lambda>(_, _, segs). sum_list (map (Suc \<circ> length) segs))") auto

declare recv_msg.simps(2) [simp del]

definition recv_socket :: "(int \<times> string) ecu" where
  "recv_socket = do { segs \<leftarrow> next_recv; ret (recv_msg [] 0 segs) }"

text \<open>The message the WiFi module receives within eight seconds, if any.\<close>

definition wifi_wait :: "string option ecu" where
  "wifi_wait = do { segs \<leftarrow> next_recv; ret (case segs of [] \<Rightarrow> None | d # _ \<Rightarrow> Some d) }"

section \<open>The table of handlers\<close>

text \<open>\<open>add_functions\<close>: the index is the command modulo 100.\<close>

definition pfun :: "indeterminate \<Rightarrow> nat \<Rightarrow> (string \<Rightarrow> (int \<times> string) ecu) option" where
  "pfun junk n =
     (if n = 2 then Some response_inverter_id
      else if n = 3 then Some (set_inverter_id (any_int junk))
      else if n = 6 then Some response_comm_config
      else if n = 7 then Some set_comm_config
      else if n = 8 then Some (custom_command junk)
      else if n = 10 then Some set_inverter_maxpower
      else if n = 11 then Some set_inverter_onoff
      else if n = 12 then Some clear_inverter_gfdi
      else if n = 17 then Some response_inverter_maxpower
      else if n = 19 then Some set_ecu_flag
      else if n = 26 then Some read_inverter_ird
      else if n = 27 then Some set_inverter_ird
      else if n = 30 then Some response_ecu_ac_protection_17
      else if n = 31 then Some read_inverter_ac_protection_17
      else if n = 32 then Some set_inverter_ac_protection_17
      else if n = 36 then Some set_inverter_update
      else if n = 45 then Some response_inverter_power_factor
      else if n = 46 then Some set_all_inverter_power_factor
      else None)"

text \<open>
  \<open>pfun[cmd_id%100]\<close>. For a negative number (an absent command field) the code reads before the
  array; the model takes that as no handler.
\<close>

definition handler :: "indeterminate \<Rightarrow> int \<Rightarrow> (string \<Rightarrow> (int \<times> string) ecu) option" where
  "handler junk cmd_id = (if cmd_id < 0 then None else pfun junk (nat (cmd_id mod 100)))"

definition FIRST_TIME_CMD_NUM :: nat where
  "FIRST_TIME_CMD_NUM = 6"

text \<open>A118: six commands in turn, one per call; the next one is remembered between the calls.\<close>

definition first_time_info :: "indeterminate \<Rightarrow> string \<Rightarrow> (int \<times> string) ecu" where
  "first_time_info junk r = do {
     k \<leftarrow> gets first_time_id;
     modify (\<lambda>s. s\<lparr>first_time_id := k + 1\<rparr>);
     (_, buf) \<leftarrow> (case pfun junk ([2, 6, 17, 26, 30, 31] ! k) of None \<Rightarrow> ret (0, []) | Some h \<Rightarrow> h r);
     delay_ms 100;
     if k + 1 < FIRST_TIME_CMD_NUM then ret (118, buf)
     else do { modify (\<lambda>s. s\<lparr>first_time_id := 0\<rparr>); ret (0, buf) } }"

section \<open>Parameters of the connection\<close>

record socket_cfg =
  sock_timeout :: int
  sock_interval :: int
  sock_port1 :: int
  sock_port2 :: int
  sock_domain :: string
  sock_ip :: string

definition socket_entry :: "socket_cfg \<Rightarrow> string \<times> string \<Rightarrow> socket_cfg" where
  "socket_entry cfg nv = (let n = fst nv; v = snd nv in
     if n = ''Timeout'' then cfg\<lparr>sock_timeout := atoi v\<rparr>
     else if n = ''Report_Interval'' then cfg\<lparr>sock_interval := atoi v\<rparr>
     else if n = ''Domain'' then cfg\<lparr>sock_domain := take 32 v\<rparr>
     else if n = ''IP'' then cfg\<lparr>sock_ip := take 16 v\<rparr>
     else if n = ''Port1'' then cfg\<lparr>sock_port1 := atoi v\<rparr>
     else if n = ''Port2'' then cfg\<lparr>sock_port2 := atoi v\<rparr>
     else cfg)"

definition get_socket_config :: "socket_cfg \<Rightarrow> my_array \<Rightarrow> socket_cfg" where
  "get_socket_config cfg array = foldl socket_entry cfg (takeWhile (\<lambda>nv. fst nv \<noteq> []) (take 6 array))"

end
