(* ===== verification/Control_Client.thy ===== *)
theory Control_Client
  imports Ema_Link Upload_Client
begin

text \<open>
  The sessions of the control client with the server,
  \<open>ECU/control_client/src/control_client.c\<close>: reporting abnormal status (A123), fetching and
  executing commands (A101), reporting results. Each session runs over a socket or, without
  one, over the WiFi module; the two differ in what a failed send does. \<open>None\<close> is a session
  that never ends.
\<close>

section \<open>Acknowledged status records\<close>

text \<open>
  The reply names the times of the records that the server has. An absent number is -1, for
  which the loop does nothing.
\<close>

fun clear_status :: "string list \<Rightarrow> unit ecu" where
  "clear_status [] = ret ()"
| "clear_status (t # ts) = do { change_statusflag t (CHR ''0''); clear_status ts }"

definition ack_num :: "string \<Rightarrow> int" where
  "ack_num r = (if msg_field r 18 1 \<noteq> 0 then msg_field r 19 2 else 0)"

definition ack_status :: "string \<Rightarrow> unit ecu" where
  "ack_status r = clear_status (map (\<lambda>j. msg_text r (21 + j * 14) 14) [0..<nat (ack_num r)])"

definition query_A123 :: "string \<Rightarrow> string" where
  "query_A123 i = ''APS13AAA51A123AAA0'' @ i @ ''000000000000000000END'' @ [NL]"

definition status_sent :: "string \<Rightarrow> string \<Rightarrow> int ecu" where
  "status_sent i r =
     (if msg_format_check i r < 0 then ret 0
      else do { ack_status r; change_statusflag1; delete_statusflag0; ret 0 })"

definition check_inverter_abnormal_status_sent :: "int \<Rightarrow> int ecu" where
  "check_inverter_abnormal_status_sent at_hour = do {
     h \<leftarrow> get_hour;
     if h \<noteq> at_hour then ret 0
     else do {
       d \<leftarrow> detection_statusflag (CHR ''2'');
       if d = 0 then ret 0
       else do {
         wired \<leftarrow> open_socket;
         i \<leftarrow> gets ecu_id;
         if wired then do {
           send_socket (query_A123 i);
           (n, r) \<leftarrow> recv_socket;
           if n \<le> 0 then ret (-1) else status_sent i r }
         else do {
           emit WifiTake;
           ok \<leftarrow> wifi_send (query_A123 i);
           if \<not> ok then do { emit WifiRelease; ret (-1) }
           else do {
             w \<leftarrow> wifi_wait;
             emit WifiRelease;
             (case w of None \<Rightarrow> ret (-1) | Some d \<Rightarrow> status_sent i (cstr d)) } } } } }"

section \<open>Reporting abnormal status\<close>

definition path_A118 :: string where
  "path_A118 = ''/YUNENG/A118.CON''"

text \<open>
  How the loop goes on after a reply: again with its buffers as they are, with the buffers
  cleared, to its regular end, or out of the function with -1.
\<close>

datatype turn = Again | Cleared | Finished | Failed

text \<open>
  A command in the reply. The buffer \<open>command\<close> is only cleared in its first four characters
  before the follow-up command is run, and the message built for that goes to another buffer:
  the follow-up handler sees the old command from its fifth character on.
\<close>

definition status_command :: "indeterminate \<Rightarrow> (string \<Rightarrow> unit ecu) \<Rightarrow> string \<Rightarrow> string \<Rightarrow> int \<Rightarrow> (turn \<times> int) ecu" where
  "status_command junk send r command res = do {
     i \<leftarrow> gets ecu_id;
     if msg_format_check i command < 0 then ret (Again, res)
     else (let cmd_id = msg_cmd_id command in
       if cmd_id = 118 then do {
         ok \<leftarrow> write_file path_A118 ''1'';
         if \<not> ok then ret (Failed, -1)
         else do { send (msg_ACK i ''A118'' (msg_text r 72 14) 0); ret (Finished, 1) } }
       else (case handler junk cmd_id of
           None \<Rightarrow> ret (Cleared, res)
         | Some h \<Rightarrow> do {
             (next_cmd, buf) \<leftarrow> h command;
             save_process_result cmd_id buf;
             if next_cmd > 0 then do {
               (case handler junk next_cmd of
                  None \<Rightarrow> ret ()
                | Some h2 \<Rightarrow> do {
                    (_, buf2) \<leftarrow> h2 (overlay (replicate 4 NUL) command);
                    save_process_result next_cmd buf2;
                    ret () });
               ret (Cleared, res) }
             else ret (Cleared, if next_cmd < 0 then -1 else res) })) }"

definition status_reply :: "indeterminate \<Rightarrow> (string \<Rightarrow> unit ecu) \<Rightarrow> string \<Rightarrow> string \<Rightarrow> int \<Rightarrow> (turn \<times> int) ecu" where
  "status_reply junk send r time res = do {
     i \<leftarrow> gets ecu_id;
     if msg_format_check i r < 0 then ret (Again, res)
     else do {
       change_statusflag time (CHR ''2'');
       ack_status r;
       let k = nat (24 + 14 * ack_num r);
       if k < length r then status_command junk send r (drop k r) res
       else ret (Cleared, res) } }"

definition wired_ack :: "string \<Rightarrow> unit ecu" where
  "wired_ack m = do { send_socket m; ret () }"

definition wifi_ack :: "string \<Rightarrow> unit ecu" where
  "wifi_ack m = do { wifi_send m; ret () }"

text \<open>Over a socket a failed send, or a reply that is not well formed, tries again without limit.\<close>

partial_function (option) status_wired :: "indeterminate \<Rightarrow> string \<Rightarrow> string \<Rightarrow> int \<Rightarrow> ecu_state
    \<Rightarrow> (int \<times> ecu_state) option" where
  "status_wired junk data time res s =
     (case run_state (search_statusflag data time (CHR ''1'')) s of ((found, data1, time1, another), s1) \<Rightarrow>
       if \<not> found then Some (res, exec delete_statusflag0 s1)
       else (case run_state (send_socket (cstr data1)) s1 of ((ok, buf), s2) \<Rightarrow>
         if \<not> ok then status_wired junk (overlay (buf @ [NUL]) data1) time1 res s2
         else (case run_state recv_socket s2 of ((n, r), s3) \<Rightarrow>
           if n \<le> 0 then Some (-1, s3)
           else (case run_state (status_reply junk wired_ack r time1 res) s3 of ((turn, res'), s4) \<Rightarrow>
             if turn = Again then status_wired junk (overlay (buf @ [NUL]) data1) time1 res' s4
             else if turn = Cleared then status_wired junk [] time1 res' s4
             else if turn = Finished then Some (res', exec delete_statusflag0 s4)
             else Some (res', s4)))))"

text \<open>
  Over WiFi \<open>flag_failed\<close> stays set after the first message received: a later time-out evaluates
  the message received before it again (\<open>seen\<close>).
\<close>

partial_function (option) status_wifi :: "indeterminate \<Rightarrow> string \<Rightarrow> string \<Rightarrow> int \<Rightarrow> string option \<Rightarrow> ecu_state
    \<Rightarrow> (int \<times> ecu_state) option" where
  "status_wifi junk data time res seen s =
     (case run_state (search_statusflag data time (CHR ''1'')) s of ((found, data1, time1, another), s1) \<Rightarrow>
       if \<not> found then Some (res, exec delete_statusflag0 s1)
       else (case run_state (do { emit WifiTake; wifi_send (cstr data1) }) s1 of (ok, s2) \<Rightarrow>
         if \<not> ok then Some (-1, exec (emit WifiRelease) s2)
         else (case run_state (do { w \<leftarrow> wifi_wait; emit WifiRelease; ret w }) s2 of (w, s3) \<Rightarrow>
           (case (if w = None then seen else w) of
              None \<Rightarrow> Some (-1, s3)
            | Some d \<Rightarrow>
               (case run_state (status_reply junk wifi_ack (cstr d) time1 res) s3 of ((turn, res'), s4) \<Rightarrow>
                 if turn = Again then status_wifi junk data1 time1 res' (Some d) s4
                 else if turn = Cleared then status_wifi junk [] time1 res' (Some d) s4
                 else if turn = Finished then Some (res', exec delete_statusflag0 s4)
                 else Some (res', s4))))))"

definition response_inverter_abnormal_status :: "indeterminate \<Rightarrow> ecu_state \<Rightarrow> (int \<times> ecu_state) option" where
  "response_inverter_abnormal_status junk s = (case run_state open_socket s of (wired, s1) \<Rightarrow>
     if wired then status_wired junk [] [] 0 s1 else status_wifi junk [] [] 0 None s1)"

section \<open>Fetching commands\<close>

datatype request_outcome = ReqFailed | ReqAgain | Req int string

definition received :: "string \<Rightarrow> string \<Rightarrow> request_outcome" where
  "received i r = (if msg_format_check i r < 0 then ReqAgain else Req (msg_cmd_id r) r)"

text \<open>The message a follow-up command is run on.\<close>

definition follow_up :: "string \<Rightarrow> int \<Rightarrow> string \<Rightarrow> string" where
  "follow_up i cmd_id timestamp = take 51 (''APS13AAA51A101AAA0'' @ take 12 i @ ''A'' @ pad_space 3 (fmt_d cmd_id)
     @ take 14 timestamp @ ''END'')"

definition ema_request :: "bool \<Rightarrow> int \<Rightarrow> string \<Rightarrow> request_outcome ecu" where
  "ema_request wired next_cmd timestamp = do {
     i \<leftarrow> gets ecu_id;
     if next_cmd > 0 then ret (Req next_cmd (follow_up i next_cmd timestamp))
     else if wired then do {
       send_socket (msg_REQ i);
       (n, r) \<leftarrow> recv_socket;
       ret (if n < 0 then ReqFailed else received i r) }
     else do {
       emit WifiTake;
       ok \<leftarrow> wifi_send (msg_REQ i);
       if \<not> ok then do { emit WifiRelease; ret ReqFailed }
       else do {
         w \<leftarrow> wifi_wait;
         emit WifiRelease;
         ret (case w of None \<Rightarrow> ReqFailed | Some d \<Rightarrow> received i (cstr d)) } } }"

definition zero_time :: string where
  "zero_time = replicate 14 (CHR ''0'')"

definition not_supported :: "bool \<Rightarrow> string \<Rightarrow> int \<Rightarrow> string" where
  "not_supported wired i cmd_id = take 52 (''APS13AAA52A100AAA0'' @ i @ ''A'' @ pad_space 3 (fmt_d cmd_id)
     @ ''000000000000002END'' @ (if wired then [] else [NL]))"

text \<open>
  One command: the answer to send (none for A100, which ends the session), the command to go
  on with and the time stamp of a running A118. \<open>next_cmd\<close> is 0 after a follow-up command was taken.
\<close>

definition ema_dispatch :: "indeterminate \<Rightarrow> bool \<Rightarrow> int \<Rightarrow> string \<Rightarrow> int \<Rightarrow> string \<Rightarrow> (string option \<times> int \<times> string) ecu" where
  "ema_dispatch junk wired cmd_id r next_cmd timestamp =
     (if cmd_id = 118 then do {
        (n, buf) \<leftarrow> first_time_info junk r;
        ret (Some buf, n, if n = 0 then zero_time else msg_text r 34 14) }
      else (case handler junk cmd_id of
          Some h \<Rightarrow> do { (n, buf) \<leftarrow> h r; ret (Some buf, n, timestamp) }
        | None \<Rightarrow>
            if cmd_id = 100 then ret (None, next_cmd, timestamp)
            else do { i \<leftarrow> gets ecu_id; ret (Some (not_supported wired i cmd_id), next_cmd, timestamp) }))"

definition ema_answer :: "bool \<Rightarrow> string \<Rightarrow> unit ecu" where
  "ema_answer wired m = (if wired then do { send_socket m; ret () } else do { wifi_send m; ret () })"

partial_function (option) ema_loop :: "indeterminate \<Rightarrow> int \<Rightarrow> string \<Rightarrow> ecu_state \<Rightarrow> (int \<times> ecu_state) option" where
  "ema_loop junk next_cmd timestamp s =
     (case run_state open_socket s of (wired, s1) \<Rightarrow>
       (case run_state (ema_request wired next_cmd timestamp) s1 of (req, s2) \<Rightarrow>
         (case req of
            ReqFailed \<Rightarrow> Some (-1, s2)
          | ReqAgain \<Rightarrow> ema_loop junk next_cmd timestamp s2
          | Req cmd_id r \<Rightarrow>
             (case run_state (ema_dispatch junk wired cmd_id r (if next_cmd > 0 then 0 else next_cmd) timestamp) s2 of
                ((None, n, t), s3) \<Rightarrow> Some (0, s3)
              | ((Some m, n, t), s3) \<Rightarrow>
                 (case run_state (ema_answer wired m) s3 of (_, s4) \<Rightarrow>
                   if n < 0 then Some (-1, s4) else ema_loop junk n t s4)))))"

definition communication_with_EMA :: "indeterminate \<Rightarrow> int \<Rightarrow> ecu_state \<Rightarrow> (int \<times> ecu_state) option" where
  "communication_with_EMA junk next_cmd s = ema_loop junk next_cmd zero_time s"

section \<open>Reporting results\<close>

text \<open>A connection is opened for every record; the values are the buffers after the loop.\<close>

partial_function (option) result_loop :: "string \<Rightarrow> string \<Rightarrow> ecu_state \<Rightarrow> ((string \<times> string) \<times> ecu_state) option" where
  "result_loop data item s =
     (case run_state (search_pro_result_flag data item (CHR ''1'')) s of ((found, data1, item1, another), s1) \<Rightarrow>
       if \<not> found then Some ((data1, item1), s1)
       else (case run_state open_socket s1 of (wired, s2) \<Rightarrow>
         if wired
         then (case run_state (send_socket (cstr data1)) s2 of ((ok, buf), s3) \<Rightarrow>
           if ok then result_loop [] item1 (exec (change_pro_result_flag item1 (CHR ''0'')) s3)
           else result_loop (overlay (buf @ [NUL]) data1) item1 s3)
         else (case run_state (wifi_send (cstr data1)) s2 of (ok, s3) \<Rightarrow>
           if ok then result_loop [] item1 (exec (change_pro_result_flag item1 (CHR ''0'')) s3)
           else Some ((data1, item1), s3))))"

text \<open>The result of an inverter is sent behind a header with its command and length.\<close>

definition inv_result_message :: "string \<Rightarrow> string \<Rightarrow> string \<Rightarrow> string" where
  "inv_result_message i item data = set_length (with_newline
     (''APS1300000A'' @ fmt_0d 3 (atoi item) @ ''AAA0'' @ take 12 i @ fmt_0d 4 1 @ ''00000000000000END'' @ data))"

partial_function (option) inv_result_loop :: "string \<Rightarrow> string \<Rightarrow> string \<Rightarrow> ecu_state \<Rightarrow> ecu_state option" where
  "inv_result_loop data item inverterid s =
     (case run_state (search_inv_pro_result_flag data item inverterid (CHR ''1'')) s of
       ((found, data1, item1, inverterid1, another), s1) \<Rightarrow>
       if \<not> found then Some s1
       else (case run_state open_socket s1 of (wired, s2) \<Rightarrow>
         (let m = inv_result_message (ecu_id s2) (cstr item1) (cstr data1) in
         if wired
         then (case run_state (send_socket m) s2 of ((ok, buf), s3) \<Rightarrow>
           if ok then inv_result_loop [] item1 inverterid1 (exec (change_inv_pro_result_flag item1 (CHR ''0'')) s3)
           else inv_result_loop data1 item1 inverterid1 s3)
         else (case run_state (wifi_send m) s2 of (ok, s3) \<Rightarrow>
           if ok then inv_result_loop [] item1 inverterid1 (exec (change_inv_pro_result_flag item1 (CHR ''0'')) s3)
           else Some s3))))"

definition response_process_result :: "ecu_state \<Rightarrow> ecu_state option" where
  "response_process_result s = (case result_loop [] [] s of
      None \<Rightarrow> None
    | Some ((data, item), s1) \<Rightarrow>
        map_option (exec delete_inv_pro_result_flag0)
          (inv_result_loop data item [] (exec delete_pro_result_flag0 s1)))"

section \<open>One round of the thread\<close>

text \<open>
  A118 was requested in an earlier round: the connection is tried first, and the request is
  removed when there is one. \<open>TestSocketCConnect\<close> tries the WiFi module. The value is the new
  result when a session was held.
\<close>

definition pending_A118 :: "indeterminate \<Rightarrow> int \<Rightarrow> ecu_state \<Rightarrow> (int \<times> ecu_state) option" where
  "pending_A118 junk res s = (case files s path_A118 of
      None \<Rightarrow> Some (res, s)
    | Some txt \<Rightarrow> (case run_state open_socket s of (wired, s1) \<Rightarrow>
        (case run_state (if wired then ret True else next_connect) s1 of (ok, s2) \<Rightarrow>
          if \<not> ok then Some (res, s2)
          else (case (if txt \<noteq> [] \<and> hd txt = CHR ''1'' then communication_with_EMA junk 118 s2 else Some (res, s2)) of
              None \<Rightarrow> None
            | Some (res', s3) \<Rightarrow> Some (res', exec (unlink path_A118) s3)))))"

definition report_or_fetch :: "indeterminate \<Rightarrow> int \<Rightarrow> int \<Rightarrow> int \<Rightarrow> int \<Rightarrow> ecu_state \<Rightarrow> ((int \<times> int) \<times> ecu_state) option" where
  "report_or_fetch junk ecu_flag report ecu_time res s =
     (case run_state exist_inverter_abnormal_status s of (ex, s1) \<Rightarrow>
       if ex \<noteq> 0 \<and> ecu_flag \<noteq> 0 then
         (case run_state acquire_time s1 of (t, s2) \<Rightarrow>
           (case response_inverter_abnormal_status junk s2 of
              None \<Rightarrow> None
            | Some (res', s3) \<Rightarrow> map_option (\<lambda>s4. ((t, res'), s4)) (response_process_result s3)))
       else (case run_state acquire_time s1 of (t, s2) \<Rightarrow>
         if compareTime t ecu_time (60 * report) then
           (case run_state acquire_time s2 of (t', s3) \<Rightarrow>
             (case (if ecu_flag \<noteq> 0 then response_process_result s3 else Some s3) of
                None \<Rightarrow> None
              | Some s4 \<Rightarrow> map_option (\<lambda>(res', s5). ((t', res'), s5)) (communication_with_EMA junk 0 s4)))
         else Some ((ecu_time, res), s2)))"

text \<open>The body of the endless loop of the thread; the values are \<open>ecu_time\<close> and \<open>result\<close>.\<close>

definition control_round :: "indeterminate \<Rightarrow> int \<Rightarrow> int \<Rightarrow> int \<Rightarrow> int \<Rightarrow> ecu_state \<Rightarrow> ((int \<times> int) \<times> ecu_state) option" where
  "control_round junk ecu_flag report ecu_time res s =
     (case pending_A118 junk res (exec (check_inverter_abnormal_status_sent 1) s) of
        None \<Rightarrow> None
      | Some (res1, s1) \<Rightarrow> (case report_or_fetch junk ecu_flag report ecu_time res1 s1 of
          None \<Rightarrow> None
        | Some ((t, res2), s2) \<Rightarrow>
            if res2 < 0 then Some ((t, 0), exec (emit (DelayTicks (300 * 100))) s2)
            else Some ((t, res2), exec (emit (DelayTicks (nat (100 * report * 60 div 3)))) s2)))"

end
