(* ===== verification/Control_Spec.thy ===== *)
theory Control_Spec
  imports Control_Client Record_Files Zigbee_Effects
begin

text \<open>
  What the sessions of the control client promise: a message arrives whole however it is cut,
  every result that waits is reported once; and what holds a session for ever.
\<close>

section \<open>Receiving\<close>

text \<open>A message whose length field is its length.\<close>

definition exact :: "string \<Rightarrow> bool" where
  "exact m = (10 \<le> length m \<and> no_nul m \<and> atoi (map a_to_0 (take 5 (drop 5 m))) = int (length m))"

lemma exact_prefix:
  assumes "exact m" "n < length m" "length m < 2 ^ 32"
  shows "\<not> msg_is_complete (take n m)"
proof (cases "10 \<le> n")
  case True
  then have "take 5 (drop 5 (take n m)) = take 5 (drop 5 m)" by (simp add: drop_take min_def)
  then show ?thesis using assms by (simp add: msg_is_complete_def exact_def)
next
  case False
  then show ?thesis by (simp add: msg_is_complete_def)
qed

lemma exact_complete: "exact m \<Longrightarrow> length m < 2 ^ 32 \<Longrightarrow> msg_is_complete m"
  by (simp add: msg_is_complete_def exact_def)

lemma recv_msg_exact:
  assumes "exact (acc @ concat segs)" "length (acc @ concat segs) < 2 ^ 32" "\<forall>seg \<in> set segs. seg \<noteq> []" "segs \<noteq> []"
  shows "recv_msg acc (length acc) segs = (int (length (acc @ concat segs)), acc @ concat segs)"
  using assms
proof (induction acc "length acc" segs rule: recv_msg.induct)
  case (2 acc seg segs)
  let ?m = "acc @ seg @ concat segs" and ?acc = "acc @ take 4 seg"
  have nul: "no_nul (take 4 seg)"
    using 2(2) by (auto simp: exact_def no_nul_def dest: in_set_takeD)
  have seg: "take 4 seg \<noteq> []" using 2(4) by simp
  define rest where "rest = (if drop 4 seg = [] then segs else drop 4 seg # segs)"
  have m: "?acc @ concat rest = ?m"
    using append_take_drop_id[of 4 seg] by (auto simp: rest_def simp del: append_take_drop_id)
  show ?case
  proof (cases "rest = []")
    case True
    then have "?acc = ?m" using m by simp
    then have "msg_is_complete ?acc" using exact_complete[of ?m] 2(2,3) by simp
    then show ?thesis using seg nul \<open>?acc = ?m\<close> by (subst recv_msg.simps) (simp add: Let_def)
  next
    case False
    have ne: "\<forall>x \<in> set rest. x \<noteq> []" using 2(4) by (auto simp: rest_def)
    then have "concat rest \<noteq> []" using False by (cases rest) auto
    then have "length ?acc < length ?m" using m by (metis append.right_neutral append_eq_append_conv length_append less_add_same_cancel1 length_greater_0_conv)
    moreover have "?acc = take (length ?acc) ?m" using m by (metis append_eq_conv_conj)
    ultimately have nc: "\<not> msg_is_complete ?acc" using exact_prefix[of ?m "length ?acc"] 2(2,3) by simp
    have "length ?acc + length (concat rest) = length ?m" using arg_cong[OF m, of length] by simp
    then have "recv_msg ?acc (length ?acc) rest = (int (length ?m), ?m)"
      using 2(1)[OF refl refl _ refl, folded rest_def] seg nul nc m ne False 2(2,3) by simp
    then show ?thesis using seg nul nc by (subst recv_msg.simps) (auto simp: Let_def rest_def min_def split: if_splits)
  qed
qed simp



section \<open>Reporting results\<close>

text \<open>The buffers of the search only matter for what it leaves in them.\<close>

lemma search_result_item:
  "exec (search_pro_result_flag [] item c) s = exec (search_pro_result_flag [] [] c) s"
  "fst (result (search_pro_result_flag [] item c) s) = fst (result (search_pro_result_flag [] [] c) s)"
  "result (search_pro_result_flag [] [] c) s = (True, d, k, m) \<Longrightarrow> length item \<le> length k
     \<Longrightarrow> result (search_pro_result_flag [] item c) s = (True, d, k, m)"
  by (auto simp: search_pro_result_flag_def found_record_def Let_def exec_bind result_bind overlay_def
      split: option.splits simp del: run_state_bind)

lemma result_key: "r \<in> set (result_records s) \<Longrightarrow> length (rkey r) = 3"
  by (auto simp: records_def parse_def rec_item_def item_line_def)

lemma found_result:
  assumes "dir_ready dir_proc_res s" "length item \<le> 3" "pending c (result_records s) = r # rest"
  obtains d m where "cstr d = rbody r @ [NL]"
    "run_state (search_pro_result_flag [] item c) s = ((True, d, rkey r, m), exec (search_pro_result_flag [] [] c) s)"
proof -
  have "r \<in> set (pending c (result_records s))" using assms(3) by simp
  then have k: "length (rkey r) = 3" by (intro result_key[of r s]) (simp add: pending_def)
  obtain d m where "result (search_pro_result_flag [] [] c) s = (True, d, rkey r, m)" "cstr d = rbody r @ [NL]"
    using results.search_found[OF assms(1), of c] assms(3) by auto
  then show ?thesis using that search_result_item(1,3) assms(2) k by (metis prod.collapse)
qed

text \<open>What goes out: over a socket with its length filled in.\<close>

definition report_text :: "bool \<Rightarrow> string \<Rightarrow> string" where
  "report_text wired b = (if wired then set_length b else b)"

lemma run_send_socket:
  "ema_send s 0 \<Longrightarrow> run_state (send_socket b) s =
     ((True, butlast (set_length (with_newline b))),
      s\<lparr>ema_send := (\<lambda>n. ema_send s (Suc n)), trace := trace s @ [NetSend (set_length (with_newline b))]\<rparr>)"
  by (simp add: send_socket_def next_send_def emit_def Let_def numeral_3_eq_3)

lemma run_wifi_send:
  "ema_send s 0 \<Longrightarrow> run_state (wifi_send b) s =
     (True, s\<lparr>ema_send := (\<lambda>n. ema_send s (Suc n)), trace := trace s @ [NetSend b]\<rparr>)"
  by (simp add: wifi_send_def next_send_def emit_def)

lemma run_open_socket:
  "run_state open_socket s = (ema_connect s 0,
     s\<lparr>clock := tl (clock s), ema_connect := (\<lambda>n. ema_connect s (Suc n))\<rparr>)"
  by (auto simp: open_socket_def next_connect_def run_acquire_time split: list.splits intro!: ecu_state.equality)

lemma environment_records [simp]:
  "records ok off key d (s\<lparr>clock := a, ema_connect := b\<rparr>) = records ok off key d s"
  "records ok off key d (s\<lparr>ema_send := e, trace := f\<rparr>) = records ok off key d s"
  "dir_ready d (s\<lparr>clock := a, ema_connect := b\<rparr>) = dir_ready d s"
  "dir_ready d (s\<lparr>ema_send := e, trace := f\<rparr>) = dir_ready d s"
  by (simp_all add: records_def dir_paths_def dir_ready_def good_files_def)

text \<open>Sending the record found: it is sent, and it does not wait any more.\<close>

definition after_send :: "string \<Rightarrow> string \<Rightarrow> ecu_state \<Rightarrow> ecu_state" where
  "after_send b item s = exec (change_pro_result_flag item (CHR ''0''))
     (s\<lparr>clock := tl (clock s), ema_connect := (\<lambda>n. ema_connect s (Suc n)),
        ema_send := (\<lambda>n. ema_send s (Suc n)), trace := trace s @ [NetSend (report_text (ema_connect s 0) b)]\<rparr>)"

lemma result_step:
  assumes "dir_ready dir_proc_res s" "length item \<le> 3" "pending (CHR ''1'') (result_records s) = r # rest" "ema_send s 0"
  shows "result_loop [] item s = result_loop [] (rkey r) (after_send (rbody r @ [NL]) (rkey r) (exec (search_pro_result_flag [] [] (CHR ''1'')) s))"
proof -
  let ?s1 = "exec (search_pro_result_flag [] [] (CHR ''1'')) s"
  have q: "ema_send ?s1 = ema_send s" using results.search_keeps[OF assms(1), of "CHR ''1''"] by (simp add: quiet_def)
  obtain d m where f: "cstr d = rbody r @ [NL]"
    "run_state (search_pro_result_flag [] item (CHR ''1'')) s = ((True, d, rkey r, m), ?s1)"
    using found_result[OF assms(1-3)] by blast
  have "with_newline (rbody r @ [NL]) = rbody r @ [NL]" by (simp add: with_newline_def)
  then show ?thesis using f q assms(4)
    by (subst result_loop.simps) (simp add: run_open_socket run_send_socket run_wifi_send after_send_def report_text_def)
qed

lemma after_send_records:
  assumes "dir_ready dir_proc_res s" "pending (CHR ''1'') (result_records s) = r # rest"
  defines "t \<equiv> after_send (rbody r @ [NL]) (rkey r) (exec (search_pro_result_flag [] [] (CHR ''1'')) s)"
  shows "pending (CHR ''1'') (result_records t) = rest" "dir_ready dir_proc_res t"
    "ema_connect t = (\<lambda>n. ema_connect s (Suc n))" "ema_send t = (\<lambda>n. ema_send s (Suc n))"
    "sent (trace t) = sent (trace s) @ report_text (ema_connect s 0) (rbody r @ [NL])"
proof -
  let ?s1 = "exec (search_pro_result_flag [] [] (CHR ''1'')) s"
  note k = results.search_keeps[OF assms(1), of "CHR ''1''"]
  define u where "u = ?s1\<lparr>clock := tl (clock ?s1), ema_connect := (\<lambda>n. ema_connect ?s1 (Suc n)),
        ema_send := (\<lambda>n. ema_send ?s1 (Suc n)), trace := trace ?s1 @ [NetSend (report_text (ema_connect ?s1 0) (rbody r @ [NL]))]\<rparr>"
  have u: "result_records u = result_records s" "dir_ready dir_proc_res u"
    using k by (simp_all add: u_def records_def dir_paths_def dir_ready_def good_files_def)
  have t: "t = exec (change_pro_result_flag (rkey r) (CHR ''0'')) u" by (simp add: t_def after_send_def u_def)
  note ch = results.change_marks[OF u(2) flag_chars(1), of "rkey r"]
  have "r \<in> set (pending (CHR ''1'') (result_records s))" using assms(2) by simp
  then have r: "r \<in> set (result_records s)" "rflag r = CHR ''1''" by (simp_all add: pending_def)
  have "pending (CHR ''1'') (mark (\<lambda>r'. memeq (rkey r) (rkey r') 4 \<and> rflag r' = CHR ''1'') (CHR ''0'') (result_records s)) = rest"
    using assms(2) r results.matches_key[OF assms(1) r(1) r(1)] by (intro pending_mark_first) auto
  then show "pending (CHR ''1'') (result_records t) = rest" "dir_ready dir_proc_res t"
    using ch u by (simp_all add: t)
  show "ema_connect t = (\<lambda>n. ema_connect s (Suc n))" "ema_send t = (\<lambda>n. ema_send s (Suc n))"
    "sent (trace t) = sent (trace s) @ report_text (ema_connect s 0) (rbody r @ [NL])"
    using ch k by (simp_all add: t quiet_def) (simp_all add: u_def)
qed

text \<open>
  C19. Every result that waits is reported, once and in order. When each send succeeds, over a
  connection or over WiFi, the loop over the results of commands returns with none waiting, and
  what went out is exactly the text of each waiting result, with its length filled in where it
  went over a connection. The keys need not be distinct.
\<close>

theorem results_reported_once:
  assumes "dir_ready dir_proc_res s" "pending (CHR ''1'') (result_records s) = ws"
    "\<forall>n < length ws. ema_send s n" "length item \<le> 3"
  shows "\<exists>bufs t. result_loop [] item s = Some (bufs, t) \<and> dir_ready dir_proc_res t
     \<and> pending (CHR ''1'') (result_records t) = []
     \<and> sent (trace t) = sent (trace s)
         @ concat (map2 report_text (map (ema_connect s) [0..<length ws]) (map (\<lambda>r. rbody r @ [NL]) ws))"
  using assms
proof (induction ws arbitrary: s item)
  case Nil
  let ?s1 = "exec (search_pro_result_flag [] [] (CHR ''1'')) s"
  have "\<not> fst (result (search_pro_result_flag [] item (CHR ''1'')) s)"
    using results.search_found[OF Nil.prems(1), of "CHR ''1''"] Nil.prems(2) by (simp add: search_result_item(2)[of item])
  then obtain d i m where r: "result (search_pro_result_flag [] item (CHR ''1'')) s = (False, d, i, m)"
    by (metis fst_conv prod_cases4)
  have "run_state (search_pro_result_flag [] item (CHR ''1'')) s = ((False, d, i, m), ?s1)"
    unfolding r[symmetric] search_result_item(1)[of item, symmetric] by simp
  then have "\<exists>bufs. result_loop [] item s = Some (bufs, ?s1)" by (subst result_loop.simps) simp
  then show ?case using results.search_keeps[OF Nil.prems(1), of "CHR ''1''"] Nil.prems(2) by (auto simp: quiet_def)
next
  case (Cons r rest)
  have send: "ema_send s 0" using Cons.prems(3) by simp
  have "r \<in> set (pending (CHR ''1'') (result_records s))" using Cons.prems(2) by simp
  then have "length (rkey r) \<le> 3" by (intro eq_refl result_key[of r s]) (simp add: pending_def)
  define t where "t = after_send (rbody r @ [NL]) (rkey r) (exec (search_pro_result_flag [] [] (CHR ''1'')) s)"
  note t = after_send_records[OF Cons.prems(1,2), folded t_def]
  have step: "result_loop [] item s = result_loop [] (rkey r) t"
    unfolding t_def by (rule result_step[OF Cons.prems(1,4,2) send])
  have "\<forall>n < length rest. ema_send t n" using Cons.prems(3) t(4) by auto
  then obtain bufs u where u: "result_loop [] (rkey r) t = Some (bufs, u)" "dir_ready dir_proc_res u"
    "pending (CHR ''1'') (result_records u) = []"
    "sent (trace u) = sent (trace t) @ concat (map2 report_text (map (ema_connect t) [0..<length rest]) (map (\<lambda>r. rbody r @ [NL]) rest))"
    using Cons.IH[OF t(2,1) _ \<open>length (rkey r) \<le> 3\<close>] by blast
  have "map (ema_connect s) [0..<length (r # rest)] = ema_connect s 0 # map (ema_connect t) [0..<length rest]"
    unfolding t(3) by (simp only: list.size add_Suc_right add_0_right map_upt_Suc)
  then have "sent (trace u) = sent (trace s)
      @ concat (map2 report_text (map (ema_connect s) [0..<length (r # rest)]) (map (\<lambda>r. rbody r @ [NL]) (r # rest)))"
    using u(4) t(5) by (simp del: upt_Suc)
  then show ?case unfolding step using u(1-3) by (intro exI conjI)
qed

text \<open>Two results, the first of which was reported before.\<close>

definition result_sample :: ecu_state where
  "result_sample = (one_file dir_proc_res ''20170908.DAT''
     [''APS13000300000A108000000000000XXXXXXEND,108,0'' @ [NL], ''APS13AAAAA0000A111000000000000XXXXXXEND,111,1'' @ [NL]])
     \<lparr>ema_connect := (\<lambda>_. True), ema_send := (\<lambda>_. True)\<rparr>"

lemma result_sample_records:
  "dir_ready dir_proc_res result_sample"
  "pending (CHR ''1'') (result_records result_sample) = [(''APS13AAAAA0000A111000000000000XXXXXXEND'', ''111'', CHR ''1'')]"
proof -
  let ?ls = "[''APS13000300000A108000000000000XXXXXXEND,108,0'' @ [NL], ''APS13AAAAA0000A111000000000000XXXXXXEND,111,1'' @ [NL]]"
  have "\<forall>l \<in> set ?ls. is_line l \<and> length l \<le> 99" by code_simp
  then have ls: "\<forall>l \<in> set ?ls. record_line l" by (rule short_records)
  have env: "records ok off key d (s\<lparr>ema_connect := a, ema_send := b\<rparr>) = records ok off key d s"
    "dir_ready d (s\<lparr>ema_connect := a, ema_send := b\<rparr>) = dir_ready d s" for ok off key d s a b
    by (simp_all add: records_def dir_paths_def dir_ready_def good_files_def)
  show "dir_ready dir_proc_res result_sample" unfolding result_sample_def env by (rule one_file_records(1)[OF ls])
  have "pending (CHR ''1'') (map (parse 7 rec_item) (filter item_line ?ls))
    = [(''APS13AAAAA0000A111000000000000XXXXXXEND'', ''111'', CHR ''1'')]" by code_simp
  then show "pending (CHR ''1'') (result_records result_sample) = [(''APS13AAAAA0000A111000000000000XXXXXXEND'', ''111'', CHR ''1'')]"
    unfolding result_sample_def env one_file_records(2)[OF ls] .
qed

theorem results_reported_once_witness:
  "\<exists>bufs t. result_loop [] [] result_sample = Some (bufs, t) \<and> pending (CHR ''1'') (result_records t) = []
     \<and> sent (trace t) = ''APS13000390000A111000000000000XXXXXXEND'' @ [NL]"
proof -
  have "report_text True (''APS13AAAAA0000A111000000000000XXXXXXEND'' @ [NL]) = ''APS13000390000A111000000000000XXXXXXEND'' @ [NL]"
    by code_simp
  moreover have "ema_connect result_sample = (\<lambda>_. True)" "ema_send result_sample = (\<lambda>_. True)" "sent (trace result_sample) = []"
    by (simp_all add: result_sample_def one_file_def)
  ultimately show ?thesis
    using results_reported_once[OF result_sample_records, of "[]"] by fastforce
qed

section \<open>A reply that is not well formed\<close>

text \<open>What the search for abnormal status finds does not depend on the buffers.\<close>

lemma search_status_buffers:
  "exec (search_statusflag data time c) s = exec (search_statusflag [] [] c) s"
  "fst (result (search_statusflag data time c) s) = fst (result (search_statusflag [] [] c) s)"
  by (auto simp: search_statusflag_def found_record_def Let_def exec_bind result_bind
      split: option.splits simp del: run_state_bind)

definition refused :: "ecu_state \<Rightarrow> bool" where
  "refused s = (dir_ready dir_inversta s \<and> pending (CHR ''1'') (status_records s) \<noteq> [] \<and> (\<forall>n. ema_send s n)
     \<and> (\<forall>n. case recv_msg [] 0 (ema_recv s n) of (k, r) \<Rightarrow> 0 < k \<and> msg_format_check (ecu_id s) r < 0))"

lemma run_status_reply:
  "msg_format_check (ecu_id s) r < 0 \<Longrightarrow> run_state (status_reply junk send r time res) s = ((Again, res), s)"
  by (simp add: status_reply_def)

lemma refused_step:
  assumes "refused s"
  obtains d t m s1 buf s2 n r s3 where "run_state (search_statusflag data time (CHR ''1'')) s = ((True, d, t, m), s1)"
    "run_state (send_socket (cstr d)) s1 = ((True, buf), s2)" "run_state recv_socket s2 = ((n, r), s3)"
    "0 < n" "msg_format_check (ecu_id s3) r < 0" "refused s3"
proof -
  have ready: "dir_ready dir_inversta s" and pend: "pending (CHR ''1'') (status_records s) \<noteq> []"
    and send: "\<forall>n. ema_send s n"
    and recv: "\<forall>n. case recv_msg [] 0 (ema_recv s n) of (k, r) \<Rightarrow> 0 < k \<and> msg_format_check (ecu_id s) r < 0"
    using assms by (auto simp: refused_def)
  let ?s1 = "exec (search_statusflag [] [] (CHR ''1'')) s"
  have s1: "status_records ?s1 = status_records s" "dir_ready dir_inversta ?s1" "ema_send ?s1 = ema_send s"
    "ema_recv ?s1 = ema_recv s" "ecu_id ?s1 = ecu_id s"
    using status.search_keeps[OF ready, of "CHR ''1''"] by (auto simp: quiet_def)
  have "fst (result (search_statusflag data time (CHR ''1'')) s)"
    using status.search_found[OF ready, of "CHR ''1''"] pend
    by (auto simp: search_status_buffers(2)[of data time] split: list.splits)
  then obtain d t m where r: "result (search_statusflag data time (CHR ''1'')) s = (True, d, t, m)"
    by (metis fst_conv prod_cases4)
  have f: "run_state (search_statusflag data time (CHR ''1'')) s = ((True, d, t, m), ?s1)"
    unfolding r[symmetric] search_status_buffers(1)[of data time, symmetric] by simp
  let ?m = "set_length (with_newline (cstr d))"
  let ?s2 = "?s1\<lparr>ema_send := (\<lambda>n. ema_send ?s1 (Suc n)), trace := trace ?s1 @ [NetSend ?m]\<rparr>"
  let ?s3 = "?s2\<lparr>ema_recv := (\<lambda>n. ema_recv s (Suc n))\<rparr>"
  obtain k r where kr: "recv_msg [] 0 (ema_recv s 0) = (k, r)" "0 < k" "msg_format_check (ecu_id s) r < 0"
    using recv[rule_format, of 0] by (cases "recv_msg [] 0 (ema_recv s 0)") auto
  have "run_state (send_socket (cstr d)) ?s1 = ((True, butlast ?m), ?s2)"
    using send s1(3) by (intro run_send_socket) simp
  moreover have "run_state recv_socket ?s2 = ((k, r), ?s3)"
    using kr(1) s1(4) by (simp add: recv_socket_def next_recv_def)
  moreover have "dir_ready dir_inversta ?s3" "status_records ?s3 = status_records s"
    using s1(1,2) by (simp_all add: records_def dir_paths_def dir_ready_def good_files_def)
  then have "refused ?s3" using pend send recv s1(3,5) by (simp add: refused_def)
  moreover have "msg_format_check (ecu_id ?s3) r < 0" using kr(3) s1(5) by simp
  ultimately show ?thesis using f kr(2) that by blast
qed

lemma refused_loop: "status_wired junk data time res s = Some y \<Longrightarrow> \<not> refused s"
proof (rule status_wired.raw_induct[where P = "\<lambda>junk data time res s y. \<not> refused s"])
  fix loop junk data time res s y
  assume IH: "\<And>junk data time res s y. loop junk data time res s = Some y \<Longrightarrow> \<not> refused s"
    and body: "(case run_state (search_statusflag data time (CHR ''1'')) s of ((found, data1, time1, another), s1) \<Rightarrow>
       if \<not> found then Some (res, exec delete_statusflag0 s1)
       else (case run_state (send_socket (cstr data1)) s1 of ((ok, buf), s2) \<Rightarrow>
         if \<not> ok then loop junk (overlay (buf @ [NUL]) data1) time1 res s2
         else (case run_state recv_socket s2 of ((n, r), s3) \<Rightarrow>
           if n \<le> 0 then Some (-1, s3)
           else (case run_state (status_reply junk wired_ack r time1 res) s3 of ((turn, res'), s4) \<Rightarrow>
             if turn = Again then loop junk (overlay (buf @ [NUL]) data1) time1 res' s4
             else if turn = Cleared then loop junk [] time1 res' s4
             else if turn = Finished then Some (res', exec delete_statusflag0 s4)
             else Some (res', s4))))) = Some y"
  show "\<not> refused s"
  proof
    assume "refused s"
    then obtain d t m s1 buf s2 n r s3 where st: "run_state (search_statusflag data time (CHR ''1'')) s = ((True, d, t, m), s1)"
      "run_state (send_socket (cstr d)) s1 = ((True, buf), s2)" "run_state recv_socket s2 = ((n, r), s3)"
      "0 < n" "msg_format_check (ecu_id s3) r < 0" "refused s3"
      by (rule refused_step)
    have "loop junk (overlay (buf @ [NUL]) d) t res s3 = Some y"
      using body st(1-4) run_status_reply[OF st(5), of junk wired_ack t res] by simp
    then show False using IH st(6) by blast
  qed
qed

text \<open>
  C22. A server whose replies are not well formed holds the client for ever. When an abnormal
  status waits to be reported and each message that comes back over the connection is complete
  but fails \<open>msg_format_check\<close> (the identity of another unit is enough), the session does not
  end: the same record is sent again and again, without a limit and without a pause.
\<close>

theorem malformed_reply_holds_session:
  assumes "dir_ready dir_inversta s" "pending (CHR ''1'') (status_records s) \<noteq> []" "ema_connect s 0"
    "\<forall>n. ema_send s n"
    "\<forall>n. case recv_msg [] 0 (ema_recv s n) of (k, r) \<Rightarrow> 0 < k \<and> msg_format_check (ecu_id s) r < 0"
  shows "response_inverter_abnormal_status junk s = None"
proof -
  let ?s = "s\<lparr>clock := tl (clock s), ema_connect := (\<lambda>n. ema_connect s (Suc n))\<rparr>"
  have "refused ?s" using assms(1,2,4,5) by (simp add: refused_def)
  then have "status_wired junk [] [] 0 ?s = None" using refused_loop by (cases "status_wired junk [] [] 0 ?s") blast+
  then show ?thesis using assms(3)
    by (simp add: response_inverter_abnormal_status_def run_open_socket)
qed

text \<open>A server that answers with the identity of another unit.\<close>

definition status_sample :: ecu_state where
  "status_sample = (one_file dir_inversta ''20170908.DAT'' [''AB,20170908080500,1'' @ [NL]])
     \<lparr>ecu_id := ''203000000001'', ema_connect := (\<lambda>_. True), ema_send := (\<lambda>_. True),
      ema_recv := (\<lambda>_. [''APS1300033A100AAA0408000000001END''])\<rparr>"

theorem malformed_reply_holds_session_witness: "\<forall>junk. response_inverter_abnormal_status junk status_sample = None"
proof -
  let ?ls = "[''AB,20170908080500,1'' @ [NL]]"
  have "\<forall>l \<in> set ?ls. is_line l \<and> length l \<le> 99" by code_simp
  then have ls: "\<forall>l \<in> set ?ls. record_line l" by (rule short_records)
  have env: "records ok off key d (s\<lparr>ecu_id := i, ema_connect := a, ema_send := b, ema_recv := e\<rparr>) = records ok off key d s"
    "dir_ready d (s\<lparr>ecu_id := i, ema_connect := a, ema_send := b, ema_recv := e\<rparr>) = dir_ready d s" for ok off key d s i a b e
    by (simp_all add: records_def dir_paths_def dir_ready_def good_files_def)
  have "pending (CHR ''1'') (map (parse 18 rec_time) (filter timed ?ls)) \<noteq> []" by code_simp
  then have p: "pending (CHR ''1'') (status_records status_sample) \<noteq> []"
    unfolding status_sample_def env one_file_records(2)[OF ls] .
  have d: "dir_ready dir_inversta status_sample" unfolding status_sample_def env by (rule one_file_records(1)[OF ls])
  have "case recv_msg [] 0 [''APS1300033A100AAA0408000000001END''] of (k, r) \<Rightarrow>
      0 < k \<and> msg_format_check ''203000000001'' r < 0" by code_simp
  then show ?thesis
    using malformed_reply_holds_session[OF d p] by (simp add: status_sample_def)
qed

end
