(* ===== verification/Inverter_Data.thy ===== *)
theory Inverter_Data
  imports C_Float Zigbee_Link "HOL-Library.Signed_Division"
begin

text \<open>
  What the frame of an inverter says: the decoding of its bytes into measured values
  (\<open>ECU/main/src/resolve.c\<close>), the limits put on them (\<open>checkdata.c\<close>) and the two status texts.
  The three decoders share the stages below; each computes in the types of the C code, with
  every product and quotient of \<open>float\<close> and \<open>double\<close> rounded.
\<close>

section \<open>Arithmetic\<close>

definition s_add :: "rat \<Rightarrow> rat \<Rightarrow> rat" where "s_add x y = f32 (x + y)"
definition s_sub :: "rat \<Rightarrow> rat \<Rightarrow> rat" where "s_sub x y = f32 (x - y)"
definition s_mul :: "rat \<Rightarrow> rat \<Rightarrow> rat" where "s_mul x y = f32 (x * y)"
definition s_div :: "rat \<Rightarrow> rat \<Rightarrow> rat" where "s_div x y = f32 (x / y)"
definition d_add :: "rat \<Rightarrow> rat \<Rightarrow> rat" where "d_add x y = f64 (x + y)"
definition d_mul :: "rat \<Rightarrow> rat \<Rightarrow> rat" where "d_mul x y = f64 (x * y)"
definition d_div :: "rat \<Rightarrow> rat \<Rightarrow> rat" where "d_div x y = f64 (x / y)"

text \<open>
  The \<open>sqrt\<close> of \<open>resolve.c\<close>: Newton's iteration until two guesses agree. \<open>None\<close> would be a loop
  that does not end.
\<close>

partial_function (option) newton :: "rat \<Rightarrow> rat \<Rightarrow> rat option" where
  "newton number last_guess = (let new_guess = s_div (s_add last_guess (s_div number last_guess)) 2 in
     if new_guess \<noteq> last_guess then newton number new_guess else Some new_guess)"

definition sqrt_float :: "rat \<Rightarrow> rat option" where
  "sqrt_float number = (if number < 0 then Some (-1) else newton number 1)"

section \<open>Limits\<close>

definition clamp :: "rat \<Rightarrow> rat \<Rightarrow> rat" where
  "clamp hi x = (if hi < x then hi else if x < 0 then 0 else x)"

definition clamp_int :: "int \<Rightarrow> int \<Rightarrow> int \<Rightarrow> int" where
  "clamp_int lo hi x = (if hi < x then hi else if x < lo then lo else x)"

definition max_generation :: rat where
  "max_generation = f64 (999999 / 1000000)"

definition clamp_generation :: "rat \<Rightarrow> rat" where
  "clamp_generation x = (if max_generation < x then f32 max_generation else if x < 0 then 0 else x)"

definition max_frequency :: "int \<Rightarrow> rat" where
  "max_frequency type = (if type = 1 then 55 else 65)"

definition max_voltage :: "int \<Rightarrow> int" where
  "max_voltage type = (if type = 3 then 155 else if type = 2 then 298 else 278)"

definition check_common :: "int \<Rightarrow> measured \<Rightarrow> measured" where
  "check_common type w = w\<lparr>m_gf := clamp (max_frequency type) (m_gf w),
     phase_a := (phase_a w)\<lparr>p_gv := clamp_int 0 (max_voltage type) (p_gv (phase_a w))\<rparr>,
     m_it := clamp_int (-50) 150 (m_it w)\<rparr>"

definition check_panel :: "bool \<Rightarrow> int \<Rightarrow> panel \<Rightarrow> panel" where
  "check_panel voltage hi_op p = p\<lparr>p_dv := (if voltage then clamp 1500 (p_dv p) else p_dv p),
     p_di := clamp 150 (p_di p), p_op := clamp_int 0 hi_op (p_op p),
     p_curgeneration := clamp_generation (p_curgeneration p)\<rparr>"

definition check_yc500 :: "int \<Rightarrow> measured \<Rightarrow> measured" where
  "check_yc500 type w = check_common type (w\<lparr>panel_a := check_panel True 500 (panel_a w),
     panel_b := check_panel True 500 (panel_b w)\<rparr>)"

text \<open>The voltages of the third and fourth input have no limit, nor have the other two phases.\<close>

definition check_yc1000 :: "int \<Rightarrow> measured \<Rightarrow> measured" where
  "check_yc1000 type w = check_common type (w\<lparr>panel_a := check_panel True 300 (panel_a w),
     panel_b := check_panel True 300 (panel_b w), panel_c := check_panel False 300 (panel_c w),
     panel_d := check_panel False 300 (panel_d w)\<rparr>)"

section \<open>Status texts\<close>

text \<open>\<open>((data[n]>>k)&0x01)+0x30\<close>\<close>

definition bit_char :: "byte \<Rightarrow> nat \<Rightarrow> char" where
  "bit_char b k = (if bit b k then CHR ''1'' else CHR ''0'')"

text \<open>The bit pattern \<open>status_web\<close> has 37 characters; \<open>is1 w n\<close> asks for one of them.\<close>

definition is1 :: "string \<Rightarrow> nat \<Rightarrow> bool" where
  "is1 web n = (n < length web \<and> web ! n = CHR ''1'')"

definition one_if :: "bool \<Rightarrow> string" where
  "one_if b = (if b then ''1'' else ''0'')"

definition chars_at :: "string \<Rightarrow> nat list \<Rightarrow> string" where
  "chars_at web ns = map (\<lambda>n. web ! n) ns"

text \<open>
  \<open>status_ema\<close>, sent to the EMA when one of the bits is set; the id has twelve characters, so
  that the pattern begins at position 18.
\<close>

definition yc600_status :: "inverter \<Rightarrow> inverter" where
  "yc600_status v = (let web = m_status_web (meas v) in
     if \<exists>n \<in> set [0, 1, 16, 17, 18, 19, 21, 22, 23, 24, 25, 26, 27, 28]. is1 web n
     then v\<lparr>meas := (meas v)\<lparr>m_status_send_flag := 1,
       m_status_ema := inv_id v @ ''07''
         @ one_if (\<exists>n \<in> set [0, 1, 19, 21, 22, 23, 24]. is1 web n)
         @ one_if (is1 web 16) @ one_if (is1 web 17 \<or> is1 web 28) @ one_if (is1 web 18)
         @ chars_at web [0, 1, 19, 22, 21, 16, 17, 18] @ ''0''
         @ chars_at web [23, 24, 25, 26, 27, 28] @ ''00000000'' @ ''END''\<rparr>\<rparr>
     else v\<lparr>meas := (meas v)\<lparr>m_status_send_flag := 0, m_status_ema := []\<rparr>\<rparr>)"

definition yc1000_status :: "inverter \<Rightarrow> inverter" where
  "yc1000_status v = (let web = m_status_web (meas v) in
     if \<exists>n \<in> set [0, 1, 2, 3, 4, 5, 6, 7, 16, 17, 18, 19, 21, 22]. is1 web n
     then v\<lparr>meas := (meas v)\<lparr>m_status_send_flag := 1,
       m_status_ema := inv_id v @ ''04''
         @ one_if (\<exists>n \<in> set [0, 1, 2, 3, 4, 5, 6, 7, 19, 21, 22]. is1 web n)
         @ one_if (is1 web 16) @ one_if (is1 web 17) @ one_if (is1 web 18)
         @ chars_at web [0, 1, 19, 22, 21, 16, 17, 18] @ ''0''
         @ ''A'' @ chars_at web [2, 3] @ ''B'' @ chars_at web [4, 5] @ ''C'' @ chars_at web [6, 7]
         @ ''END''\<rparr>\<rparr>
     else v\<lparr>meas := (meas v)\<lparr>m_status_send_flag := 0, m_status_ema := []\<rparr>\<rparr>)"

text \<open>The flags that say whether the ground fault and the switched-off state have changed.\<close>

definition flag_of :: "char \<Rightarrow> bit1" where
  "flag_of c = (if c = CHR ''1'' then 1 else 0)"

definition changed_flags :: "inverter \<Rightarrow> inverter" where
  "changed_flags v = (let web = m_status_web (meas v) in
     v\<lparr>gfdi_changed_flag := (if uint (last_gfdi_flag v) \<noteq> atoi [web ! 17] then 1 else 0),
       last_gfdi_flag := flag_of (web ! 17),
       turn_on_off_changed_flag := (if uint (last_turn_on_off_flag v) \<noteq> atoi [web ! 18] then 1 else 0),
       last_turn_on_off_flag := flag_of (web ! 18)\<rparr>)"

section \<open>Reading the bytes\<close>

definition byte_at :: "byte list \<Rightarrow> nat \<Rightarrow> int" where
  "byte_at d n = uint (d ! n)"

definition be24 :: "byte list \<Rightarrow> nat \<Rightarrow> int" where
  "be24 d n = byte_at d n * 65536 + byte_at d (n + 1) * 256 + byte_at d (n + 2)"

text \<open>A value of twelve bits: its high part in one byte, the low four bits in the upper half of the
  next; or its high four bits in the lower half of a byte and the rest in the next.\<close>

definition twelve_up :: "byte list \<Rightarrow> nat \<Rightarrow> int" where
  "twelve_up d n = (drop_bit 4 (byte_at d n) AND 0x0F) * 256 + (push_bit 4 (byte_at d n) AND 0xF0)
     OR (drop_bit 4 (byte_at d (n + 1)) AND 0x0F)"

definition twelve_down :: "byte list \<Rightarrow> nat \<Rightarrow> int" where
  "twelve_down d n = (byte_at d n AND 0x0F) * 256 + byte_at d (n + 1)"

text \<open>The energy counter of an input of a YC1000: five bytes.\<close>

definition energy_1000 :: "byte list \<Rightarrow> nat \<Rightarrow> rat" where
  "energy_1000 d n = (let
     scale = (\<lambda>x. d_div (d_mul (d_div x 1661900) 220) 1000);
     hi = d_mul (d_mul (d_mul (scale (of_int (byte_at d n * 256 + byte_at d (n + 1)))) 256) 256) 256;
     lo = scale (d_add (d_add (d_mul (d_mul (of_int (byte_at d (n + 2))) 256) 256) (d_mul (of_int (byte_at d (n + 3))) 256))
       (of_int (byte_at d (n + 4)))) in
     f32 (d_div (d_add hi lo) 3600))"

definition energy_600 :: "byte list \<Rightarrow> nat \<Rightarrow> rat" where
  "energy_600 d n = (let c = f64 (10095 / 1000) in
     f32 (d_div (d_div (d_add (d_add
         (d_mul (d_mul (of_int (byte_at d n * 256)) c) 220)
         (d_mul (d_mul (of_int (byte_at d (n + 1))) c) 220))
         (d_mul (d_div (of_int (be24 d (n + 2))) 1661900) 220)) 3600) 1000))"

definition read_phase_1000 :: "byte list \<Rightarrow> nat \<Rightarrow> nat \<Rightarrow> nat \<Rightarrow> phase \<Rightarrow> phase" where
  "read_phase_1000 d re ac out p = p\<lparr>
     p_reactive_power := f32 (of_int (be24 d re div 1712)),
     p_active_power := f32 (d_div (of_int (be24 d ac)) (f64 (95957 / 100))),
     p_cur_output_energy := f32 (d_div (of_int (be24 d out)) (932675 / 10))\<rparr>"

definition volts :: "rat \<Rightarrow> int \<Rightarrow> int" where
  "volts unit_value x = to_int (d_div (of_int x) unit_value)"

definition read_1000 :: "byte list \<Rightarrow> measured \<Rightarrow> measured" where
  "read_1000 d w = (let
     dv = of_int (twelve_up d 9 * 825 div 4096);
     gv = volts (f64 (1161445 / 100)) in w\<lparr>
     m_it := (((byte_at d 0 AND 0x0F) * 256 + byte_at d 1) * 330 - 245760) sdiv 4096,
     m_gf := (if d ! 2 = 0 \<and> d ! 3 = 0 then 0
       else f32 (d_div 256000 (of_int (byte_at d 2 * 256 + byte_at d 3)))),
     m_curacctime := byte_at d 7 * 256 + byte_at d 8,
     panel_a := (panel_a w)\<lparr>p_dv := dv, p_di := of_int (twelve_up d 12 * 275 div 4096),
       p_curaccgen := energy_1000 d 27\<rparr>,
     panel_b := (panel_b w)\<lparr>p_dv := dv, p_di := of_int (twelve_down d 13 * 275 div 4096),
       p_curaccgen := energy_1000 d 32\<rparr>,
     panel_c := (panel_c w)\<lparr>p_dv := dv, p_di := of_int (twelve_up d 15 * 275 div 4096),
       p_curaccgen := energy_1000 d 37\<rparr>,
     panel_d := (panel_d w)\<lparr>p_dv := dv, p_di := of_int (twelve_down d 16 * 275 div 4096),
       p_curaccgen := energy_1000 d 42\<rparr>,
     phase_a := read_phase_1000 d 47 56 65 ((phase_a w)\<lparr>p_gv := gv (be24 d 18)\<rparr>),
     phase_b := read_phase_1000 d 50 59 68 ((phase_b w)\<lparr>p_gv := gv (be24 d 21)\<rparr>),
     phase_c := read_phase_1000 d 53 62 71 ((phase_c w)\<lparr>p_gv := gv (be24 d 24)\<rparr>)\<rparr>)"

text \<open>
  The factors of reactive and active power, from the code in byte 37; \<open>(factor1, factor2)\<close>.
\<close>

definition power_factors :: "int \<Rightarrow> (rat \<times> rat) option" where
  "power_factors c = (
     if c = 0x1F then Some (1, 0)
     else if 11 \<le> c \<and> c \<le> 20 then
       (let f = f32 (d_div (of_int (c - 11)) 10) in
        map_option (\<lambda>g. (f, g)) (sqrt_float (s_sub 1 (s_mul f f))))
     else if 0 < c \<and> c < 11 then
       (let f = f32 (d_div (of_int (c - 1)) 10) in
        map_option (\<lambda>g. (g, f)) (sqrt_float (s_sub 1 (s_mul f f))))
     else Some (0, 0))"

text \<open>The common part of the two decoders of a YC600; they differ in temperature and grid voltage.\<close>

definition read_600 :: "byte list \<Rightarrow> int \<Rightarrow> rat \<Rightarrow> rat \<times> rat \<Rightarrow> measured \<Rightarrow> measured" where
  "read_600 d it gv_unit factors w = (let
     volt = (\<lambda>h l. f32 (d_div (d_mul (of_int (push_bit 4 (byte_at d h) + (byte_at d l AND 0xF0))) (825 / 10)) 4096));
     amp = (\<lambda>h l. f32 (d_div (d_mul (of_int ((byte_at d h AND 0x0F) * 256 + byte_at d l)) (275 / 10)) 4096));
     dv = volt 14 13; dvb = volt 17 16; di = amp 13 12; dib = amp 16 15;
     genb = energy_600 d 27; gen = energy_600 d 32;
     dc = s_add (s_mul dv di) (s_mul dvb dib);
     share = (\<lambda>factor. f32 (d_mul (d_mul factor (f64 (94 / 100))) dc)) in w\<lparr>
     m_it := it,
     m_gf := (if d ! 2 = 0 \<and> d ! 3 = 0 \<and> d ! 4 = 0 then 0 else f32 (d_div 50000000 (of_int (be24 d 2)))),
     m_curacctime := byte_at d 7 * 256 + byte_at d 8,
     panel_a := (panel_a w)\<lparr>p_dv := dv, p_di := di, p_curaccgen := gen\<rparr>,
     panel_b := (panel_b w)\<lparr>p_dv := dvb, p_di := dib, p_curaccgen := genb\<rparr>,
     phase_a := (phase_a w)\<lparr>p_gv := volts gv_unit (byte_at d 18 * 256 + byte_at d 19),
       p_reactive_power := share (snd factors), p_active_power := share (fst factors),
       p_cur_output_energy := f32 (d_mul (d_mul (s_add gen genb) (f64 (94 / 100))) (of_int (byte_at d 37)))\<rparr>\<rparr>)"

section \<open>Energy since the last frame\<close>

definition grew :: "phase \<Rightarrow> bool" where
  "grew p = (p_pre_output_energy p \<le> p_cur_output_energy p)"

definition output_step :: "bool \<Rightarrow> phase \<Rightarrow> phase" where
  "output_step continued p = p\<lparr>p_output_energy := (if continued
       then s_sub (p_cur_output_energy p) (p_pre_output_energy p) else p_cur_output_energy p),
     p_pre_output_energy := p_cur_output_energy p\<rparr>"

definition generation_step :: "bool \<Rightarrow> panel \<Rightarrow> panel" where
  "generation_step continued p = p\<lparr>p_curgeneration := (if continued
       then s_sub (p_curaccgen p) (p_preaccgen p) else p_curaccgen p),
     p_preaccgen := p_curaccgen p\<rparr>"

definition output_1000 :: "measured \<Rightarrow> measured" where
  "output_1000 w = (let continued = grew (phase_a w) \<and> grew (phase_b w) \<and> grew (phase_c w)
       \<and> m_preacctime w \<le> m_curacctime w in
     w\<lparr>phase_a := output_step continued (phase_a w), phase_b := output_step continued (phase_b w),
       phase_c := output_step continued (phase_c w)\<rparr>)"

definition output_600 :: "measured \<Rightarrow> measured" where
  "output_600 w = w\<lparr>phase_a := output_step (grew (phase_a w) \<and> m_preacctime w \<le> m_curacctime w) (phase_a w)\<rparr>"

text \<open>A frame of a YC1000 with an implausible step is dropped.\<close>

definition jumped :: "measured \<Rightarrow> bool" where
  "jumped w = (m_curacctime w - m_preacctime w < 14400
     \<and> (1 < s_sub (p_curaccgen (panel_a w)) (p_preaccgen (panel_a w))
      \<or> 1 < s_sub (p_curaccgen (panel_b w)) (p_preaccgen (panel_b w))
      \<or> 1 < s_sub (p_curaccgen (panel_c w)) (p_preaccgen (panel_c w))))"

text \<open>The seconds the energies stand for, and the energies.\<close>

definition generation_1000 :: "measured \<Rightarrow> int \<times> measured" where
  "generation_1000 w = (let
     more_than = (\<lambda>p. p_preaccgen p < p_curaccgen p);
     continued = more_than (panel_a w) \<and> more_than (panel_b w) \<and> more_than (panel_c w)
       \<and> more_than (panel_d w) \<and> m_preacctime w < m_curacctime w in
     (if continued then m_curacctime w - m_preacctime w else m_curacctime w,
      w\<lparr>panel_a := generation_step continued (panel_a w), panel_b := generation_step continued (panel_b w),
        panel_c := generation_step continued (panel_c w), panel_d := generation_step continued (panel_d w),
        m_preacctime := m_curacctime w\<rparr>))"

definition generation_600 :: "measured \<Rightarrow> int \<times> measured" where
  "generation_600 w = (let
     no_less = (\<lambda>p. p_preaccgen p \<le> p_curaccgen p);
     continued = no_less (panel_a w) \<and> no_less (panel_b w) \<and> m_preacctime w \<le> m_curacctime w in
     (if continued then m_curacctime w - m_preacctime w else m_curacctime w,
      w\<lparr>panel_a := generation_step continued (panel_a w), panel_b := generation_step continued (panel_b w),
        m_preacctime := m_curacctime w\<rparr>))"

text \<open>
  The power of an input. After ten minutes of counting it is the energy over the time, the
  conversion of an infinite or undefined quotient yielding \<open>u\<close>; before, and when the result is
  too large, voltage times current. The code sets the powers to 0 when no time has passed,
  but either branch that follows overwrites them.
\<close>

definition dc_power :: "rat \<Rightarrow> panel \<Rightarrow> int" where
  "dc_power divisor p = to_int (if divisor = 1 then s_mul (p_dv p) (p_di p)
     else d_div (s_mul (p_dv p) (p_di p)) divisor)"

definition energy_power :: "int \<Rightarrow> int \<Rightarrow> panel \<Rightarrow> int" where
  "energy_power u seconds p = (if seconds = 0 then u
     else to_int (d_div (d_mul (d_mul (p_curgeneration p) 1000) 3600) (of_int seconds)))"

definition power_step :: "rat \<Rightarrow> int \<Rightarrow> int \<Rightarrow> int \<Rightarrow> int \<Rightarrow> panel \<Rightarrow> panel" where
  "power_step divisor most u acctime seconds p = (let
     op1 = (if 600 < acctime then energy_power u seconds p else dc_power divisor p) in
     p\<lparr>p_op := (if most < op1 then dc_power divisor p else op1)\<rparr>)"

section \<open>The decoders\<close>

definition status_web_1000 :: "byte list \<Rightarrow> string" where
  "status_web_1000 d = map (bit_char (d ! 6)) [0, 1, 2, 3, 4, 5, 6, 7] @ map (bit_char (d ! 5)) [0, 1]
     @ ''000000'' @ map (bit_char (d ! 4)) [0, 1, 2, 3] @ ''0'' @ map (bit_char (d ! 4)) [5, 6]
     @ ''00000000000000''"

definition common_web_600 :: "byte list \<Rightarrow> string" where
  "common_web_600 d = [bit_char (d ! 25) 6, bit_char (d ! 25) 7] @ ''000000''
     @ [bit_char (d ! 25) 1, bit_char (d ! 26) 7, bit_char (d ! 26) 6, bit_char (d ! 26) 5] @ ''0000''
     @ [bit_char (d ! 25) 0, bit_char (d ! 26) 4, bit_char (d ! 26) 3, bit_char (d ! 26) 0] @ ''0''
     @ [bit_char (d ! 25) 3, bit_char (d ! 25) 2, bit_char (d ! 25) 5, bit_char (d ! 25) 4]"

definition status_web_600 :: "byte list \<Rightarrow> string" where
  "status_web_600 d = common_web_600 d @ ''000000000000''"

definition status_web_600_new :: "byte list \<Rightarrow> string" where
  "status_web_600_new d = common_web_600 d
     @ [bit_char (d ! 24) 2, bit_char (d ! 24) 1, bit_char (d ! 24) 0, bit_char (d ! 26) 1] @ ''00000000''"

definition set_status :: "string \<Rightarrow> nat list \<Rightarrow> nat list \<Rightarrow> measured \<Rightarrow> measured" where
  "set_status web a b w = w\<lparr>m_status_web := web,
     m_status := chars_at web ([1, 0] @ a @ [16, 17, 18, 19]) @ ''0'',
     m_statusb := chars_at web ([1, 0] @ b @ [16, 17, 18, 19]) @ ''0''\<rparr>"

text \<open>Disconnected from the grid: a nominal frequency and no voltage.\<close>

definition off_grid_1000 :: "int \<Rightarrow> measured \<Rightarrow> measured" where
  "off_grid_1000 type w = (if is1 (m_status_web w) 19
     then w\<lparr>m_gf := (if type = 1 then 50 else 60), phase_a := (phase_a w)\<lparr>p_gv := 0\<rparr>,
       phase_b := (phase_b w)\<lparr>p_gv := 0\<rparr>, phase_c := (phase_c w)\<lparr>p_gv := 0\<rparr>\<rparr>
     else w)"

definition off_grid_600 :: "int \<Rightarrow> byte \<Rightarrow> measured \<Rightarrow> measured" where
  "off_grid_600 type md w = (if is1 (m_status_web w) 19
     then w\<lparr>m_gf := (if md = 3 then 50 else if md = 4 then 60
         else if md = 7 then (if type = 1 then 50 else 60) else m_gf w),
       phase_a := (phase_a w)\<lparr>p_gv := 0\<rparr>\<rparr>
     else w)"

definition set_report_time :: "string \<Rightarrow> inverter \<Rightarrow> inverter" where
  "set_report_time bt v = v\<lparr>meas := (meas v)\<lparr>m_last_report_time := bt\<rparr>\<rparr>"

definition resolvedata_1000 :: "int \<Rightarrow> string \<Rightarrow> int \<Rightarrow> byte list \<Rightarrow> inverter \<Rightarrow> inverter" where
  "resolvedata_1000 type bt u d v = (let w = read_1000 d (meas v) in
     if jumped w then v\<lparr>meas := w, dataflag := 0\<rparr>
     else let (seconds, w2) = generation_1000 (output_1000 w);
       power = power_step 100 260 u (m_curacctime w2) seconds;
       w3 = w2\<lparr>panel_a := power (panel_a w2), panel_b := power (panel_b w2),
         panel_c := power (panel_c w2), panel_d := power (panel_d w2)\<rparr>;
       web = status_web_1000 d;
       w4 = (set_status web [2, 3, 8, 9] [4, 5, 8, 9] w3)\<lparr>
         m_statusc := chars_at web [1, 0, 6, 7, 8, 9, 16, 17, 18, 19] @ ''0''\<rparr>;
       v1 = changed_flags (v\<lparr>meas := off_grid_1000 type w4\<rparr>) in
     set_report_time bt (yc1000_status (v1\<lparr>meas := check_yc1000 type (meas v1)\<rparr>)))"

definition resolve_600 :: "int \<Rightarrow> string \<Rightarrow> int \<Rightarrow> string \<Rightarrow> nat list \<Rightarrow> measured \<Rightarrow> inverter \<Rightarrow> inverter" where
  "resolve_600 type bt u web ac w v = (let (seconds, w2) = generation_600 (output_600 w);
       power = power_step 1 360 u (m_curacctime w2) seconds;
       w3 = w2\<lparr>panel_a := power (panel_a w2), panel_b := power (panel_b w2)\<rparr>;
       w4 = set_status web (ac @ [8, 9]) (ac @ [10, 11]) w3;
       v1 = changed_flags (v\<lparr>meas := off_grid_600 type (model v) w4\<rparr>) in
     set_report_time bt (yc600_status (v1\<lparr>meas := check_yc500 type (meas v1)\<rparr>)))"

definition resolvedata_600 :: "int \<Rightarrow> string \<Rightarrow> int \<Rightarrow> byte list \<Rightarrow> inverter \<Rightarrow> inverter option" where
  "resolvedata_600 type bt u d v = (case power_factors (byte_at d 37) of None \<Rightarrow> None
   | Some factors \<Rightarrow> Some (resolve_600 type bt u (status_web_600 d) [2, 3]
      (read_600 d (((byte_at d 0 * 256 + byte_at d 1) * 330 - 245760) sdiv 4096) (f64 (13277 / 10000)) factors (meas v)) v))"

definition resolvedata_600_new :: "int \<Rightarrow> string \<Rightarrow> int \<Rightarrow> byte list \<Rightarrow> inverter \<Rightarrow> inverter option" where
  "resolvedata_600_new type bt u d v = (case power_factors (byte_at d 37) of None \<Rightarrow> None
   | Some factors \<Rightarrow> Some (resolve_600 type bt u (status_web_600_new d) [23, 24]
      (read_600 d (to_int (d_div (of_int ((byte_at d 0 * 256 + byte_at d 1) * 3300 div 4092 - 757)) (f64 (285 / 100))))
        (f64 (133 / 100)) factors (meas v)) v))"

end
