(* ===== verification/Inverter_Spec.thy ===== *)
theory Inverter_Spec
  imports Inverter_Data
begin

text \<open>
  Properties of the decoding of an inverter's frame: the square root of the power factor is
  found for every code, and whatever the frame, the decoded values are in their ranges and
  the status texts have the layout the EMA expects.
\<close>

declare newton.simps [code]

section \<open>Rounded quotients of integers\<close>

text \<open>
  Rounding computed on integers, for evaluation: the pair \<open>(m, n)\<close> stands for \<open>m / n\<close>. \<open>e\<close> is a
  guess of the exponent, which is checked.
\<close>

definition scaled :: "int \<Rightarrow> int \<Rightarrow> int \<Rightarrow> int \<times> int" where
  "scaled e a b = (if 0 \<le> e then (a, b * 2 ^ nat e) else (a * 2 ^ nat (- e), b))"

definition round_at :: "nat \<Rightarrow> int \<Rightarrow> int \<Rightarrow> int \<Rightarrow> (int \<times> int) option" where
  "round_at p e a b = (let (x, y) = scaled e a b; q = x div y; r = x mod y;
     n = (if 2 * r < y then q else if y < 2 * r then q + 1 else if even q then q else q + 1) in
     if 0 < p \<and> 2 ^ (p - 1) * y \<le> x \<and> x < 2 ^ p * y
     then Some (if 0 \<le> e then (n * 2 ^ nat e, 1) else (n, 2 ^ nat (- e))) else None)"

definition round_frac :: "nat \<Rightarrow> int \<times> int \<Rightarrow> (int \<times> int) option" where
  "round_frac p ab = (let (a, b) = ab; k = bitlen a - bitlen b - int p in
     if a = 0 then Some (0, 1)
     else if a < 0 \<or> b \<le> 0 then None
     else (case round_at p (k + 1) a b of Some r \<Rightarrow> Some r | None \<Rightarrow> round_at p k a b))"

abbreviation ratio :: "int \<times> int \<Rightarrow> rat" where
  "ratio ab \<equiv> of_int (fst ab) / of_int (snd ab)"

lemma half_even_quotient:
  assumes "0 < y"
  shows "half_even (of_int x / of_int y) = (let q = x div y; r = x mod y in
     if 2 * r < y then q else if y < 2 * r then q + 1 else if even q then q else q + 1)"
proof -
  have fl: "\<lfloor>(of_int x :: rat) / of_int y\<rfloor> = x div y" by (rule floor_divide_of_int_eq)
  have "(of_int x :: rat) = of_int (x div y) * of_int y + of_int (x mod y)"
    by (metis div_mult_mod_eq of_int_add of_int_mult)
  then have d: "(of_int x :: rat) / of_int y - of_int (x div y) = of_int (x mod y) / of_int y"
    using assms by (simp add: field_simps)
  have c: "(of_int r / of_int y < (1 :: rat) / 2) = (2 * r < y)"
    "((1 :: rat) / 2 < of_int r / of_int y) = (y < 2 * r)" for r
  proof -
    have "((of_int r :: rat) / of_int y < 1 / 2) = ((of_int (2 * r) :: rat) < of_int y)"
      using assms by (simp add: field_simps)
    then show "(of_int r / of_int y < (1 :: rat) / 2) = (2 * r < y)" by (simp only: of_int_less_iff)
    have "((1 :: rat) / 2 < of_int r / of_int y) = ((of_int y :: rat) < of_int (2 * r))"
      using assms by (simp add: field_simps)
    then show "((1 :: rat) / 2 < of_int r / of_int y) = (y < 2 * r)" by (simp only: of_int_less_iff)
  qed
  show ?thesis unfolding half_even_def Let_def fl d c by simp
qed

lemma round_at_correct:
  assumes "round_at p e a b = Some ab" "0 < b"
  shows "round_to p (of_int a / of_int b) = ratio ab"
proof -
  obtain x y where s: "scaled e a b = (x, y)" by (cases "scaled e a b")
  have y: "0 < y" using s assms(2) by (auto simp: scaled_def split: if_splits)
  have q: "of_int a / of_int b / pow2 e = of_int x / of_int y"
    using s assms(2) by (auto simp: scaled_def pow2_def field_simps split: if_splits)
  have p: "0 < p" "2 ^ (p - 1) * y \<le> x" "x < 2 ^ p * y"
    using assms(1) s by (auto simp: round_at_def Let_def split: if_splits)
  have lo: "(2 :: rat) ^ (p - 1) \<le> of_int x / of_int y"
  proof -
    have "(of_int (2 ^ (p - 1) * y) :: rat) \<le> of_int x" using p(2) by (simp only: of_int_le_iff)
    then show ?thesis using y by (simp add: field_simps)
  qed
  have hi: "of_int x / of_int y < (2 :: rat) ^ p"
  proof -
    have "(of_int x :: rat) < of_int (2 ^ p * y)" using p(3) by (simp only: of_int_less_iff)
    then show ?thesis using y by (simp add: field_simps)
  qed
  have "round_to p (of_int a / of_int b) = of_int (half_even (of_int a / of_int b / pow2 e)) * pow2 e"
  proof (rule round_to_at)
    have "pow2 (e + int p - 1) = pow2 (int (p - 1)) * pow2 e"
      using p(1) by (simp add: pow2_add[symmetric] of_nat_diff algebra_simps)
    then show "pow2 (e + int p - 1) \<le> of_int a / of_int b"
      using lo unfolding q[symmetric] by (simp only: pow2_nat pos_le_divide_eq pow2_pos)
    have "pow2 (e + int p) = pow2 (int p) * pow2 e" by (simp add: pow2_add algebra_simps)
    then show "of_int a / of_int b < pow2 (e + int p)"
      using hi unfolding q[symmetric] by (simp only: pow2_nat pos_divide_less_eq pow2_pos)
  qed
  then have "round_to p (of_int a / of_int b) = of_int (half_even (of_int x / of_int y)) * pow2 e"
    by (simp only: q)
  moreover have "ratio ab = of_int (half_even (of_int x / of_int y)) * pow2 e"
    using assms(1) s half_even_quotient[OF y, of x]
    by (auto simp: round_at_def Let_def pow2_def split: if_splits)
  ultimately show ?thesis by simp
qed

lemma round_frac_correct:
  assumes "round_frac p ab = Some cd"
  shows "round_to p (ratio ab) = ratio cd"
proof -
  obtain a b where ab: "ab = (a, b)" by (cases ab)
  show ?thesis
  proof (cases "a = 0")
    case True
    then show ?thesis using assms ab by (auto simp: round_frac_def round_to_def)
  next
    case False
    then show ?thesis using assms ab round_at_correct
      by (fastforce simp: round_frac_def Let_def split: if_splits option.splits)
  qed
qed

section \<open>The square root\<close>

text \<open>The iteration on such pairs, with a bound on its steps.\<close>

definition newton_step :: "int \<times> int \<Rightarrow> int \<times> int \<Rightarrow> (int \<times> int) option" where
  "newton_step x g = (if fst g \<le> 0 \<or> snd g \<le> 0 \<or> snd x \<le> 0 then None else
     case round_frac 24 (fst x * snd g, snd x * fst g) of None \<Rightarrow> None
     | Some q \<Rightarrow> if snd q \<le> 0 then None else
       (case round_frac 24 (fst g * snd q + fst q * snd g, snd g * snd q) of None \<Rightarrow> None
        | Some t \<Rightarrow> round_frac 24 (fst t, 2 * snd t)))"

fun newton_run :: "nat \<Rightarrow> int \<times> int \<Rightarrow> int \<times> int \<Rightarrow> bool" where
  "newton_run 0 x g = False"
| "newton_run (Suc n) x g = (case newton_step x g of None \<Rightarrow> False
     | Some h \<Rightarrow> 0 < snd h \<and> (fst h * snd g = fst g * snd h \<or> newton_run n x h))"

lemma newton_step_correct:
  assumes "newton_step x g = Some h"
  shows "s_div (s_add (ratio g) (s_div (ratio x) (ratio g))) 2 = ratio h"
proof -
  obtain q t where pos: "0 < fst g" "0 < snd g" "0 < snd x" "0 < snd q"
    and q: "round_frac 24 (fst x * snd g, snd x * fst g) = Some q"
    and t: "round_frac 24 (fst g * snd q + fst q * snd g, snd g * snd q) = Some t"
    and h: "round_frac 24 (fst t, 2 * snd t) = Some h"
    using assms by (auto simp: newton_step_def split: if_splits option.splits)
  have 1: "s_div (ratio x) (ratio g) = ratio q"
    using round_frac_correct[OF q] by (simp add: s_div_def)
  have "ratio g + ratio q = ratio (fst g * snd q + fst q * snd g, snd g * snd q)"
    using pos by (simp add: field_simps)
  then have 2: "s_add (ratio g) (ratio q) = ratio t"
    using round_frac_correct[OF t] by (simp only: s_add_def)
  have "ratio t / 2 = ratio (fst t, 2 * snd t)" by simp
  then have "s_div (ratio t) 2 = ratio h"
    using round_frac_correct[OF h] by (simp only: s_div_def)
  then show ?thesis by (simp only: 1 2)
qed

lemma newton_run_correct: "newton_run n x g \<Longrightarrow> newton (ratio x) (ratio g) \<noteq> None"
proof (induction n arbitrary: g)
  case (Suc n)
  then obtain h where h: "newton_step x g = Some h" "0 < snd h"
    and c: "fst h * snd g = fst g * snd h \<or> newton_run n x h" by (auto split: option.splits)
  note s = newton_step_correct[OF h(1)]
  have g: "0 < snd g" using h(1) by (auto simp: newton_step_def split: if_splits)
  have e: "newton (ratio x) (ratio g) = (if ratio h \<noteq> ratio g then newton (ratio x) (ratio h) else Some (ratio h))"
    by (subst newton.simps) (simp only: s Let_def)
  from c show ?case
  proof
    assume "fst h * snd g = fst g * snd h"
    then have "(of_int (fst h * snd g) :: rat) = of_int (fst g * snd h)" by (simp only:)
    then have "ratio h = ratio g" using g h(2) by (simp add: field_simps)
    then show ?thesis using e by simp
  next
    assume "newton_run n x h"
    then show ?thesis using Suc.IH e by (cases "ratio h = ratio g") simp_all
  qed
qed simp

text \<open>The argument of the root for the tenths of a power factor, computed on pairs.\<close>

definition root_argument :: "int \<Rightarrow> (int \<times> int) option" where
  "root_argument c = (case round_frac 53 (c, 10) of None \<Rightarrow> None
   | Some d \<Rightarrow> (case round_frac 24 d of None \<Rightarrow> None
     | Some f \<Rightarrow> (case round_frac 24 (fst f * fst f, snd f * snd f) of None \<Rightarrow> None
       | Some s \<Rightarrow> if snd s \<le> 0 then None else round_frac 24 (snd s - fst s, snd s))))"

lemma root_argument_correct:
  assumes "root_argument c = Some x" "f = f32 (d_div (of_int c) 10)"
  shows "s_sub 1 (s_mul f f) = ratio x"
proof -
  obtain d g s where d: "round_frac 53 (c, 10) = Some d" and g: "round_frac 24 d = Some g"
    and s: "round_frac 24 (fst g * fst g, snd g * snd g) = Some s" "0 < snd s"
    and x: "round_frac 24 (snd s - fst s, snd s) = Some x"
    using assms(1) by (auto simp: root_argument_def split: if_splits option.splits)
  have "d_div (of_int c) 10 = ratio d" using round_frac_correct[OF d] by (simp add: d_div_def)
  then have f: "f = ratio g" using round_frac_correct[OF g] assms(2) by simp
  have "s_mul f f = ratio s" using round_frac_correct[OF s(1)] by (simp add: s_mul_def f)
  moreover have "1 - ratio s = ratio (snd s - fst s, snd s)" using s(2) by (simp add: field_simps)
  ultimately show ?thesis using round_frac_correct[OF x] by (simp only: s_sub_def)
qed

lemma roots_found:
  "\<forall>c \<in> set [0..9]. case root_argument c of None \<Rightarrow> False | Some x \<Rightarrow> 0 \<le> fst x \<and> 0 < snd x \<and> newton_run 9 x (1, 1)"
  by code_simp

lemma root_of_tenths:
  assumes "0 \<le> c" "c \<le> 9" "f = f32 (d_div (of_int c) 10)"
  shows "sqrt_float (s_sub 1 (s_mul f f)) \<noteq> None"
proof -
  have "c \<in> set [0..9]" using assms by simp
  then obtain x where x: "root_argument c = Some x" "0 \<le> fst x" "0 < snd x" "newton_run 9 x (1, 1)"
    using roots_found by (fastforce split: option.splits)
  have "newton (ratio x) 1 \<noteq> None" using newton_run_correct[OF x(4)] by simp
  moreover have "s_sub 1 (s_mul f f) = ratio x" by (rule root_argument_correct[OF x(1) assms(3)])
  moreover have "\<not> ratio x < 0" using x(2,3) by (simp add: not_less)
  ultimately show ?thesis by (simp add: sqrt_float_def)
qed

lemma power_factors_found: "power_factors c \<noteq> None"
  using root_of_tenths[OF _ _ refl, of "c - 11"] root_of_tenths[OF _ _ refl, of "c - 1"]
  by (simp add: power_factors_def Let_def)

text \<open>
  The loop of the square root ends for every power factor an inverter can report, so that
  the decoding of a frame always ends.
\<close>

lemma decoding_ends:
  "resolvedata_600 type bt u d v \<noteq> None \<and> resolvedata_600_new type bt u d v \<noteq> None"
  using power_factors_found[of "byte_at d 37"]
  by (auto simp: resolvedata_600_def resolvedata_600_new_def split: option.splits)

section \<open>Ranges\<close>

definition panel_ok :: "bool \<Rightarrow> int \<Rightarrow> panel \<Rightarrow> bool" where
  "panel_ok voltage hi_op p = ((voltage \<longrightarrow> 0 \<le> p_dv p \<and> p_dv p \<le> 1500) \<and> 0 \<le> p_di p \<and> p_di p \<le> 150
     \<and> 0 \<le> p_op p \<and> p_op p \<le> hi_op \<and> 0 \<le> p_curgeneration p \<and> p_curgeneration p \<le> max_generation)"

definition grid_ok :: "int \<Rightarrow> measured \<Rightarrow> bool" where
  "grid_ok type w = (0 \<le> m_gf w \<and> m_gf w \<le> max_frequency type \<and> -50 \<le> m_it w \<and> m_it w \<le> 150
     \<and> 0 \<le> p_gv (phase_a w) \<and> p_gv (phase_a w) \<le> max_voltage type)"

text \<open>A text of so many zeros and ones.\<close>

definition bits :: "nat \<Rightarrow> string \<Rightarrow> bool" where
  "bits n s = (length s = n \<and> set s \<subseteq> {CHR ''0'', CHR ''1''})"

definition texts_ok :: "nat \<Rightarrow> inverter \<Rightarrow> bool" where
  "texts_ok n v = (bits 37 (m_status_web (meas v)) \<and> bits 11 (m_status (meas v)) \<and> bits 11 (m_statusb (meas v))
     \<and> (m_status_send_flag (meas v) = 0 \<and> m_status_ema (meas v) = []
       \<or> m_status_send_flag (meas v) = 1 \<and> length (m_status_ema (meas v)) = n))"

lemma generation_limit: "f32 max_generation \<le> max_generation" "0 \<le> max_generation"
proof -
  have "case round_frac 53 (999999, 1000000) of None \<Rightarrow> False | Some a \<Rightarrow> (case round_frac 24 a of None \<Rightarrow> False
      | Some b \<Rightarrow> 0 < snd a \<and> 0 < snd b \<and> 0 \<le> fst a \<and> fst b * snd a \<le> fst a * snd b)"
    by code_simp
  then obtain a b where r: "round_frac 53 (999999, 1000000) = Some a" "round_frac 24 a = Some b"
    and le: "0 < snd a" "0 < snd b" "0 \<le> fst a" "fst b * snd a \<le> fst a * snd b" by (auto split: option.splits)
  have m: "max_generation = ratio a" using round_frac_correct[OF r(1)] by (simp add: max_generation_def)
  have f: "f32 max_generation = ratio b" using round_frac_correct[OF r(2)] by (simp add: m)
  have "(of_int (fst b * snd a) :: rat) \<le> of_int (fst a * snd b)" using le(4) by (simp only: of_int_le_iff)
  then have "ratio b \<le> ratio a" using le by (simp add: field_simps)
  then show "f32 max_generation \<le> max_generation" unfolding f unfolding m .
  have "0 \<le> ratio a" using le(1,3) by simp
  then show "0 \<le> max_generation" unfolding m .
qed

lemma panel_ok_check [simp]: "0 \<le> hi \<Longrightarrow> panel_ok b hi (check_panel b hi p)"
  using generation_limit round_to_nonneg[OF generation_limit(2), of 24]
  by (auto simp: panel_ok_def check_panel_def clamp_def clamp_int_def clamp_generation_def)

lemma grid_ok_check [simp]: "grid_ok type (check_common type w)"
  by (auto simp: grid_ok_def check_common_def clamp_def clamp_int_def max_frequency_def max_voltage_def)

lemma panel_check_common [simp]:
  "panel_a (check_common type w) = panel_a w" "panel_b (check_common type w) = panel_b w"
  "panel_c (check_common type w) = panel_c w" "panel_d (check_common type w) = panel_d w"
  by (simp_all add: check_common_def)

lemma bit_char_cases: "bit_char b k \<in> {CHR ''0'', CHR ''1''}"
  by (simp add: bit_char_def)

lemma web_bits:
  "bits 37 (status_web_1000 d)" "bits 37 (status_web_600 d)" "bits 37 (status_web_600_new d)"
  by (simp_all add: bits_def status_web_1000_def status_web_600_def status_web_600_new_def
      common_web_600_def bit_char_cases[simplified] conj_commute disj_commute)

lemma bits_chars_at: "bits 37 web \<Longrightarrow> \<forall>n \<in> set ns. n < 37 \<Longrightarrow> bits (length ns) (chars_at web ns)"
proof -
  assume "bits 37 web" "\<forall>n \<in> set ns. n < 37"
  then have "web ! n \<in> {CHR ''0'', CHR ''1''}" if "n \<in> set ns" for n
  proof -
    have "web ! n \<in> set web" using that \<open>bits 37 web\<close> \<open>\<forall>n \<in> set ns. n < 37\<close> by (simp add: bits_def)
    then show ?thesis using \<open>bits 37 web\<close> by (auto simp: bits_def)
  qed
  then show ?thesis by (auto simp: bits_def chars_at_def)
qed

lemma bits_append_0: "bits n s \<Longrightarrow> bits (Suc n) (s @ ''0'')"
  by (simp add: bits_def)

lemma texts_set_status:
  assumes "bits 37 web" "length a = 4" "length b = 4" "\<forall>n \<in> set (a @ b). n < 37"
  shows "bits 37 (m_status_web (set_status web a b w)) \<and> bits 11 (m_status (set_status web a b w))
    \<and> bits 11 (m_statusb (set_status web a b w))"
proof -
  have "bits 10 (chars_at web ([1, 0] @ a @ [16, 17, 18, 19]))" if "length a = 4" "\<forall>n \<in> set a. n < 37" for a
    using bits_chars_at[OF assms(1), of "[1, 0] @ a @ [16, 17, 18, 19]"] that by auto
  from bits_append_0[OF this] show ?thesis using assms by (simp add: set_status_def)
qed

definition same_texts :: "measured \<Rightarrow> measured \<Rightarrow> bool" where
  "same_texts w w' = (m_status_web w' = m_status_web w \<and> m_status w' = m_status w \<and> m_statusb w' = m_statusb w)"

lemma texts_kept:
  "same_texts w (off_grid_600 type md w)" "same_texts w (off_grid_1000 type w)"
  "same_texts w (check_yc500 type w)" "same_texts w (check_yc1000 type w)"
  "same_texts (meas v) (meas (changed_flags v))"
  by (simp_all add: same_texts_def off_grid_600_def off_grid_1000_def check_yc500_def check_yc1000_def
      check_common_def changed_flags_def Let_def)

lemma same_texts_trans: "same_texts a b \<Longrightarrow> same_texts b c \<Longrightarrow> same_texts a c"
  by (simp add: same_texts_def)

lemma status_600_ok:
  assumes "length (inv_id v) = 12" "bits 37 (m_status_web (meas v))" "bits 11 (m_status (meas v))"
    "bits 11 (m_statusb (meas v))"
  shows "texts_ok 44 (set_report_time bt (yc600_status v)) \<and> texts_ok 39 (set_report_time bt (yc1000_status v))"
  using assms by (simp add: texts_ok_def set_report_time_def yc600_status_def yc1000_status_def Let_def
      one_if_def chars_at_def)

lemma meas_reported:
  "panel_a (meas (set_report_time bt (yc600_status v))) = panel_a (meas v)"
  "panel_b (meas (set_report_time bt (yc600_status v))) = panel_b (meas v)"
  "grid_ok type (meas (set_report_time bt (yc600_status v))) = grid_ok type (meas v)"
  "panel_a (meas (set_report_time bt (yc1000_status v))) = panel_a (meas v)"
  "panel_b (meas (set_report_time bt (yc1000_status v))) = panel_b (meas v)"
  "panel_c (meas (set_report_time bt (yc1000_status v))) = panel_c (meas v)"
  "panel_d (meas (set_report_time bt (yc1000_status v))) = panel_d (meas v)"
  "grid_ok type (meas (set_report_time bt (yc1000_status v))) = grid_ok type (meas v)"
  by (simp_all add: set_report_time_def yc600_status_def yc1000_status_def Let_def grid_ok_def)

definition decoded_600 :: "int \<Rightarrow> inverter \<Rightarrow> bool" where
  "decoded_600 type v = (panel_ok True 500 (panel_a (meas v)) \<and> panel_ok True 500 (panel_b (meas v))
     \<and> grid_ok type (meas v) \<and> texts_ok 44 v)"

definition decoded_1000 :: "int \<Rightarrow> inverter \<Rightarrow> bool" where
  "decoded_1000 type v = (panel_ok True 300 (panel_a (meas v)) \<and> panel_ok True 300 (panel_b (meas v))
     \<and> panel_ok False 300 (panel_c (meas v)) \<and> panel_ok False 300 (panel_d (meas v))
     \<and> grid_ok type (meas v) \<and> texts_ok 39 v)"

lemma resolve_600_decoded:
  assumes "length (inv_id v) = 12" "bits 37 web" "length ac = 2" "\<forall>n \<in> set ac. n < 37"
  shows "decoded_600 type (resolve_600 type bt u web ac w v)"
proof -
  obtain sec w2 where g: "generation_600 (output_600 w) = (sec, w2)" by (cases "generation_600 (output_600 w)")
  define power where "power = power_step 1 360 u (m_curacctime w2) sec"
  define w4 where "w4 = set_status web (ac @ [8, 9]) (ac @ [10, 11])
    (w2\<lparr>panel_a := power (panel_a w2), panel_b := power (panel_b w2)\<rparr>)"
  define v1 where "v1 = changed_flags (v\<lparr>meas := off_grid_600 type (model v) w4\<rparr>)"
  define v2 where "v2 = v1\<lparr>meas := check_yc500 type (meas v1)\<rparr>"
  have r: "resolve_600 type bt u web ac w v = set_report_time bt (yc600_status v2)"
    by (simp add: resolve_600_def g power_def w4_def v1_def v2_def Let_def)
  have "bits 37 (m_status_web w4) \<and> bits 11 (m_status w4) \<and> bits 11 (m_statusb w4)"
    unfolding w4_def using assms by (intro texts_set_status) auto
  moreover have "same_texts w4 (meas v2)"
    using texts_kept(1)[of w4 type "model v"] texts_kept(5)[of "v\<lparr>meas := off_grid_600 type (model v) w4\<rparr>"]
      texts_kept(3)[of "meas v1" type]
    by (auto simp: v1_def v2_def intro: same_texts_trans)
  moreover have "inv_id v2 = inv_id v" by (simp add: v1_def v2_def changed_flags_def Let_def)
  ultimately have "texts_ok 44 (set_report_time bt (yc600_status v2))"
    using assms(1) by (intro status_600_ok[THEN conjunct1]) (simp_all add: same_texts_def)
  then show ?thesis unfolding r decoded_600_def meas_reported by (simp add: v2_def check_yc500_def)
qed

lemma resolve_1000_decoded:
  assumes "length (inv_id v) = 12"
  shows "dataflag (resolvedata_1000 type bt u d v) = 0 \<or> decoded_1000 type (resolvedata_1000 type bt u d v)"
proof (cases "jumped (read_1000 d (meas v))")
  case True
  then show ?thesis by (simp add: resolvedata_1000_def Let_def)
next
  case False
  define w where "w = read_1000 d (meas v)"
  obtain sec w2 where g: "generation_1000 (output_1000 w) = (sec, w2)" by (cases "generation_1000 (output_1000 w)")
  define power where "power = power_step 100 260 u (m_curacctime w2) sec"
  define w3 where "w3 = set_status (status_web_1000 d) [2, 3, 8, 9] [4, 5, 8, 9]
    (w2\<lparr>panel_a := power (panel_a w2), panel_b := power (panel_b w2),
        panel_c := power (panel_c w2), panel_d := power (panel_d w2)\<rparr>)"
  define w4 where "w4 = w3\<lparr>m_statusc := chars_at (status_web_1000 d) [1, 0, 6, 7, 8, 9, 16, 17, 18, 19] @ ''0''\<rparr>"
  define v1 where "v1 = changed_flags (v\<lparr>meas := off_grid_1000 type w4\<rparr>)"
  define v2 where "v2 = v1\<lparr>meas := check_yc1000 type (meas v1)\<rparr>"
  have r: "resolvedata_1000 type bt u d v = set_report_time bt (yc1000_status v2)"
    using False by (simp add: resolvedata_1000_def w_def[symmetric] g power_def w3_def w4_def v1_def v2_def Let_def)
  have "bits 37 (m_status_web w3) \<and> bits 11 (m_status w3) \<and> bits 11 (m_statusb w3)"
    unfolding w3_def using web_bits(1) by (intro texts_set_status) auto
  moreover have "same_texts w3 (meas v2)"
  proof -
    have "same_texts w3 w4" by (simp add: same_texts_def w4_def)
    then show ?thesis
      using texts_kept(2)[of w4 type] texts_kept(5)[of "v\<lparr>meas := off_grid_1000 type w4\<rparr>"] texts_kept(4)[of "meas v1" type]
      by (auto simp: v1_def v2_def intro: same_texts_trans)
  qed
  moreover have "inv_id v2 = inv_id v" by (simp add: v1_def v2_def changed_flags_def Let_def)
  ultimately have "texts_ok 39 (set_report_time bt (yc1000_status v2))"
    using assms(1) by (intro status_600_ok[THEN conjunct2]) (simp_all add: same_texts_def)
  then show ?thesis unfolding r decoded_1000_def meas_reported by (simp add: v2_def check_yc1000_def)
qed



end
