(* ===== verification/Poll_Report.thy ===== *)
theory Poll_Report
  imports Inverter_Data Power_Limit
begin

text \<open>
  What a round of polling leaves behind: the record for the server (\<open>protocol_APS18\<close>), the status
  message (\<open>protocol_status\<close>) and the event file of \<open>ECU/main/src/protocol.c\<close>, the messages about
  changed states of \<open>ema_control.c\<close>, and the counters that survive a restart (\<open>update_tmpdb\<close> of
  \<open>file.c\<close>, \<open>init_tmpdb\<close> of \<open>main-thread.c\<close>).
\<close>

section \<open>Fixed-width numbers\<close>

text \<open>\<open>sprintf("%d")\<close>, padded with zeros, or cut to the first characters when too long.\<close>

definition fixed_width :: "nat \<Rightarrow> int \<Rightarrow> string" where
  "fixed_width n i = (let s = fmt_d i in if length s \<le> n then pad0 n s else take n s)"

definition transsyscurgen :: "rat \<Rightarrow> string" where
  "transsyscurgen curgen = fixed_width 10 (to_int (d_mul curgen 1000000))"

definition transltgen :: "rat \<Rightarrow> string" where
  "transltgen ltgen = fixed_width 10 (to_int ltgen)"

definition transdv :: "rat \<Rightarrow> string" where
  "transdv dv = fixed_width 5 (to_int dv)"

definition transdi :: "rat \<Rightarrow> string" where
  "transdi di = fixed_width 3 (to_int di)"

definition transpower :: "int \<Rightarrow> string" where
  "transpower pw = fixed_width 5 (pw * 100)"

definition transreactivepower :: "int \<Rightarrow> string" where
  "transreactivepower pw = fixed_width 5 (pw * 100)"

definition transactivepower :: "int \<Rightarrow> string" where
  "transactivepower pw = fixed_width 5 (pw * 100)"

definition transfrequency :: "rat \<Rightarrow> string" where
  "transfrequency frequency = fixed_width 5 (to_int frequency)"

definition transtemperature :: "int \<Rightarrow> string" where
  "transtemperature temperature =
     (if temperature \<le> -10 then ''B'' else if temperature < 0 then ''AB''
      else if temperature < 10 then ''AA'' else if temperature < 100 then ''A'' else [])
     @ fmt_d \<bar>temperature\<bar>"

definition transgridvolt :: "int \<Rightarrow> string" where
  "transgridvolt voltage = fixed_width 3 voltage"

definition transstatus :: "string \<Rightarrow> string" where
  "transstatus st = concat (map (\<lambda>i. one_if (is1 st i)) [0..<11])"

definition transcurgen :: "rat \<Rightarrow> string" where
  "transcurgen gen = fixed_width 6 (to_int gen)"

definition transsyspower :: "int \<Rightarrow> string" where
  "transsyspower syspower = fixed_width 10 (syspower * 100)"

section \<open>The record of a round\<close>

text \<open>A \<open>float\<close> times a \<open>double\<close> constant, passed as a \<open>float\<close>.\<close>

definition times_float :: "rat \<Rightarrow> rat \<Rightarrow> rat" where
  "times_float x c = f32 (d_mul x c)"

definition micro :: "rat \<Rightarrow> string" where
  "micro x = transcurgen (times_float x 1000000)"

definition wendu :: "measured \<Rightarrow> string" where
  "wendu w = fmt_0d 3 (m_it w + 100)"

definition grid_part :: "phase \<Rightarrow> string" where
  "grid_part p = transreactivepower (to_int (p_reactive_power p)) @ transactivepower (to_int (p_active_power p))"

definition panel_part :: "char \<Rightarrow> panel \<Rightarrow> string \<Rightarrow> string" where
  "panel_part c p st = [c] @ transdv (p_dv p) @ transdi (p_di p) @ micro (p_curgeneration p)
     @ transpower (p_op p) @ transstatus st"

definition head_250 :: "measured \<Rightarrow> string" where
  "head_250 w = transgridvolt (p_gv (phase_a w)) @ transfrequency (times_float (m_gf w) 10)
     @ transtemperature (m_it w) @ grid_part (phase_a w) @ micro (p_output_energy (phase_a w))"

definition record_yc250 :: "inverter \<Rightarrow> string" where
  "record_yc250 v = (let w = meas v in inv_id v @ ''05'' @ head_250 w
     @ panel_part (CHR ''A'') (panel_a w) (m_status w) @ ''END'')"

definition record_yc500 :: "inverter \<Rightarrow> string" where
  "record_yc500 v = (let w = meas v in inv_id v @ ''03'' @ head_250 w
     @ panel_part (CHR ''A'') (panel_a w) (m_status w) @ panel_part (CHR ''B'') (panel_b w) (m_statusb w) @ ''END'')"

definition phase_part :: "char \<Rightarrow> panel \<Rightarrow> phase \<Rightarrow> string" where
  "phase_part c p ph = [c] @ transdi (p_di p) @ transgridvolt (p_gv ph) @ grid_part ph
     @ micro (p_output_energy ph) @ micro (p_curgeneration p) @ transpower (p_op p)"

definition record_yc1000 :: "inverter \<Rightarrow> string" where
  "record_yc1000 v = (let w = meas v in inv_id v @ ''04'' @ transdv (p_dv (panel_a w))
     @ transfrequency (times_float (m_gf w) 10) @ wendu w
     @ phase_part (CHR ''1'') (panel_a w) (phase_a w) @ phase_part (CHR ''2'') (panel_b w) (phase_b w)
     @ phase_part (CHR ''3'') (panel_c w) (phase_c w)
     @ ''4'' @ transdi (p_di (panel_d w)) @ micro (p_curgeneration (panel_d w)) @ transpower (p_op (panel_d w))
     @ ''END'')"

definition input_part :: "char \<Rightarrow> panel \<Rightarrow> string" where
  "input_part c p = [c] @ transdv (times_float (p_dv p) 10) @ transdi (times_float (p_di p) 10)
     @ micro (p_curgeneration p) @ transpower (p_op p)"

definition record_yc600 :: "inverter \<Rightarrow> string" where
  "record_yc600 v = (let w = meas v in inv_id v @ ''07'' @ transgridvolt (p_gv (phase_a w))
     @ transfrequency (times_float (m_gf w) 10) @ wendu w @ grid_part (phase_a w)
     @ transsyscurgen (p_output_energy (phase_a w))
     @ input_part (CHR ''1'') (panel_a w) @ input_part (CHR ''2'') (panel_b w) @ ''END'')"

definition inverter_record :: "inverter \<Rightarrow> string" where
  "inverter_record v = (
     if dataflag v = 1 then
       (if model v = 1 \<or> model v = 2 then record_yc250 v
        else if model v = 3 \<or> model v = 4 then record_yc500 v
        else if model v = 5 \<or> model v = 6 then record_yc1000 v
        else record_yc600 v)
     else [])"

definition aps18_header :: "ecu_state \<Rightarrow> string \<Rightarrow> string" where
  "aps18_header s date_time = (let t = totals s in ''APS1800000AAAAAAA1'' @ ecu_id s
     @ transsyspower (system_power t) @ transsyscurgen (current_energy t)
     @ transltgen (times_float (life_energy t) 10) @ date_time @ pad0 3 (fmt_d (ecu_count t))
     @ (if zoneflag t = 0 then ''0'' else ''1'') @ ''00000END'')"

text \<open>The length of the message, right-aligned in the five characters after \<open>APS18\<close>.\<close>

definition fill_length :: "string \<Rightarrow> string" where
  "fill_length b = (let n = dec (length b) in
     take 5 b @ replicate (5 - length n) (CHR ''A'') @ n @ drop 10 b)"

definition aps18_message :: "ecu_state \<Rightarrow> string \<Rightarrow> string" where
  "aps18_message s date_time =
     fill_length (aps18_header s date_time @ concat (map inverter_record (table (inverters s))))"

definition protocol_APS18 :: "string \<Rightarrow> int ecu" where
  "protocol_APS18 date_time = do {
     b \<leftarrow> gets (\<lambda>s. aps18_message s date_time);
     save_record b date_time;
     ret 0 }"

section \<open>Status and events\<close>

definition a123_message :: "string \<Rightarrow> string \<Rightarrow> inverter list \<Rightarrow> string" where
  "a123_message i date_time vs = (
     let b = ''APS1500000A123AAA1'' @ i @ fmt_0d 4 (int (length vs)) @ date_time @ ''END''
         @ concat (map (\<lambda>v. m_status_ema (meas v)) vs);
       n = fmt_0d 5 (int (length b)) in
     take 5 b @ take 5 n @ drop 10 b)"

definition protocol_status :: "string \<Rightarrow> int ecu" where
  "protocol_status date_time = do {
     vs \<leftarrow> gets (\<lambda>s. filter (\<lambda>v. m_status_send_flag (meas v) = 1) (table (inverters s)));
     i \<leftarrow> gets ecu_id;
     if vs \<noteq> [] then do { save_status (a123_message i date_time vs) date_time; ret 0 }
     else ret 0 }"

definition path_event :: string where
  "path_event = ''/HOME/RECORD/EVENT''"

definition event_line :: "string \<Rightarrow> inverter \<Rightarrow> string" where
  "event_line date_time v = inv_id v @ '','' @ m_status_web (meas v) @ '','' @ date_time @ [NL]"

definition saveevent :: "string \<Rightarrow> int ecu" where
  "saveevent date_time = do {
     write_file path_event [];
     for_each_inverter (\<lambda>k. do {
       v \<leftarrow> get_inv k;
       if dataflag v = 1 \<and> m_status_web (meas v) \<noteq> ''000000000000000000000000''
       then do { append_file path_event (event_line date_time v); ret () }
       else ret () });
     ret 0 }"

section \<open>Changed states\<close>

text \<open>
  \<open>buff[strlen(buff)] = c\<close> overwrites the terminating NUL: the text goes on with what the buffer
  held behind it. \<open>g\<close> is its first content, empty when it was filled with zeros.
\<close>

definition put_char :: "string \<Rightarrow> char \<Rightarrow> string \<Rightarrow> string" where
  "put_char g c b = b @ [c] @ cstr (drop (length b + 1) g)"

fun changed_entries :: "string \<Rightarrow> (inverter \<Rightarrow> bit1) \<Rightarrow> inverter list \<Rightarrow> string \<Rightarrow> string" where
  "changed_entries g st [] b = b"
| "changed_entries g st (v # vs) b =
     changed_entries g st vs (put_char g (if st v = 0 then CHR ''0'' else CHR ''1'') (b @ inv_id v) @ ''END'')"

definition change_message :: "string \<Rightarrow> string \<Rightarrow> string \<Rightarrow> (inverter \<Rightarrow> bit1) \<Rightarrow> inverter list \<Rightarrow> string" where
  "change_message g cmd i st vs = (let num = length vs;
     m = changed_entries g st vs (''APS13AAAAAA'' @ cmd @ ''AAA1'' @ i @ ''0000'' @ ''00000000000000'' @ ''END'');
     m = m[30 := chr (num div 1000 + 48), 31 := digit_of num 100, 32 := digit_of num 10, 33 := digit_of num 1];
     n = length m;
     m = (if 10000 < n then m[5 := chr (n div 10000 + 48)] else m);
     m = (if 1000 < n then m[6 := digit_of n 1000] else m);
     m = (if 100 < n then m[7 := digit_of n 100] else m);
     m = (if 10 < n then m[8 := digit_of n 10] else m) in
     if 0 < n then m[9 := digit_of n 1] else m)"

definition save_changed :: "string \<Rightarrow> string \<Rightarrow> int \<Rightarrow> (inverter \<Rightarrow> bit1) \<Rightarrow> (inverter \<Rightarrow> bit1) \<Rightarrow> int ecu" where
  "save_changed g cmd item changed st = do {
     i \<leftarrow> gets ecu_id;
     vs \<leftarrow> gets (\<lambda>s. filter (\<lambda>v. changed v = 1) (table (inverters s)));
     if vs \<noteq> [] then do { save_process_result item (change_message g cmd i st vs); ret 0 }
     else ret 0 }"

text \<open>The buffer of the first is not cleared after its allocation; that of the second is.\<close>

definition save_gfdi_changed_result :: "int ecu" where
  "save_gfdi_changed_result = do {
     g \<leftarrow> gets (\<lambda>s. any_row (stale s) 0);
     save_changed g ''115'' 115 gfdi_changed_flag last_gfdi_flag }"

definition save_turn_on_off_changed_result :: "int ecu" where
  "save_turn_on_off_changed_result =
     save_changed [] ''116'' 116 turn_on_off_changed_flag last_turn_on_off_flag"

section \<open>Counters that survive a restart\<close>

definition path_collect :: string where
  "path_collect = ''/HOME/DATA/COLLECT.CON''"

definition collect_line :: "inverter \<Rightarrow> string" where
  "collect_line v = (let w = meas v; f = (\<lambda>x. '','' @ fmt_f 6 x) in
     inv_id v @ f (p_preaccgen (panel_a w)) @ f (p_preaccgen (panel_b w)) @ f (p_preaccgen (panel_c w))
     @ f (p_preaccgen (panel_d w)) @ f (p_pre_output_energy (phase_a w)) @ f (p_pre_output_energy (phase_b w))
     @ f (p_pre_output_energy (phase_c w)) @ '','' @ fmt_d (m_preacctime w) @ [NL])"

definition update_tmpdb :: "int ecu" where
  "update_tmpdb = do {
     vs \<leftarrow> gets (\<lambda>s. filter (\<lambda>v. dataflag v = 1) (table (inverters s)));
     write_file path_collect (concat (map collect_line vs));
     ret 0 }"

definition load_counters :: "string list \<Rightarrow> measured \<Rightarrow> measured" where
  "load_counters fs w = (let x = (\<lambda>n. f32 (atof (fld fs n))) in w\<lparr>
     panel_a := (panel_a w)\<lparr>p_preaccgen := x 1\<rparr>, panel_b := (panel_b w)\<lparr>p_preaccgen := x 2\<rparr>,
     panel_c := (panel_c w)\<lparr>p_preaccgen := x 3\<rparr>, panel_d := (panel_d w)\<lparr>p_preaccgen := x 4\<rparr>,
     phase_a := (phase_a w)\<lparr>p_pre_output_energy := x 5\<rparr>, phase_b := (phase_b w)\<lparr>p_pre_output_energy := x 6\<rparr>,
     phase_c := (phase_c w)\<lparr>p_pre_output_energy := x 7\<rparr>, m_preacctime := atoi (fld fs 8)\<rparr>)"

definition load_collect_line :: "string \<Rightarrow> unit ecu" where
  "load_collect_line l = (let fs = splitString (cstr l) in for_inverters (\<lambda>k. do {
     v \<leftarrow> get_inv k;
     if memeq (inv_id v) (take 12 (fld fs 0)) 12
     then do { upd_inv k (\<lambda>v. v\<lparr>meas := load_counters fs (meas v)\<rparr>); ret True }
     else ret False }))"

fun load_collect :: "string list \<Rightarrow> unit ecu" where
  "load_collect [] = ret ()"
| "load_collect (l # ls) = do { load_collect_line l; load_collect ls }"

definition init_tmpdb :: "unit ecu" where
  "init_tmpdb = do {
     f \<leftarrow> read_file path_collect;
     (case f of None \<Rightarrow> ret () | Some txt \<Rightarrow> load_collect (fgets_lines 199 txt)) }"

end
