(* ===== verification/Poll_Spec.thy ===== *)
theory Poll_Spec
  imports Inverter_Spec Poll_Report Protection_Spec
begin

text \<open>
  Properties of what a round of polling leaves behind: the record for the server has the
  length it claims and fits its buffer, the fields of an inverter's record can be read back,
  and the counters that survive a restart are those of the inverters of the last round.
\<close>

section \<open>Fields\<close>

lemma length_fixed_width [simp]: "length (fixed_width n i) = n"
  by (simp add: fixed_width_def Let_def length_pad0)

lemma digits_fixed_width:
  assumes "0 \<le> i" "i < 10 ^ n" "0 < n"
  shows "int (digits_val 0 (fixed_width n i)) = i"
proof -
  have "nat i < 10 ^ n" using assms(1,2) by (simp add: nat_less_iff)
  then have "length (dec (nat i)) \<le> n" using assms(3) by (rule length_dec_le)
  then show ?thesis using assms(1) by (simp add: fixed_width_def fmt_d_nonneg Let_def)
qed

lemma length_transtemperature: "-99 \<le> i \<Longrightarrow> i \<le> 999 \<Longrightarrow> length (transtemperature i) = 3"
proof -
  assume i: "-99 \<le> i" "i \<le> 999"
  have d: "length (dec n) = (if n < 10 then 1 else if n < 100 then 2 else 3)" if "n < 1000" for n
  proof -
    have "(n div 10 < 10) = (n < 100)" "(n div 10 div 10 < 10) = (n < 1000)"
      by (simp_all add: div_less_iff_less_mult)
    then show ?thesis using that by (simp add: dec.simps)
  qed
  show ?thesis using i d[of "nat \<bar>i\<bar>"] by (auto simp: transtemperature_def fmt_d_nonneg)
qed

lemma length_wendu: "-100 \<le> m_it w \<Longrightarrow> m_it w < 900 \<Longrightarrow> length (wendu w) = 3"
proof -
  assume "-100 \<le> m_it w" "m_it w < 900"
  then have "length (dec (nat (m_it w + 100))) \<le> 3" by (intro length_dec_le) simp_all
  then show ?thesis using \<open>-100 \<le> m_it w\<close> by (simp add: wendu_def fmt_0d_def length_pad0)
qed

lemma length_one_if [simp]: "length (one_if b) = 1"
  by (simp add: one_if_def)

lemma length_transstatus [simp]: "length (transstatus st) = 11"
  by (simp add: transstatus_def length_concat comp_def sum_list_triv)

lemma length_trans [simp]:
  "length (transsyscurgen x) = 10" "length (transltgen x) = 10" "length (transdv x) = 5" "length (transdi x) = 3"
  "length (transpower i) = 5" "length (transreactivepower i) = 5" "length (transactivepower i) = 5"
  "length (transfrequency x) = 5" "length (transgridvolt i) = 3" "length (transcurgen x) = 6"
  "length (transsyspower i) = 10" "length (micro x) = 6"
  by (simp_all add: transsyscurgen_def transltgen_def transdv_def transdi_def transpower_def transreactivepower_def
      transactivepower_def transfrequency_def transgridvolt_def transcurgen_def transsyspower_def micro_def)

section \<open>The length of a record\<close>

definition record_length :: "inverter \<Rightarrow> nat" where
  "record_length v = (if dataflag v \<noteq> 1 then 0
     else if model v = 1 \<or> model v = 2 then 75 else if model v = 3 \<or> model v = 4 then 106
     else if model v = 5 \<or> model v = 6 then 147 else 88)"

lemma length_inverter_record:
  assumes "length (inv_id v) = 12" "dataflag v = 1 \<longrightarrow> -50 \<le> m_it (meas v) \<and> m_it (meas v) \<le> 150"
  shows "length (inverter_record v) = record_length v"
proof (cases "dataflag v = 1")
  case True
  then have "length (transtemperature (m_it (meas v))) = 3" "length (wendu (meas v)) = 3"
    using assms(2) by (auto intro: length_transtemperature length_wendu)
  then show ?thesis using assms(1)
    by (simp add: inverter_record_def record_length_def record_yc250_def record_yc500_def record_yc1000_def
        record_yc600_def head_250_def panel_part_def phase_part_def input_part_def grid_part_def Let_def)
qed (simp add: inverter_record_def record_length_def)

lemma fill_length_form:
  assumes "10 \<le> length b" "length b < 10 ^ 5"
  shows "length (fill_length b) = length b" "drop 10 (fill_length b) = drop 10 b"
    "digits_val 0 (dropWhile (\<lambda>c. c = CHR ''A'') (take 5 (drop 5 (fill_length b)))) = length b"
proof -
  define n where "n = dec (length b)"
  have n: "length n \<le> 5" using length_dec_le[OF assms(2)] by (simp add: n_def)
  have f: "fill_length b = take 5 b @ replicate (5 - length n) (CHR ''A'') @ n @ drop 10 b"
    by (simp add: fill_length_def n_def Let_def)
  show "length (fill_length b) = length b" "drop 10 (fill_length b) = drop 10 b"
    using n assms(1) by (simp_all add: f)
  have "take 5 (drop 5 (fill_length b)) = replicate (5 - length n) (CHR ''A'') @ n" using n assms(1) by (simp add: f)
  moreover have "dropWhile (\<lambda>c. c = CHR ''A'') n = n"
  proof (cases n)
    case (Cons c cs)
    then have "is_digit c" using dec_digits[of c "length b"] by (simp add: n_def)
    then show ?thesis using Cons by (auto simp: is_digit_def)
  qed simp
  ultimately have "dropWhile (\<lambda>c. c = CHR ''A'') (take 5 (drop 5 (fill_length b))) = n"
    by (simp add: dropWhile_append)
  then show "digits_val 0 (dropWhile (\<lambda>c. c = CHR ''A'') (take 5 (drop 5 (fill_length b)))) = length b"
    by (simp add: n_def)
qed

lemma length_header:
  assumes "length (ecu_id s) = 12" "length dt = 14" "0 \<le> ecu_count (totals s)" "ecu_count (totals s) < 1000"
  shows "length (aps18_header s dt) = 86"
proof -
  have "length (pad0 3 (fmt_d (ecu_count (totals s)))) = 3"
    using assms(3,4) by (auto simp: fmt_d_nonneg intro!: length_pad0 length_dec_le)
  then show ?thesis using assms(1,2) by (simp add: aps18_header_def Let_def)
qed

lemma length_table: "length (table vs) \<le> MAXINVERTERCOUNT"
  by (simp add: table_def) (metis le_trans length_take length_takeWhile_le min.cobounded2)



section \<open>Reading a record back\<close>

text \<open>The number in some characters of a text.\<close>

definition num_at :: "string \<Rightarrow> nat \<times> nat \<Rightarrow> int" where
  "num_at s p = int (digits_val 0 (take (snd p) (drop (fst p) s)))"

lemma to_int_bounds:
  assumes "0 \<le> x" "x < of_int n"
  shows "0 \<le> to_int x" "to_int x < n"
  using assms by (simp_all add: to_int_def floor_less_iff)

lemma times_float_bounds:
  assumes "0 \<le> x" "0 \<le> c"
  shows "0 \<le> times_float x c" "times_float x c \<le> x * c + x * c / 4194304"
proof -
  have p: "0 \<le> x * c" using assms by simp
  have d: "d_mul x c \<le> x * c + x * c / 16777216" "0 \<le> d_mul x c"
    using f64_error[OF p] by (simp_all add: d_mul_def)
  have f: "times_float x c \<le> d_mul x c + d_mul x c / 16777216" "0 \<le> times_float x c"
    using f32_error[OF d(2)] by (simp_all add: times_float_def)
  show "0 \<le> times_float x c" by (rule f(2))
  show "times_float x c \<le> x * c + x * c / 4194304" using f(1) d(1) p by linarith
qed

text \<open>The fields of a record of a YC600 and where they stand.\<close>

definition yc600_layout :: "(nat \<times> nat) list" where
  "yc600_layout = [(14, 3), (17, 5), (22, 3), (25, 5), (30, 5), (35, 10),
     (46, 5), (51, 3), (54, 6), (60, 5), (66, 5), (71, 3), (74, 6), (80, 5)]"

definition yc600_fields :: "measured \<Rightarrow> int list" where
  "yc600_fields w = (let a = panel_a w; b = panel_b w; p = phase_a w in
    [p_gv p, to_int (times_float (m_gf w) 10), m_it w + 100, to_int (p_reactive_power p) * 100,
     to_int (p_active_power p) * 100, to_int (d_mul (p_output_energy p) 1000000),
     to_int (times_float (p_dv a) 10), to_int (times_float (p_di a) 10),
     to_int (times_float (p_curgeneration a) 1000000), p_op a * 100,
     to_int (times_float (p_dv b) 10), to_int (times_float (p_di b) 10),
     to_int (times_float (p_curgeneration b) 1000000), p_op b * 100])"

lemma record_parts:
  assumes "length i = 12" "length gv = 3" "length fr = 5" "length we = 3" "length re = 5" "length ac = 5"
    "length ou = 10" "length v1 = 5" "length i1 = 3" "length g1 = 6" "length p1 = 5"
    "length v2 = 5" "length i2 = 3" "length g2 = 6" "length p2 = 5"
  shows "map (\<lambda>p. take (snd p) (drop (fst p) (i @ ''07'' @ gv @ fr @ we @ (re @ ac) @ ou
      @ ([CHR ''1''] @ v1 @ i1 @ g1 @ p1) @ ([CHR ''2''] @ v2 @ i2 @ g2 @ p2) @ ''END''))) yc600_layout
    = [gv, fr, we, re, ac, ou, v1, i1, g1, p1, v2, i2, g2, p2]"
  using assms by (simp add: yc600_layout_def)

lemma input_fields:
  assumes "panel_ok True 500 p" "p_di p < 99"
  shows "0 \<le> to_int (times_float (p_dv p) 10)" "to_int (times_float (p_dv p) 10) < 10 ^ 5"
    "0 \<le> to_int (times_float (p_di p) 10)" "to_int (times_float (p_di p) 10) < 10 ^ 3"
    "0 \<le> to_int (times_float (p_curgeneration p) 1000000)" "to_int (times_float (p_curgeneration p) 1000000) < 10 ^ 6"
    "0 \<le> p_op p * 100" "p_op p * 100 < 10 ^ 5"
proof -
  have r: "0 \<le> p_dv p" "p_dv p \<le> 1500" "0 \<le> p_di p" "0 \<le> p_op p" "p_op p \<le> 500"
    "0 \<le> p_curgeneration p" "p_curgeneration p \<le> max_generation"
    using assms(1) by (auto simp: panel_ok_def)
  have m: "max_generation \<le> 999999 / 1000000 + 999999 / 1000000 / 16777216"
    unfolding max_generation_def by (rule f64_error(1)) simp
  have 1: "times_float (p_dv p) 10 < of_int (10 ^ 5)" using times_float_bounds(2)[OF r(1), of 10] r(2) by simp
  have 2: "times_float (p_di p) 10 < of_int (10 ^ 3)" using times_float_bounds(2)[OF r(3), of 10] assms(2) by simp
  have 3: "times_float (p_curgeneration p) 1000000 < of_int (10 ^ 6)"
    using times_float_bounds(2)[OF r(6), of 1000000] r(7) m by simp
  show "0 \<le> to_int (times_float (p_dv p) 10)" "to_int (times_float (p_dv p) 10) < 10 ^ 5"
    using to_int_bounds[OF _ 1] times_float_bounds(1)[OF r(1)] by simp_all
  show "0 \<le> to_int (times_float (p_di p) 10)" "to_int (times_float (p_di p) 10) < 10 ^ 3"
    using to_int_bounds[OF _ 2] times_float_bounds(1)[OF r(3)] by simp_all
  show "0 \<le> to_int (times_float (p_curgeneration p) 1000000)" "to_int (times_float (p_curgeneration p) 1000000) < 10 ^ 6"
    using to_int_bounds[OF _ 3] times_float_bounds(1)[OF r(6)] by simp_all
  show "0 \<le> p_op p * 100" "p_op p * 100 < 10 ^ 5" using r(4,5) by simp_all
qed

lemma digits_wendu:
  assumes "-50 \<le> m_it w" "m_it w \<le> 150"
  shows "int (digits_val 0 (wendu w)) = m_it w + 100"
  using assms by (simp add: wendu_def fmt_0d_def)

text \<open>
  C8. From the record of a YC600 the server reads back what was decoded: grid voltage,
  frequency in tenths, temperature plus 100, reactive and active power, energies in
  millionths, voltages and currents of the inputs in tenths and their powers in hundredths.
  It holds for values in the ranges of \<open>Inverter_Spec\<close> as long as the powers on the grid side stay below
  1000, the energy below 1000 and the currents below 99; longer numbers lose their last digits.
\<close>

theorem record_read_back:
  assumes "decoded_600 type v" "length (inv_id v) = 12" "dataflag v = 1" "model v = 7"
    and "0 \<le> p_reactive_power (phase_a (meas v))" "p_reactive_power (phase_a (meas v)) < 1000"
    and "0 \<le> p_active_power (phase_a (meas v))" "p_active_power (phase_a (meas v)) < 1000"
    and "0 \<le> p_output_energy (phase_a (meas v))" "p_output_energy (phase_a (meas v)) < 1000"
    and "p_di (panel_a (meas v)) < 99" "p_di (panel_b (meas v)) < 99"
  shows "map (num_at (inverter_record v)) yc600_layout = yc600_fields (meas v)"
proof -
  define w where "w = meas v"
  have ok: "panel_ok True 500 (panel_a w)" "panel_ok True 500 (panel_b w)" "grid_ok type w"
    using assms(1) by (simp_all add: decoded_600_def w_def)
  have g: "0 \<le> m_gf w" "m_gf w \<le> 65" "-50 \<le> m_it w" "m_it w \<le> 150" "0 \<le> p_gv (phase_a w)" "p_gv (phase_a w) < 10 ^ 3"
    using ok(3) by (auto simp: grid_ok_def max_frequency_def max_voltage_def split: if_splits)
  have f: "times_float (m_gf w) 10 < of_int (10 ^ 5)" using times_float_bounds(2)[OF g(1), of 10] g(2) by simp
  note fr = to_int_bounds[OF times_float_bounds(1)[OF g(1)] f]
  have r: "0 \<le> to_int x * 100 \<and> to_int x * 100 < 10 ^ 5" if "0 \<le> x" "x < 1000" for x
    using to_int_bounds[of x 1000] that by simp
  have e: "0 \<le> d_mul (p_output_energy (phase_a w)) 1000000" "d_mul (p_output_energy (phase_a w)) 1000000 < of_int (10 ^ 10)"
    using f64_error(1,3)[of "p_output_energy (phase_a w) * 1000000"] assms(9,10) by (simp_all add: d_mul_def w_def)
  note out = to_int_bounds[OF e]
  note a = input_fields[OF ok(1)] and b = input_fields[OF ok(2)]
  have dv: "digits_val 0 (fixed_width n i) = nat i" if "0 \<le> i" "i < 10 ^ n" "0 < n" for n i
    using digits_fixed_width[OF that] that(1) by simp
  have "map (num_at (inverter_record v)) yc600_layout
    = map (\<lambda>t. int (digits_val 0 t)) (map (\<lambda>p. take (snd p) (drop (fst p) (inverter_record v))) yc600_layout)"
    by (simp add: num_at_def)
  also have "map (\<lambda>p. take (snd p) (drop (fst p) (inverter_record v))) yc600_layout
    = [transgridvolt (p_gv (phase_a w)), transfrequency (times_float (m_gf w) 10), wendu w,
       transreactivepower (to_int (p_reactive_power (phase_a w))), transactivepower (to_int (p_active_power (phase_a w))),
       transsyscurgen (p_output_energy (phase_a w)),
       transdv (times_float (p_dv (panel_a w)) 10), transdi (times_float (p_di (panel_a w)) 10),
       micro (p_curgeneration (panel_a w)), transpower (p_op (panel_a w)),
       transdv (times_float (p_dv (panel_b w)) 10), transdi (times_float (p_di (panel_b w)) 10),
       micro (p_curgeneration (panel_b w)), transpower (p_op (panel_b w))]"
  proof -
    have rec: "inverter_record v = inv_id v @ ''07'' @ transgridvolt (p_gv (phase_a w))
      @ transfrequency (times_float (m_gf w) 10) @ wendu w @ grid_part (phase_a w)
      @ transsyscurgen (p_output_energy (phase_a w)) @ input_part (CHR ''1'') (panel_a w)
      @ input_part (CHR ''2'') (panel_b w) @ ''END''"
      using assms(3,4) by (simp add: inverter_record_def record_yc600_def w_def Let_def)
    show ?thesis unfolding rec grid_part_def input_part_def
      using assms(2) length_wendu[of w] g(3,4) by (intro record_parts) simp_all
  qed
  also have "map (\<lambda>t. int (digits_val 0 t)) \<dots> = yc600_fields w"
    using g fr out r[of "p_reactive_power (phase_a w)"] r[of "p_active_power (phase_a w)"] assms(5-8,11,12) a b
    by (simp add: yc600_fields_def Let_def transgridvolt_def transfrequency_def transreactivepower_def transactivepower_def
        transsyscurgen_def transdv_def transdi_def micro_def transcurgen_def transpower_def digits_wendu
        digits_fixed_width dv w_def[symmetric])
  finally show ?thesis by (simp only: w_def)
qed

theorem record_read_back_witness:
  defines "t \<equiv> replicate 11 (CHR ''0'')"
  defines "v \<equiv> empty_inverter\<lparr>inv_id := ''704000000001'', model := 7, dataflag := 1,
     meas := no_values\<lparr>m_status_web := replicate 37 (CHR ''0''), m_status := t, m_statusb := t\<rparr>\<rparr>"
  shows "map (num_at (inverter_record v)) yc600_layout = yc600_fields (meas v)"
proof (rule record_read_back)
  have "panel_ok True 500 no_panel" using generation_limit(2) by (simp add: panel_ok_def no_panel_def)
  then show "decoded_600 1 v"
    by (simp add: decoded_600_def v_def no_values_def grid_ok_def max_frequency_def max_voltage_def no_phase_def
        texts_ok_def bits_def t_def)
qed (simp_all add: v_def no_values_def no_panel_def no_phase_def)

section \<open>Counters across a restart\<close>

text \<open>A \<open>float\<close> printed with six decimals and read again.\<close>

definition kept :: "rat \<Rightarrow> rat" where
  "kept x = f32 (atof (fmt_f 6 x))"

lemma kept_error:
  assumes "0 \<le> x" "x < 1000000"
  shows "\<bar>kept x - x\<bar> \<le> 1 / 1000000 + x / 4194304"
proof -
  define y where "y = rat_of_int (half_even (x * 10 ^ 6)) / 10 ^ 6"
  have "\<bar>rat_of_int (half_even (x * 10 ^ 6)) - x * 10 ^ 6\<bar> \<le> 1 / 2" by (rule half_even_near)
  then have y: "y \<le> x + 1 / 2000000" "x - 1 / 2000000 \<le> y"
    unfolding y_def abs_le_iff by (simp_all add: field_simps)
  have "0 \<le> half_even (x * 10 ^ 6)" using assms(1) by (intro half_even_nonneg) simp
  then have y0: "0 \<le> y" by (simp add: y_def)
  have k: "kept x = f32 (f64 y)" using atof_fmt_f[OF assms(1), of 6] by (simp add: kept_def y_def)
  note d = f64_error[OF y0] and f = f32_error[OF f64_error(3)[OF y0]]
  have "kept x - x \<le> 1 / 1000000 + x / 4194304" "x - kept x \<le> 1 / 1000000 + x / 4194304"
    using d f y y0 assms unfolding k by linarith+
  then show ?thesis by (simp add: abs_le_iff)
qed

text \<open>The counters of \<open>old\<close> put into the readings \<open>w\<close>.\<close>

definition restored :: "measured \<Rightarrow> measured \<Rightarrow> measured" where
  "restored old w = w\<lparr>
     panel_a := (panel_a w)\<lparr>p_preaccgen := kept (p_preaccgen (panel_a old))\<rparr>,
     panel_b := (panel_b w)\<lparr>p_preaccgen := kept (p_preaccgen (panel_b old))\<rparr>,
     panel_c := (panel_c w)\<lparr>p_preaccgen := kept (p_preaccgen (panel_c old))\<rparr>,
     panel_d := (panel_d w)\<lparr>p_preaccgen := kept (p_preaccgen (panel_d old))\<rparr>,
     phase_a := (phase_a w)\<lparr>p_pre_output_energy := kept (p_pre_output_energy (phase_a old))\<rparr>,
     phase_b := (phase_b w)\<lparr>p_pre_output_energy := kept (p_pre_output_energy (phase_b old))\<rparr>,
     phase_c := (phase_c w)\<lparr>p_pre_output_energy := kept (p_pre_output_energy (phase_c old))\<rparr>,
     m_preacctime := m_preacctime old\<rparr>"

definition counters_ok :: "inverter \<Rightarrow> bool" where
  "counters_ok v = (valid_id (inv_id v) \<and> int32 (m_preacctime (meas v))
     \<and> (\<forall>p \<in> {panel_a (meas v), panel_b (meas v), panel_c (meas v), panel_d (meas v)}.
         0 \<le> p_preaccgen p \<and> p_preaccgen p < 1000000)
     \<and> (\<forall>p \<in> {phase_a (meas v), phase_b (meas v), phase_c (meas v)}.
         0 \<le> p_pre_output_energy p \<and> p_pre_output_energy p < 1000000))"

lemma length_fmt_6: "0 \<le> x \<Longrightarrow> x < 1000000 \<Longrightarrow> length (fmt_f 6 x) \<le> 16"
proof -
  assume x: "0 \<le> x" "x < 1000000"
  define k where "k = half_even (x * 1000000)"
  have "rat_of_int k \<le> x * 1000000 + 1 / 2" using half_even_near[of "x * 1000000"] unfolding k_def abs_le_iff by linarith
  then have "rat_of_int k \<le> rat_of_int 1000000000001" using x by simp
  then have "k \<le> 1000000000001" by (simp only: of_int_le_iff)
  then have "nat k div 1000000 < 10 ^ 9" by simp
  then have "length (dec (nat k div 1000000)) \<le> 9" by (rule length_dec_le) simp
  moreover have "length (pad0 6 (dec (nat k mod 1000000))) = 6" by (intro length_pad0 length_dec_le) simp_all
  ultimately show ?thesis using x(1) by (simp add: fmt_f_def k_def Let_def)
qed

lemma fmt_f_no_comma [simp]: "CHR '','' \<notin> set (fmt_f n x)"
  using fmt_f_chars[of "CHR '',''" n x] by (auto simp: is_digit_def)

lemma collect_line_ok:
  assumes "counters_ok v"
  shows "is_line (collect_line v)" "length (collect_line v) \<le> 199"
proof -
  have i: "valid_id (inv_id v)" using assms by (simp add: counters_ok_def)
  have plain: "NL \<notin> set (fmt_f n x)" "NUL \<notin> set (fmt_f n x)" for n x using plain_line[OF fmt_f_plain, of n x] by auto
  have d: "NL \<notin> set (fmt_d x)" "NUL \<notin> set (fmt_d x)" for x using fmt_d_plain by (auto simp: plain_char_def)
  show "is_line (collect_line v)"
    unfolding collect_line_def Let_def append_assoc[symmetric]
    by (rule is_lineI) (use plain d plain_line[OF plain_valid_id[OF i]] comma_line in auto)
  have f: "length (fmt_f 6 x) \<le> 16" if "x \<in> p_preaccgen ` {panel_a (meas v), panel_b (meas v), panel_c (meas v), panel_d (meas v)}
      \<union> p_pre_output_energy ` {phase_a (meas v), phase_b (meas v), phase_c (meas v)}" for x
    using that assms by (auto simp: counters_ok_def intro!: length_fmt_6)
  have t: "length (fmt_d (m_preacctime (meas v))) \<le> 12"
    using assms length_fmt_d[of "m_preacctime (meas v)" 11] by (auto simp: counters_ok_def int32_def abs_if)
  have "length (inv_id v) = 12" using i by (simp add: valid_id_def)
  then show "length (collect_line v) \<le> 199"
    using f[of "p_preaccgen (panel_a (meas v))"] f[of "p_preaccgen (panel_b (meas v))"]
      f[of "p_preaccgen (panel_c (meas v))"] f[of "p_preaccgen (panel_d (meas v))"]
      f[of "p_pre_output_energy (phase_a (meas v))"] f[of "p_pre_output_energy (phase_b (meas v))"]
      f[of "p_pre_output_energy (phase_c (meas v))"] t
    by (simp add: collect_line_def Let_def)
qed

lemma collect_line_fields:
  assumes "counters_ok v"
  shows "load_counters (splitString (cstr (collect_line v))) w = restored (meas v) w"
    "take 12 (fld (splitString (cstr (collect_line v))) 0) = inv_id v"
proof -
  have i: "valid_id (inv_id v)" using assms by (simp add: counters_ok_def)
  have n: "CHR '','' \<notin> set (inv_id v)" using plain_no_comma[OF plain_valid_id[OF i]] .
  have nl: "CHR '','' \<noteq> NL" using comma_line by simp
  have c: "cstr (collect_line v) = collect_line v" using collect_line_ok(1)[OF assms] by simp
  have last: "splitString (fmt_d x @ [NL]) = [fmt_d x @ [NL]]" for x
    by (rule splitString_nocomma) (use nl in auto)
  have s: "splitString (collect_line v) = [inv_id v, fmt_f 6 (p_preaccgen (panel_a (meas v))),
     fmt_f 6 (p_preaccgen (panel_b (meas v))), fmt_f 6 (p_preaccgen (panel_c (meas v))),
     fmt_f 6 (p_preaccgen (panel_d (meas v))), fmt_f 6 (p_pre_output_energy (phase_a (meas v))),
     fmt_f 6 (p_pre_output_energy (phase_b (meas v))), fmt_f 6 (p_pre_output_energy (phase_c (meas v))),
     fmt_d (m_preacctime (meas v)) @ [NL]]"
    using n by (simp add: collect_line_def Let_def last)
  have t: "atoi (fmt_d x @ [NL]) = x" for x
    by (rule atoi_fmt_d_append) (simp add: is_digit_def NL_def)
  show "load_counters (splitString (cstr (collect_line v))) w = restored (meas v) w"
    unfolding c s by (simp add: load_counters_def restored_def kept_def fld_def t Let_def)
  show "take 12 (fld (splitString (cstr (collect_line v))) 0) = inv_id v"
    unfolding c s using i by (simp add: fld_def valid_id_def)
qed

text \<open>A loop over the table that changes the first inverter with an id.\<close>

lemma inv_loop_reaches:
  assumes "\<And>m. i \<le> m \<Longrightarrow> m < j \<Longrightarrow> length (inv_id (inv_at s m)) = 12 \<and> run_state (body m) s = (False, s)"
    and "length (inv_id (inv_at s j)) = 12" "i \<le> j" "j < i + n" "run_state (body j) s = (True, t)"
  shows "exec (inv_loop body n i) s = t"
  using assms
proof (induction n arbitrary: i)
  case (Suc n)
  show ?case
  proof (cases "i = j")
    case True
    then show ?thesis using Suc.prems by (simp add: get_inv_def)
  next
    case False
    then have "exec (inv_loop body n (Suc i)) s = t" using Suc.prems by (intro Suc.IH) auto
    then show ?thesis using Suc.prems(1)[of i] Suc.prems(3) False by (simp add: get_inv_def)
  qed
qed simp

lemma ids_of_table:
  "map inv_id (inverters t) = map inv_id (inverters s) \<Longrightarrow> map inv_id (table (inverters t)) = map inv_id (table (inverters s))"
proof -
  have "map inv_id (table vs) = takeWhile (\<lambda>i. length i = 12) (take MAXINVERTERCOUNT (map inv_id vs))" for vs
    by (simp add: table_def takeWhile_map take_map comp_def)
  then show "map inv_id (inverters t) = map inv_id (inverters s) \<Longrightarrow> ?thesis" by simp
qed

lemma memeq_valid: "valid_id i \<Longrightarrow> length j = 12 \<Longrightarrow> memeq j i 12 = (j = i)"
  using memeq_prefix[of i 12 j] by (simp add: valid_id_def valid_id_no_nul)

lemma find_distinct: "distinct (map f us) \<Longrightarrow> u \<in> set us \<Longrightarrow> find (\<lambda>x. f x = f u) us = Some u"
  by (induction us) (auto simp: image_iff)

definition put_counters :: "inverter list \<Rightarrow> inverter \<Rightarrow> inverter" where
  "put_counters us w = (case find (\<lambda>u. inv_id u = inv_id w) us of None \<Rightarrow> w
     | Some u \<Rightarrow> w\<lparr>meas := restored (meas u) (meas w)\<rparr>)"

lemma load_collect_line_effect:
  assumes "counters_ok u" "j < length (table (inverters s))" "inv_id (inv_at s j) = inv_id u"
    and "distinct (map inv_id (table (inverters s)))"
  shows "exec (load_collect_line (collect_line u)) s
    = s\<lparr>inverters := (inverters s)[j := (inv_at s j)\<lparr>meas := restored (meas u) (meas (inv_at s j))\<rparr>]\<rparr>"
proof -
  have i: "valid_id (inv_id u)" using assms(1) by (simp add: counters_ok_def)
  have other: "inv_id (inv_at s m) \<noteq> inv_id u" "length (inv_id (inv_at s m)) = 12" if "m < j" for m
  proof -
    have "map inv_id (table (inverters s)) ! m \<noteq> map inv_id (table (inverters s)) ! j"
      using assms(2) that by (subst nth_eq_iff_index_eq[OF assms(4)]) simp_all
    then show "inv_id (inv_at s m) \<noteq> inv_id u"
      using that assms(2,3) table_nth(1)[of m s] table_nth(1)[OF assms(2)] by simp
    show "length (inv_id (inv_at s m)) = 12" using that assms(2) by (intro table_nth(2)) simp
  qed
  note tab = table_nth[OF assms(2)]
  show ?thesis
    unfolding load_collect_line_def Let_def for_inverters_def
    by (rule inv_loop_reaches[of 0 j])
      (use other tab assms(3) collect_line_fields[OF assms(1)] in
        \<open>auto simp: get_inv_def upd_inv_def memeq_valid[OF i]\<close>)
qed

lemma load_collect_effect:
  assumes "\<And>u. u \<in> set us \<Longrightarrow> counters_ok u" "distinct (map inv_id us)"
    and "distinct (map inv_id (table (inverters s)))" "inv_id ` set us \<subseteq> inv_id ` set (table (inverters s))"
  shows "map inv_id (inverters (exec (load_collect (map collect_line us)) s)) = map inv_id (inverters s)
    \<and> (\<forall>i < length (table (inverters s)).
        inv_at (exec (load_collect (map collect_line us)) s) i = put_counters us (inv_at s i))"
  using assms
proof (induction us arbitrary: s)
  case Nil
  then show ?case by (simp add: put_counters_def)
next
  case (Cons u us)
  obtain j where j: "j < length (table (inverters s))" "inv_id (inv_at s j) = inv_id u"
  proof -
    obtain v where "v \<in> set (table (inverters s))" "inv_id v = inv_id u" using Cons.prems(4) by auto
    then show ?thesis using that table_nth(1) by (metis in_set_conv_nth)
  qed
  define v where "v = (inv_at s j)\<lparr>meas := restored (meas u) (meas (inv_at s j))\<rparr>"
  define t where "t = s\<lparr>inverters := (inverters s)[j := v]\<rparr>"
  have step: "exec (load_collect_line (collect_line u)) s = t"
    unfolding t_def v_def by (rule load_collect_line_effect[OF _ j Cons.prems(3)]) (simp add: Cons.prems(1))
  note tab = table_nth[OF j(1)]
  have ids: "map inv_id (inverters t) = map inv_id (inverters s)"
    using tab(4) by (intro nth_equalityI) (auto simp: t_def v_def nth_list_update inv_at_def slot_def)
  note tids = ids_of_table[OF ids]
  have len: "length (table (inverters t)) = length (table (inverters s))" using arg_cong[OF tids, of length] by simp
  have IH: "map inv_id (inverters (exec (load_collect (map collect_line us)) t)) = map inv_id (inverters t)
    \<and> (\<forall>i < length (table (inverters t)).
        inv_at (exec (load_collect (map collect_line us)) t) i = put_counters us (inv_at t i))"
  proof (rule Cons.IH)
    show "inv_id ` set us \<subseteq> inv_id ` set (table (inverters t))"
      using Cons.prems(4) arg_cong[OF tids, of set] by auto
  qed (use Cons.prems tids in auto)
  have "put_counters us (inv_at t i) = put_counters (u # us) (inv_at s i)" if i: "i < length (table (inverters s))" for i
  proof (cases "i = j")
    case True
    have "find (\<lambda>x. inv_id x = inv_id u) us = None" using Cons.prems(2) by (auto simp: find_None_iff image_iff)
    then show ?thesis using True j(2) tab(4) by (simp add: put_counters_def t_def v_def slot_update)
  next
    case False
    have "inv_id (inv_at s i) \<noteq> inv_id u"
    proof -
      have "map inv_id (table (inverters s)) ! i \<noteq> map inv_id (table (inverters s)) ! j"
        using i j(1) False by (subst nth_eq_iff_index_eq[OF Cons.prems(3)]) simp_all
      then show ?thesis using i j table_nth(1) by simp
    qed
    then show ?thesis using False by (simp add: put_counters_def t_def slot_update inv_at_def[symmetric] eq_commute)
  qed
  then show ?case using IH ids len by (simp add: step exec_bind del: run_state_bind)
qed

text \<open>
  C11. Restart: \<open>init_tmpdb\<close> gives every inverter that had data in the last round its
  counters back, up to the six decimals of the file; any other inverter keeps the counters
  it has then, which are 0 after the start, so that its next frame counts the whole counter
  of its day again.
\<close>

theorem counters_survive:
  assumes "\<And>v. v \<in> set (table (inverters s)) \<Longrightarrow> counters_ok v"
    and "distinct (map inv_id (table (inverters s)))" "can_write s path_collect"
    and "map inv_id (inverters t) = map inv_id (inverters s)"
    and "files t path_collect = files (exec update_tmpdb s) path_collect"
    and "i < length (table (inverters s))"
  shows "inv_at (exec init_tmpdb t) i = (if dataflag (inv_at s i) = 1
      then (inv_at t i)\<lparr>meas := restored (meas (inv_at s i)) (meas (inv_at t i))\<rparr> else inv_at t i)"
proof -
  define us where "us = filter (\<lambda>v. dataflag v = 1) (table (inverters s))"
  have us: "\<And>u. u \<in> set us \<Longrightarrow> counters_ok u" "distinct (map inv_id us)"
    using assms(1,2) by (auto simp: us_def distinct_map_filter)
  note tids = ids_of_table[OF assms(4)]
  have content: "files t path_collect = Some (concat (map collect_line us))"
    using assms(3,5) by (simp add: update_tmpdb_def us_def write_file_def)
  have lines: "fgets_lines 199 (concat (map collect_line us)) = map collect_line us"
    using us(1) by (intro fgets_lines_concat) (auto simp: collect_line_ok)
  have sub: "inv_id ` set us \<subseteq> inv_id ` set (table (inverters t))"
    using arg_cong[OF tids, of set] by (auto simp: us_def)
  have d: "distinct (map inv_id (table (inverters t)))" using assms(2) tids by simp
  have len: "length (table (inverters t)) = length (table (inverters s))" using arg_cong[OF tids, of length] by simp
  have "exec init_tmpdb t = exec (load_collect (map collect_line us)) t"
    by (simp add: init_tmpdb_def read_file_def content lines)
  then have e: "inv_at (exec init_tmpdb t) i = put_counters us (inv_at t i)"
    using load_collect_effect[OF us d sub] assms(6) len by simp
  have same: "inv_id (inv_at t i) = inv_id (inv_at s i)"
    using nth_map[of i "table (inverters t)" inv_id] nth_map[of i "table (inverters s)" inv_id] tids assms(6) len
      table_nth(1)[of i t] table_nth(1)[of i s] by simp
  have mem: "inv_at s i \<in> set (table (inverters s))" using assms(6) table_nth(1)[OF assms(6)] by (metis nth_mem)
  show ?thesis
  proof (cases "dataflag (inv_at s i) = 1")
    case True
    have "find (\<lambda>u. inv_id u = inv_id (inv_at s i)) us = Some (inv_at s i)"
      using us(2) True mem by (intro find_distinct) (simp_all add: us_def)
    then show ?thesis using True by (simp add: e put_counters_def same)
  next
    case False
    have "find (\<lambda>u. inv_id u = inv_id (inv_at s i)) us = None"
    proof -
      have "u = inv_at s i" if "u \<in> set (table (inverters s))" "inv_id u = inv_id (inv_at s i)" for u
        using assms(2) that mem by (auto simp: distinct_map inj_on_def)
      then show ?thesis using False by (auto simp: find_None_iff us_def)
    qed
    then show ?thesis using False by (simp add: e put_counters_def same)
  qed
qed

theorem counters_survive_witness:
  defines "v \<equiv> empty_inverter\<lparr>inv_id := ''704000000001'', dataflag := 1,
     meas := no_values\<lparr>panel_a := no_panel\<lparr>p_preaccgen := 5\<rparr>\<rparr>\<rparr>"
  defines "s \<equiv> blank\<lparr>inverters := [v]\<rparr>"
  defines "t \<equiv> (exec update_tmpdb s)\<lparr>inverters := [empty_inverter\<lparr>inv_id := ''704000000001''\<rparr>]\<rparr>"
  shows "p_preaccgen (panel_a (meas (inv_at (exec init_tmpdb t) 0))) = kept 5"
proof -
  have tab: "table (inverters s) = [v]" by (simp add: s_def v_def table_def MAXINVERTERCOUNT_def)
  have ok: "counters_ok v"
    by (simp add: counters_ok_def v_def no_values_def no_panel_def no_phase_def valid_id_def is_digit_def int32_def)
  have a: "inv_at s 0 = v" "inv_at t 0 = empty_inverter\<lparr>inv_id := ''704000000001''\<rparr>"
    by (simp_all add: inv_at_def slot_def s_def t_def)
  have "inv_at (exec init_tmpdb t) 0 = (inv_at t 0)\<lparr>meas := restored (meas v) (meas (inv_at t 0))\<rparr>"
    using counters_survive[of s t 0] tab ok a(1) by (simp add: s_def t_def v_def)
  then show ?thesis by (simp add: restored_def v_def)
qed

section \<open>Events and changes\<close>

lemma inv_loop_append:
  assumes "\<And>u k. files u p \<noteq> None \<Longrightarrow> can_write u p \<Longrightarrow> exec (body k) u = u\<lparr>files := (files u)(p \<mapsto> the (files u p) @ g (inv_at u k))\<rparr>"
    and "files s p = Some old" "can_write s p"
  shows "exec (inv_loop (\<lambda>k. do { body k; ret False }) n i) s = s\<lparr>files := (files s)(p \<mapsto>
    old @ concat (map g (takeWhile (\<lambda>v. length (inv_id v) = 12) (take n (drop i (inverters s))))))\<rparr>"
  using assms(2,3)
proof (induction n arbitrary: i s old)
  case 0
  then show ?case by (simp add: fun_upd_idem)
next
  case (Suc n)
  show ?case
  proof (cases "length (inv_id (inv_at s i)) = 12")
    case True
    then have i: "i < length (inverters s)" by (auto simp: inv_at_def slot_def empty_inverter_def split: if_splits)
    define t where "t = s\<lparr>files := (files s)(p \<mapsto> old @ g (inv_at s i))\<rparr>"
    have step: "exec (body i) s = t" using assms(1)[of s i] Suc.prems by (simp add: t_def)
    have d: "take (Suc n) (drop i (inverters s)) = inv_at s i # take n (drop (Suc i) (inverters s))"
      using i by (simp add: Cons_nth_drop_Suc[symmetric] inv_at_def slot_def)
    have "exec (inv_loop (\<lambda>k. do { body k; ret False }) (Suc n) i) s = exec (inv_loop (\<lambda>k. do { body k; ret False }) n (Suc i)) t"
      using True by (simp add: get_inv_def exec_bind step case_prod_beta)
    also have "\<dots> = t\<lparr>files := (files t)(p \<mapsto> (old @ g (inv_at s i))
        @ concat (map g (takeWhile (\<lambda>v. length (inv_id v) = 12) (take n (drop (Suc i) (inverters t))))))\<rparr>"
      by (rule Suc.IH) (use Suc.prems in \<open>simp_all add: t_def\<close>)
    finally show ?thesis unfolding d using True by (simp add: t_def fun_upd_def cong: if_cong)
  next
    case False
    have "takeWhile (\<lambda>v. length (inv_id v) = 12) (take (Suc n) (drop i (inverters s))) = []"
    proof (cases "i < length (inverters s)")
      case True
      then show ?thesis using False by (simp add: Cons_nth_drop_Suc[symmetric] inv_at_def slot_def)
    qed simp
    then show ?thesis using False Suc.prems by (simp add: get_inv_def fun_upd_idem)
  qed
qed

text \<open>
  The event file is meant for inverters with a status bit set: the code compares the pattern
  with 24 zeros. As the pattern has 37 characters, every inverter with data is listed.
\<close>

lemma event_file_lists_all:
  assumes "can_write s path_event"
    and "\<And>v. v \<in> set (table (inverters s)) \<Longrightarrow> dataflag v = 1 \<Longrightarrow> bits 37 (m_status_web (meas v))"
  shows "files (exec (saveevent dt) s) path_event
    = Some (concat (map (event_line dt) (filter (\<lambda>v. dataflag v = 1) (table (inverters s)))))"
proof -
  define g where "g v = (if dataflag v = 1 \<and> m_status_web (meas v) \<noteq> ''000000000000000000000000''
    then event_line dt v else [])" for v
  define body where "body = (\<lambda>k. do {
       v \<leftarrow> get_inv k;
       if dataflag v = 1 \<and> m_status_web (meas v) \<noteq> ''000000000000000000000000''
       then do { append_file path_event (event_line dt v); ret () } else ret () })"
  define t where "t = s\<lparr>files := (files s)(path_event \<mapsto> [])\<rparr>"
  have "exec (body k) u = u\<lparr>files := (files u)(path_event \<mapsto> the (files u path_event) @ g (inv_at u k))\<rparr>"
    if "files u path_event \<noteq> None" "can_write u path_event" for u k
    using that by (auto simp: body_def g_def get_inv_def append_file_def fun_upd_idem)
  then have "exec (inv_loop (\<lambda>k. do { body k; ret False }) MAXINVERTERCOUNT 0) t
    = t\<lparr>files := (files t)(path_event \<mapsto> [] @ concat (map g (takeWhile (\<lambda>v. length (inv_id v) = 12)
        (take MAXINVERTERCOUNT (drop 0 (inverters t))))))\<rparr>"
    by (rule inv_loop_append) (use assms(1) in \<open>simp_all add: t_def\<close>)
  moreover have "exec (saveevent dt) s = exec (inv_loop (\<lambda>k. do { body k; ret False }) MAXINVERTERCOUNT 0) t"
    using assms(1)
    by (simp add: saveevent_def write_file_def for_each_inverter_def for_inverters_def body_def t_def case_prod_beta)
  ultimately have "files (exec (saveevent dt) s) path_event = Some (concat (map g (table (inverters s))))"
    by (simp add: t_def table_def)
  moreover have "g v = (if dataflag v = 1 then event_line dt v else [])" if "v \<in> set (table (inverters s))" for v
    using assms(2)[OF that] by (auto simp: g_def bits_def)
  then have "map g (table (inverters s)) = map (\<lambda>v. if dataflag v = 1 then event_line dt v else []) (table (inverters s))"
    by simp
  moreover have "concat (map (\<lambda>v. if P v then f v else []) vs) = concat (map f (filter P vs))"
    for P and f :: "inverter \<Rightarrow> string" and vs by (induction vs) auto
  ultimately show ?thesis by simp
qed

text \<open>
  The message about changed states: with a cleared buffer it has 16 characters per inverter;
  the buffer of the ground-fault message is not cleared, and what it held is sent along.
\<close>

lemma change_message_length:
  assumes "length i = 12" "\<And>v. v \<in> set vs \<Longrightarrow> length (inv_id v) = 12" "length cmd = 3"
  shows "length (change_message [] cmd i st vs) = 51 + 16 * length vs"
proof -
  have "length (changed_entries [] st us b) = length b + 16 * length us"
    if "\<And>v. v \<in> set us \<Longrightarrow> length (inv_id v) = 12" for us b
    using that by (induction us arbitrary: b) (simp_all add: put_char_def cstr_def)
  from this[of vs] show ?thesis
    using assms by (simp add: change_message_def Let_def del: length_greater_0_conv)
qed

lemma uncleared_buffer_is_sent:
  "changed_entries (replicate 13 NUL @ ''XYZ'') last_gfdi_flag [empty_inverter\<lparr>inv_id := ''704000000001''\<rparr>] []
    = ''7040000000010XYZEND''"
  by code_simp

end
