(* ===== verification/Protection_Setting.thy ===== *)
theory Protection_Setting
  imports C_Float Ema_Handlers Record_Store "HOL-Library.Signed_Division"
begin

text \<open>
  Sending the grid protection parameters to the inverters and reading them back
  (\<open>ECU/main/src/set_protection_parameters.c\<close> for all inverters at once,
  \<open>set_protection_parameters_inverter.c\<close> for single ones). The requests stand in the files
  \<open>setpropa\<close> (name, value, flag) and \<open>setpropi\<close> (id, name, value, flag).
\<close>

section \<open>Numbers\<close>

text \<open>The conversion of a \<open>double\<close> to \<open>int\<close>, undefined out of range (\<open>u\<close>), also for an infinite quotient.\<close>

definition int_of :: "int \<Rightarrow> rat \<Rightarrow> int" where
  "int_of u x = (if - 2147483649 < x \<and> x < 2147483648 then to_int x else u)"

definition quot_int :: "int \<Rightarrow> rat \<Rightarrow> rat \<Rightarrow> int" where
  "quot_int u c x = (if x = 0 then u else int_of u (f64 (c / x)))"

definition unset_int :: "int ecu" where
  "unset_int = gets (\<lambda>s. any_int (stale s))"

text \<open>Values of a YC1000: voltages in two scales, the period of a frequency, times in cycles of 50 Hz.\<close>

definition volt_unit :: rat where
  "volt_unit = f64 (1161445 / 100)"

definition slow_voltage :: "int \<Rightarrow> string \<Rightarrow> int" where
  "slow_voltage u value = int_of u (f64 (atof value * volt_unit))"

definition fast_voltage :: "int \<Rightarrow> string \<Rightarrow> int" where
  "fast_voltage u value = int_of u (f64 (atof value * 16500))"

definition dc_value :: "int \<Rightarrow> string \<Rightarrow> int" where
  "dc_value u value = int_of u (f64 (f64 (atof value * 4096) / (825 / 10)))"

definition period_value :: "int \<Rightarrow> string \<Rightarrow> int" where
  "period_value u value = quot_int u 256000 (atof value)"

definition cycles_value :: "int \<Rightarrow> string \<Rightarrow> int" where
  "cycles_value u value = int_of u (f64 (atof value * 50))"

definition plain_value :: "int \<Rightarrow> string \<Rightarrow> int" where
  "plain_value u value = int_of u (atof value)"

definition island_value :: "int \<Rightarrow> string \<Rightarrow> int" where
  "island_value u value = int_of u (f64 (atof value * (25 / 10)))"

text \<open>Values of a YC600; its voltages have one scale per deputy model.\<close>

definition volt_600 :: "int \<Rightarrow> bool \<Rightarrow> string \<Rightarrow> int" where
  "volt_600 u b1 value = int_of u (f64 (atof value * (if b1 then f64 (133 / 100) else f64 (13277 / 10000))))"

definition period_600 :: "int \<Rightarrow> string \<Rightarrow> int" where
  "period_600 u value = quot_int u 50000000 (atof value)"

definition centi_value :: "int \<Rightarrow> string \<Rightarrow> int" where
  "centi_value u value = int_of u (f64 (atof value * 100))"

text \<open>The bytes of a value; division in C cuts off towards zero.\<close>

definition bytes3 :: "int \<Rightarrow> byte list" where
  "bytes3 d = [u8 (d sdiv 65536), u8 ((d smod 65536) sdiv 256), u8 (d smod 256)]"

definition two_bytes :: "int \<Rightarrow> byte list" where
  "two_bytes d = [u8 (d sdiv 256), u8 (d smod 256)]"

definition bytes2 :: "int \<Rightarrow> byte list" where
  "bytes2 d = two_bytes d @ [0]"

definition bytes_dc :: "int \<Rightarrow> byte list" where
  "bytes_dc d = [u8 ((d smod 65536) sdiv 256), u8 (d smod 256), 0]"

definition bytes1 :: "int \<Rightarrow> byte list" where
  "bytes1 d = [u8 d, 0, 0]"

section \<open>Frames\<close>

definition send_to_all :: "byte \<Rightarrow> byte list \<Rightarrow> int ecu" where
  "send_to_all cmd bs = do {
     zb_broadcast_cmd (chk_payload ([0x06, cmd] @ bs @ [0, 0]));
     delay_ms 10000;
     ret 0 }"

definition send_one :: "int \<Rightarrow> byte \<Rightarrow> byte list \<Rightarrow> int ecu" where
  "send_one addr cmd bs = do {
     zb_shortaddr_cmd addr (chk_payload ([0x06, cmd] @ bs @ [0, 0]));
     delay_ms 200;
     ret 0 }"

definition bytes_num :: "nat \<Rightarrow> int \<Rightarrow> byte list" where
  "bytes_num n d = (if n = 3 then bytes3 d else if n = 2 then bytes2 d else if n = 1 then bytes1 d else [0, 0, 0])"

definition set_protection_yc600 :: "byte \<Rightarrow> int \<Rightarrow> nat \<Rightarrow> int ecu" where
  "set_protection_yc600 order dat num = send_to_all order (bytes_num num dat)"

definition set_protection_yc600_one :: "int \<Rightarrow> byte \<Rightarrow> int \<Rightarrow> nat \<Rightarrow> int ecu" where
  "set_protection_yc600_one addr order dat num = send_one addr order (bytes_num num dat)"

text \<open>To all YC1000.\<close>

definition set_regulated_dc_working_point_yc1000 :: "string \<Rightarrow> int ecu" where
  "set_regulated_dc_working_point_yc1000 value = do { u \<leftarrow> unset_int; send_to_all 0x50 (bytes_dc (dc_value u value)) }"

definition set_undervoltage_slow_yc1000 :: "string \<Rightarrow> int ecu" where
  "set_undervoltage_slow_yc1000 value = do { u \<leftarrow> unset_int; send_to_all 0x53 (bytes3 (slow_voltage u value)) }"

definition set_overvoltage_slow_yc1000 :: "string \<Rightarrow> int ecu" where
  "set_overvoltage_slow_yc1000 value = do { u \<leftarrow> unset_int; send_to_all 0x54 (bytes3 (slow_voltage u value)) }"

definition set_overvoltage_fast_yc1000 :: "string \<Rightarrow> int ecu" where
  "set_overvoltage_fast_yc1000 value = do { u \<leftarrow> unset_int; send_to_all 0x52 (bytes3 (fast_voltage u value)) }"

definition set_undervoltage_fast_yc1000 :: "string \<Rightarrow> int ecu" where
  "set_undervoltage_fast_yc1000 value = do { u \<leftarrow> unset_int; send_to_all 0x51 (bytes3 (fast_voltage u value)) }"

definition set_underfrequency_fast_yc1000 :: "string \<Rightarrow> int ecu" where
  "set_underfrequency_fast_yc1000 value = do { u \<leftarrow> unset_int; send_to_all 0x57 (bytes2 (period_value u value)) }"

definition set_overfrequency_fast_yc1000 :: "string \<Rightarrow> int ecu" where
  "set_overfrequency_fast_yc1000 value = do { u \<leftarrow> unset_int; send_to_all 0x58 (bytes2 (period_value u value)) }"

definition set_underfrequency_slow_yc1000 :: "string \<Rightarrow> int ecu" where
  "set_underfrequency_slow_yc1000 value = do { u \<leftarrow> unset_int; send_to_all 0x59 (bytes2 (period_value u value)) }"

definition set_overfrequency_slow_yc1000 :: "string \<Rightarrow> int ecu" where
  "set_overfrequency_slow_yc1000 value = do { u \<leftarrow> unset_int; send_to_all 0x5A (bytes2 (period_value u value)) }"

definition set_voltage_triptime_fast_yc1000 :: "string \<Rightarrow> int ecu" where
  "set_voltage_triptime_fast_yc1000 value = do { u \<leftarrow> unset_int; send_to_all 0x55 (bytes2 (cycles_value u value)) }"

definition set_voltage_triptime_slow_yc1000 :: "string \<Rightarrow> int ecu" where
  "set_voltage_triptime_slow_yc1000 value = do { u \<leftarrow> unset_int; send_to_all 0x56 (bytes2 (cycles_value u value)) }"

definition set_frequency_triptime_fast_yc1000 :: "string \<Rightarrow> int ecu" where
  "set_frequency_triptime_fast_yc1000 value = do { u \<leftarrow> unset_int; send_to_all 0x5B (bytes2 (cycles_value u value)) }"

definition set_frequency_triptime_slow_yc1000 :: "string \<Rightarrow> int ecu" where
  "set_frequency_triptime_slow_yc1000 value = do { u \<leftarrow> unset_int; send_to_all 0x5C (bytes2 (cycles_value u value)) }"

definition set_grid_recovery_time_yc1000 :: "string \<Rightarrow> int ecu" where
  "set_grid_recovery_time_yc1000 value = do { u \<leftarrow> unset_int; send_to_all 0x5D (bytes2 (plain_value u value)) }"

definition set_under_voltage_stage_2_yc1000 :: "string \<Rightarrow> int ecu" where
  "set_under_voltage_stage_2_yc1000 value = do { u \<leftarrow> unset_int; send_to_all 0x5E (bytes3 (slow_voltage u value)) }"

definition set_voltage_3_clearance_time_yc1000 :: "string \<Rightarrow> int ecu" where
  "set_voltage_3_clearance_time_yc1000 value = do { u \<leftarrow> unset_int; send_to_all 0x5F (bytes2 (cycles_value u value)) }"

definition set_start_time_yc1000 :: "string \<Rightarrow> int ecu" where
  "set_start_time_yc1000 value = do { u \<leftarrow> unset_int; send_to_all 0x3D (bytes2 (plain_value u value)) }"

definition set_active_antiisland_time_yc1000 :: "string \<Rightarrow> int ecu" where
  "set_active_antiisland_time_yc1000 value = do { u \<leftarrow> unset_int; send_to_all 0x4E (bytes1 (island_value u value)) }"

definition set_under_voltage_stage_3_yc1000 :: "string \<Rightarrow> int ecu" where
  "set_under_voltage_stage_3_yc1000 value = do { u \<leftarrow> unset_int; send_to_all 0x73 (bytes3 (slow_voltage u value)) }"

text \<open>To one YC1000.\<close>

definition set_regulated_dc_working_point_yc1000_one :: "int \<Rightarrow> string \<Rightarrow> int ecu" where
  "set_regulated_dc_working_point_yc1000_one addr value = do { u \<leftarrow> unset_int; send_one addr 0x60 (bytes_dc (dc_value u value)) }"

definition set_undervoltage_slow_yc1000_one :: "int \<Rightarrow> string \<Rightarrow> int ecu" where
  "set_undervoltage_slow_yc1000_one addr value = do { u \<leftarrow> unset_int; send_one addr 0x63 (bytes3 (slow_voltage u value)) }"

definition set_overvoltage_slow_yc1000_one :: "int \<Rightarrow> string \<Rightarrow> int ecu" where
  "set_overvoltage_slow_yc1000_one addr value = do { u \<leftarrow> unset_int; send_one addr 0x64 (bytes3 (slow_voltage u value)) }"

definition set_overvoltage_fast_yc1000_one :: "int \<Rightarrow> string \<Rightarrow> int ecu" where
  "set_overvoltage_fast_yc1000_one addr value = do { u \<leftarrow> unset_int; send_one addr 0x62 (bytes3 (fast_voltage u value)) }"

definition set_undervoltage_fast_yc1000_one :: "int \<Rightarrow> string \<Rightarrow> int ecu" where
  "set_undervoltage_fast_yc1000_one addr value = do { u \<leftarrow> unset_int; send_one addr 0x61 (bytes3 (fast_voltage u value)) }"

definition set_underfrequency_fast_yc1000_one :: "int \<Rightarrow> string \<Rightarrow> int ecu" where
  "set_underfrequency_fast_yc1000_one addr value = do { u \<leftarrow> unset_int; send_one addr 0x67 (bytes2 (period_value u value)) }"

definition set_overfrequency_fast_yc1000_one :: "int \<Rightarrow> string \<Rightarrow> int ecu" where
  "set_overfrequency_fast_yc1000_one addr value = do { u \<leftarrow> unset_int; send_one addr 0x68 (bytes2 (period_value u value)) }"

definition set_underfrequency_slow_yc1000_one :: "int \<Rightarrow> string \<Rightarrow> int ecu" where
  "set_underfrequency_slow_yc1000_one addr value = do { u \<leftarrow> unset_int; send_one addr 0x69 (bytes2 (period_value u value)) }"

definition set_overfrequency_slow_yc1000_one :: "int \<Rightarrow> string \<Rightarrow> int ecu" where
  "set_overfrequency_slow_yc1000_one addr value = do { u \<leftarrow> unset_int; send_one addr 0x6A (bytes2 (period_value u value)) }"

definition set_voltage_triptime_fast_yc1000_one :: "int \<Rightarrow> string \<Rightarrow> int ecu" where
  "set_voltage_triptime_fast_yc1000_one addr value = do { u \<leftarrow> unset_int; send_one addr 0x65 (bytes2 (cycles_value u value)) }"

definition set_voltage_triptime_slow_yc1000_one :: "int \<Rightarrow> string \<Rightarrow> int ecu" where
  "set_voltage_triptime_slow_yc1000_one addr value = do { u \<leftarrow> unset_int; send_one addr 0x66 (bytes2 (cycles_value u value)) }"

definition set_frequency_triptime_fast_yc1000_one :: "int \<Rightarrow> string \<Rightarrow> int ecu" where
  "set_frequency_triptime_fast_yc1000_one addr value = do { u \<leftarrow> unset_int; send_one addr 0x6B (bytes2 (cycles_value u value)) }"

definition set_frequency_triptime_slow_yc1000_one :: "int \<Rightarrow> string \<Rightarrow> int ecu" where
  "set_frequency_triptime_slow_yc1000_one addr value = do { u \<leftarrow> unset_int; send_one addr 0x6C (bytes2 (cycles_value u value)) }"

definition set_grid_recovery_time_yc1000_one :: "int \<Rightarrow> string \<Rightarrow> int ecu" where
  "set_grid_recovery_time_yc1000_one addr value = do { u \<leftarrow> unset_int; send_one addr 0x6D (bytes2 (plain_value u value)) }"

definition set_under_voltage_stage_2_yc1000_one :: "int \<Rightarrow> string \<Rightarrow> int ecu" where
  "set_under_voltage_stage_2_yc1000_one addr value = do { u \<leftarrow> unset_int; send_one addr 0x6E (bytes3 (slow_voltage u value)) }"

definition set_voltage_3_clearance_time_yc1000_one :: "int \<Rightarrow> string \<Rightarrow> int ecu" where
  "set_voltage_3_clearance_time_yc1000_one addr value = do { u \<leftarrow> unset_int; send_one addr 0x6F (bytes2 (cycles_value u value)) }"

definition set_start_time_yc1000_one :: "int \<Rightarrow> string \<Rightarrow> int ecu" where
  "set_start_time_yc1000_one addr value = do { u \<leftarrow> unset_int; send_one addr 0x4D (bytes2 (plain_value u value)) }"

definition set_active_antiisland_time_yc1000_one :: "int \<Rightarrow> string \<Rightarrow> int ecu" where
  "set_active_antiisland_time_yc1000_one addr value = do { u \<leftarrow> unset_int; send_one addr 0x3E (bytes1 (island_value u value)) }"

definition set_under_voltage_stage_3_yc1000_one :: "int \<Rightarrow> string \<Rightarrow> int ecu" where
  "set_under_voltage_stage_3_yc1000_one addr value = do { u \<leftarrow> unset_int; send_one addr 0x83 (bytes3 (slow_voltage u value)) }"

section \<open>Frames with five parameters\<close>

text \<open>
  The frames for older inverters carry five parameters; the other four are meant to be those
  in use. \<open>read_protection_parameters_5\<close> splits its result buffer \<open>dat\<close> instead of the line
  read, and \<open>read_protection_parameters_one_5\<close> tests \<open>!strcpy(..)\<close>, which never holds, so that
  all of its values stay 0.
\<close>

definition five_bytes :: "int \<Rightarrow> int \<Rightarrow> int \<Rightarrow> int \<Rightarrow> int \<Rightarrow> byte list" where
  "five_bytes uv ov uf off rec =
     [u8 (uv sdiv 65535), u8 ((uv smod 65535) sdiv 256), u8 (uv smod 256),
      u8 (ov sdiv 65535), u8 ((ov smod 65535) sdiv 256), u8 (ov smod 256)]
     @ two_bytes uf @ two_bytes off @ two_bytes rec @ [0, 0, 0]"

definition five_line :: "int \<Rightarrow> string list \<Rightarrow> int \<times> int \<times> int \<times> int \<times> int \<Rightarrow> int \<times> int \<times> int \<times> int \<times> int" where
  "five_line u fs p = (case p of (uv, ov, uf, off, rec) \<Rightarrow>
     let temp = f32 (atof (fld fs 1)); name = fld fs 0 in
     if name = ''under_voltage_slow'' then (int_of u (f64 (temp * volt_unit)), ov, uf, off, rec)
     else if name = ''over_voltage_slow'' then (uv, int_of u (f64 (temp * volt_unit)), uf, off, rec)
     else if name = ''under_frequency_slow'' then (uv, ov, quot_int u 256000 temp, off, rec)
     else if name = ''over_frequency_slow'' then (uv, ov, uf, quot_int u 256000 temp, rec)
     else if name = ''grid_recovery_time'' then (uv, ov, uf, off, int_of u temp)
     else p)"

definition read_protection_parameters_5 :: "string \<Rightarrow> byte list ecu" where
  "read_protection_parameters_5 dat = do {
     u \<leftarrow> unset_int;
     f \<leftarrow> read_file path_setpropa;
     let (uv, ov, uf, off, rec) = (case f of None \<Rightarrow> (0, 0, 0, 0, 0)
       | Some txt \<Rightarrow> foldl (\<lambda>p l. five_line u (splitString (cstr dat)) p) (0, 0, 0, 0, 0) (fgets_lines 199 txt));
     ret (five_bytes uv ov uf off rec) }"

definition read_protection_parameters_one_5 :: "string \<Rightarrow> byte list ecu" where
  "read_protection_parameters_one_5 i = ret (five_bytes 0 0 0 0 0)"

definition put_at :: "nat \<Rightarrow> byte list \<Rightarrow> byte list \<Rightarrow> byte list" where
  "put_at pos new bs = take pos bs @ new @ drop (pos + length new) bs"

definition send_to_all_5 :: "nat \<Rightarrow> byte list \<Rightarrow> int ecu" where
  "send_to_all_5 pos new = do {
     bs \<leftarrow> read_protection_parameters_5 (replicate 16 NUL);
     zb_broadcast_cmd (chk_payload ([0x10, 0xAC] @ put_at pos new bs));
     delay_ms 10000;
     ret 0 }"

definition send_one_5 :: "int \<Rightarrow> string \<Rightarrow> nat \<Rightarrow> byte list \<Rightarrow> int ecu" where
  "send_one_5 addr i pos new = do {
     bs \<leftarrow> read_protection_parameters_one_5 i;
     zb_shortaddr_cmd addr (chk_payload ([0x10, 0xCC] @ put_at pos new bs));
     delay_ms 200;
     ret 0 }"

definition set_undervoltage_slow_yc1000_5 :: "string \<Rightarrow> int ecu" where
  "set_undervoltage_slow_yc1000_5 value = do { u \<leftarrow> unset_int; send_to_all_5 0 (bytes3 (slow_voltage u value)) }"

definition set_overvoltage_slow_yc1000_5 :: "string \<Rightarrow> int ecu" where
  "set_overvoltage_slow_yc1000_5 value = do { u \<leftarrow> unset_int; send_to_all_5 3 (bytes3 (slow_voltage u value)) }"

definition set_underfrequency_slow_yc1000_5 :: "string \<Rightarrow> int ecu" where
  "set_underfrequency_slow_yc1000_5 value = do { u \<leftarrow> unset_int; send_to_all_5 6 (two_bytes (period_value u value)) }"

definition set_overfrequency_slow_yc1000_5 :: "string \<Rightarrow> int ecu" where
  "set_overfrequency_slow_yc1000_5 value = do { u \<leftarrow> unset_int; send_to_all_5 8 (two_bytes (period_value u value)) }"

definition set_grid_recovery_time_yc1000_5 :: "string \<Rightarrow> int ecu" where
  "set_grid_recovery_time_yc1000_5 value = do { u \<leftarrow> unset_int; send_to_all_5 10 (two_bytes (plain_value u value)) }"

definition set_undervoltage_slow_yc1000_one_5 :: "int \<Rightarrow> string \<Rightarrow> string \<Rightarrow> int ecu" where
  "set_undervoltage_slow_yc1000_one_5 addr value i = do { u \<leftarrow> unset_int; send_one_5 addr i 0 (bytes3 (slow_voltage u value)) }"

definition set_overvoltage_slow_yc1000_one_5 :: "int \<Rightarrow> string \<Rightarrow> string \<Rightarrow> int ecu" where
  "set_overvoltage_slow_yc1000_one_5 addr value i = do { u \<leftarrow> unset_int; send_one_5 addr i 3 (bytes3 (slow_voltage u value)) }"

definition set_underfrequency_slow_yc1000_one_5 :: "int \<Rightarrow> string \<Rightarrow> string \<Rightarrow> int ecu" where
  "set_underfrequency_slow_yc1000_one_5 addr value i = do { u \<leftarrow> unset_int; send_one_5 addr i 6 (two_bytes (period_value u value)) }"

definition set_overfrequency_slow_yc1000_one_5 :: "int \<Rightarrow> string \<Rightarrow> string \<Rightarrow> int ecu" where
  "set_overfrequency_slow_yc1000_one_5 addr value i = do { u \<leftarrow> unset_int; send_one_5 addr i 8 (two_bytes (period_value u value)) }"

definition set_grid_recovery_time_yc1000_one_5 :: "int \<Rightarrow> string \<Rightarrow> string \<Rightarrow> int ecu" where
  "set_grid_recovery_time_yc1000_one_5 addr value i = do { u \<leftarrow> unset_int; send_one_5 addr i 10 (two_bytes (plain_value u value)) }"

section \<open>Requests for all inverters\<close>

text \<open>The first line with a flag; the rest of a request: its name and value.\<close>

definition flagged :: "nat \<Rightarrow> string \<Rightarrow> bool" where
  "flagged n l = (atoi (fld (splitString (cstr l)) n) = 1)"

definition get_value_flag :: "(string \<times> string) option ecu" where
  "get_value_flag = do {
     f \<leftarrow> read_file path_setpropa;
     ret (case f of None \<Rightarrow> None
       | Some txt \<Rightarrow> map_option (\<lambda>l. (fld (splitString (cstr l)) 0, fld (splitString (cstr l)) 1))
           (find (flagged 2) (fgets_lines 199 txt))) }"

text \<open>The entry is written back without its flag, the value cut to an integer.\<close>

definition cleared_line :: "string \<Rightarrow> string \<Rightarrow> string" where
  "cleared_line para_name l = para_name @ '','' @ fmt_d (atoi (fld (splitString (cstr l)) 1)) @ '',,0'' @ [NL]"

definition clear_flag :: "string \<Rightarrow> int ecu" where
  "clear_flag para_name = do {
     (r, l) \<leftarrow> read_line path_setpropa para_name (length para_name);
     if r = 1 then do {
       delete_line path_setpropa path_setpropa_tmp para_name (length para_name);
       retry 3 (insert_line path_setpropa (cleared_line para_name l));
       ret 0 }
     else ret 0 }"

text \<open>
  100: there is an inverter of unknown model; 10: YC600 only (1: of the first kind only, 2: of
  the second, 9: both), 20: YC1000 only, 90: both.
\<close>

definition get_system_model :: "inverter list \<Rightarrow> int" where
  "get_system_model vs = (let has = (\<lambda>P. \<exists>v \<in> set vs. P v);
     m600 = has (\<lambda>v. model v = 7); m1000 = has (\<lambda>v. model v = 5 \<or> model v = 6);
     bb = has (\<lambda>v. model v = 7 \<and> deputy_model v = 1); b1 = has (\<lambda>v. model v = 7 \<and> deputy_model v = 2) in
     (if has (\<lambda>v. model v = 0) then 100 else 0)
     + (if m600 \<and> \<not> m1000 then 10 + (if bb \<and> \<not> b1 then 1 else if \<not> bb \<and> b1 then 2 else if bb \<and> b1 then 9 else 0)
        else if m1000 \<and> \<not> m600 then 20
        else if m1000 \<and> m600 then 90 else 0))"

definition system_kind :: "int \<Rightarrow> bool \<times> bool \<times> int" where
  "system_kind res = (if res div 100 = 1 \<or> res div 100 = 0 then
       (let r = res mod 100 in
        if r div 10 = 1 then (True, False, r mod 10) else if r div 10 = 2 then (False, True, 0) else (False, False, 0))
     else (False, False, 0))"

text \<open>What the branches of the parameters send; \<open>power_factor\<close> is sent whatever the models.\<close>

definition volt_param :: "bool \<Rightarrow> bool \<Rightarrow> int \<Rightarrow> int ecu \<Rightarrow> byte \<Rightarrow> string \<Rightarrow> unit ecu" where
  "volt_param yc600 yc1000 bb to_1000 cmd value = do {
     u \<leftarrow> unset_int;
     if yc1000 then do { to_1000; ret () }
     else if yc600 \<and> (bb = 1 \<or> bb = 2) then do { set_protection_yc600 cmd (volt_600 u (bb = 2) value) 2; ret () }
     else ret () }"

definition other_param :: "bool \<Rightarrow> bool \<Rightarrow> int ecu \<Rightarrow> byte \<Rightarrow> int \<Rightarrow> nat \<Rightarrow> unit ecu" where
  "other_param yc600 yc1000 to_1000 cmd dat num = (
     if yc600 then do { set_protection_yc600 cmd dat num; ret () }
     else if yc1000 then do { to_1000; ret () }
     else ret ())"

text \<open>Parameters that a YC1000 is sent in more than one frame.\<close>

definition stage_2_frames :: "string \<Rightarrow> int ecu" where
  "stage_2_frames value = do {
     set_undervoltage_slow_yc1000 value;
     set_undervoltage_slow_yc1000_5 value;
     set_under_voltage_stage_3_yc1000 value }"

definition over_voltage_frames :: "string \<Rightarrow> int ecu" where
  "over_voltage_frames value = do { set_overvoltage_slow_yc1000 value; set_overvoltage_slow_yc1000_5 value }"

definition under_frequency_frames :: "string \<Rightarrow> int ecu" where
  "under_frequency_frames value = do { set_underfrequency_slow_yc1000 value; set_underfrequency_slow_yc1000_5 value }"

definition over_frequency_frames :: "string \<Rightarrow> int ecu" where
  "over_frequency_frames value = do { set_overfrequency_slow_yc1000 value; set_overfrequency_slow_yc1000_5 value }"

definition recovery_frames :: "string \<Rightarrow> int ecu" where
  "recovery_frames value = do { set_grid_recovery_time_yc1000 value; set_grid_recovery_time_yc1000_5 value }"

definition relay_param :: "bool \<Rightarrow> int \<Rightarrow> unit ecu" where
  "relay_param yc600 dat = (
     if yc600 \<and> dat = 0 then do { set_protection_yc600 0x3A 0 0; ret () }
     else if yc600 \<and> dat = 1 then do { set_protection_yc600 0x3B 0 0; ret () }
     else ret ())"

definition send_param :: "bool \<Rightarrow> bool \<Rightarrow> int \<Rightarrow> string \<Rightarrow> string \<Rightarrow> int \<Rightarrow> unit ecu" where
  "send_param yc600 yc1000 bb name value u = (
     let volt = (\<lambda>m c. volt_param yc600 yc1000 bb m c value);
         freq = (\<lambda>m c. other_param yc600 yc1000 m c (period_600 u value) 3);
         cent = (\<lambda>m c. other_param yc600 yc1000 m c (centi_value u value) 2) in
     if name = ''under_voltage_fast'' then volt (set_undervoltage_fast_yc1000 value) 0x51
     else if name = ''over_voltage_fast'' then volt (set_overvoltage_fast_yc1000 value) 0x52
     else if name = ''under_voltage_stage_2'' then volt (stage_2_frames value) 0x73
     else if name = ''over_voltage_slow'' then volt (over_voltage_frames value) 0x54
     else if name = ''under_frequency_fast'' then freq (set_underfrequency_fast_yc1000 value) 0x58
     else if name = ''over_frequency_fast'' then freq (set_overfrequency_fast_yc1000 value) 0x57
     else if name = ''under_frequency_slow'' then freq (under_frequency_frames value) 0x5A
     else if name = ''over_frequency_slow'' then freq (over_frequency_frames value) 0x59
     else if name = ''voltage_triptime_fast'' then cent (set_voltage_triptime_fast_yc1000 value) 0x55
     else if name = ''voltage_triptime_slow'' then cent (set_voltage_triptime_slow_yc1000 value) 0x56
     else if name = ''frequency_triptime_fast'' then cent (set_frequency_triptime_fast_yc1000 value) 0x5B
     else if name = ''frequency_triptime_slow'' then cent (set_frequency_triptime_slow_yc1000 value) 0x5C
     else if name = ''grid_recovery_time'' then cent (recovery_frames value) 0x5D
     else if name = ''regulated_dc_working_point'' then
       other_param yc600 yc1000 (set_regulated_dc_working_point_yc1000 value) 0x50 (dc_value u value) 2
     else if name = ''under_voltage_slow'' then volt (set_under_voltage_stage_2_yc1000 value) 0x5E
     else if name = ''voltage_3_clearance_time'' then cent (set_voltage_3_clearance_time_yc1000 value) 0x5F
     else if name = ''start_time'' then cent (set_start_time_yc1000 value) 0x3D
     else if name = ''power_factor'' then do { set_protection_yc600 0x3F (plain_value u value) 1; ret () }
     else if name = ''relay_protect'' then relay_param yc600 (plain_value u value)
     else if name = ''active_antiisland_time'' then
       other_param yc600 yc1000 (set_active_antiisland_time_yc1000 value) 0x4E (volt_600 u True value) 1
     else ret ())"

definition param_names :: "string list" where
  "param_names = [''under_voltage_fast'', ''over_voltage_fast'', ''under_voltage_stage_2'', ''over_voltage_slow'',
     ''under_frequency_fast'', ''over_frequency_fast'', ''under_frequency_slow'', ''over_frequency_slow'',
     ''voltage_triptime_fast'', ''voltage_triptime_slow'', ''frequency_triptime_fast'', ''frequency_triptime_slow'',
     ''grid_recovery_time'', ''regulated_dc_working_point'', ''under_voltage_slow'', ''voltage_3_clearance_time'',
     ''start_time'', ''power_factor'', ''active_antiisland_time'']"

text \<open>The entry \<open>relay_protect\<close> keeps its flag; a name that is not known ends the loop.\<close>

partial_function (option) paras_loop :: "bool \<Rightarrow> bool \<Rightarrow> int \<Rightarrow> int \<Rightarrow> ecu_state \<Rightarrow> (int \<times> ecu_state) option" where
  "paras_loop yc600 yc1000 bb count_sum s = (case result get_value_flag s of
      None \<Rightarrow> Some (count_sum, s)
    | Some (name, value) \<Rightarrow>
        if yc600 \<and> yc1000 then paras_loop yc600 yc1000 bb 0 (exec (clear_flag name) s)
        else if name = ''relay_protect'' then
          paras_loop yc600 yc1000 bb (count_sum + 1) (exec (send_param yc600 yc1000 bb name value (any_int (stale s))) s)
        else if name \<in> set param_names then
          paras_loop yc600 yc1000 bb (count_sum + 1)
            (exec (clear_flag name) (exec (send_param yc600 yc1000 bb name value (any_int (stale s))) s))
        else Some (count_sum + 1, exec (clear_flag name) s))"

definition set_protection_paras :: "ecu_state \<Rightarrow> (int \<times> ecu_state) option" where
  "set_protection_paras s = (case system_kind (get_system_model (table (inverters s))) of
     (yc600, yc1000, bb) \<Rightarrow> paras_loop yc600 yc1000 bb 0 s)"

section \<open>Reading the parameters of an inverter\<close>

definition path_proparas :: string where
  "path_proparas = ''/HOME/DATA/PROPARAS''"

definition path_proparas_tmp :: string where
  "path_proparas_tmp = ''/HOME/DATA/PROPARAS.T''"

text \<open>\<open>float temp\<close> rounded: up from one half (\<open>ge\<close>), or only above it.\<close>

definition round_temp :: "bool \<Rightarrow> rat \<Rightarrow> int" where
  "round_temp ge temp = (let n = to_int temp; d = f32 (temp - f32 (of_int n)) in
     if (if ge then 1 / 2 \<le> d else 1 / 2 < d) then n + 1 else n)"

text \<open>A frequency from its period; of a period 0 the code prints \<open>inf\<close>.\<close>

definition freq_back :: "rat \<Rightarrow> int \<Rightarrow> rat option" where
  "freq_back c n = (if n = 0 then None else Some (f32 (f64 (c / of_int n))))"

definition fmt_freq :: "rat option \<Rightarrow> string" where
  "fmt_freq x = (case x of None \<Rightarrow> ''inf'' | Some y \<Rightarrow> fmt_f 6 y)"

definition tenths :: "int \<Rightarrow> rat option \<Rightarrow> int" where
  "tenths u x = (case x of None \<Rightarrow> u | Some y \<Rightarrow> int_of u (f32 (y * 10)))"

definition hundredths :: "rat \<Rightarrow> int" where
  "hundredths x = to_int (f32 (x * 100))"

definition w16 :: "byte list \<Rightarrow> nat \<Rightarrow> int" where
  "w16 d n = uint (d ! n) * 256 + uint (d ! (n + 1))"

definition w24 :: "byte list \<Rightarrow> nat \<Rightarrow> int" where
  "w24 d n = uint (d ! n) * 65536 + uint (d ! (n + 1)) * 256 + uint (d ! (n + 2))"

text \<open>What the message of type 131 says of an inverter.\<close>

definition five_fields :: "string \<Rightarrow> int \<Rightarrow> int \<Rightarrow> int \<Rightarrow> int \<Rightarrow> int \<Rightarrow> string" where
  "five_fields i uvs ovs ufs ofs recovery = i @ fmt_0d 3 uvs @ fmt_0d 3 ovs @ fmt_0d 3 ufs @ fmt_0d 3 ofs
     @ fmt_0d 5 recovery @ replicate 24 (CHR ''A'')"

definition result_131 :: "string \<Rightarrow> int \<Rightarrow> int \<Rightarrow> int \<Rightarrow> int \<Rightarrow> int \<Rightarrow> int list \<Rightarrow> int list \<Rightarrow> int list \<Rightarrow> string" where
  "result_131 i uvs ovs ufs ofs recovery fast trips rest = five_fields i uvs ovs ufs ofs recovery
     @ concat (map (fmt_0d 3) fast) @ concat (map (fmt_0d 6) trips)
     @ fmt_0d 3 (rest ! 0) @ fmt_0d 3 (rest ! 1) @ fmt_0d 6 (rest ! 2) @ fmt_0d 5 (rest ! 3) @ ''END''"

text \<open>\<open>insert_line\<close>, up to three times, with a second after each failure.\<close>

fun insert_proparas :: "nat \<Rightarrow> string \<Rightarrow> unit ecu" where
  "insert_proparas 0 dat = ret ()"
| "insert_proparas (Suc n) dat = do {
     r \<leftarrow> insert_line path_proparas dat;
     if r = 1 then ret () else do { delay_ms 1000; insert_proparas n dat } }"

definition power_factor_result :: "string \<Rightarrow> int \<Rightarrow> string" where
  "power_factor_result i pf = (if pf = 31 then i @ ''A100END''
     else if pf > 10 then i @ ''A'' @ fmt_0d 3 ((pf - 11) * 10) @ ''END''
     else i @ ''B'' @ fmt_0d 3 ((pf - 1) * 10) @ ''END'')"

text \<open>The line for the file of parameters, the message of type 131, and for a YC600 the power factor.\<close>

definition paras_line :: "string \<Rightarrow> string list \<Rightarrow> string" where
  "paras_line i fs = i @ concat (map (\<lambda>t. '','' @ t) fs) @ [NL]"

definition paras_600 :: "int \<Rightarrow> string \<Rightarrow> byte list \<Rightarrow> string \<times> string \<times> int" where
  "paras_600 u i d = (let
     volt = (\<lambda>n. f32 (f64 (of_int (w16 d n) / f64 (13277 / 10000))));
     cent = (\<lambda>n. f32 (f64 (of_int (w16 d n) / 100)));
     uvf = round_temp True (volt 9); ovf = round_temp True (volt 12);
     st2 = round_temp False (volt 15); ovs = round_temp False (volt 18);
     off = freq_back 50000000 (w24 d 20); uff = freq_back 50000000 (w24 d 23);
     ofs = freq_back 50000000 (w24 d 26); ufs = freq_back 50000000 (w24 d 29);
     vtf = cent 32; ftf = cent 34; vts = cent 36; fts = cent 38; grid = cent 40;
     uvs = round_temp False (volt 42); clear3 = cent 44;
     dc = round_temp False (f32 (f64 (f64 (of_int (w16 d 46) * (825 / 10)) / 4096)));
     start = cent 51; island = f32 (of_int (uint (d ! 53)) * (25 / 10)); relay = of_int (uint (d ! 54));
     pf = uint (d ! 55 AND 0x1F) in
     (paras_line i ([fmt_d uvf, fmt_d ovf, fmt_d uvs, fmt_d ovs] @ map fmt_freq [uff, off, ufs, ofs]
        @ map (fmt_f 6) [vtf, vts, ftf, fts, grid] @ [fmt_d dc, fmt_d st2] @ map (fmt_f 6) [clear3, start]
        @ [fmt_d pf, fmt_f 6 relay, fmt_f 6 island]),
      result_131 i uvs ovs (tenths u ufs) (tenths u ofs) (to_int grid)
        [uvf, ovf, tenths u uff, tenths u off] (map hundredths [vtf, vts, ftf, fts])
        [dc * 10, st2, hundredths clear3, to_int start],
      pf))"

definition resolve_protection_paras_YC600 :: "nat \<Rightarrow> byte list \<Rightarrow> int ecu" where
  "resolve_protection_paras_YC600 k d = do {
     u \<leftarrow> unset_int;
     v \<leftarrow> get_inv k;
     let (l, res, pf) = paras_600 u (inv_id v) d;
     delete_line path_proparas path_proparas_tmp (inv_id v) 12;
     insert_proparas 3 l;
     save_inverter_parameters_result v 131 res;
     save_inverter_parameters_result v 145 (power_factor_result (inv_id v) pf);
     ret 0 }"

definition paras_1000 :: "int \<Rightarrow> string \<Rightarrow> byte list \<Rightarrow> string \<times> string" where
  "paras_1000 u i d = (let
     fast = (\<lambda>n. f32 (of_int (w24 d n div 16500)));
     slow = (\<lambda>n. f32 (f64 (of_int (w24 d n) / volt_unit)));
     cyc = (\<lambda>n. f32 (f64 (of_int (w16 d n) / 50)));
     uvf = round_temp True (fast 8); ovf = round_temp True (fast 11);
     st2 = round_temp False (slow 14); ovs = round_temp False (slow 17);
     uff = freq_back 256000 (w16 d 20); off = freq_back 256000 (w16 d 22);
     ufs = freq_back 256000 (w16 d 24); ofs = freq_back 256000 (w16 d 26);
     vtf = cyc 28; vts = cyc 30; ftf = cyc 32; fts = cyc 34; grid = w16 d 36;
     uvs = round_temp False (slow 38); clear3 = cyc 41;
     dc = round_temp False (f32 (f64 (f64 (of_int (w16 d 43) * (825 / 10)) / 4096)));
     start = w16 d 48; island = f32 (of_int (uint (d ! 50)) * (25 / 10)) in
     (paras_line i ([fmt_d uvf, fmt_d ovf, fmt_d uvs, fmt_d ovs] @ map fmt_freq [uff, off, ufs, ofs]
        @ map (fmt_f 6) [vtf, vts, ftf, fts] @ [fmt_d grid, fmt_d dc, fmt_d st2, fmt_f 6 clear3, fmt_d start]
        @ [[], [], fmt_f 6 island]),
      result_131 i uvs ovs (tenths u ufs) (tenths u ofs) grid
        [uvf, ovf, tenths u uff, tenths u off] (map hundredths [vtf, vts, ftf, fts])
        [dc * 10, st2, hundredths clear3, start]))"

definition resolve_protection_paras_YC1000 :: "nat \<Rightarrow> byte list \<Rightarrow> int ecu" where
  "resolve_protection_paras_YC1000 k d = do {
     u \<leftarrow> unset_int;
     v \<leftarrow> get_inv k;
     let (l, res) = paras_1000 u (inv_id v) d;
     delete_line path_proparas path_proparas_tmp (inv_id v) 12;
     insert_proparas 3 l;
     save_inverter_parameters_result v 131 res;
     ret 0 }"

text \<open>Five parameters. The entry is not deleted first, and its text ends with a parenthesis after the newline.\<close>

definition paras_5 :: "int \<Rightarrow> string \<Rightarrow> byte list \<Rightarrow> string \<times> string" where
  "paras_5 u i d = (let
     volt = (\<lambda>n. to_int (f64 (f32 (f64 (of_int (w24 d n) / volt_unit)) + 1 / 2)));
     ufs = freq_back 256000 (w16 d 13); ofs = freq_back 256000 (w16 d 15); grid = w16 d 17 in
     (i @ '',,,,'' @ fmt_d (volt 7) @ '','' @ fmt_d (volt 10) @ '',,,'' @ fmt_freq ufs @ '',''
        @ fmt_freq ofs @ '',,,,,'' @ fmt_d grid @ '',,,,,,,'' @ [NL] @ '')'',
      five_fields i (volt 7) (volt 10) (tenths u ufs) (tenths u ofs) grid @ replicate 53 (CHR ''A'') @ ''END''))"

definition resolve_protection_paras5 :: "nat \<Rightarrow> byte list \<Rightarrow> int ecu" where
  "resolve_protection_paras5 k d = do {
     u \<leftarrow> unset_int;
     v \<leftarrow> get_inv k;
     let (l, res) = paras_5 u (inv_id v) d;
     insert_proparas 3 l;
     save_inverter_parameters_result v 131 res;
     ret 0 }"

definition get_parameters_from_inverter :: "nat \<Rightarrow> int ecu" where
  "get_parameters_from_inverter k = do {
     clear_zbmodem;
     zb_send_cmd k (chk_payload [0x06, 0xDD, 0, 0, 0, 0, 0]);
     r \<leftarrow> zb_get_reply k;
     v \<leftarrow> get_inv k;
     let d = snd r;
     if fst r = 33 \<and> d ! 0 = 0xFB \<and> d ! 1 = 0xFB \<and> d ! 3 = 0xDD \<and> d ! 31 = 0xFE \<and> d ! 32 = 0xFE
     then do { resolve_protection_paras5 k d; ret 0 }
     else if fst r = 58 \<and> d ! 0 = 0xFB \<and> d ! 1 = 0xFB \<and> d ! 3 = 0xDA \<and> d ! 56 = 0xFE \<and> d ! 57 = 0xFE
     then do {
       (if model v = 5 \<or> model v = 6 then do { resolve_protection_paras_YC1000 k d; ret () }
        else if model v = 7 then do { resolve_protection_paras_YC600 k d; ret () } else ret ());
       ret 0 }
     else ret (-1) }"

text \<open>Up to three attempts.\<close>

definition read_one :: "nat \<Rightarrow> unit ecu" where
  "read_one k = do {
     retry 3 (do { r \<leftarrow> get_parameters_from_inverter k; ret (if r = 0 then 1 else 0) });
     ret () }"

definition read_protection_parameters :: "int ecu" where
  "read_protection_parameters = do { for_each_inverter read_one; ret 0 }"

text \<open>
  The buffer that \<open>fgets\<close> does not fill, and the flag that no digit sets, hold what they held.
\<close>

definition presdata_flag :: "indeterminate \<Rightarrow> string \<Rightarrow> int" where
  "presdata_flag junk txt = (let b = (case fgets_lines 254 txt of [] \<Rightarrow> any_row junk 0 | l # _ \<Rightarrow> cstr l) in
     if b = [] then 0 else if hd b = CHR ''0'' then 0 else if hd b = CHR ''1'' then 1
     else if hd b = CHR ''2'' then 2 else any_int junk)"

definition answer_presdata :: "unit ecu" where
  "answer_presdata = do {
     f \<leftarrow> read_file path_presdata;
     junk \<leftarrow> gets stale;
     (case f of None \<Rightarrow> ret ()
      | Some txt \<Rightarrow> if presdata_flag junk txt = 2
          then do { read_protection_parameters; write_file path_presdata ''0''; ret () } else ret ()) }"

definition set_protection_parameters :: "ecu_state \<Rightarrow> ecu_state option" where
  "set_protection_parameters s = (case set_protection_paras (exec (emit MutexTake) s) of
      None \<Rightarrow> None
    | Some (n, t) \<Rightarrow> Some (exec (do {
        (if n > 0 then do { read_protection_parameters; ret () } else ret ());
        answer_presdata;
        emit MutexRelease }) t))"

end
