(* ===== verification/Protection_One.thy ===== *)
theory Protection_One
  imports Protection_Setting Ac_Protection
begin

text \<open>
  Protection parameters for single inverters
  (\<open>ECU/main/src/set_protection_parameters_inverter.c\<close>): the requests of the file \<open>setpropi\<close>,
  one line for an inverter and a name.
\<close>

definition path_setpropi_tmp :: string where
  "path_setpropi_tmp = ''/HOME/DATA/SETPROPI.T''"

text \<open>The address of the inverter of the first line with a flag; -1: there is none, 0: no such inverter.\<close>

definition get_value_flag_one :: "(int \<times> string \<times> string \<times> string) ecu" where
  "get_value_flag_one = do {
     f \<leftarrow> read_file path_setpropi;
     vs \<leftarrow> gets inverters;
     ret (case Option.bind f (\<lambda>txt. find (flagged 3) (fgets_lines 199 txt)) of
        None \<Rightarrow> (-1, [], [], [])
      | Some l \<Rightarrow> let fs = splitString (cstr l) in
          (case find (\<lambda>v. inv_id v = fld fs 0) (table vs) of None \<Rightarrow> 0 | Some v \<Rightarrow> uint (shortaddr v),
           fld fs 0, fld fs 1, fld fs 2)) }"

definition clear_flag_one :: "string \<Rightarrow> string \<Rightarrow> int ecu" where
  "clear_flag_one i para_name = (let k = i @ '','' @ para_name in do {
     delete_line path_setpropi path_setpropi_tmp k (length k);
     ret 0 })"

section \<open>The frames for a parameter\<close>

text \<open>
  The result says whether the entry is deleted. It stays when the code of the voltages of a
  YC600 is not known yet (\<open>deputy_model\<close> 0), for a \<open>power_factor\<close>, and for the
  \<open>relay_protect\<close> of another model.
\<close>

definition volt_one :: "inverter \<Rightarrow> int ecu \<Rightarrow> byte \<Rightarrow> string \<Rightarrow> bool ecu" where
  "volt_one v to_1000 cmd value = do {
     u \<leftarrow> unset_int;
     if model v = 7 then
       (if deputy_model v = 0 then ret False
        else do { set_protection_yc600_one (uint (shortaddr v)) cmd (volt_600 u (deputy_model v = 2) value) 2; ret True })
     else do { to_1000; ret True } }"

definition other_one :: "inverter \<Rightarrow> int ecu \<Rightarrow> byte \<Rightarrow> int \<Rightarrow> nat \<Rightarrow> bool ecu" where
  "other_one v to_1000 cmd dat num = do {
     (if model v = 7 then set_protection_yc600_one (uint (shortaddr v)) cmd dat num else to_1000);
     ret True }"

definition stage_2_frames_one :: "int \<Rightarrow> string \<Rightarrow> string \<Rightarrow> int ecu" where
  "stage_2_frames_one addr value i = do {
     set_undervoltage_slow_yc1000_one addr value;
     set_undervoltage_slow_yc1000_one_5 addr value i;
     set_under_voltage_stage_3_yc1000_one addr value }"

definition over_voltage_frames_one :: "int \<Rightarrow> string \<Rightarrow> string \<Rightarrow> int ecu" where
  "over_voltage_frames_one addr value i = do {
     set_overvoltage_slow_yc1000_one addr value;
     set_overvoltage_slow_yc1000_one_5 addr value i }"

definition under_frequency_frames_one :: "int \<Rightarrow> string \<Rightarrow> string \<Rightarrow> int ecu" where
  "under_frequency_frames_one addr value i = do {
     set_underfrequency_slow_yc1000_one addr value;
     set_underfrequency_slow_yc1000_one_5 addr value i }"

definition over_frequency_frames_one :: "int \<Rightarrow> string \<Rightarrow> string \<Rightarrow> int ecu" where
  "over_frequency_frames_one addr value i = do {
     set_overfrequency_slow_yc1000_one addr value;
     set_overfrequency_slow_yc1000_one_5 addr value i }"

definition recovery_frames_one :: "int \<Rightarrow> string \<Rightarrow> string \<Rightarrow> int ecu" where
  "recovery_frames_one addr value i = do {
     set_grid_recovery_time_yc1000_one addr value;
     set_grid_recovery_time_yc1000_one_5 addr value i }"

definition factor_one :: "inverter \<Rightarrow> int \<Rightarrow> bool ecu" where
  "factor_one v dat = do {
     (if model v = 7 then set_protection_yc600_one (uint (shortaddr v)) 0x4F dat 1 else ret 0);
     ret False }"

definition relay_one :: "inverter \<Rightarrow> int \<Rightarrow> bool ecu" where
  "relay_one v dat = (if model v = 7 then do {
       (if dat = 0 then set_protection_yc600_one (uint (shortaddr v)) 0x4A 0 0
        else if dat = 1 then set_protection_yc600_one (uint (shortaddr v)) 0x4B 0 0
        else ret 0);
       ret True }
     else ret False)"

definition send_param_one :: "inverter \<Rightarrow> string \<Rightarrow> string \<Rightarrow> string \<Rightarrow> int \<Rightarrow> bool ecu" where
  "send_param_one v i name value u = (
     let a = uint (shortaddr v);
         volt = (\<lambda>m c. volt_one v m c value);
         freq = (\<lambda>m c. other_one v m c (period_600 u value) 3);
         cent = (\<lambda>m c. other_one v m c (centi_value u value) 2) in
     if name = ''under_voltage_fast'' then volt (set_undervoltage_fast_yc1000_one a value) 0x61
     else if name = ''over_voltage_fast'' then volt (set_overvoltage_fast_yc1000_one a value) 0x62
     else if name = ''under_voltage_stage_2'' then volt (stage_2_frames_one a value i) 0x83
     else if name = ''over_voltage_slow'' then volt (over_voltage_frames_one a value i) 0x64
     else if name = ''under_frequency_fast'' then freq (set_underfrequency_fast_yc1000_one a value) 0x68
     else if name = ''over_frequency_fast'' then freq (set_overfrequency_fast_yc1000_one a value) 0x67
     else if name = ''under_frequency_slow'' then freq (under_frequency_frames_one a value i) 0x6A
     else if name = ''over_frequency_slow'' then freq (over_frequency_frames_one a value i) 0x69
     else if name = ''voltage_triptime_fast'' then cent (set_voltage_triptime_fast_yc1000_one a value) 0x65
     else if name = ''voltage_triptime_slow'' then cent (set_voltage_triptime_slow_yc1000_one a value) 0x66
     else if name = ''frequency_triptime_fast'' then cent (set_frequency_triptime_fast_yc1000_one a value) 0x6B
     else if name = ''frequency_triptime_slow'' then cent (set_frequency_triptime_slow_yc1000_one a value) 0x6C
     else if name = ''grid_recovery_time'' then cent (recovery_frames_one a value i) 0x6D
     else if name = ''regulated_dc_working_point'' then
       other_one v (set_regulated_dc_working_point_yc1000_one a value) 0x60 (dc_value u value) 2
     else if name = ''under_voltage_slow'' then volt (set_under_voltage_stage_2_yc1000_one a value) 0x6E
     else if name = ''voltage_3_clearance_time'' then cent (set_voltage_3_clearance_time_yc1000_one a value) 0x6F
     else if name = ''start_time'' then cent (set_start_time_yc1000_one a value) 0x4D
     else if name = ''active_antiisland_time'' then
       other_one v (set_active_antiisland_time_yc1000_one a value) 0x3E (island_value u value) 1
     else if name = ''power_factor'' then factor_one v (plain_value u value)
     else if name = ''relay_protect'' then relay_one v (plain_value u value)
     else ret True)"

section \<open>The loop over the requests\<close>

text \<open>
  The first inverter whose id the request starts with. Nothing is sent and the entry stays
  for an inverter of another model than 5, 6 and 7.
\<close>

definition serve_one :: "string \<Rightarrow> string \<Rightarrow> string \<Rightarrow> unit ecu" where
  "serve_one i name value = do {
     vs \<leftarrow> gets inverters;
     u \<leftarrow> unset_int;
     (case find (\<lambda>k. memeq i (inv_id (slot vs k)) 12) [0..<length (table vs)] of
        None \<Rightarrow> ret ()
      | Some k \<Rightarrow> do {
          upd_inv k (\<lambda>v. v\<lparr>paras_one_flag := 1\<rparr>);
          v \<leftarrow> get_inv k;
          if 0 < shortaddr v \<and> (model v = 5 \<or> model v = 6 \<or> model v = 7) then do {
            sent \<leftarrow> send_param_one v i name value u;
            if sent then do { clear_flag_one i name; ret () } else ret () }
          else ret () }) }"

text \<open>The loop reads the file again after each entry; an entry that stays keeps it running.\<close>

partial_function (option) paras_one_loop :: "ecu_state \<Rightarrow> ecu_state option" where
  "paras_one_loop s = (case result get_value_flag_one s of (addr, i, name, value) \<Rightarrow>
      if addr = -1 then Some s
      else if addr = 0 then paras_one_loop (exec (clear_flag_one i name) s)
      else paras_one_loop (exec (serve_one i name value) s))"

definition read_served :: "nat \<Rightarrow> unit ecu" where
  "read_served k = do {
     v \<leftarrow> get_inv k;
     if paras_one_flag v = 1 then read_one k else ret () }"

definition set_protection_paras_one :: "ecu_state \<Rightarrow> ecu_state option" where
  "set_protection_paras_one s = map_option (exec (for_each_inverter read_served))
     (paras_one_loop (exec (for_each_inverter (\<lambda>k. upd_inv k (\<lambda>v. v\<lparr>paras_one_flag := 0\<rparr>))) s))"

definition set_protection_parameters_inverter_one :: "ecu_state \<Rightarrow> ecu_state option" where
  "set_protection_parameters_inverter_one s =
     map_option (exec (emit MutexRelease)) (set_protection_paras_one (exec (emit MutexTake) s))"

text \<open>For one inverter alone; nothing calls it.\<close>

definition read_protection_parameters_one :: "string \<Rightarrow> int ecu" where
  "read_protection_parameters_one i = do {
     for_each_inverter (\<lambda>k. do { v \<leftarrow> get_inv k; if inv_id v = i then read_one k else ret () });
     ret 0 }"

end
