(* ===== verification/Request_Loop.thy ===== *)
theory Request_Loop
  imports Protection_One Protection_Spec
begin

text \<open>
  The loops that serve the requests of the files \<open>setpropa\<close> and \<open>setpropi\<close>: which requests they
  serve, in which order, what they leave in the file, and when they do not end. \<open>request_loop\<close>
  is the argument both loops share.
\<close>

section \<open>Loops over pending requests\<close>

text \<open>
  Each round takes the first pending request. A request that is stuck stays the first one, so
  the loop never ends.
\<close>

locale request_loop =
  fixes loop :: "'s \<Rightarrow> 'b option"
    and ready :: "'s \<Rightarrow> bool"
    and pending :: "'s \<Rightarrow> 'r list"
    and stuck :: "'r \<Rightarrow> bool"
    and serve :: "'r \<Rightarrow> 's \<Rightarrow> 's"
    and finish :: "'s \<Rightarrow> 'b"
  assumes idle: "ready s \<Longrightarrow> pending s = [] \<Longrightarrow> loop s = Some (finish s)"
    and turn: "ready s \<Longrightarrow> pending s = r # rs \<Longrightarrow> \<not> stuck r \<Longrightarrow>
      loop s = loop (serve r s) \<and> ready (serve r s) \<and> pending (serve r s) = rs"
    and hang: "ready s \<Longrightarrow> pending s = r # rs \<Longrightarrow> stuck r \<Longrightarrow> loop s = None"
begin

lemma loop_serves:
  "ready s \<Longrightarrow> loop s = (if \<exists>r \<in> set (pending s). stuck r then None
     else Some (finish (fold serve (pending s) s)))"
proof (induction "pending s" arbitrary: s)
  case Nil
  then show ?case using idle[of s] by (metis empty_iff empty_set fold_simps(1))
next
  case (Cons r rs)
  show ?case
  proof (cases "stuck r")
    case True
    then show ?thesis using Cons.hyps(2)[symmetric] hang[OF Cons.prems] by simp
  next
    case False
    with turn[OF Cons.prems Cons.hyps(2)[symmetric]]
    have t: "loop s = loop (serve r s)" "ready (serve r s)" "pending (serve r s) = rs" by auto
    then show ?thesis using Cons.hyps(1)[of "serve r s"] Cons.hyps(2)[symmetric] False by simp
  qed
qed

lemma loop_ends_iff: "ready s \<Longrightarrow> (\<exists>t. loop s = Some t) \<longleftrightarrow> (\<forall>r \<in> set (pending s). \<not> stuck r)"
  using loop_serves[of s] by auto

lemma nothing_left: "ready s \<Longrightarrow> \<forall>r \<in> set (pending s). \<not> stuck r \<Longrightarrow> pending (fold serve (pending s) s) = []"
proof (induction "pending s" arbitrary: s)
  case (Cons r rs)
  have n: "\<not> stuck r" using Cons.prems(2) Cons.hyps(2)[symmetric] by simp
  have t: "ready (serve r s)" "pending (serve r s) = rs"
    using turn[OF Cons.prems(1) Cons.hyps(2)[symmetric] n] by auto
  have "pending (fold serve (pending (serve r s)) (serve r s)) = []"
    using Cons.hyps(1)[of "serve r s"] t Cons.prems(2) Cons.hyps(2)[symmetric] by simp
  then show ?case using t(2) Cons.hyps(2)[symmetric] by simp
qed simp

text \<open>What every round keeps holds at the end.\<close>

lemma serve_invariant:
  assumes "\<And>s r rs. ready s \<Longrightarrow> pending s = r # rs \<Longrightarrow> \<not> stuck r \<Longrightarrow> P (serve r s) = P s"
    and "ready s" "\<forall>r \<in> set (pending s). \<not> stuck r"
  shows "P (fold serve (pending s) s) = P s"
  using assms(2,3)
proof (induction "pending s" arbitrary: s)
  case (Cons r rs)
  have n: "\<not> stuck r" using Cons.prems(2) Cons.hyps(2)[symmetric] by simp
  have t: "ready (serve r s)" "pending (serve r s) = rs"
    using turn[OF Cons.prems(1) Cons.hyps(2)[symmetric] n] by auto
  have "P (fold serve (pending (serve r s)) (serve r s)) = P (serve r s)"
    using Cons.hyps(1)[of "serve r s"] t Cons.prems(2) Cons.hyps(2)[symmetric] by simp
  moreover have "P (serve r s) = P s" using Cons.prems(1) Cons.hyps(2)[symmetric] n by (rule assms(1))
  moreover have "fold serve (pending s) s = fold serve rs (serve r s)" using Cons.hyps(2)[symmetric] by simp
  ultimately show ?case using t(2) by simp
qed simp

end

section \<open>Lines by their first fields\<close>

abbreviation line_field :: "nat \<Rightarrow> string \<Rightarrow> string" where
  "line_field n l \<equiv> fld (splitString l) n"

lemma split_first: "2 \<le> length (splitString l) \<Longrightarrow> \<exists>r. l = line_field 0 l @ CHR '','' # r"
proof (induction l)
  case (Cons c cs)
  show ?case
  proof (cases "c = CHR '',''")
    case True
    then show ?thesis by (simp add: fld_def)
  next
    case False
    obtain f fs where f: "splitString cs = f # fs" by (cases "splitString cs") auto
    with Cons.prems False have "2 \<le> length (splitString cs)" by simp
    with Cons.IH f obtain r where "cs = f @ CHR '','' # r" by (auto simp: fld_def)
    then show ?thesis using False f by (auto simp: fld_def)
  qed
qed simp

section \<open>Programs that only send\<close>

text \<open>What a program sends, with the indeterminate values \<open>junk\<close>.\<close>

definition sends_of :: "'a ecu \<Rightarrow> indeterminate \<Rightarrow> io list" where
  "sends_of m junk = trace (exec m (blank\<lparr>stale := junk\<rparr>))"

definition only_sends :: "'a ecu \<Rightarrow> bool" where
  "only_sends m = (\<forall>s. exec m s = s\<lparr>trace := trace s @ sends_of m (stale s)\<rparr>)"

named_theorems sends_intros

lemma only_sendsI: "(\<And>s. exec m s = s\<lparr>trace := trace s @ f (stale s)\<rparr>) \<Longrightarrow> only_sends m"
  by (simp add: only_sends_def sends_of_def)

lemma only_sends_simp: "only_sends m \<Longrightarrow> exec m s = s\<lparr>trace := trace s @ sends_of m (stale s)\<rparr>"
  by (simp add: only_sends_def)

lemma sends_ret [sends_intros]: "only_sends (ret x)"
  by (rule only_sendsI[of _ "\<lambda>_. []"]) simp

lemma sends_emit [sends_intros]: "only_sends (emit e)"
  by (rule only_sendsI[of _ "\<lambda>_. [e]"]) (simp add: emit_def)

lemma sends_write [sends_intros]: "only_sends (zb_write bs)"
  by (simp add: zb_write_def sends_emit)

lemma sends_delay [sends_intros]: "only_sends (delay_ms n)"
  by (simp add: delay_ms_def sends_emit)

lemma sends_then [sends_intros]: "only_sends m \<Longrightarrow> only_sends m' \<Longrightarrow> only_sends (do { m; m' })"
  by (rule only_sendsI[of _ "\<lambda>j. sends_of m j @ sends_of m' j"]) (simp add: exec_bind only_sends_simp del: run_state_bind)

lemma sends_unset [sends_intros]: "(\<And>u. only_sends (f u)) \<Longrightarrow> only_sends (unset_int \<bind> f)"
  by (rule only_sendsI[of _ "\<lambda>j. sends_of (f (any_int j)) j"]) (simp add: unset_int_def only_sends_simp)

lemma sends_if [sends_intros]: "only_sends m \<Longrightarrow> only_sends m' \<Longrightarrow> only_sends (if b then m else m')"
  by simp

lemma sends_broadcast [sends_intros]: "only_sends (zb_broadcast_cmd bs)"
  by (auto simp: zb_broadcast_cmd_def intro!: sends_intros)

lemma sends_shortaddr [sends_intros]: "only_sends (zb_shortaddr_cmd a bs)"
  by (auto simp: zb_shortaddr_cmd_def Let_def intro!: sends_intros)

lemma sends_all [sends_intros]: "only_sends (send_to_all cmd bs)" "only_sends (send_one a cmd bs)"
  by (auto simp: send_to_all_def send_one_def intro!: sends_intros)

text \<open>The other four parameters of a frame are sent as 0, whatever is set.\<close>

lemma five_parameters_blank: "run_state (read_protection_parameters_5 (replicate 16 NUL)) s = (five_bytes 0 0 0 0 0, s)"
proof -
  have f: "splitString (cstr (replicate 16 NUL)) = [[]]" by (simp add: cstr_def)
  have "foldl (\<lambda>p l. five_line u (splitString (cstr (replicate 16 NUL))) p) (0, 0, 0, 0, 0) ls = (0, 0, 0, 0, 0)" for u and ls :: "string list"
    unfolding f by (induction ls) (simp_all add: five_line_def fld_def Let_def)
  then show ?thesis
    by (simp add: read_protection_parameters_5_def unset_int_def read_file_def split: option.splits)
qed

lemma sends_five [sends_intros]: "only_sends (send_to_all_5 pos new)" "only_sends (send_one_5 a i pos new)"
proof -
  have "send_to_all_5 pos new = do { zb_broadcast_cmd (chk_payload ([0x10, 0xAC] @ put_at pos new (five_bytes 0 0 0 0 0))); delay_ms 10000; ret 0 }"
    unfolding send_to_all_5_def by (rule state.expand) (simp add: fun_eq_iff five_parameters_blank)
  then show "only_sends (send_to_all_5 pos new)" by (simp add: sends_intros)
  show "only_sends (send_one_5 a i pos new)"
    by (auto simp: send_one_5_def read_protection_parameters_one_5_def intro!: sends_intros)
qed

lemma sends_600 [sends_intros]: "only_sends (set_protection_yc600 c d n)" "only_sends (set_protection_yc600_one a c d n)"
  by (simp_all add: set_protection_yc600_def set_protection_yc600_one_def sends_intros)

lemmas all_1000 = set_regulated_dc_working_point_yc1000_def set_undervoltage_slow_yc1000_def
  set_overvoltage_slow_yc1000_def set_overvoltage_fast_yc1000_def set_undervoltage_fast_yc1000_def
  set_underfrequency_fast_yc1000_def set_overfrequency_fast_yc1000_def set_underfrequency_slow_yc1000_def
  set_overfrequency_slow_yc1000_def set_voltage_triptime_fast_yc1000_def set_voltage_triptime_slow_yc1000_def
  set_frequency_triptime_fast_yc1000_def set_frequency_triptime_slow_yc1000_def
  set_grid_recovery_time_yc1000_def set_under_voltage_stage_2_yc1000_def
  set_voltage_3_clearance_time_yc1000_def set_start_time_yc1000_def set_active_antiisland_time_yc1000_def
  set_under_voltage_stage_3_yc1000_def set_undervoltage_slow_yc1000_5_def set_overvoltage_slow_yc1000_5_def
  set_underfrequency_slow_yc1000_5_def set_overfrequency_slow_yc1000_5_def set_grid_recovery_time_yc1000_5_def

lemmas frame_groups = stage_2_frames_def over_voltage_frames_def under_frequency_frames_def
  over_frequency_frames_def recovery_frames_def

lemma sends_volt [sends_intros]: "only_sends m \<Longrightarrow> only_sends (volt_param y6 y10 bb m c v)"
  by (auto simp: volt_param_def intro!: sends_intros)

lemma sends_other [sends_intros]: "only_sends m \<Longrightarrow> only_sends (other_param y6 y10 m c d n)"
  by (auto simp: other_param_def intro!: sends_intros)

lemma sends_relay [sends_intros]: "only_sends (relay_param y6 d)"
  by (auto simp: relay_param_def intro!: sends_intros)

lemma sends_param: "only_sends (send_param y6 y10 bb name value u)"
  unfolding send_param_def Let_def all_1000 frame_groups by (intro sends_intros)

section \<open>The requests for all inverters\<close>

text \<open>A line of \<open>setpropa\<close>: the name of a parameter, a value that is not too long, and more fields.\<close>

definition all_names :: "string list" where
  "all_names = ''relay_protect'' # param_names"

definition settings_ok :: "string list \<Rightarrow> bool" where
  "settings_ok ls = ((\<forall>l \<in> set ls. short_line l \<and> 2 \<le> length (splitString l) \<and> line_field 0 l \<in> set all_names
       \<and> (flagged 2 l \<longrightarrow> length (line_field 1 l) \<le> 40))
     \<and> distinct (map (line_field 0) ls))"

lemma all_names_facts:
  "n \<in> set all_names \<Longrightarrow> plain n \<and> length n \<le> 30"
  "n \<in> set all_names \<Longrightarrow> m \<in> set all_names \<Longrightarrow> take (length n) m = n \<Longrightarrow> m = n"
proof -
  have "\<forall>n \<in> set all_names. list_all plain_char n \<and> length n \<le> 30" by code_simp
  then show "n \<in> set all_names \<Longrightarrow> plain n \<and> length n \<le> 30" by (simp add: plain_def list_all_iff)
  have "\<forall>n \<in> set all_names. \<forall>m \<in> set all_names. take (length n) m = n \<longrightarrow> m = n" by code_simp
  then show "n \<in> set all_names \<Longrightarrow> m \<in> set all_names \<Longrightarrow> take (length n) m = n \<Longrightarrow> m = n" by blast
qed

lemma names_no_nul: "n \<in> set all_names \<Longrightarrow> no_nul n"
  using all_names_facts(1) by (auto simp: plain_def plain_char_def no_nul_def)

text \<open>A line starts with a name only when that is its first field.\<close>

lemma prefix_is_field:
  assumes "2 \<le> length (splitString l)" "line_field 0 l \<in> set all_names" "n \<in> set all_names"
  shows "take (length n) l = n \<longleftrightarrow> line_field 0 l = n"
proof
  obtain r where r: "l = line_field 0 l @ CHR '','' # r" using split_first[OF assms(1)] by blast
  show "take (length n) l = n" if "line_field 0 l = n" using that by (subst r) simp
  assume t: "take (length n) l = n"
  show "line_field 0 l = n"
  proof (cases "length n \<le> length (line_field 0 l)")
    case True
    then have "take (length n) (line_field 0 l) = n" using t by (subst (asm) r) simp
    then show ?thesis using all_names_facts(2)[OF assms(3,2)] by simp
  next
    case False
    then have "n ! length (line_field 0 l) = l ! length (line_field 0 l)" using t by (metis not_le nth_take)
    also have "\<dots> = CHR '',''" by (subst r) simp
    finally have "CHR '','' \<in> set n" using False by (metis not_le nth_mem)
    then show ?thesis using all_names_facts(1)[OF assms(3)] plain_no_comma by blast
  qed
qed

lemma length_atoi: "length (fmt_d (atoi f)) \<le> length f + 2"
proof -
  have tw: "int (digits_val 0 (takeWhile is_digit cs)) < 10 ^ Suc (length cs)" for cs
  proof -
    have "digits_val 0 (takeWhile is_digit cs) < 10 ^ length (takeWhile is_digit cs)"
      by (rule digits_val_bound) (auto dest: set_takeWhileD)
    also have "\<dots> \<le> 10 ^ Suc (length cs)"
      by (rule power_increasing) (auto simp: length_takeWhile_le le_SucI)
    finally show ?thesis by (metis of_nat_less_iff of_nat_numeral of_nat_power)
  qed
  define d where "d = dropWhile is_space f"
  have "length d \<le> length f" by (simp add: d_def length_dropWhile_le)
  moreover have "\<bar>atoi f\<bar> < 10 ^ Suc (length d)"
  proof (cases d)
    case (Cons c cs)
    have "int (digits_val 0 (takeWhile is_digit cs)) < 10 ^ Suc (length d)"
      using tw[of cs] power_increasing[of "Suc (length cs)" "Suc (length d)" "10::int"] Cons by simp
    then show ?thesis using tw[of d] Cons by (simp add: atoi_def d_def[symmetric])
  qed (simp add: atoi_def d_def[symmetric])
  then have "length (fmt_d (atoi f)) \<le> Suc (length d) + 1" by (rule length_fmt_d) simp
  ultimately show ?thesis by simp
qed

lemma cleared_line_facts:
  assumes "n \<in> set all_names" "short_line l" "length (line_field 1 l) \<le> 40"
  shows "short_line (cleared_line n l)" "2 \<le> length (splitString (cleared_line n l))"
    "line_field 0 (cleared_line n l) = n" "\<not> flagged 2 (cleared_line n l)"
proof -
  have c: "cstr l = l" using assms(2) by (simp add: short_line_def)
  let ?v = "fmt_d (atoi (line_field 1 l))"
  have n: "plain n" "length n \<le> 30" using all_names_facts(1)[OF assms(1)] by auto
  have v: "plain ?v" using fmt_d_plain by (simp add: plain_def)
  have s: "splitString (cleared_line n l) = [n, ?v, [], ''0'' @ [NL]]"
    using plain_no_comma[OF n(1)] by (simp add: cleared_line_def c NL_def)
  have "is_line ((n @ '','' @ ?v @ '',,0'') @ [NL])"
    using n(1) v by (intro is_lineI) (auto simp: NL_def NUL_def dest!: plain_line)
  moreover have "length (cleared_line n l) \<le> 99"
    using n(2) length_atoi[of "line_field 1 l"] assms(3) by (simp add: cleared_line_def c)
  ultimately show l: "short_line (cleared_line n l)" by (simp add: short_line_def cleared_line_def c)
  show "2 \<le> length (splitString (cleared_line n l))" "line_field 0 (cleared_line n l) = n" by (simp_all add: s fld_def)
  have "cstr (cleared_line n l) = cleared_line n l" using l by (simp add: short_line_def)
  then show "\<not> flagged 2 (cleared_line n l)" by (simp add: flagged_def s fld_def)
qed

text \<open>What \<open>clear_flag\<close> makes of the file.\<close>

lemma settings_line:
  assumes "store_ok path_setpropa path_setpropa_tmp s" "settings_ok (store_lines path_setpropa s)"
    and "l \<in> set (store_lines path_setpropa s)"
  shows "short_line l" "2 \<le> length (splitString l)" "line_field 0 l \<in> set all_names"
    "flagged 2 l \<Longrightarrow> length (line_field 1 l) \<le> 40"
  using assms by (auto simp: settings_ok_def)

lemma unique_prefix:
  assumes "settings_ok ls" "l \<in> set ls" "l' \<in> set ls"
  shows "take (length (line_field 0 l)) l' = line_field 0 l \<longleftrightarrow> l' = l"
proof -
  have "take (length (line_field 0 l)) l' = line_field 0 l \<longleftrightarrow> line_field 0 l' = line_field 0 l"
    using assms by (intro prefix_is_field) (auto simp: settings_ok_def)
  also have "\<dots> \<longleftrightarrow> l' = l" using assms by (auto simp: settings_ok_def distinct_map dest: inj_onD)
  finally show ?thesis .
qed

lemma find_the_line:
  assumes "settings_ok ls" "l \<in> set ls"
  shows "find (\<lambda>x. memeq x (line_field 0 l) (length (line_field 0 l))) ls = Some l"
proof -
  have "no_nul (line_field 0 l)" using assms names_no_nul by (auto simp: settings_ok_def)
  then have "find (\<lambda>x. memeq x (line_field 0 l) (length (line_field 0 l))) ls = find (\<lambda>x. x = l) ls"
    using unique_prefix[OF assms] by (intro find_cong) (auto simp: memeq_prefix)
  also have "\<dots> = Some l" using assms(2) by (induction ls) auto
  finally show ?thesis .
qed

lemma clear_flag_effect:
  assumes "store_ok path_setpropa path_setpropa_tmp s" "settings_ok (store_lines path_setpropa s)"
    and "l \<in> set (store_lines path_setpropa s)" "flagged 2 l"
  defines "t \<equiv> exec (clear_flag (line_field 0 l)) s"
  shows "store_ok path_setpropa path_setpropa_tmp t"
    "store_lines path_setpropa t
      = filter (\<lambda>x. x \<noteq> l) (store_lines path_setpropa s) @ [cleared_line (line_field 0 l) l]"
    "trace t = trace s" "stale t = stale s" "inverters t = inverters s"
proof -
  let ?n = "line_field 0 l" and ?ls = "store_lines path_setpropa s"
  note l = settings_line[OF assms(1-3)]
  have n: "no_nul ?n" using l(3) by (rule names_no_nul)
  obtain content where f: "files s path_setpropa = Some content" "fgets_lines 99 content = ?ls"
    using assms(1) by (auto simp: store_ok_def store_lines_def split: option.splits)
  have r: "run_state (read_line path_setpropa ?n (length ?n)) s = ((1, l), s)"
    using f find_the_line[OF assms(2,3)] by (simp add: read_line_def read_file_def)
  define s1 where "s1 = exec (delete_line path_setpropa path_setpropa_tmp ?n (length ?n)) s"
  note d = store_after_delete[OF assms(1) n, folded s1_def]
  have fl: "filter (\<lambda>x. take (length ?n) x \<noteq> ?n) ?ls = filter (\<lambda>x. x \<noteq> l) ?ls"
    using unique_prefix[OF assms(2,3)] by (intro filter_cong) auto
  note c = cleared_line_facts[OF l(3) l(1) l(4)[OF assms(4)]]
  have t: "t = exec (insert_line path_setpropa (cleared_line ?n l)) s1"
    using store_insert(1)[OF d(1) c(1)] run_delete_prefix[OF assms(1) n]
    by (simp add: t_def clear_flag_def r s1_def numeral_3_eq_3 case_prod_beta)
  show "store_ok path_setpropa path_setpropa_tmp t" unfolding t by (rule store_insert(2)[OF d(1) c(1)])
  show "store_lines path_setpropa t = filter (\<lambda>x. x \<noteq> l) ?ls @ [cleared_line ?n l]"
    unfolding t using store_insert(1)[OF d(1) c(1)] d(2) fl by simp
  show "trace t = trace s" "stale t = stale s" "inverters t = inverters s"
    unfolding t s1_def using run_insert_line[OF d(1) c(1), unfolded s1_def] run_delete_prefix[OF assms(1) n] by simp_all
qed

lemma settings_after:
  assumes "settings_ok ls" "l \<in> set ls" "flagged 2 l"
  shows "settings_ok (filter (\<lambda>x. x \<noteq> l) ls @ [cleared_line (line_field 0 l) l])"
proof -
  have l: "line_field 0 l \<in> set all_names" "short_line l" "length (line_field 1 l) \<le> 40" "inj_on (line_field 0) (set ls)"
    using assms by (auto simp: settings_ok_def distinct_map)
  note c = cleared_line_facts[OF l(1-3)]
  have "line_field 0 l \<notin> line_field 0 ` {x \<in> set ls. x \<noteq> l}"
    using assms(2) l(4) by (auto dest: inj_onD)
  then show ?thesis using assms(1) c l(1) by (simp add: settings_ok_def distinct_map_filter)
qed

section \<open>The loop\<close>

definition requests :: "ecu_state \<Rightarrow> string list" where
  "requests s = filter (flagged 2) (store_lines path_setpropa s)"

definition settings_ready :: "ecu_state \<Rightarrow> bool" where
  "settings_ready s = (store_ok path_setpropa path_setpropa_tmp s \<and> settings_ok (store_lines path_setpropa s))"

definition param_frames :: "bool \<Rightarrow> bool \<Rightarrow> int \<Rightarrow> indeterminate \<Rightarrow> string \<Rightarrow> io list" where
  "param_frames y6 y10 bb junk l = sends_of (send_param y6 y10 bb (line_field 0 l) (line_field 1 l) (any_int junk)) junk"

definition serve_all :: "bool \<Rightarrow> bool \<Rightarrow> int \<Rightarrow> string \<Rightarrow> int \<times> ecu_state \<Rightarrow> int \<times> ecu_state" where
  "serve_all y6 y10 bb l = (\<lambda>(n, s). (n + 1, exec (clear_flag (line_field 0 l))
     (exec (send_param y6 y10 bb (line_field 0 l) (line_field 1 l) (any_int (stale s))) s)))"

lemma find_filter: "find P xs = (case filter P xs of [] \<Rightarrow> None | x # _ \<Rightarrow> Some x)"
  by (induction xs) auto

lemma get_value_flag_requests:
  assumes "store_ok path_setpropa path_setpropa_tmp s"
  shows "result get_value_flag s
    = (case requests s of [] \<Rightarrow> None | l # _ \<Rightarrow> Some (line_field 0 l, line_field 1 l))"
proof -
  obtain ls where ls: "files s path_setpropa = Some (concat ls)" "\<And>l. l \<in> set ls \<Longrightarrow> short_line l"
    "store_lines path_setpropa s = ls"
    using assms by (rule store_okE) blast
  have "fgets_lines 199 (concat ls) = ls" using ls(2) by (intro fgets_short) auto
  moreover have "cstr l = l" if "l \<in> set ls" for l using ls(2)[OF that] by (simp add: short_line_def)
  then have "cstr l = l" if "filter (flagged 2) ls = l # rs" for l rs
  proof -
    have "l \<in> set (filter (flagged 2) ls)" using that by simp
    then show ?thesis using \<open>\<And>l. l \<in> set ls \<Longrightarrow> cstr l = l\<close> by simp
  qed
  ultimately show ?thesis
    using ls by (auto simp: get_value_flag_def read_file_def find_filter requests_def split: list.splits)
qed

text \<open>Serving a request keeps the rest and puts the entry, without its flag, at the end.\<close>

lemma serve_all_effect:
  fixes y6 y10 :: bool and bb n :: int
  assumes "settings_ready s" "requests s = l # rs"
  defines "t \<equiv> snd (serve_all y6 y10 bb l (n, s))"
  shows "settings_ready t" "requests t = rs" "stale t = stale s" "inverters t = inverters s"
    "trace t = trace s @ param_frames y6 y10 bb (stale s) l"
    "filter (Not \<circ> flagged 2) (store_lines path_setpropa t)
      = filter (Not \<circ> flagged 2) (store_lines path_setpropa s) @ [cleared_line (line_field 0 l) l]"
proof -
  let ?ls = "store_lines path_setpropa s"
  have ready: "store_ok path_setpropa path_setpropa_tmp s" "settings_ok ?ls" using assms(1) by (simp_all add: settings_ready_def)
  have l: "l \<in> set ?ls" "flagged 2 l" "l \<notin> set rs"
  proof -
    have "l \<in> set (requests s)" using assms(2) by simp
    then show "l \<in> set ?ls" "flagged 2 l" by (simp_all add: requests_def)
    have "distinct ?ls" using ready(2) by (simp add: settings_ok_def distinct_map)
    then have "distinct (requests s)" by (simp add: requests_def)
    then show "l \<notin> set rs" using assms(2) by simp
  qed
  define s1 where "s1 = exec (send_param y6 y10 bb (line_field 0 l) (line_field 1 l) (any_int (stale s))) s"
  have s1: "s1 = s\<lparr>trace := trace s @ param_frames y6 y10 bb (stale s) l\<rparr>"
    unfolding s1_def param_frames_def by (rule only_sends_simp[OF sends_param])
  have ok1: "store_ok path_setpropa path_setpropa_tmp s1" "store_lines path_setpropa s1 = ?ls"
    using ready(1) by (simp_all add: s1 store_ok_def store_lines_def)
  have t: "t = exec (clear_flag (line_field 0 l)) s1" by (simp add: t_def serve_all_def s1_def)
  note c = clear_flag_effect[OF ok1(1) ready(2)[folded ok1(2)] l(1)[folded ok1(2)] l(2), folded t, unfolded ok1(2)]
  have cl: "\<not> flagged 2 (cleared_line (line_field 0 l) l)"
    using ready(2) l(1,2) by (intro cleared_line_facts(4)) (auto simp: settings_ok_def)
  show "settings_ready t" using c(1,2) settings_after[OF ready(2) l(1,2)] by (simp add: settings_ready_def)
  have "filter (flagged 2) (filter (\<lambda>x. x \<noteq> l) ?ls) = filter (\<lambda>x. x \<noteq> l) (requests s)"
    by (simp add: requests_def conj_commute)
  also have "\<dots> = rs" using assms(2) l(3) by (auto simp: filter_id_conv)
  finally show "requests t = rs" using c(2) cl by (simp add: requests_def)
  show "stale t = stale s" "inverters t = inverters s" "trace t = trace s @ param_frames y6 y10 bb (stale s) l"
    using c(3-5) by (simp_all add: s1)
  have "filter (Not \<circ> flagged 2) (filter (\<lambda>x. x \<noteq> l) ?ls) = filter (Not \<circ> flagged 2) ?ls"
    using l(2) by (auto intro!: filter_cong)
  then show "filter (Not \<circ> flagged 2) (store_lines path_setpropa t)
      = filter (Not \<circ> flagged 2) ?ls @ [cleared_line (line_field 0 l) l]"
    using c(2) cl by simp
qed

section \<open>Both endings of the loop\<close>

definition is_relay :: "string \<Rightarrow> bool" where
  "is_relay l = (line_field 0 l = ''relay_protect'')"

text \<open>An entry \<open>relay_protect\<close> is sent again and again.\<close>

lemma relay_stays:
  assumes "settings_ready s" "requests s = l # rs"
  shows "settings_ready (exec (send_param y6 y10 bb name value u) s)"
    "requests (exec (send_param y6 y10 bb name value u) s) = l # rs"
proof -
  have "exec (send_param y6 y10 bb name value u) s
      = s\<lparr>trace := trace s @ sends_of (send_param y6 y10 bb name value u) (stale s)\<rparr>"
    by (rule only_sends_simp[OF sends_param])
  then show "settings_ready (exec (send_param y6 y10 bb name value u) s)"
    "requests (exec (send_param y6 y10 bb name value u) s) = l # rs"
    using assms by (simp_all add: settings_ready_def requests_def store_ok_def store_lines_def)
qed

definition relay_next :: "bool \<Rightarrow> bool \<Rightarrow> ecu_state \<Rightarrow> bool" where
  "relay_next y6 y10 s = (\<not> (y6 \<and> y10) \<and> settings_ready s \<and> (\<exists>l rs. requests s = l # rs \<and> is_relay l))"

lemma relay_hangs: "paras_loop y6 y10 bb n s = Some r \<Longrightarrow> \<not> relay_next y6 y10 s"
proof (rule paras_loop.raw_induct[where P = "\<lambda>y6 y10 bb n s r. \<not> relay_next y6 y10 s"], rule notI)
  fix f y6 y10 bb n s r
  assume IH: "\<And>y6 y10 bb n s r. f y6 y10 bb n s = Some r \<Longrightarrow> \<not> relay_next y6 y10 s"
    and eq: "(case result get_value_flag s of
        None \<Rightarrow> Some (n, s)
      | Some (name, value) \<Rightarrow>
          if y6 \<and> y10 then f y6 y10 bb 0 (exec (clear_flag name) s)
          else if name = ''relay_protect'' then
            f y6 y10 bb (n + 1) (exec (send_param y6 y10 bb name value (any_int (stale s))) s)
          else if name \<in> set param_names then
            f y6 y10 bb (n + 1)
              (exec (clear_flag name) (exec (send_param y6 y10 bb name value (any_int (stale s))) s))
          else Some (n + 1, exec (clear_flag name) s)) = Some r"
    and rel: "relay_next y6 y10 s"
  obtain l rs where a: "\<not> (y6 \<and> y10)" "settings_ready s" "requests s = l # rs" "is_relay l"
    using rel by (auto simp: relay_next_def)
  define s' where "s' = exec (send_param y6 y10 bb ''relay_protect'' (line_field 1 l) (any_int (stale s))) s"
  have "result get_value_flag s = Some (''relay_protect'', line_field 1 l)"
    using get_value_flag_requests[of s] a(2-4) by (simp add: settings_ready_def is_relay_def)
  then have "f y6 y10 bb (n + 1) s' = Some r" using eq a(1) by (simp add: s'_def split: if_splits)
  then have "\<not> relay_next y6 y10 s'" by (rule IH)
  then show False using a relay_stays[OF a(2,3)] by (auto simp: s'_def relay_next_def)
qed

lemma paras_turn:
  assumes "settings_ready s" "requests s = l # rs" "\<not> is_relay l" "\<not> (y6 \<and> y10)"
  shows "paras_loop y6 y10 bb n s = (case serve_all y6 y10 bb l (n, s) of (n', s') \<Rightarrow> paras_loop y6 y10 bb n' s')"
proof -
  have "l \<in> set (store_lines path_setpropa s)" using arg_cong[OF assms(2), of set] by (auto simp: requests_def)
  then have "line_field 0 l \<in> set param_names" "line_field 0 l \<noteq> ''relay_protect''"
    using assms(1,3) by (auto simp: settings_ready_def settings_ok_def all_names_def is_relay_def)
  moreover have "result get_value_flag s = Some (line_field 0 l, line_field 1 l)"
    using get_value_flag_requests[of s] assms(1,2) by (simp add: settings_ready_def)
  ultimately show ?thesis
    using assms(4) by (subst paras_loop.simps) (auto simp: serve_all_def)
qed

lemma paras_request_loop:
  "request_loop (\<lambda>(n, s). paras_loop y6 y10 bb n s) (\<lambda>(n, s). \<not> (y6 \<and> y10) \<and> settings_ready s)
     (\<lambda>(n, s). requests s) is_relay (serve_all y6 y10 bb) (\<lambda>x. x)"
proof
  fix x :: "int \<times> ecu_state"
  obtain n s where x: "x = (n, s)" by (cases x)
  assume "case x of (n, s) \<Rightarrow> \<not> (y6 \<and> y10) \<and> settings_ready s"
  then have r: "\<not> (y6 \<and> y10)" "settings_ready s" by (simp_all add: x)
  have g: "result get_value_flag s = (case requests s of [] \<Rightarrow> None | l # _ \<Rightarrow> Some (line_field 0 l, line_field 1 l))"
    using r(2) by (intro get_value_flag_requests) (simp add: settings_ready_def)
  show "(case x of (n, s) \<Rightarrow> paras_loop y6 y10 bb n s) = Some x" if "(case x of (n, s) \<Rightarrow> requests s) = []"
    using that g by (simp add: x) (subst paras_loop.simps, simp)
  fix l rs
  assume p: "(case x of (n, s) \<Rightarrow> requests s) = l # rs"
  then have p': "requests s = l # rs" by (simp add: x)
  obtain n' s' where y: "serve_all y6 y10 bb l (n, s) = (n', s')" by fastforce
  have e: "settings_ready s'" "requests s' = rs" using serve_all_effect[OF r(2) p', of y6 y10 bb n] by (simp_all add: y)
  show "(case x of (n, s) \<Rightarrow> paras_loop y6 y10 bb n s)
      = (case serve_all y6 y10 bb l x of (n, s) \<Rightarrow> paras_loop y6 y10 bb n s)
    \<and> (case serve_all y6 y10 bb l x of (n, s) \<Rightarrow> \<not> (y6 \<and> y10) \<and> settings_ready s)
    \<and> (case serve_all y6 y10 bb l x of (n, s) \<Rightarrow> requests s) = rs" if "\<not> is_relay l"
    using paras_turn[OF r(2) p' that r(1), of bb n] e r(1) by (simp add: x y)
  show "(case x of (n, s) \<Rightarrow> paras_loop y6 y10 bb n s) = None" if "is_relay l"
    using relay_hangs[of y6 y10 bb n s] that r p' x
    by (cases "paras_loop y6 y10 bb n s") (auto simp: relay_next_def)
qed

interpretation settings: request_loop "\<lambda>(n, s). paras_loop y6 y10 bb n s" "\<lambda>(n, s). \<not> (y6 \<and> y10) \<and> settings_ready s"
  "\<lambda>(n, s). requests s" is_relay "serve_all y6 y10 bb" "\<lambda>x. x" for y6 y10 bb
  by (rule paras_request_loop)

text \<open>What the rounds add up to.\<close>

lemma fold_serve_all:
  assumes "settings_ready s"
  shows "case fold (serve_all y6 y10 bb) (requests s) (n, s) of (n', t) \<Rightarrow>
      n' = n + int (length (requests s)) \<and> settings_ready t \<and> requests t = []
    \<and> trace t = trace s @ concat (map (param_frames y6 y10 bb (stale s)) (requests s))
    \<and> store_lines path_setpropa t = filter (Not \<circ> flagged 2) (store_lines path_setpropa s)
        @ map (\<lambda>l. cleared_line (line_field 0 l) l) (requests s)"
  using assms
proof (induction "requests s" arbitrary: s n)
  case Nil
  have "filter (Not \<circ> flagged 2) (store_lines path_setpropa s) = store_lines path_setpropa s"
    using Nil(1)[symmetric] by (simp add: requests_def filter_empty_conv filter_id_conv)
  then show ?case using Nil(2) by (simp add: comp_def flip: Nil(1))
next
  case (Cons l rs)
  note p = Cons.hyps(2)[symmetric]
  obtain n' s' where y: "serve_all y6 y10 bb l (n, s) = (n', s')" by fastforce
  have n': "n' = n + 1" using y by (simp add: serve_all_def)
  note e = serve_all_effect[OF Cons.prems p, of y6 y10 bb n, unfolded y snd_conv]
  have "case fold (serve_all y6 y10 bb) (requests s') (n', s') of (k, t) \<Rightarrow>
      k = n' + int (length (requests s')) \<and> settings_ready t \<and> requests t = []
    \<and> trace t = trace s' @ concat (map (param_frames y6 y10 bb (stale s')) (requests s'))
    \<and> store_lines path_setpropa t = filter (Not \<circ> flagged 2) (store_lines path_setpropa s')
        @ map (\<lambda>l. cleared_line (line_field 0 l) l) (requests s')"
    using e(2)[symmetric] e(1) by (rule Cons.hyps(1))
  then show ?case unfolding p fold_simps y using e n' by (simp add: case_prod_beta)
qed

lemma system_kind_one: "system_kind m = (y6, y10, bb) \<Longrightarrow> \<not> (y6 \<and> y10)"
  by (auto simp: system_kind_def Let_def split: if_splits)

text \<open>The loop ends exactly when no entry \<open>relay_protect\<close> is flagged.\<close>

lemma settings_end_iff:
  assumes "settings_ready s"
  shows "(\<exists>r. set_protection_paras s = Some r) \<longleftrightarrow> (\<forall>l \<in> set (requests s). \<not> is_relay l)"
proof -
  obtain y6 y10 bb where k: "system_kind (get_system_model (table (inverters s))) = (y6, y10, bb)" by (metis prod_cases3)
  have "(\<exists>r. paras_loop y6 y10 bb 0 s = Some r) \<longleftrightarrow> (\<forall>l \<in> set (requests s). \<not> is_relay l)"
    using settings.loop_ends_iff[where ?y6.0 = y6 and ?y10.0 = y10 and bb = bb and s = "(0, s)"] assms system_kind_one[OF k] by simp
  then show ?thesis by (simp add: set_protection_paras_def k)
qed

lemma settings_served:
  assumes "settings_ready s" "\<forall>l \<in> set (requests s). \<not> is_relay l"
  shows "\<exists>t. set_protection_paras s = Some (int (length (requests s)), t) \<and> requests t = []
    \<and> store_lines path_setpropa t = filter (Not \<circ> flagged 2) (store_lines path_setpropa s)
        @ map (\<lambda>l. cleared_line (line_field 0 l) l) (requests s)
    \<and> (case system_kind (get_system_model (table (inverters s))) of (y6, y10, bb) \<Rightarrow>
        trace t = trace s @ concat (map (param_frames y6 y10 bb (stale s)) (requests s)))"
proof -
  obtain y6 y10 bb where k: "system_kind (get_system_model (table (inverters s))) = (y6, y10, bb)" by (metis prod_cases3)
  obtain n t where f: "fold (serve_all y6 y10 bb) (requests s) (0, s) = (n, t)" by fastforce
  have "paras_loop y6 y10 bb 0 s = Some (n, t)"
    using settings.loop_serves[where ?y6.0 = y6 and ?y10.0 = y10 and bb = bb and s = "(0, s)"] assms system_kind_one[OF k] f by simp
  then show ?thesis using fold_serve_all[OF assms(1), where ?y6.0 = y6 and ?y10.0 = y10 and bb = bb and n = 0] by (simp add: set_protection_paras_def k f)
qed

section \<open>Parameters set by the server\<close>

lemma pro_names_known: "n \<in> set pro_name \<Longrightarrow> n \<in> set all_names \<and> n \<noteq> ''relay_protect''" "distinct pro_name"
proof -
  have "\<forall>n \<in> set pro_name. n \<in> set all_names \<and> n \<noteq> ''relay_protect''" by code_simp
  then show "n \<in> set pro_name \<Longrightarrow> n \<in> set all_names \<and> n \<noteq> ''relay_protect''" by blast
  show "distinct pro_name" by code_simp
qed

lemma all_line_facts:
  assumes "n \<in> set pro_name" "length (fmt_f 2 (the (pro n))) \<le> 20"
  shows "short_line (all_line pro n)" "2 \<le> length (splitString (all_line pro n))"
    "line_field 0 (all_line pro n) = n" "flagged 2 (all_line pro n)" "length (line_field 1 (all_line pro n)) \<le> 40"
proof -
  have l: "is_line (all_line pro n)" using assms(1) by (rule all_line_read)
  have p: "plain n" "plain (fmt_f 2 (the (pro n)))" "length n \<le> 30" using pro_names[OF assms(1)] fmt_f_plain by auto
  have s: "splitString (all_line pro n) = [n, fmt_f 2 (the (pro n)), [CHR ''1'', NL]]"
    using p(1,2)[THEN plain_no_comma] by (simp add: all_line_def NL_def)
  show "short_line (all_line pro n)" using l p(3) assms(2) by (simp add: short_line_def all_line_def)
  show "2 \<le> length (splitString (all_line pro n))" "line_field 0 (all_line pro n) = n"
    "length (line_field 1 (all_line pro n)) \<le> 40" using s assms(2) by (simp_all add: fld_def)
  have "atoi [CHR ''1'', NL] = 1" by code_simp
  then show "flagged 2 (all_line pro n)" using l s by (simp add: flagged_def fld_def)
qed

lemma settings_after_command:
  assumes "can_write s path_setpropa" "can_write s path_setpropa_tmp" "msg_field r 44 3 = 0"
  defines "t \<equiv> exec (set_inverter_ac_protection_17 r) s" and "pro \<equiv> ac_parameters r"
  shows "settings_ready t" "requests t = map (all_line pro) (set_names pro)" "stale t = stale s"
proof -
  have f: "files t path_setpropa = Some (concat (map (all_line pro) (set_names pro)))" "can_write t = can_write s" "stale t = stale s"
    using assms(1,3) by (simp_all add: t_def pro_def set_inverter_ac_protection_17_def save_ac_protection_all_def
        write_file_def emit_def answer_def Let_def)
  have n: "n \<in> set pro_name" "length (fmt_f 2 (the (pro n))) \<le> 20" if "n \<in> set (set_names pro)" for n
    using that ac_parameters_length[of r n] by (auto simp: set_names_def pro_def)
  note a = all_line_facts[OF n]
  have "path_setpropa \<noteq> path_setpropa_tmp" by (simp add: path_setpropa_def path_setpropa_tmp_def)
  then have st: "store_ok path_setpropa path_setpropa_tmp t" "store_lines path_setpropa t = map (all_line pro) (set_names pro)"
    using assms(1,2) f a(1) by (auto intro!: store_intro)
  have "map (line_field 0) (map (all_line pro) (set_names pro)) = set_names pro"
    using a(3) by (simp add: comp_def map_idI)
  then have "distinct (map (line_field 0) (map (all_line pro) (set_names pro)))"
    using pro_names_known(2) by (simp add: set_names_def)
  then have "settings_ok (map (all_line pro) (set_names pro))"
    unfolding settings_ok_def using a n(1) pro_names_known(1) by auto
  then show "settings_ready t" using st by (simp add: settings_ready_def)
  show "requests t = map (all_line pro) (set_names pro)" using st(2) a(4) by (auto simp: requests_def filter_id_conv)
  show "stale t = stale s" by (rule f(3))
qed



end
