(* ===== verification/Request_One.thy ===== *)
theory Request_One
  imports Request_Loop
begin

text \<open>
  The requests for single inverters: every one that can be served is deleted after it was
  served once, and a request for an inverter that cannot be served keeps the loop running.
\<close>

section \<open>Single frames\<close>

lemmas one_1000 = set_regulated_dc_working_point_yc1000_one_def set_undervoltage_slow_yc1000_one_def
  set_overvoltage_slow_yc1000_one_def set_overvoltage_fast_yc1000_one_def set_undervoltage_fast_yc1000_one_def
  set_underfrequency_fast_yc1000_one_def set_overfrequency_fast_yc1000_one_def
  set_underfrequency_slow_yc1000_one_def set_overfrequency_slow_yc1000_one_def
  set_voltage_triptime_fast_yc1000_one_def set_voltage_triptime_slow_yc1000_one_def
  set_frequency_triptime_fast_yc1000_one_def set_frequency_triptime_slow_yc1000_one_def
  set_grid_recovery_time_yc1000_one_def set_under_voltage_stage_2_yc1000_one_def
  set_voltage_3_clearance_time_yc1000_one_def set_start_time_yc1000_one_def
  set_active_antiisland_time_yc1000_one_def set_under_voltage_stage_3_yc1000_one_def
  set_undervoltage_slow_yc1000_one_5_def set_overvoltage_slow_yc1000_one_5_def
  set_underfrequency_slow_yc1000_one_5_def set_overfrequency_slow_yc1000_one_5_def
  set_grid_recovery_time_yc1000_one_5_def

lemmas frame_groups_one = stage_2_frames_one_def over_voltage_frames_one_def under_frequency_frames_one_def
  over_frequency_frames_one_def recovery_frames_one_def

lemma sends_volt_one [sends_intros]: "only_sends m \<Longrightarrow> only_sends (volt_one v m c x)"
  by (auto simp: volt_one_def intro!: sends_intros)

lemma sends_other_one [sends_intros]: "only_sends m \<Longrightarrow> only_sends (other_one v m c d n)"
  by (auto simp: other_one_def intro!: sends_intros)

lemma sends_factor_one [sends_intros]: "only_sends (factor_one v d)"
  by (auto simp: factor_one_def intro!: sends_intros)

lemma sends_relay_one [sends_intros]: "only_sends (relay_one v d)"
  by (auto simp: relay_one_def intro!: sends_intros)

lemma sends_param_one: "only_sends (send_param_one v i name value u)"
  unfolding send_param_one_def Let_def one_1000 frame_groups_one by (intro sends_intros)

text \<open>Whether an inverter has the entry of a name deleted.\<close>

definition volt_names :: "string list" where
  "volt_names = [''under_voltage_fast'', ''over_voltage_fast'', ''under_voltage_stage_2'', ''over_voltage_slow'',
     ''under_voltage_slow'']"

definition clears :: "inverter \<Rightarrow> string \<Rightarrow> bool" where
  "clears v name = (if name \<in> set volt_names then \<not> (model v = 7 \<and> deputy_model v = 0)
     else if name = ''power_factor'' then False
     else if name = ''relay_protect'' then model v = 7
     else True)"

lemma result_then: "result (do { m; m' }) s = result m' (exec m s)"
  by (simp add: case_prod_beta)

lemma result_volt_one: "result (volt_one v m c x) s = (\<not> (model v = 7 \<and> deputy_model v = 0))"
  by (simp add: volt_one_def unset_int_def case_prod_beta)

lemma result_other_one: "result (other_one v m c d n) s"
  by (simp add: other_one_def case_prod_beta)

lemma result_factor_one: "\<not> result (factor_one v d) s"
  by (simp add: factor_one_def case_prod_beta)

lemma result_relay_one: "result (relay_one v d) s = (model v = 7)"
  by (simp add: relay_one_def case_prod_beta)

lemma result_param_one: "result (send_param_one v i name value u) s = clears v name"
  unfolding send_param_one_def Let_def clears_def volt_names_def
  by (simp add: result_volt_one result_other_one result_factor_one result_relay_one)

section \<open>Lines of the file\<close>

lemma splitString_no_comma: "f \<in> set (splitString l) \<Longrightarrow> CHR '','' \<notin> set f"
proof (induction l arbitrary: f)
  case (Cons c l)
  obtain g gs where "splitString l = g # gs" by (cases "splitString l") auto
  then show ?case using Cons by (auto split: if_splits)
qed simp

lemma field_no_comma: "CHR '','' \<notin> set (line_field n l)"
  using splitString_no_comma[of _ l] by (auto simp: fld_def)

lemma splitString_cons: "2 \<le> length (splitString l) \<Longrightarrow> \<exists>r. l = line_field 0 l @ CHR '','' # r \<and> splitString r = tl (splitString l)"
proof -
  assume a: "2 \<le> length (splitString l)"
  then obtain r where r: "l = line_field 0 l @ CHR '','' # r" using split_first by blast
  have "splitString l = line_field 0 l # splitString r"
    by (subst r) (simp add: field_no_comma)
  then show ?thesis using r by (metis list.sel(3))
qed

lemma split_second:
  assumes "3 \<le> length (splitString l)"
  shows "\<exists>r. l = line_field 0 l @ CHR '','' # line_field 1 l @ CHR '','' # r"
proof -
  obtain q where q: "l = line_field 0 l @ CHR '','' # q" "splitString q = tl (splitString l)"
    using splitString_cons[of l] assms by auto
  have "2 \<le> length (splitString q)" using q(2) assms by simp
  then obtain r where "q = line_field 0 q @ CHR '','' # r" using split_first by blast
  moreover have "line_field 0 q = line_field 1 l"
    using q(2) assms by (cases "splitString l") (auto simp: fld_def)
  ultimately show ?thesis using q(1) by metis
qed

lemma comma_prefix:
  "CHR '','' \<notin> set i \<Longrightarrow> CHR '','' \<notin> set j \<Longrightarrow>
   take (length i + Suc (length x)) (j @ CHR '','' # y) = i @ CHR '','' # x \<longleftrightarrow> i = j \<and> take (length x) y = x"
proof (induction i arbitrary: j)
  case Nil
  then show ?case by (cases j) auto
next
  case (Cons c i)
  then show ?case by (cases j) auto
qed

lemma prefix_name:
  assumes "m \<in> set all_names" "n \<in> set all_names"
  shows "take (length n) (m @ CHR '','' # r) = n \<longleftrightarrow> m = n"
proof
  assume t: "take (length n) (m @ CHR '','' # r) = n"
  show "m = n"
  proof (cases "length n \<le> length m")
    case True
    then show ?thesis using t all_names_facts(2)[OF assms(2,1)] by simp
  next
    case False
    then have "n ! length m = (m @ CHR '','' # r) ! length m" using t by (metis not_le nth_take)
    then have "CHR '','' \<in> set n" using False by (metis not_le nth_mem nth_append_length)
    then show ?thesis using all_names_facts(1)[OF assms(2)] plain_no_comma by blast
  qed
qed simp

definition key_of :: "string \<Rightarrow> string" where
  "key_of l = line_field 0 l @ '','' @ line_field 1 l"

definition ones_ok :: "string list \<Rightarrow> bool" where
  "ones_ok ls = ((\<forall>l \<in> set ls. short_line l \<and> 3 \<le> length (splitString l) \<and> line_field 1 l \<in> set all_names)
     \<and> distinct (map (\<lambda>l. (line_field 0 l, line_field 1 l)) ls))"

lemma key_prefix:
  assumes "ones_ok ls" "l \<in> set ls" "l' \<in> set ls"
  shows "take (length (key_of l)) l' = key_of l \<longleftrightarrow> l' = l"
proof -
  obtain r where r: "l' = line_field 0 l' @ CHR '','' # line_field 1 l' @ CHR '','' # r"
    using split_second[of l'] assms(1,3) by (auto simp: ones_ok_def)
  have n: "line_field 1 l \<in> set all_names" "line_field 1 l' \<in> set all_names" using assms by (auto simp: ones_ok_def)
  have "take (length (key_of l)) l' = key_of l
      \<longleftrightarrow> take (length (line_field 0 l) + Suc (length (line_field 1 l))) (line_field 0 l' @ CHR '','' # line_field 1 l' @ CHR '','' # r)
        = line_field 0 l @ CHR '','' # line_field 1 l"
    by (subst r) (simp add: key_of_def)
  also have "\<dots> \<longleftrightarrow> line_field 0 l = line_field 0 l' \<and> line_field 1 l' = line_field 1 l"
    by (simp only: comma_prefix[OF field_no_comma field_no_comma] prefix_name[OF n(2,1)])
  also have "\<dots> \<longleftrightarrow> l' = l" using assms by (auto simp: ones_ok_def distinct_map dest: inj_onD)
  finally show ?thesis .
qed

lemma key_no_nul:
  assumes "ones_ok ls" "l \<in> set ls"
  shows "no_nul (key_of l)"
proof -
  obtain r where "l = key_of l @ CHR '','' # r"
    using split_second[of l] assms by (fastforce simp: ones_ok_def key_of_def)
  moreover have "no_nul l" using assms by (auto simp: ones_ok_def short_line_def is_line_no_nul)
  ultimately show ?thesis by (metis no_nul_append)
qed

lemma ones_ok_filter: "ones_ok ls \<Longrightarrow> ones_ok (filter P ls)"
  by (auto simp: ones_ok_def distinct_map_filter)

section \<open>Serving one request\<close>

text \<open>The table without the marks of the inverters that were served.\<close>

definition unmarked :: "inverter \<Rightarrow> inverter" where
  "unmarked v = v\<lparr>paras_one_flag := 0\<rparr>"

lemma unmarked_fields [simp]:
  "inv_id (unmarked v) = inv_id v" "shortaddr (unmarked v) = shortaddr v" "model (unmarked v) = model v"
  "deputy_model (unmarked v) = deputy_model v"
  by (simp_all add: unmarked_def)

definition requests_one :: "ecu_state \<Rightarrow> string list" where
  "requests_one s = filter (flagged 3) (store_lines path_setpropi s)"

definition ones_ready :: "inverter list \<Rightarrow> ecu_state \<Rightarrow> bool" where
  "ones_ready vs s = (store_ok path_setpropi path_setpropi_tmp s \<and> ones_ok (store_lines path_setpropi s)
     \<and> map unmarked (inverters s) = map unmarked vs)"

definition asked_inv :: "inverter list \<Rightarrow> string \<Rightarrow> inverter option" where
  "asked_inv vs l = find (\<lambda>v. inv_id v = line_field 0 l) (table vs)"

definition stuck_one :: "inverter list \<Rightarrow> string \<Rightarrow> bool" where
  "stuck_one vs l = (case asked_inv vs l of
      None \<Rightarrow> False
    | Some v \<Rightarrow> shortaddr v \<noteq> 0
        \<and> \<not> ((model v = 5 \<or> model v = 6 \<or> model v = 7) \<and> clears v (line_field 1 l)))"

definition round_one :: "string \<Rightarrow> ecu_state \<Rightarrow> ecu_state" where
  "round_one l s = (if fst (result get_value_flag_one s) = 0
     then exec (clear_flag_one (line_field 0 l) (line_field 1 l)) s
     else exec (serve_one (line_field 0 l) (line_field 1 l) (line_field 2 l)) s)"

lemma map_takeWhile_cong:
  "map f xs = map f ys \<Longrightarrow> (\<And>x y. f x = f y \<Longrightarrow> P x = P y) \<Longrightarrow> map f (takeWhile P xs) = map f (takeWhile P ys)"
proof (induction xs arbitrary: ys)
  case (Cons x xs)
  obtain y zs where y: "ys = y # zs" "f x = f y" "map f xs = map f zs" using Cons.prems(1) by (cases ys) auto
  moreover have "P x = P y" using y(2) by (rule Cons.prems(2))
  moreover have "map f (takeWhile P xs) = map f (takeWhile P zs)" using y(3) Cons.prems(2) by (rule Cons.IH)
  ultimately show ?case by simp
qed simp

lemma unmarked_eq:
  assumes "unmarked v = unmarked w"
  shows "inv_id v = inv_id w" "shortaddr v = shortaddr w" "model v = model w" "deputy_model v = deputy_model w"
proof -
  have "inv_id (unmarked v) = inv_id (unmarked w)" using assms by (rule arg_cong)
  then show "inv_id v = inv_id w" by (simp only: unmarked_fields)
  have "shortaddr (unmarked v) = shortaddr (unmarked w)" using assms by (rule arg_cong)
  then show "shortaddr v = shortaddr w" by (simp only: unmarked_fields)
  have "model (unmarked v) = model (unmarked w)" using assms by (rule arg_cong)
  then show "model v = model w" by (simp only: unmarked_fields)
  have "deputy_model (unmarked v) = deputy_model (unmarked w)" using assms by (rule arg_cong)
  then show "deputy_model v = deputy_model w" by (simp only: unmarked_fields)
qed

lemma table_unmarked: "map unmarked xs = map unmarked ys \<Longrightarrow> map unmarked (table xs) = map unmarked (table ys)"
  unfolding table_def
  by (rule map_takeWhile_cong, simp only: take_map[symmetric]) (drule unmarked_eq(1), simp only:)

lemma find_unmarked:
  "map unmarked xs = map unmarked ys \<Longrightarrow>
   map_option unmarked (find (\<lambda>v. inv_id v = i) xs) = map_option unmarked (find (\<lambda>v. inv_id v = i) ys)"
proof (induction xs arbitrary: ys)
  case (Cons x xs)
  then obtain y ys' where "ys = y # ys'" "unmarked x = unmarked y" "map unmarked xs = map unmarked ys'" by (cases ys) auto
  then show ?case using Cons.IH[of ys'] unmarked_eq(1)[of x y] by simp
qed simp

lemma asked_unmarked:
  assumes "ones_ready vs s"
  shows "map_option unmarked (asked_inv (inverters s) l) = map_option unmarked (asked_inv vs l)"
  unfolding asked_inv_def by (rule find_unmarked) (use assms in \<open>auto simp: ones_ready_def dest: table_unmarked\<close>)

lemma get_value_flag_one_requests:
  assumes "ones_ready vs s"
  shows "result get_value_flag_one s = (case requests_one s of
      [] \<Rightarrow> (-1, [], [], [])
    | l # _ \<Rightarrow> (case asked_inv vs l of None \<Rightarrow> 0 | Some v \<Rightarrow> uint (shortaddr v), line_field 0 l, line_field 1 l, line_field 2 l))"
proof -
  have "store_ok path_setpropi path_setpropi_tmp s" using assms by (simp add: ones_ready_def)
  then obtain ls where ls: "files s path_setpropi = Some (concat ls)" "\<And>l. l \<in> set ls \<Longrightarrow> short_line l"
    "store_lines path_setpropi s = ls"
    by (rule store_okE) blast
  have "fgets_lines 199 (concat ls) = ls" using ls(2) by (intro fgets_short) auto
  moreover have c: "cstr l = l" if "l \<in> set ls" for l using ls(2)[OF that] by (simp add: short_line_def)
  have "cstr l = l" if "filter (flagged 3) ls = l # rs" for l rs
  proof -
    have "l \<in> set (filter (flagged 3) ls)" using that by simp
    then show ?thesis using c by simp
  qed
  moreover have "(case asked_inv (inverters s) l of None \<Rightarrow> 0 | Some v \<Rightarrow> uint (shortaddr v))
      = (case asked_inv vs l of None \<Rightarrow> 0 | Some v \<Rightarrow> uint (shortaddr v))" for l
  proof (cases "asked_inv vs l")
    case None
    then show ?thesis using asked_unmarked[OF assms, of l] by simp
  next
    case (Some v)
    then obtain w where "asked_inv (inverters s) l = Some w" "unmarked w = unmarked v"
      using asked_unmarked[OF assms, of l] by auto
    then show ?thesis using Some unmarked_eq(2)[of w v] by simp
  qed
  ultimately show ?thesis
    using ls by (auto simp: get_value_flag_one_def read_file_def find_filter requests_one_def asked_inv_def[of "inverters s"]
        Let_def split: list.splits)
qed

lemma clear_flag_one_effect:
  assumes "ones_ready vs s" "l \<in> set (store_lines path_setpropi s)"
  defines "t \<equiv> exec (clear_flag_one (line_field 0 l) (line_field 1 l)) s"
  shows "ones_ready vs t" "store_lines path_setpropi t = filter (\<lambda>x. x \<noteq> l) (store_lines path_setpropi s)"
proof -
  have r: "store_ok path_setpropi path_setpropi_tmp s" "ones_ok (store_lines path_setpropi s)"
    using assms(1) by (simp_all add: ones_ready_def)
  have t: "t = exec (delete_line path_setpropi path_setpropi_tmp (key_of l) (length (key_of l))) s"
    by (simp add: t_def clear_flag_one_def key_of_def Let_def case_prod_beta)
  note n = key_no_nul[OF r(2) assms(2)]
  have "filter (\<lambda>x. take (length (key_of l)) x \<noteq> key_of l) (store_lines path_setpropi s)
      = filter (\<lambda>x. x \<noteq> l) (store_lines path_setpropi s)"
    using key_prefix[OF r(2) assms(2)] by (intro filter_cong) auto
  then show f: "store_lines path_setpropi t = filter (\<lambda>x. x \<noteq> l) (store_lines path_setpropi s)"
    unfolding t by (simp only: store_after_delete(2)[OF r(1) n])
  have "inverters t = inverters s" unfolding t by (simp add: run_delete_prefix[OF r(1) n])
  then show "ones_ready vs t"
    using assms(1) store_after_delete(1)[OF r(1) n] f ones_ok_filter[OF r(2)] by (simp add: ones_ready_def t)
qed

text \<open>Marking an inverter and sending to it does not touch the file.\<close>

lemma same_store:
  assumes "ones_ready vs s" "files t = files s" "can_write t = can_write s"
    "map unmarked (inverters t) = map unmarked (inverters s)"
  shows "ones_ready vs t" "store_lines path_setpropi t = store_lines path_setpropi s"
  using assms by (simp_all add: ones_ready_def store_ok_def store_lines_def)

lemma map_unmarked_upd: "map unmarked (xs[k := (slot xs k)\<lparr>paras_one_flag := 1\<rparr>]) = map unmarked xs"
  by (rule nth_equalityI) (auto simp: nth_list_update unmarked_def slot_def)

lemma memeq_12: "length i = 12 \<Longrightarrow> length j = 12 \<Longrightarrow> memeq i j 12 \<longleftrightarrow> i = j"
  by (simp add: memeq_def zext_take)

lemma find_index:
  assumes "find P xs = Some v"
  shows "\<exists>k. find (\<lambda>k. P (xs ! k)) [0..<length xs] = Some k \<and> k < length xs \<and> xs ! k = v"
proof -
  obtain k where k: "k < length xs" "P (xs ! k)" "xs ! k = v" "\<forall>j < k. \<not> P (xs ! j)"
    using assms by (auto simp: find_Some_iff)
  then have "find (\<lambda>k. P (xs ! k)) [0..<length xs] = Some k"
    unfolding find_Some_iff by (intro exI[of _ k] conjI allI impI) simp_all
  then show ?thesis using k by blast
qed

lemma serve_one_effect:
  assumes "ones_ready vs s" "l \<in> set (store_lines path_setpropi s)" "asked_inv vs l = Some v" "shortaddr v \<noteq> 0"
  defines "t \<equiv> exec (serve_one (line_field 0 l) (line_field 1 l) (line_field 2 l)) s"
  shows "ones_ready vs t" "store_lines path_setpropi t = (if stuck_one vs l then store_lines path_setpropi s
     else filter (\<lambda>x. x \<noteq> l) (store_lines path_setpropi s))"
proof -
  obtain w where w: "asked_inv (inverters s) l = Some w" "unmarked w = unmarked v"
    using asked_unmarked[OF assms(1), of l] assms(3) by auto
  note e = unmarked_eq[OF w(2)]
  then obtain k where k: "find (\<lambda>k. inv_id (table (inverters s) ! k) = line_field 0 l) [0..<length (table (inverters s))] = Some k"
    "k < length (table (inverters s))" "table (inverters s) ! k = w"
    using find_index[OF w(1)[unfolded asked_inv_def]] by blast
  note tab = table_nth[OF k(2)]
  have i: "length (line_field 0 l) = 12" using k(3) tab(1,2) w(1) by (auto simp: asked_inv_def find_Some_iff)
  have "find (\<lambda>k. memeq (line_field 0 l) (inv_id (slot (inverters s) k)) 12) [0..<length (table (inverters s))]
      = find (\<lambda>k. inv_id (table (inverters s) ! k) = line_field 0 l) [0..<length (table (inverters s))]"
  proof (rule find_cong[OF refl])
    fix j assume "j \<in> set [0..<length (table (inverters s))]"
    then have j: "j < length (table (inverters s))" by simp
    show "memeq (line_field 0 l) (inv_id (slot (inverters s) j)) 12 = (inv_id (table (inverters s) ! j) = line_field 0 l)"
      using table_nth(1,2)[OF j] memeq_12[OF i] by (auto simp: inv_at_def)
  qed
  then have f: "find (\<lambda>k. memeq (line_field 0 l) (inv_id (slot (inverters s) k)) 12) [0..<length (table (inverters s))] = Some k"
    using k(1) by simp
  define x where "x = w\<lparr>paras_one_flag := 1\<rparr>"
  define s1 where "s1 = s\<lparr>inverters := (inverters s)[k := x]\<rparr>"
  have x: "inv_at s1 k = x" "shortaddr x = shortaddr v" "model x = model v" "clears x = clears v"
    using e tab(4) by (simp_all add: x_def s1_def inv_at_def slot_def clears_def fun_eq_iff)
  have s1: "ones_ready vs s1" "store_lines path_setpropi s1 = store_lines path_setpropi s"
    using map_unmarked_upd[of "inverters s" k] k(3) tab(1)
    by (intro same_store[OF assms(1)]; simp add: s1_def x_def inv_at_def)+
  let ?m = "send_param_one x (line_field 0 l) (line_field 1 l) (line_field 2 l) (any_int (stale s))"
  define s2 where "s2 = exec ?m s1"
  have "s2 = s1\<lparr>trace := trace s1 @ sends_of ?m (stale s1)\<rparr>" unfolding s2_def by (rule only_sends_simp[OF sends_param_one])
  then have s2: "ones_ready vs s2" "store_lines path_setpropi s2 = store_lines path_setpropi s"
    using same_store[OF s1(1), of s2] s1(2) by simp_all
  have "0 < shortaddr x" using x(2) assms(4) by (simp add: word_gt_0)
  then have t: "t = (if model v = 5 \<or> model v = 6 \<or> model v = 7
      then if clears v (line_field 1 l) then exec (clear_flag_one (line_field 0 l) (line_field 1 l)) s2 else s2
      else s1)"
    using f k(3) tab(1) x unfolding t_def serve_one_def unset_int_def upd_inv_def get_inv_def
    by (simp add: case_prod_beta result_param_one s2_def s1_def x_def inv_at_def)
  have stuck: "stuck_one vs l = (\<not> ((model v = 5 \<or> model v = 6 \<or> model v = 7) \<and> clears v (line_field 1 l)))"
    using assms(3,4) by (simp add: stuck_one_def)
  note c = clear_flag_one_effect[OF s2(1) assms(2)[folded s2(2)], unfolded s2(2)]
  show "ones_ready vs t" "store_lines path_setpropi t = (if stuck_one vs l then store_lines path_setpropi s
     else filter (\<lambda>x. x \<noteq> l) (store_lines path_setpropi s))"
    unfolding t using s1 s2 c stuck by simp_all
qed

section \<open>The loop\<close>

lemma requests_one_head:
  assumes "ones_ready vs s" "requests_one s = l # rs"
  shows "l \<in> set (store_lines path_setpropi s)" "flagged 3 l"
    "filter (flagged 3) (filter (\<lambda>x. x \<noteq> l) (store_lines path_setpropi s)) = rs"
    "filter (Not \<circ> flagged 3) (filter (\<lambda>x. x \<noteq> l) (store_lines path_setpropi s))
      = filter (Not \<circ> flagged 3) (store_lines path_setpropi s)"
proof -
  have "l \<in> set (requests_one s)" using assms(2) by simp
  then show "l \<in> set (store_lines path_setpropi s)" and f: "flagged 3 l" by (simp_all add: requests_one_def)
  have "distinct (map (\<lambda>l. (line_field 0 l, line_field 1 l)) (store_lines path_setpropi s))"
    using assms(1) by (simp add: ones_ready_def ones_ok_def)
  then have "distinct (requests_one s)" by (simp add: requests_one_def distinct_map)
  then have n: "l \<notin> set rs" using assms(2) by simp
  have "filter (flagged 3) (filter (\<lambda>x. x \<noteq> l) (store_lines path_setpropi s)) = filter (\<lambda>x. x \<noteq> l) (requests_one s)"
    by (simp add: requests_one_def conj_commute)
  also have "\<dots> = rs" using assms(2) n by (auto simp: filter_id_conv)
  finally show "filter (flagged 3) (filter (\<lambda>x. x \<noteq> l) (store_lines path_setpropi s)) = rs" .
  show "filter (Not \<circ> flagged 3) (filter (\<lambda>x. x \<noteq> l) (store_lines path_setpropi s))
      = filter (Not \<circ> flagged 3) (store_lines path_setpropi s)"
    using f by (auto intro!: filter_cong)
qed

text \<open>One round: the value read first decides what is done.\<close>

lemma round_one_effect:
  assumes "ones_ready vs s" "requests_one s = l # rs"
  shows "ones_ready vs (round_one l s) \<and>
    store_lines path_setpropi (round_one l s) = (if stuck_one vs l then store_lines path_setpropi s
      else filter (\<lambda>x. x \<noteq> l) (store_lines path_setpropi s))"
proof -
  note l = requests_one_head[OF assms]
  note g = get_value_flag_one_requests[OF assms(1), unfolded assms(2)]
  show ?thesis
  proof (cases "\<exists>v. asked_inv vs l = Some v \<and> shortaddr v \<noteq> 0")
    case True
    then obtain v where v: "asked_inv vs l = Some v" "shortaddr v \<noteq> 0" by blast
    then have "round_one l s = exec (serve_one (line_field 0 l) (line_field 1 l) (line_field 2 l)) s"
      using g by (simp add: round_one_def uint_0_iff)
    then show ?thesis using serve_one_effect[OF assms(1) l(1) v] by simp
  next
    case False
    then have "round_one l s = exec (clear_flag_one (line_field 0 l) (line_field 1 l)) s" "\<not> stuck_one vs l"
      using g by (auto simp: round_one_def stuck_one_def split: option.splits)
    then show ?thesis using clear_flag_one_effect[OF assms(1) l(1)] by simp
  qed
qed

lemma one_turn:
  assumes "ones_ready vs s" "requests_one s = l # rs"
  shows "(case result get_value_flag_one s of (addr, i, name, value) \<Rightarrow>
      if addr = -1 then Some s
      else if addr = 0 then f (exec (clear_flag_one i name) s)
      else f (exec (serve_one i name value) s)) = f (round_one l s)"
proof -
  have "(case asked_inv vs l of None \<Rightarrow> 0 | Some v \<Rightarrow> uint (shortaddr v)) \<noteq> (-1::int)"
  proof (cases "asked_inv vs l")
    case (Some v)
    have "0 \<le> uint (shortaddr v)" by (rule u16_bounds(1))
    then have "uint (shortaddr v) \<noteq> -1" by linarith
    then show ?thesis using Some by simp
  qed simp
  then show ?thesis
    using get_value_flag_one_requests[OF assms(1), unfolded assms(2)] by (simp add: round_one_def)
qed

lemma one_hangs: "paras_one_loop s = Some r \<Longrightarrow> \<not> (ones_ready vs s \<and> (\<exists>l rs. requests_one s = l # rs \<and> stuck_one vs l))"
proof (rule paras_one_loop.raw_induct[where
      P = "\<lambda>s r. \<not> (ones_ready vs s \<and> (\<exists>l rs. requests_one s = l # rs \<and> stuck_one vs l))"], rule notI)
  fix f s r
  assume IH: "\<And>s r. f s = Some r \<Longrightarrow> \<not> (ones_ready vs s \<and> (\<exists>l rs. requests_one s = l # rs \<and> stuck_one vs l))"
    and eq: "(case result get_value_flag_one s of (addr, i, name, value) \<Rightarrow>
        if addr = -1 then Some s
        else if addr = 0 then f (exec (clear_flag_one i name) s)
        else f (exec (serve_one i name value) s)) = Some r"
    and "ones_ready vs s \<and> (\<exists>l rs. requests_one s = l # rs \<and> stuck_one vs l)"
  then obtain l rs where a: "ones_ready vs s" "requests_one s = l # rs" "stuck_one vs l" by blast
  have "f (round_one l s) = Some r" using one_turn[OF a(1,2), of f] eq by simp
  then have "\<not> (ones_ready vs (round_one l s) \<and> (\<exists>l' rs. requests_one (round_one l s) = l' # rs \<and> stuck_one vs l'))"
    by (rule IH)
  then show False using round_one_effect[OF a(1,2)] a by (simp add: requests_one_def)
qed

lemma one_request_loop:
  "request_loop paras_one_loop (ones_ready vs) requests_one (stuck_one vs) round_one (\<lambda>x. x)"
proof
  fix s
  assume r: "ones_ready vs s"
  show "paras_one_loop s = Some s" if "requests_one s = []"
    using get_value_flag_one_requests[OF r] that by (subst paras_one_loop.simps) simp
  fix l rs
  assume p: "requests_one s = l # rs"
  show "paras_one_loop s = paras_one_loop (round_one l s) \<and> ones_ready vs (round_one l s) \<and> requests_one (round_one l s) = rs"
    if "\<not> stuck_one vs l"
    using one_turn[OF r p, of paras_one_loop] round_one_effect[OF r p] that requests_one_head(3)[OF r p]
    by (subst paras_one_loop.simps) (simp add: requests_one_def)
  show "paras_one_loop s = None" if "stuck_one vs l"
    using one_hangs[of s _ vs] r p that by (cases "paras_one_loop s") auto
qed

interpretation ones: request_loop paras_one_loop "ones_ready vs" requests_one "stuck_one vs" round_one "\<lambda>x. x" for vs
  by (rule one_request_loop)

text \<open>The requests served are gone from the file, the other lines stay as they are.\<close>

lemma ones_left:
  assumes "ones_ready vs s" "paras_one_loop s = Some t"
  shows "store_lines path_setpropi t = filter (Not \<circ> flagged 3) (store_lines path_setpropi s)"
proof -
  have n: "\<forall>l \<in> set (requests_one s). \<not> stuck_one vs l" using ones.loop_ends_iff[OF assms(1)] assms(2) by blast
  then have t: "t = fold round_one (requests_one s) s" using ones.loop_serves[OF assms(1)] assms(2) by auto
  let ?P = "\<lambda>s. filter (Not \<circ> flagged 3) (store_lines path_setpropi s)"
  have "?P (fold round_one (requests_one s) s) = ?P s"
  proof (rule ones.serve_invariant[OF _ assms(1) n, where P = ?P])
    fix s l rs
    assume "ones_ready vs s" "requests_one s = l # rs" "\<not> stuck_one vs l"
    then show "?P (round_one l s) = ?P s" using round_one_effect[of vs s l rs] requests_one_head(4)[of vs s l rs] by simp
  qed
  moreover have "requests_one t = []" unfolding t by (rule ones.nothing_left[OF assms(1) n])
  then have "filter (Not \<circ> flagged 3) (store_lines path_setpropi t) = store_lines path_setpropi t"
    by (simp add: requests_one_def filter_empty_conv filter_id_conv)
  ultimately show ?thesis by (simp add: t)
qed

section \<open>When the requests end\<close>

definition same_unmarked :: "ecu_state \<Rightarrow> ecu_state \<Rightarrow> bool" where
  "same_unmarked s t = (files t = files s \<and> can_write t = can_write s
     \<and> map unmarked (inverters t) = map unmarked (inverters s))"

interpretation marks: effect same_unmarked
  by unfold_locales (auto simp: same_unmarked_def)

lemma clear_marks: "same_unmarked s (exec (for_each_inverter (\<lambda>k. upd_inv k (\<lambda>v. v\<lparr>paras_one_flag := 0\<rparr>))) s)"
proof (rule state_io_relE, rule marks.eff_for_each)
  fix i
  have "map unmarked (xs[i := unmarked (slot xs i)]) = map unmarked xs" for xs
    by (rule nth_equalityI) (auto simp: nth_list_update slot_def unmarked_def)
  then show "state_io_rel same_unmarked (upd_inv i (\<lambda>v. v\<lparr>paras_one_flag := 0\<rparr>))"
    by (simp add: state_io_rel_def upd_inv_def same_unmarked_def inv_at_def unmarked_def)
qed

text \<open>
  C10. The requests for single inverters end exactly when every one of them can be served: an
  entry is deleted for an id that is not in the table or has no address, and after it was sent to
  an inverter of model 5, 6 or 7, unless its voltages cannot be converted yet or it is a power
  factor (or, but for model 7, a relay setting). Otherwise the entry stays and the loop goes on
  for ever. When the loop ends, the entries without a flag are what is left of the file.
\<close>

theorem single_requests_end:
  assumes "store_ok path_setpropi path_setpropi_tmp s" "ones_ok (store_lines path_setpropi s)"
  shows "((\<exists>t. set_protection_paras_one s = Some t)
      \<longleftrightarrow> (\<forall>l \<in> set (requests_one s). \<not> stuck_one (inverters s) l))
    \<and> (\<forall>t. paras_one_loop s = Some t \<longrightarrow>
        store_lines path_setpropi t = filter (Not \<circ> flagged 3) (store_lines path_setpropi s))"
proof -
  define s1 where "s1 = exec (for_each_inverter (\<lambda>k. upd_inv k (\<lambda>v. v\<lparr>paras_one_flag := 0\<rparr>))) s"
  have r: "ones_ready (inverters s) s" using assms by (simp add: ones_ready_def)
  have m: "same_unmarked s s1" unfolding s1_def by (rule clear_marks)
  have r1: "ones_ready (inverters s) s1" "store_lines path_setpropi s1 = store_lines path_setpropi s"
    using same_store[OF r, of s1] m by (simp_all add: same_unmarked_def)
  have "(\<exists>t. set_protection_paras_one s = Some t) \<longleftrightarrow> (\<exists>t. paras_one_loop s1 = Some t)"
    by (simp add: set_protection_paras_one_def s1_def)
  also have "\<dots> \<longleftrightarrow> (\<forall>l \<in> set (requests_one s). \<not> stuck_one (inverters s) l)"
    using ones.loop_ends_iff[OF r1(1)] r1(2) by (simp add: requests_one_def)
  finally show ?thesis using ones_left[OF r] by blast
qed

text \<open>A power factor for an inverter that is in the table.\<close>

theorem single_requests_end_witness:
  defines "l \<equiv> ''406000000001,power_factor,11,1'' @ [NL]"
  defines "s \<equiv> blank\<lparr>files := [path_setpropi \<mapsto> l], inverters := [empty_inverter
      \<lparr>inv_id := ''406000000001'', shortaddr := 0x1234, model := 7\<rparr>]\<rparr>"
  shows "set_protection_paras_one s = None"
proof -
  have l: "short_line l" "3 \<le> length (splitString l)" "line_field 0 l = ''406000000001''" "line_field 1 l = ''power_factor''"
    "flagged 3 l" "''power_factor'' \<in> set all_names"
    unfolding l_def by code_simp+
  have "path_setpropi \<noteq> path_setpropi_tmp" by (simp add: path_setpropi_def path_setpropi_tmp_def)
  then have st: "store_ok path_setpropi path_setpropi_tmp s" "store_lines path_setpropi s = [l]"
    using l(1) by (auto simp: s_def intro!: store_intro[where ls = "[l]"])
  have "ones_ok [l]" using l by (simp add: ones_ok_def)
  moreover have "stuck_one (inverters s) l"
    using l by (simp add: stuck_one_def asked_inv_def s_def table_def clears_def volt_names_def MAXINVERTERCOUNT_def)
  ultimately show ?thesis
    using single_requests_end[OF st(1)] l(5) by (auto simp: st(2) requests_one_def)
qed

end
