(* ===== verification/Energy_History.thy ===== *)
theory Energy_History
  imports C_Float Line_Store Record_Store Ecu_Time "HOL-Library.Signed_Division"
begin

text \<open>
  The history of power and energy of \<open>ECU/main/src/file.c\<close>: the total of the unit, the file of
  powers of each month, the file of the energies of the days of a month and the file of the
  months; what the phone application reads from them, and the windows of dates it asks for.
\<close>

section \<open>Total energy\<close>

definition path_ltpower :: string where
  "path_ltpower = ''/HOME/DATA/LTPOWER''"

text \<open>A buffer of twenty characters is written in full.\<close>

definition update_life_energy :: "rat \<Rightarrow> unit ecu" where
  "update_life_energy lifetime_power = do {
     write_file path_ltpower (zext 20 (fmt_f 6 lifetime_power));
     ret () }"

definition get_lifetime_power :: "rat ecu" where
  "get_lifetime_power = do {
     f \<leftarrow> read_file path_ltpower;
     ret (case f of None \<Rightarrow> 0
       | Some content \<Rightarrow> let b = cstr (take 20 content) in
           f32 (atof (if b \<noteq> [] \<and> last b = NL then butlast b else b))) }"

section \<open>Powers\<close>

definition dir_power :: string where
  "dir_power = ''/HOME/RECORD/POWER''"

definition dir_energy :: string where
  "dir_energy = ''/HOME/RECORD/ENERGY''"

definition month_file :: "string \<Rightarrow> string \<Rightarrow> string" where
  "month_file d date = d @ ''/'' @ take 6 date @ ''.DAT''"

definition power_entry :: "string \<Rightarrow> int \<Rightarrow> string" where
  "power_entry date_time pw = take 12 date_time @ '','' @ fmt_d pw @ [NL]"

definition save_system_power :: "int \<Rightarrow> string \<Rightarrow> unit ecu" where
  "save_system_power pw date_time = do {
     emit MutexTake;
     append_file (month_file dir_power date_time) (power_entry date_time pw);
     emit MutexRelease }"

definition date_part :: "nat \<Rightarrow> nat \<Rightarrow> string \<Rightarrow> int" where
  "date_part k n date = atoi (cstr (take n (drop k date)))"

text \<open>The result -1 leaves the month that the caller has not set.\<close>

definition calculate_earliest_2_month_ago :: "string \<Rightarrow> int \<times> int option" where
  "calculate_earliest_2_month_ago date = (let y = date_part 0 4 date; m = date_part 4 2 date in
     if 3 \<le> m then (0, Some (y * 100 + (m - 2)))
     else if m = 2 then (0, Some ((y - 1) * 100 + 12))
     else if m = 1 then (0, Some ((y - 1) * 100 + 11))
     else (-1, None))"

fun unlink_until :: "string \<Rightarrow> int \<Rightarrow> string list \<Rightarrow> unit ecu" where
  "unlink_until d earliest [] = ret ()"
| "unlink_until d earliest (n # ns) = do {
     (if atoi (cstr (take 6 n)) \<le> earliest then remove_file (d @ ''/'' @ n) else ret ());
     unlink_until d earliest ns }"

text \<open>When the directory is missing, another one is created.\<close>

definition delete_system_power_2_month_ago :: "string \<Rightarrow> unit ecu" where
  "delete_system_power_2_month_ago date_time = do {
     emit MutexTake;
     ok \<leftarrow> gets (\<lambda>s. dir_exists s dir_power);
     ns \<leftarrow> gets (\<lambda>s. dir_order s dir_power);
     u \<leftarrow> gets (\<lambda>s. any_int (stale s));
     (if \<not> ok then modify (\<lambda>s. s\<lparr>dir_exists := (dir_exists s)(''/HOME/DATA/POWER'' := True)\<rparr>)
      else unlink_until dir_power (case snd (calculate_earliest_2_month_ago date_time) of None \<Rightarrow> u | Some e \<Rightarrow> e) ns);
     emit MutexRelease }"

text \<open>The bytes for the phone: two digits in one byte each, a number in two.\<close>

definition bcd :: "string \<Rightarrow> nat \<Rightarrow> byte" where
  "bcd b k = u8 ((ch b k - 48) * 16 + (ch b (k + 1) - 48))"

definition number_bytes :: "int \<Rightarrow> byte list" where
  "number_bytes n = [u8 (n sdiv 256), u8 (n smod 256)]"

definition power_bytes :: "string \<Rightarrow> string \<Rightarrow> byte list" where
  "power_bytes date_time b = (if ch b 12 = 0x2C \<and> memeq b date_time 8
     then [bcd b 8, bcd b 10] @ number_bytes (atoi (drop 13 b)) else [])"

definition read_system_power :: "string \<Rightarrow> (int \<times> byte list) ecu" where
  "read_system_power date_time = do {
     f \<leftarrow> read_file (month_file dir_power date_time);
     ret (case f of None \<Rightarrow> (-1, [])
       | Some content \<Rightarrow> (0, concat (map (\<lambda>l. power_bytes date_time (cstr l)) (fgets_lines 99 content)))) }"

section \<open>Energies\<close>

text \<open>
  An entry starts with \<open>n\<close> digits and a comma: the day (\<open>n\<close> = 8) or the month (\<open>n\<close> = 6).
\<close>

definition energy_of :: "nat \<Rightarrow> string \<Rightarrow> string \<Rightarrow> rat option" where
  "energy_of n date content = map_option (\<lambda>l. f32 (atof (drop (n + 1) (cstr l))))
     (find (\<lambda>l. ch (cstr l) n = 0x2C \<and> memeq (cstr l) date n) (fgets_lines 99 content))"

definition search_energy :: "nat \<Rightarrow> string \<Rightarrow> string \<Rightarrow> rat option ecu" where
  "search_energy n p date = do {
     emit MutexTake;
     f \<leftarrow> read_file p;
     emit MutexRelease;
     ret (Option.bind f (energy_of n date)) }"

definition search_daily_energy :: "string \<Rightarrow> rat option ecu" where
  "search_daily_energy date = search_energy 8 (month_file dir_energy date) date"

definition path_year :: string where
  "path_year = dir_energy @ ''/YEAR.DAT''"

definition search_monthly_energy :: "string \<Rightarrow> rat option ecu" where
  "search_monthly_energy date = search_energy 6 path_year date"

definition energy_entry :: "nat \<Rightarrow> string \<Rightarrow> rat \<Rightarrow> string" where
  "energy_entry n date_time energy = take n date_time @ '','' @ fmt_f 6 energy @ [NL]"

definition add_energy :: "nat \<Rightarrow> string \<Rightarrow> string \<Rightarrow> rat \<Rightarrow> string \<Rightarrow> rat option \<Rightarrow> rat ecu" where
  "add_energy n p tmp current date_time old = do {
     let energy = (case old of None \<Rightarrow> current | Some e \<Rightarrow> f32 (current + e));
     (case old of None \<Rightarrow> ret 0 | Some e \<Rightarrow> delete_line p tmp date_time n);
     emit MutexTake;
     append_file p (energy_entry n date_time energy);
     emit MutexRelease;
     ret energy }"

definition path_day_tmp :: string where
  "path_day_tmp = dir_energy @ ''/1.TMP''"

definition path_month_tmp :: string where
  "path_month_tmp = dir_energy @ ''/2.TMP''"

text \<open>The energy of the day is kept for the phone when the file could be opened.\<close>

definition update_daily_energy :: "rat \<Rightarrow> string \<Rightarrow> unit ecu" where
  "update_daily_energy current date_time = (let p = month_file dir_energy date_time in do {
     old \<leftarrow> search_daily_energy (take 8 date_time);
     e \<leftarrow> add_energy 8 p path_day_tmp current date_time old;
     ok \<leftarrow> gets (\<lambda>s. can_write s p);
     if ok then modify (\<lambda>s. s\<lparr>totals := (totals s)\<lparr>today_energy := e\<rparr>\<rparr>) else ret () })"

definition update_monthly_energy :: "rat \<Rightarrow> string \<Rightarrow> unit ecu" where
  "update_monthly_energy current date_time = do {
     old \<leftarrow> search_monthly_energy (take 6 date_time);
     add_energy 6 path_year path_month_tmp current date_time old;
     ret () }"

section \<open>Windows of dates\<close>

definition leap :: "int \<Rightarrow> nat" where
  "leap y = (if y mod 4 = 0 \<and> y mod 100 \<noteq> 0 \<or> y mod 400 = 0 then 1 else 0)"

definition day_tab :: "int list list" where
  "day_tab = [[31, 28, 31, 30, 31, 30, 31, 31, 30, 31, 30, 31], [31, 29, 31, 30, 31, 30, 31, 31, 30, 31, 30, 31]]"

definition date_num :: "int \<Rightarrow> int \<Rightarrow> int \<Rightarrow> int" where
  "date_num y m d = y * 10000 + m * 100 + d"

text \<open>The flag says that the window begins in the month before.\<close>

definition earliest_week :: "int \<Rightarrow> int \<Rightarrow> int \<Rightarrow> bool \<times> int" where
  "earliest_week y m d = (if 7 < d then (False, date_num y m d - 6)
     else let count = 7 - d;
       (y', m') = (if m - 1 = 0 then (y - 1, 12) else (y, m - 1)) in
       (True, date_num y' m' (day_tab ! leap y' ! nat (m' - 1) + 1 - count)))"

definition calculate_earliest_week :: "string \<Rightarrow> bool \<times> int" where
  "calculate_earliest_week date = earliest_week (date_part 0 4 date) (date_part 4 2 date) (date_part 6 2 date)"

definition earliest_month :: "int \<Rightarrow> int \<Rightarrow> int \<Rightarrow> bool \<times> int" where
  "earliest_month y m d = (if 28 \<le> d then (False, date_num y m 1)
     else if m - 1 = 0 then (True, date_num (y - 1) 12 (d + 1))
     else (True, date_num y (m - 1) (d + 1)))"

definition calculate_earliest_month :: "string \<Rightarrow> bool \<times> int" where
  "calculate_earliest_month date = earliest_month (date_part 0 4 date) (date_part 4 2 date) (date_part 6 2 date)"

definition calculate_earliest_year :: "string \<Rightarrow> bool \<times> int" where
  "calculate_earliest_year date = (let y = date_part 0 4 date; m = date_part 4 2 date in
     if m = 12 then (False, y * 100 + 1) else (True, (y - 1) * 100 + (m + 1)))"

section \<open>Reading the energies\<close>

text \<open>The energy in units of 0.01; the conversion is undefined out of range.\<close>

definition energy_number :: "int \<Rightarrow> string \<Rightarrow> int" where
  "energy_number u value = (let x = f64 (atof value * 100) in
     if - 2147483649 < x \<and> x < 2147483648 then to_int x else u)"

definition day_bytes :: "int \<Rightarrow> int \<Rightarrow> string \<Rightarrow> byte list" where
  "day_bytes u earliest b = (if earliest \<le> date_part 0 8 b
     then map (bcd b) [0, 2, 4, 6] @ number_bytes (energy_number u (drop 9 b)) else [])"

definition days_from :: "int \<Rightarrow> string \<Rightarrow> byte list ecu" where
  "days_from earliest p = do {
     u \<leftarrow> gets (\<lambda>s. any_int (stale s));
     f \<leftarrow> read_file p;
     ret (case f of None \<Rightarrow> []
       | Some content \<Rightarrow> concat (map (\<lambda>l. day_bytes u earliest (cstr l)) (fgets_lines 99 content))) }"

text \<open>The file of the month before is read first when the window begins there.\<close>

definition read_energies :: "bool \<times> int \<Rightarrow> string \<Rightarrow> byte list ecu" where
  "read_energies w date_time = do {
     old \<leftarrow> (if fst w then days_from (snd w) (month_file dir_energy (fmt_d (snd w))) else ret []);
     new \<leftarrow> days_from (snd w) (month_file dir_energy date_time);
     ret (old @ new) }"

definition read_weekly_energy :: "string \<Rightarrow> byte list ecu" where
  "read_weekly_energy date_time = read_energies (calculate_earliest_week date_time) date_time"

definition read_monthly_energy :: "string \<Rightarrow> byte list ecu" where
  "read_monthly_energy date_time = read_energies (calculate_earliest_month date_time) date_time"

definition month_bytes :: "int \<Rightarrow> int \<Rightarrow> string \<Rightarrow> byte list" where
  "month_bytes u earliest b = (if earliest \<le> date_part 0 6 b
     then map (bcd b) [0, 2, 4] @ [0x01] @ number_bytes (energy_number u (drop 7 b)) else [])"

definition read_yearly_energy :: "string \<Rightarrow> byte list ecu" where
  "read_yearly_energy date_time = do {
     u \<leftarrow> gets (\<lambda>s. any_int (stale s));
     f \<leftarrow> read_file path_year;
     ret (case f of None \<Rightarrow> []
       | Some content \<Rightarrow> concat (map (\<lambda>l. month_bytes u (snd (calculate_earliest_year date_time)) (cstr l))
           (fgets_lines 99 content))) }"

section \<open>Free space\<close>

text \<open>
  The file of a directory with the smallest date in its name; names that do not start with a
  number count as 0, after which the next name is taken.
\<close>

fun oldest :: "int \<times> string \<Rightarrow> string list \<Rightarrow> int \<times> string" where
  "oldest best [] = best"
| "oldest (date, p) (n # ns) = (let t = atoi (cstr (take 8 n)) in
     oldest (if t < date \<or> date = 0 then (t, n) else (date, p)) ns)"

definition checkOldFile :: "string \<Rightarrow> string option ecu" where
  "checkOldFile d = do {
     emit MutexTake;
     ok \<leftarrow> gets (\<lambda>s. dir_exists s d);
     ns \<leftarrow> gets (\<lambda>s. dir_order s d);
     (if ok then ret () else modify (\<lambda>s. s\<lparr>dir_exists := (dir_exists s)(d := True)\<rparr>));
     emit MutexRelease;
     ret (if ok \<and> fst (oldest (0, []) ns) \<noteq> 0 then Some (d @ ''/'' @ snd (oldest (0, []) ns)) else None) }"

fun delete_oldest :: "string list \<Rightarrow> unit ecu" where
  "delete_oldest [] = ret ()"
| "delete_oldest (d # ds) = do {
     f \<leftarrow> checkOldFile d;
     (case f of None \<Rightarrow> ret () | Some p \<Rightarrow> remove_file p);
     delete_oldest ds }"

text \<open>\<open>cap\<close>: the free kilobytes the file system reports, or nothing when it fails to.\<close>

definition optimizeFileSystem :: "int option \<Rightarrow> int \<Rightarrow> int ecu" where
  "optimizeFileSystem cap capsize = (case cap of
     None \<Rightarrow> ret (-1)
   | Some k \<Rightarrow> if k < capsize then do {
         emit MutexTake;
         delete_oldest [dir_proc_res, dir_iprocres, dir_inversta, dir_data];
         emit MutexRelease;
         ret 0 }
       else ret 0)"

end
