(* ===== verification/Energy_Spec.thy ===== *)
theory Energy_Spec
  imports Energy_History
begin

text \<open>
  The energies of the history: adding to a day or a month, the limits of the numbers used for
  the total, and the dates the windows of the phone application contain.
\<close>

section \<open>Adding energy\<close>

text \<open>A number printed with six decimals and read back.\<close>

lemma micro_read_back:
  assumes "0 \<le> x" "number_end t"
  shows "\<bar>f32 (atof (fmt_f 6 x @ t)) - x\<bar> \<le> 1 / 1000000 + x / 4194304" "0 \<le> f32 (atof (fmt_f 6 x @ t))"
proof -
  define h where "h = half_even (x * 10 ^ 6)"
  have h: "0 \<le> h" "\<bar>rat_of_int h - x * 1000000\<bar> \<le> 1 / 2"
    using half_even_nonneg[of "x * 10 ^ 6"] half_even_near[of "x * 10 ^ 6"] assms(1) by (simp_all add: h_def)
  define y where "y = rat_of_int h / 1000000"
  have y: "0 \<le> y" "y \<le> x + 1 / 2000000" "x - 1 / 2000000 \<le> y" using h unfolding y_def abs_le_iff by (simp, linarith, linarith)
  have a: "atof (fmt_f 6 x @ t) = f64 y" using atof_fmt_f_end[OF assms(1) _ assms(2), of 6] by (simp add: h_def y_def)
  define z where "z = f64 y"
  note e = f64_error[OF y(1), folded z_def]
  note g = f32_error[OF e(3)]
  show "0 \<le> f32 (atof (fmt_f 6 x @ t))" using g(3) by (simp add: a z_def)
  have "f32 z - x \<le> 1 / 1000000 + x / 4194304" "x - f32 z \<le> 1 / 1000000 + x / 4194304"
    using e g y assms(1) by linarith+
  then show "\<bar>f32 (atof (fmt_f 6 x @ t)) - x\<bar> \<le> 1 / 1000000 + x / 4194304"
    by (simp only: a z_def[symmetric] abs_le_iff minus_diff_eq)
qed

text \<open>A date, and the lines of a file of energies by dates of \<open>n\<close> digits.\<close>

definition date_ok :: "nat \<Rightarrow> string \<Rightarrow> bool" where
  "date_ok n date = (n \<le> length date \<and> list_all is_digit (take n date))"

definition entry_ok :: "nat \<Rightarrow> string \<Rightarrow> bool" where
  "entry_ok n l = (short_line l \<and> n < length l \<and> l ! n = CHR '','')"

lemma memeq_take: "n \<le> length b \<Longrightarrow> memeq a b n \<longleftrightarrow> memeq a (take n b) n"
  by (simp add: memeq_def zext_def)

lemma date_no_nul: "date_ok n date \<Longrightarrow> no_nul (take n date)"
  by (auto simp: date_ok_def list_all_iff no_nul_def is_digit_def NUL_def)

lemma memeq_date:
  assumes "date_ok n date"
  shows "memeq l date n \<longleftrightarrow> take n l = take n date"
  using assms memeq_take[of n date l] memeq_prefix[of "take n date" n l] date_no_nul[OF assms]
  by (simp add: date_ok_def)

lemma ch_nth: "n < length l \<Longrightarrow> ch l n = int (code (l ! n))"
  by (simp add: ch_def)

definition energies_ok :: "nat \<Rightarrow> string list \<Rightarrow> bool" where
  "energies_ok n ls = ((\<forall>l \<in> set ls. entry_ok n l) \<and> distinct (map (take n) ls))"

definition energy_ready :: "nat \<Rightarrow> string \<Rightarrow> string \<Rightarrow> ecu_state \<Rightarrow> bool" where
  "energy_ready n p tmp s = (p \<noteq> tmp \<and> can_write s p \<and> can_write s tmp \<and> (files s p = None \<or> store_ok p tmp s)
     \<and> energies_ok n (store_lines p s))"

text \<open>What is stored for a date.\<close>

definition stored :: "nat \<Rightarrow> string \<Rightarrow> string \<Rightarrow> ecu_state \<Rightarrow> rat option" where
  "stored n p date s = result (search_energy n p date) s"

lemma stored_lines:
  assumes "energy_ready n p tmp s" "date_ok n date"
  shows "stored n p date s = map_option (\<lambda>l. f32 (atof (drop (n + 1) l))) (find (\<lambda>l. take n l = take n date) (store_lines p s))"
proof (cases "files s p")
  case None
  then show ?thesis by (simp add: stored_def search_energy_def read_file_def emit_def store_lines_def)
next
  case (Some content)
  have c: "cstr l = l" "ch l n = 0x2C" if "l \<in> set (store_lines p s)" for l
    using that assms(1) by (auto simp: energy_ready_def energies_ok_def entry_ok_def short_line_def ch_nth)
  have "find (\<lambda>l. ch (cstr l) n = 0x2C \<and> memeq (cstr l) date n) (fgets_lines 99 content)
      = find (\<lambda>l. take n l = take n date) (store_lines p s)"
    using Some c memeq_date[OF assms(2)] by (intro find_cong) (auto simp: store_lines_def)
  moreover have "cstr l = l" if "find (\<lambda>l. take n l = take n date) (store_lines p s) = Some l" for l
    using that c(1) by (auto simp: find_Some_iff)
  ultimately show ?thesis
    using Some by (cases "find (\<lambda>l. take n l = take n date) (store_lines p s)")
      (simp_all add: stored_def search_energy_def read_file_def emit_def energy_of_def)
qed

lemma length_micro:
  assumes "0 \<le> x" "x \<le> 1000000000"
  shows "length (fmt_f 6 x) \<le> 20"
proof -
  define k where "k = half_even (x * 10 ^ 6)"
  have "rat_of_int k \<le> x * 1000000 + 1 / 2" using half_even_near[of "x * 10 ^ 6"] unfolding k_def abs_le_iff by simp
  then have "rat_of_int k \<le> rat_of_int (2 * 10 ^ 15)" using assms(2) by simp
  then have "k \<le> 2 * 10 ^ 15" by (simp only: of_int_le_iff)
  then have "nat k div 10 ^ 6 < 10 ^ 10" by simp
  then have "length (dec (nat k div 10 ^ 6)) \<le> 10" by (rule length_dec_le) simp
  moreover have "length (pad0 6 (dec (nat k mod 10 ^ 6))) = 6" by (intro length_pad0 length_dec_le) simp_all
  ultimately show ?thesis using assms(1) by (simp add: fmt_f_def k_def Let_def)
qed

lemma energy_entry_facts:
  assumes "date_ok n date" "n \<le> 8" "0 \<le> e" "e \<le> 1000000000"
  shows "entry_ok n (energy_entry n date e)" "take n (energy_entry n date e) = take n date"
    "drop (n + 1) (energy_entry n date e) = fmt_f 6 e @ [NL]"
proof -
  have l: "length (take n date) = n" using assms(1) by (simp add: date_ok_def)
  show "take n (energy_entry n date e) = take n date" "drop (n + 1) (energy_entry n date e) = fmt_f 6 e @ [NL]"
    using l by (simp_all add: energy_entry_def)
  have "plain (take n date)"
    using assms(1) by (auto simp: date_ok_def list_all_iff plain_def intro: is_digit_plain)
  moreover have "c \<noteq> NL \<and> c \<noteq> NUL" if "c \<in> set (fmt_f 6 e)" for c
    using fmt_f_chars[OF that] by (auto simp: is_digit_def NL_def NUL_def)
  ultimately have "is_line ((take n date @ '','' @ fmt_f 6 e) @ [NL])"
    by (intro is_lineI) (auto simp: NL_def NUL_def dest!: plain_line)
  moreover have "length (energy_entry n date e) \<le> 99" using length_micro[OF assms(3,4)] assms(2) l by (simp add: energy_entry_def)
  ultimately show "entry_ok n (energy_entry n date e)"
    using l by (simp add: entry_ok_def short_line_def energy_entry_def nth_append)
qed

text \<open>What adding an energy makes of the file.\<close>

definition sum_energy :: "rat \<Rightarrow> rat option \<Rightarrow> rat" where
  "sum_energy current old = (case old of None \<Rightarrow> current | Some e \<Rightarrow> f32 (current + e))"

lemma energies_added:
  assumes "energies_ok n ls" "date_ok n date" "entry_ok n l" "take n l = take n date"
  defines "ls' \<equiv> filter (\<lambda>l. take n l \<noteq> take n date) ls @ [l]"
  shows "energies_ok n ls'"
    "find (\<lambda>x. take n x = take n d) ls' = (if take n d = take n date then Some l else find (\<lambda>x. take n x = take n d) ls)"
proof -
  show "energies_ok n ls'"
    using assms by (auto simp: energies_ok_def distinct_map_filter)
  have "find P (xs @ ys) = (case find P xs of None \<Rightarrow> find P ys | Some x \<Rightarrow> Some x)" for P and xs ys :: "string list"
    by (induction xs) auto
  moreover have "find (\<lambda>x. take n x = take n d) (filter (\<lambda>l. take n l \<noteq> take n date) ls)
      = (if take n d = take n date then None else find (\<lambda>x. take n x = take n d) ls)"
    by (induction ls) auto
  ultimately show "find (\<lambda>x. take n x = take n d) ls'
      = (if take n d = take n date then Some l else find (\<lambda>x. take n x = take n d) ls)"
    using assms(4) by (auto simp: ls'_def split: option.splits)
qed

lemma append_energy:
  assumes "p \<noteq> tmp" "can_write s p" "can_write s tmp" "files s p = None \<or> store_ok p tmp s" "short_line l"
  shows "store_ok p tmp (exec (append_file p l) s)" "store_lines p (exec (append_file p l) s) = store_lines p s @ [l]"
proof -
  obtain ls where ls: "store_lines p s = ls" "\<forall>x \<in> set ls. short_line x"
    "files (exec (append_file p l) s) p = Some (concat (ls @ [l]))"
  proof (cases "files s p")
    case None
    show ?thesis by (rule that[of "[]"]) (use None assms(2) in \<open>simp_all add: store_lines_def append_file_def\<close>)
  next
    case (Some content)
    then have "store_ok p tmp s" using assms(4) by simp
    then obtain ls where "files s p = Some (concat ls)" "\<And>x. x \<in> set ls \<Longrightarrow> short_line x" "store_lines p s = ls"
      by (rule store_okE) blast
    then show ?thesis by (intro that[of ls]) (use assms(2) in \<open>auto simp: append_file_def\<close>)
  qed
  have "can_write (exec (append_file p l) s) = can_write s" by (simp add: append_file_def)
  then show "store_ok p tmp (exec (append_file p l) s)" "store_lines p (exec (append_file p l) s) = store_lines p s @ [l]"
    using store_intro[of "exec (append_file p l) s" p "ls @ [l]" tmp] ls assms by simp_all
qed

lemma trace_store:
  "store_ok p tmp (s\<lparr>trace := tr\<rparr>) = store_ok p tmp s" "store_lines p (s\<lparr>trace := tr\<rparr>) = store_lines p s"
  "store_ok p tmp (s\<lparr>totals := tt\<rparr>) = store_ok p tmp s" "store_lines p (s\<lparr>totals := tt\<rparr>) = store_lines p s"
  by (simp_all add: store_ok_def store_lines_def)

lemma add_energy_effect:
  fixes current :: rat
  assumes "energy_ready n p tmp s" "date_ok n date" "n \<le> 8"
  defines "e \<equiv> sum_energy current (stored n p date s)"
  assumes "0 \<le> e" "e \<le> 1000000000"
  defines "t \<equiv> exec (add_energy n p tmp current date (stored n p date s)) s"
  shows "energy_ready n p tmp t"
    "store_lines p t = filter (\<lambda>l. take n l \<noteq> take n date) (store_lines p s) @ [energy_entry n date e]"
proof -
  note r = assms(1)[unfolded energy_ready_def]
  note en = energy_entry_facts[OF assms(2,3,5,6)]
  let ?fs = "filter (\<lambda>l. take n l \<noteq> take n date) (store_lines p s)"
  define s1 where "s1 = exec (case stored n p date s of None \<Rightarrow> ret 0 | Some e \<Rightarrow> delete_line p tmp date n) s"
  have s1: "files s1 p = None \<or> store_ok p tmp s1" "store_lines p s1 = ?fs" "can_write s1 = can_write s"
  proof -
    have "(files s1 p = None \<or> store_ok p tmp s1) \<and> store_lines p s1 = ?fs \<and> can_write s1 = can_write s"
    proof (cases "stored n p date s")
      case None
      then have "find (\<lambda>l. take n l = take n date) (store_lines p s) = None" using stored_lines[OF assms(1,2)] by simp
      then have "?fs = store_lines p s" by (auto simp: find_None_iff filter_id_conv)
      then show ?thesis using r None by (simp add: s1_def)
    next
      case (Some x)
      then have "files s p \<noteq> None" by (auto simp: stored_def search_energy_def read_file_def emit_def bind_eq_Some_conv)
      then have ok: "store_ok p tmp s" using r by auto
      have k: "length (take n date) = n" "no_nul (take n date)" using assms(2) date_no_nul by (simp_all add: date_ok_def)
      have "delete_line p tmp date n = delete_line p tmp (take n date) (length (take n date))"
        using assms(2) memeq_take[of n date] k(1) by (simp add: delete_line_def date_ok_def)
      then show ?thesis
        using Some store_after_delete[OF ok k(2)] run_delete_prefix[OF ok k(2)] k(1) by (simp add: s1_def)
    qed
    then show "files s1 p = None \<or> store_ok p tmp s1" "store_lines p s1 = ?fs" "can_write s1 = can_write s" by auto
  qed
  define s2 where "s2 = exec (emit MutexTake) s1"
  have s2: "files s2 p = None \<or> store_ok p tmp s2" "store_lines p s2 = ?fs" "can_write s2 = can_write s"
    using s1 by (simp_all add: s2_def emit_def trace_store)
  have w: "p \<noteq> tmp" "can_write s2 p" "can_write s2 tmp" using r s2(3) by auto
  have "short_line (energy_entry n date e)" using en(1) by (simp add: entry_ok_def)
  note a = append_energy[OF w s2(1) this]
  have t: "t = exec (emit MutexRelease) (exec (append_file p (energy_entry n date e)) s2)"
    by (simp add: t_def add_energy_def Let_def exec_bind e_def sum_energy_def s1_def s2_def del: run_state_bind)
  show l: "store_lines p t = ?fs @ [energy_entry n date e]" using a s2(2) by (simp add: t emit_def trace_store)
  have "energies_ok n (store_lines p t)"
    unfolding l using r en(1,2) assms(2) by (intro energies_added(1)) auto
  moreover have "can_write t = can_write s" "store_ok p tmp t"
    using a(1) s2(3) by (simp_all add: t emit_def trace_store append_file_def)
  ultimately show "energy_ready n p tmp t" using r by (simp add: energy_ready_def)
qed

lemma month_file_facts:
  "month_file dir_energy date \<noteq> path_day_tmp" "path_year \<noteq> path_month_tmp" "month_file dir_energy (take 8 date) = month_file dir_energy date"
proof -
  have "length (month_file dir_energy date) \<noteq> length path_day_tmp \<or> month_file dir_energy date \<noteq> path_day_tmp"
    by (auto simp: month_file_def path_day_tmp_def dir_energy_def)
  moreover have "rev (month_file dir_energy date) \<noteq> rev path_day_tmp"
    by (simp add: month_file_def path_day_tmp_def dir_energy_def)
  ultimately show "month_file dir_energy date \<noteq> path_day_tmp" by metis
  show "path_year \<noteq> path_month_tmp" by (simp add: path_year_def path_month_tmp_def)
  show "month_file dir_energy (take 8 date) = month_file dir_energy date" by (simp add: month_file_def min_def)
qed

lemma ready_trace: "energy_ready n p tmp (s\<lparr>trace := tr\<rparr>) = energy_ready n p tmp s"
  "energy_ready n p tmp (s\<lparr>totals := tt\<rparr>) = energy_ready n p tmp s"
  by (simp_all add: energy_ready_def trace_store)

lemma stored_trace: "stored n p date (s\<lparr>trace := tr\<rparr>) = stored n p date s"
  "stored n p date (s\<lparr>totals := tt\<rparr>) = stored n p date s"
  by (simp_all add: stored_def search_energy_def read_file_def emit_def)

lemma search_energy_run: "run_state (search_energy n p date) s = (stored n p date s, s\<lparr>trace := trace s @ [MutexTake, MutexRelease]\<rparr>)"
  by (simp add: stored_def search_energy_def emit_def read_file_def)

text \<open>What is stored for any date after an energy was added for one.\<close>

lemma energy_stored:
  assumes "energy_ready n p tmp s" "date_ok n date" "n \<le> 8" "0 \<le> sum_energy current (stored n p date s)"
    "sum_energy current (stored n p date s) \<le> 1000000000" "date_ok n d"
  shows "stored n p d (exec (add_energy n p tmp current date (stored n p date s)) s)
    = (if take n d = take n date
       then Some (f32 (atof (fmt_f 6 (sum_energy current (stored n p date s)) @ [NL])))
       else stored n p d s)"
proof -
  note a = add_energy_effect[OF assms(1-5)]
  note en = energy_entry_facts[OF assms(2-5)]
  have "energies_ok n (store_lines p s)" using assms(1) by (simp add: energy_ready_def)
  note f = energies_added(2)[OF this assms(2) en(1,2), of d]
  show ?thesis
    unfolding stored_lines[OF a(1) assms(6)] stored_lines[OF assms(1,6)] a(2) f using en(3) by simp
qed



section \<open>The total\<close>

text \<open>
  The total is a \<open>float\<close>. From 131072 kWh on its last place is 1/64 kWh, and what a round of five
  minutes adds is lost when it is less than half of that.
\<close>

lemma life_energy_stalls:
  assumes "0 \<le> x" "x < 1 / 128"
  shows "f32 (131072 + x) = 131072"
proof -
  have "half_even ((131072 + x) / pow2 (-6)) = 8388608"
    by (rule half_even_unique) (use assms in \<open>simp add: pow2_def abs_if\<close>)
  then show ?thesis using round_to_at[of "-6" 24 "131072 + x"] assms by (simp add: pow2_def)
qed

section \<open>The last seven days\<close>

definition valid_date :: "int \<Rightarrow> int \<Rightarrow> int \<Rightarrow> bool" where
  "valid_date y m d = (1970 \<le> y \<and> y \<le> 2099 \<and> 1 \<le> m \<and> m \<le> 12 \<and> 1 \<le> d \<and> d \<le> day_tab ! leap y ! nat (m - 1))"

definition midnight :: "int \<Rightarrow> int \<Rightarrow> int \<Rightarrow> DATETIME" where
  "midnight y m d = \<lparr>second = 0, minute = 0, hour = 0, day = of_int d, month = of_int m, year = of_int (y mod 100),
     century = of_int (y div 100)\<rparr>"

text \<open>The day numbers in closed form.\<close>

definition days_to_year :: "int \<Rightarrow> int" where
  "days_to_year y = 365 * (y - 1970) + (y - 1969) div 4"

definition days_to_month :: "int \<Rightarrow> int \<Rightarrow> int" where
  "days_to_month y m = days_before ! nat (m - 1) + (if y mod 4 = 0 \<and> 3 \<le> m then 1 else 0)"

lemma uint_small: "0 \<le> n \<Longrightarrow> n < 256 \<Longrightarrow> uint (of_int n :: byte) = n"
  by (simp add: uint_word_of_int)

lemma month_length: "1 \<le> m \<Longrightarrow> m \<le> 12 \<Longrightarrow> 28 \<le> day_tab ! leap y ! nat (m - 1) \<and> day_tab ! leap y ! nat (m - 1) \<le> 31"
proof -
  have "\<forall>k < 12. \<forall>b < 2. 28 \<le> day_tab ! b ! k \<and> day_tab ! b ! k \<le> 31" by code_simp
  moreover assume "1 \<le> m" "m \<le> 12"
  moreover have "leap y < 2" by (simp add: leap_def)
  moreover have "nat (m - 1) < 12" using \<open>m \<le> 12\<close> by linarith
  ultimately show ?thesis by blast
qed

lemma green_days_midnight:
  assumes "valid_date y m d"
  shows "green_days (midnight y m d) = days_to_year y + days_to_month y m + (d - 1)"
proof -
  have b: "d \<le> 31" using assms month_length[of m y] by (auto simp: valid_date_def)
  have u: "uint (century (midnight y m d)) = y div 100" "uint (year (midnight y m d)) = y mod 100"
    "uint (month (midnight y m d)) = m" "uint (day (midnight y m d)) = d"
    using assms b by (auto simp: midnight_def valid_date_def intro!: uint_small)
  have "(y - 1970) div 4 * (365 * 3 + 366) + (if 3 \<le> (y - 1970) mod 4 then ((y - 1970) mod 4 - 1) * 365 + 366
      else (y - 1970) mod 4 * 365) = days_to_year y"
  proof -
    define q r where "q = (y - 1970) div 4" and "r = (y - 1970) mod 4"
    have y: "y - 1970 = 4 * q + r" "0 \<le> r" "r < 4" by (simp_all add: q_def r_def)
    have "y - 1969 = (r + 1) + q * 4" using y(1) by simp
    then have "(y - 1969) div 4 = q + (r + 1) div 4" by simp
    moreover have "(r + 1) div 4 = (if 3 \<le> r then 1 else 0)" using y(2,3) by auto
    ultimately show ?thesis using y by (auto simp: days_to_year_def q_def[symmetric] r_def[symmetric])
  qed
  then show ?thesis
    using assms by (simp add: green_days_def u div_mult_mod_eq days_to_month_def valid_date_def Let_def)
qed

lemma leap_fourth:
  assumes "1970 \<le> y" "y \<le> 2099"
  shows "leap y = (if y mod 4 = 0 then 1 else 0)"
proof -
  have "1970 div 100 \<le> y div 100" "y div 100 \<le> 2099 div 100" using assms by (intro zdiv_mono1; simp)+
  then have "y div 100 = 19 \<or> y div 100 = 20" by auto
  moreover have "y = 100 * (y div 100) + y mod 100" by simp
  ultimately have h: "y mod 100 = 0 \<Longrightarrow> y = 2000" using assms by auto
  have "y = 2000" if "y mod 400 = 0"
  proof -
    have "400 dvd y" using that by (rule mod_0_imp_dvd)
    then have "100 dvd y" using dvd_trans[of 100 400 y] by simp
    then show ?thesis using h by (simp add: dvd_eq_mod_eq_0)
  qed
  then show ?thesis using h by (auto simp: leap_def)
qed

lemma next_month:
  assumes "1970 \<le> y" "y \<le> 2099" "1 \<le> m" "m < 12"
  shows "days_to_month y (m + 1) = days_to_month y m + day_tab ! leap y ! nat (m - 1)"
proof -
  have "m = 1 \<or> m = 2 \<or> m = 3 \<or> m = 4 \<or> m = 5 \<or> m = 6 \<or> m = 7 \<or> m = 8 \<or> m = 9 \<or> m = 10 \<or> m = 11"
    using assms(3,4) by presburger
  then show ?thesis
    unfolding leap_fourth[OF assms(1,2)]
    by (elim disjE; simp add: days_to_month_def days_before_def day_tab_def)
qed

lemma next_year:
  assumes "1970 \<le> y" "y \<le> 2099"
  shows "days_to_year (y + 1) = days_to_year y + days_to_month y 12 + day_tab ! leap y ! 11"
proof -
  have "(y - 1968) div 4 = (y - 1969) div 4 + (if y mod 4 = 0 then 1 else 0)"
  proof -
    define q r where "q = y div 4" and "r = y mod 4"
    have y: "y = 4 * q + r" "0 \<le> r" "r < 4" by (simp_all add: q_def r_def)
    have "y - 1968 = r + (q - 492) * 4" "y - 1969 = (r + 3) + (q - 493) * 4" using y(1) by simp_all
    then have "(y - 1968) div 4 = q - 492 + r div 4" "(y - 1969) div 4 = q - 493 + (r + 3) div 4" by simp_all
    moreover have "r div 4 = 0" "(r + 3) div 4 = (if r = 0 then 0 else 1)" using y(2,3) by auto
    ultimately show ?thesis by (simp add: r_def[symmetric])
  qed
  then show ?thesis
    unfolding leap_fourth[OF assms] by (simp add: days_to_month_def days_before_def day_tab_def days_to_year_def)
qed

lemma months_mono:
  assumes "1970 \<le> y" "y \<le> 2099" "1 \<le> m" "m \<le> n" "n \<le> 12"
  shows "days_to_month y m \<le> days_to_month y n"
proof -
  have "m \<le> n \<Longrightarrow> n \<le> 12 \<Longrightarrow> days_to_month y m \<le> days_to_month y n"
  proof (induction n rule: int_ge_induct)
    case (step n)
    then show ?case using next_month[of y n] month_length[of n y] assms(1-3) by simp
  qed simp
  then show ?thesis using assms by blast
qed

lemma years_mono: "y \<le> z \<Longrightarrow> days_to_year y \<le> days_to_year z"
proof -
  assume a: "y \<le> z"
  then have "(y - 1969) div 4 \<le> (z - 1969) div 4" by (intro zdiv_mono1) simp_all
  then show ?thesis using a by (simp add: days_to_year_def)
qed

lemma month_start: "days_to_month y 1 = 0"
  by (simp add: days_to_month_def days_before_def)

text \<open>A date before a month lies before its first day.\<close>

lemma before_month:
  assumes "valid_date y' m' d'" "1970 \<le> y" "y \<le> 2099" "1 \<le> m" "m \<le> 12" "y' < y \<or> y' = y \<and> m' < m"
  shows "days_to_year y' + days_to_month y' m' + (d' - 1) < days_to_year y + days_to_month y m"
proof -
  have v: "1970 \<le> y'" "y' \<le> 2099" "1 \<le> m'" "m' \<le> 12" "d' \<le> day_tab ! leap y' ! nat (m' - 1)"
    using assms(1) by (simp_all add: valid_date_def)
  consider "y' = y" "m' < m" | "y' < y" using assms(6) by blast
  then show ?thesis
  proof cases
    case 1
    then have "days_to_month y (m' + 1) \<le> days_to_month y m" using assms v by (intro months_mono) auto
    then show ?thesis using next_month[of y m'] v 1 assms(5) by simp
  next
    case 2
    then have a: "days_to_year (y' + 1) \<le> days_to_year y" by (intro years_mono) simp
    have b: "0 \<le> days_to_month y m" using months_mono[of y 1 m] assms month_start by simp
    have c: "days_to_month y' m' + day_tab ! leap y' ! nat (m' - 1) \<le> days_to_month y' 12 + day_tab ! leap y' ! 11"
    proof (cases "m' = 12")
      case False
      then have "days_to_month y' (m' + 1) \<le> days_to_month y' 12" using v by (intro months_mono) auto
      then show ?thesis using next_month[of y' m'] v False month_length[of 12 y'] by simp
    qed simp
    show ?thesis using a b c v(5) next_year[OF v(1,2)] by linarith
  qed
qed

lemma date_num_less:
  assumes "valid_date y' m' d'" "y' < y \<or> y' = y \<and> m' < m" "1 \<le> m" "1 \<le> d"
  shows "date_num y' m' d' < date_num y m d"
proof -
  have "d' \<le> 31" "m' \<le> 12" using assms(1) month_length[of m' y'] by (auto simp: valid_date_def)
  then show ?thesis using assms(2-4) by (auto simp: date_num_def)
qed

text \<open>
  C29. The window of a week that the phone asks for contains exactly the last seven days: of two
  valid dates between 1970 and 2099, the earlier one is not before the number computed for the
  later one exactly when at most six days lie between them, counted by the calendar of
  \<open>GreenTimeSwitch\<close>.
\<close>

theorem week_is_seven_days:
  assumes "valid_date y m d" "valid_date y' m' d'" "date_num y' m' d' \<le> date_num y m d"
  shows "snd (earliest_week y m d) \<le> date_num y' m' d'
    \<longleftrightarrow> green_days (midnight y m d) - green_days (midnight y' m' d') \<le> 6"
proof -
  have v: "1970 \<le> y" "y \<le> 2099" "1 \<le> m" "m \<le> 12" "1 \<le> d" and v': "1970 \<le> y'" "1 \<le> m'" "m' \<le> 12" "1 \<le> d'"
    using assms(1,2) by (simp_all add: valid_date_def)
  note g = green_days_midnight[OF assms(1)] green_days_midnight[OF assms(2)]
  have le: "y' < y \<or> y' = y \<and> m' < m \<or> y' = y \<and> m' = m"
  proof (rule ccontr)
    assume "\<not> ?thesis"
    then have "y < y' \<or> y = y' \<and> m < m'" by auto
    then show False using date_num_less[OF assms(1) _ v'(2,4), of y'] assms(3) by auto
  qed
  show ?thesis
  proof (cases "7 < d")
    case True
    then have e: "snd (earliest_week y m d) = date_num y m (d - 6)" by (simp add: earliest_week_def date_num_def)
    show ?thesis
    proof (cases "y' = y \<and> m' = m")
      case True
      then show ?thesis unfolding e g by (auto simp: date_num_def)
    next
      case False
      then have l: "y' < y \<or> y' = y \<and> m' < m" using le by blast
      have "date_num y' m' d' < date_num y m (d - 6)" using True by (intro date_num_less[OF assms(2) l v(3)]) simp
      moreover note before_month[OF assms(2) v(1-4) l]
      ultimately show ?thesis unfolding e g using True by linarith
    qed
  next
    case False
    define yp mp where "yp = (if m = 1 then y - 1 else y)" and "mp = (if m = 1 then 12 else m - 1)"
    define len where "len = day_tab ! leap yp ! nat (mp - 1)"
    have e: "snd (earliest_week y m d) = date_num yp mp (len + d - 6)"
      using False by (simp add: earliest_week_def yp_def mp_def len_def Let_def date_num_def)
    have len: "28 \<le> len" using month_length[of mp yp] v by (simp add: len_def mp_def)
    show ?thesis
    proof (cases "y' = y \<and> m' = m")
      case True
      moreover have "date_num yp mp (len + d - 6) \<le> date_num y m d'"
        using month_length[of mp yp] v v' False by (auto simp: date_num_def yp_def mp_def len_def)
      ultimately show ?thesis unfolding e g using False v' by auto
    next
      case out: False
      then have l: "y' < y \<or> y' = y \<and> m' < m" using le by blast
      have yp: "1970 \<le> yp" "yp \<le> 2099" "1 \<le> mp" "mp \<le> 12" using v l v' by (auto simp: yp_def mp_def)
      have prev: "days_to_year y + days_to_month y m = days_to_year yp + days_to_month yp mp + len"
        using next_month[of yp "m - 1"] next_year[of yp] yp v month_start by (auto simp: yp_def mp_def len_def)
      show ?thesis
      proof (cases "y' = yp \<and> m' = mp")
        case True
        then show ?thesis unfolding e g prev by (auto simp: date_num_def)
      next
        case b: False
        then have lp: "y' < yp \<or> y' = yp \<and> m' < mp" using l v' by (auto simp: yp_def mp_def split: if_splits)
        have "date_num y' m' d' < date_num yp mp (len + d - 6)"
          using len v by (intro date_num_less[OF assms(2) lp yp(3)]) simp
        moreover note before_month[OF assms(2) yp lp]
        ultimately show ?thesis unfolding e g prev using len v by linarith
      qed
    qed
  qed
qed

text \<open>The first of March of a leap year: the window begins on the 24th of February.\<close>

theorem week_is_seven_days_witness:
  "earliest_week 2020 3 1 = (True, 20200224)
   \<and> green_days (midnight 2020 3 1) - green_days (midnight 2020 2 24) \<le> 6
   \<and> \<not> green_days (midnight 2020 3 1) - green_days (midnight 2020 2 23) \<le> 6"
proof -
  have e: "earliest_week 2020 3 1 = (True, 20200224)" by code_simp
  have v: "valid_date 2020 3 1" "valid_date 2020 2 24" "valid_date 2020 2 23" by code_simp+
  show ?thesis
    using week_is_seven_days[OF v(1,2)] week_is_seven_days[OF v(1,3)] e by (simp add: date_num_def)
qed

end
