(* ===== verification/Poll_Round.thy ===== *)
theory Poll_Round
  imports Poll_Report Energy_History Protection_One Bind_Inverters Upload_Client
begin

text \<open>
  A round of polling (\<open>zb_query_data\<close>, \<open>process_all\<close> and \<open>getalldata\<close> of
  \<open>ECU/main/src/zigbee.c\<close>) and the main thread around it (\<open>main-thread.c\<close>): start-up, and one
  turn of the endless loop. Jobs that may run for ever make the round one that may not end.
\<close>

section \<open>One inverter\<close>

definition data_frame :: "int \<times> byte list \<Rightarrow> bool" where
  "data_frame r = (fst r \<noteq> 0 \<and> fst r mod 88 = 0 \<and> snd r ! 0 = 0xFB \<and> snd r ! 1 = 0xFB
     \<and> snd r ! 86 = 0xFE \<and> snd r ! 87 = 0xFE)"

text \<open>The sum of the bytes 2 to 83; a sum field of zeros is accepted as well.\<close>

definition data_sum_ok :: "byte list \<Rightarrow> bool" where
  "data_sum_ok d = (let check = sum_list (map uint (take 82 (drop 2 d))) in
     d ! 84 = 0 \<and> d ! 85 = 0 \<or> check div 256 = uint (d ! 84) \<and> check mod 256 = uint (d ! 85))"

definition query_frame :: "byte list" where
  "query_frame = [0xFB, 0xFB, 0x06, 0xBB, 0, 0, 0, 0, 0, 0, 0xC1, 0xFE, 0xFE]"

text \<open>The decoding of a frame by the model of the inverter and the code of the answer.\<close>

definition decode_data :: "int \<Rightarrow> string \<Rightarrow> int \<Rightarrow> byte list \<Rightarrow> inverter \<Rightarrow> inverter option" where
  "decode_data type bt u d v = (
     if model v = 7 then
       (if d ! 3 = 0xBB then map_option (\<lambda>w. w\<lparr>deputy_model := 1\<rparr>) (resolvedata_600 type bt u (drop 4 d) v)
        else if d ! 3 = 0xB1 then map_option (\<lambda>w. w\<lparr>deputy_model := 2\<rparr>) (resolvedata_600_new type bt u (drop 4 d) v)
        else Some v)
     else if model v = 5 \<or> model v = 6 then Some (resolvedata_1000 type bt u (drop 4 d) v)
     else Some v)"

definition zb_query_data :: "nat \<Rightarrow> ecu_state \<Rightarrow> (int \<times> ecu_state) option" where
  "zb_query_data k s = (let
     (r, t) = run_state (do { clear_zbmodem; zb_send_cmd k query_frame; zb_get_reply k }) s in
     if data_frame r \<and> data_sum_ok (snd r) then
       map_option (\<lambda>w. (1, exec (upd_inv k (\<lambda>v. w)) t))
         (decode_data (ecu_type (totals t)) (broadcast_time (totals t)) (any_int (stale t)) (snd r)
           ((inv_at t k)\<lparr>no_getdata_num := 0, dataflag := 1\<rparr>))
     else Some (-1, exec (upd_inv k (\<lambda>v. v\<lparr>dataflag := 0\<rparr>)) t))"

section \<open>The jobs between the inverters\<close>

text \<open>One after the other, as long as each ends.\<close>

fun run_jobs :: "(ecu_state \<Rightarrow> ecu_state option) list \<Rightarrow> ecu_state \<Rightarrow> ecu_state option" where
  "run_jobs [] s = Some s"
| "run_jobs (j # js) s = (case j s of None \<Rightarrow> None | Some t \<Rightarrow> run_jobs js t)"

definition job :: "'a ecu \<Rightarrow> ecu_state \<Rightarrow> ecu_state option" where
  "job m s = Some (exec m s)"

definition process_all :: "ecu_state \<Rightarrow> ecu_state option" where
  "process_all = run_jobs [processpower, job process_turn_on_off, job process_quick_boot, job process_ipp,
     job process_ird_all, process_ird, turn_on_off, job clear_gfdi,
     set_protection_parameters, set_protection_parameters_inverter_one]"

section \<open>A round\<close>

text \<open>The readings that a round clears first.\<close>

definition reset_slot :: "inverter \<Rightarrow> inverter" where
  "reset_slot v = v\<lparr>dataflag := 0, meas := (meas v)\<lparr>
     m_gf := 0, m_it := 0, phase_a := (phase_a (meas v))\<lparr>p_gv := 0\<rparr>,
     panel_a := (panel_a (meas v))\<lparr>p_dv := 0, p_di := 0, p_op := 0, p_curgeneration := 0\<rparr>,
     panel_b := (panel_b (meas v))\<lparr>p_dv := 0, p_di := 0, p_op := 0, p_curgeneration := 0\<rparr>,
     m_status_send_flag := 0, m_status_web := [], m_status := [], m_statusb := []\<rparr>\<rparr>"

definition reset_inverter :: "int ecu" where
  "reset_inverter = do {
     modify (\<lambda>s. s\<lparr>inverters := map reset_slot (take MAXINVERTERCOUNT (inverters s)) @ drop MAXINVERTERCOUNT (inverters s)\<rparr>);
     ret 1 }"

text \<open>Up to three tests of the module, with a reset after each that fails.\<close>

fun test_module :: "nat \<Rightarrow> unit ecu" where
  "test_module 0 = ret ()"
| "test_module (Suc n) = do {
     r \<leftarrow> zb_test_communication;
     if r = -1 then do { zigbee_reset; test_module n } else ret () }"

definition bind_one :: "nat \<Rightarrow> bool ecu" where
  "bind_one k = do {
     v \<leftarrow> get_inv k;
     if bindflag v \<noteq> 1 then do {
       r \<leftarrow> zb_turnoff_limited_rptid (uint (shortaddr v)) k;
       if r = 1 then do { upd_inv k (\<lambda>v. v\<lparr>bindflag := 1\<rparr>); updateID; ret False } else ret True }
     else ret False }"

definition ask_model :: "nat \<Rightarrow> bool ecu" where
  "ask_model k = do {
     v \<leftarrow> get_inv k;
     if model v = 0 then do {
       r \<leftarrow> zb_query_inverter_info k;
       if r = 1 then do { updateID; ret False } else ret True }
     else ret False }"

text \<open>The result says whether another pass is needed because of this inverter.\<close>

definition query_one :: "nat \<Rightarrow> ecu_state \<Rightarrow> (bool \<times> ecu_state) option" where
  "query_one k s = (case process_all s of
      None \<Rightarrow> None
    | Some s1 \<Rightarrow>
        (let (a, s2) = run_state (bind_one k) s1; (b, s3) = run_state (ask_model k) s2 in
         if model (inv_at s3 k) = 0 then Some (a \<or> b, s3)
         else map_option (\<lambda>(r, s4). (a \<or> b \<or> r = -1, exec (delay_ms 200) s4)) (zb_query_data k s3)))"

fun poll_pass :: "bool \<Rightarrow> nat \<Rightarrow> nat \<Rightarrow> bool \<Rightarrow> ecu_state \<Rightarrow> (bool \<times> ecu_state) option" where
  "poll_pass first 0 k again s = Some (again, s)"
| "poll_pass first (Suc n) k again s = (
     if length (inv_id (inv_at s k)) = 12 then
       (let s1 = (if first then exec (upd_inv k reset_slot) s else s); v = inv_at s1 k in
        if dataflag v = 0 \<and> shortaddr v \<noteq> 0 then
          (case query_one k s1 of
             None \<Rightarrow> None
           | Some (b, s2) \<Rightarrow> poll_pass first n (Suc k) (again \<or> b) s2)
        else poll_pass first n (Suc k) again s1)
     else Some (again, s))"

text \<open>Five passes at most.\<close>

fun poll_passes :: "nat \<Rightarrow> bool \<Rightarrow> ecu_state \<Rightarrow> ecu_state option" where
  "poll_passes 0 first s = Some s"
| "poll_passes (Suc n) first s = (case poll_pass first MAXINVERTERCOUNT 0 False s of
      None \<Rightarrow> None
    | Some (again, t) \<Rightarrow> if again then poll_passes n False t else Some t)"

definition count_failure :: "inverter \<Rightarrow> inverter" where
  "count_failure v = (if dataflag v = 0 \<and> length (inv_id v) = 12
     then v\<lparr>no_getdata_num := (if uint (no_getdata_num v) + 1 > 254 then 254 else no_getdata_num v + 1)\<rparr> else v)"

definition answered :: "inverter list \<Rightarrow> inverter list" where
  "answered vs = filter (\<lambda>v. dataflag v = 1) (table vs)"

definition power_of :: "inverter \<Rightarrow> int" where
  "power_of v = (let w = meas v in p_op (panel_a w) + p_op (panel_b w) + p_op (panel_c w) + p_op (panel_d w))"

text \<open>The energies are added one by one in single precision.\<close>

definition energies_of :: "inverter \<Rightarrow> rat list" where
  "energies_of v = (let w = meas v in
     if model v = 5 \<or> model v = 6 \<or> model v = 7
     then [p_curgeneration (panel_a w), p_curgeneration (panel_b w), p_curgeneration (panel_c w), p_curgeneration (panel_d w)]
     else [p_output_energy (phase_a w), p_output_energy (phase_b w), p_output_energy (phase_c w)])"

definition add_float :: "rat \<Rightarrow> rat \<Rightarrow> rat" where
  "add_float x y = f32 (x + y)"

definition system_energy :: "inverter list \<Rightarrow> rat" where
  "system_energy vs = foldl add_float 0 (concat (map energies_of (answered vs)))"

text \<open>The counters after the passes; the count is over all slots, not only those up to the first free one.\<close>

definition close_round :: "int ecu" where
  "close_round = do {
     set_totals (\<lambda>t. t\<lparr>polling_total_times := polling_total_times t + 1\<rparr>);
     modify (\<lambda>s. s\<lparr>inverters := map count_failure (take MAXINVERTERCOUNT (inverters s)) @ drop MAXINVERTERCOUNT (inverters s)\<rparr>);
     vs \<leftarrow> gets inverters;
     set_totals (\<lambda>t. t\<lparr>
       ecu_count := int (length (filter (\<lambda>v. dataflag v = 1 \<and> length (inv_id v) = 12) (take MAXINVERTERCOUNT vs))),
       system_power := sum_list (map power_of (answered vs)),
       current_energy := system_energy vs\<rparr>);
     update_tmpdb;
     save_turn_on_off_changed_result;
     save_gfdi_changed_result;
     gets (\<lambda>s. ecu_count (totals s)) }"

definition getalldata :: "ecu_state \<Rightarrow> (int \<times> ecu_state) option" where
  "getalldata s = map_option (run_state close_round) (poll_passes 5 True (exec (test_module 3) s))"

end
