(* ===== verification/Main_Thread.thy ===== *)
theory Main_Thread
  imports Poll_Round
begin

text \<open>
  The main thread (\<open>ECU/main/src/main-thread.c\<close>): start-up, and one turn of its endless loop.
\<close>

section \<open>Start-up\<close>

text \<open>The last two characters of the text; one that is shorter is of the first type.\<close>

definition area_type :: "string \<Rightarrow> int" where
  "area_type content = (let b = strip_newline (cstr (take 10 content)); e = drop (length b - 2) b in
     if e = ''MX'' then 3 else if e = ''NA'' then 2 else 1)"

definition get_ecu_type :: "int ecu" where
  "get_ecu_type = do {
     f \<leftarrow> read_file path_area;
     (case f of None \<Rightarrow> ret ()
      | Some content \<Rightarrow> set_totals (\<lambda>t. t\<lparr>ecu_type := area_type content\<rparr>));
     ret 0 }"

definition init_ecu :: "int ecu" where
  "init_ecu = do {
     get_ecuid;
     pan \<leftarrow> get_panid;
     modify (\<lambda>s. s\<lparr>ecu_panid := pan\<rparr>);
     chan \<leftarrow> get_channel;
     modify (\<lambda>s. s\<lparr>ecu_channel := chan\<rparr>);
     set_totals (\<lambda>t. t\<lparr>had_data_broadcast_time := []\<rparr>);
     life \<leftarrow> get_lifetime_power;
     set_totals (\<lambda>t. t\<lparr>life_energy := life, current_energy := 0, system_power := 0, ecu_count := 0,
       flag_ten_clock := 1, polling_total_times := 0, zoneflag := 0\<rparr>);
     modify (\<lambda>s. s\<lparr>ecu_total := 0\<rparr>);
     zb_change_ecu_panid;
     readconnecttime;
     ret 1 }"

definition init_slot :: "inverter \<Rightarrow> inverter" where
  "init_slot v = (clear_slot v)\<lparr>deputy_model := 0\<rparr>"

text \<open>
  The list is read again every twenty seconds until it has an entry; with an empty one the
  thread waits for another thread to write it (\<open>None\<close>). \<open>buf\<close>: an array \<open>bind_inverters\<close> does
  not initialise.
\<close>

definition init_inverter :: "byte list \<Rightarrow> ecu_state \<Rightarrow> ecu_state option" where
  "init_inverter buf s = (let
     s1 = exec (do {
       modify (\<lambda>s. s\<lparr>inverters := map init_slot (take MAXINVERTERCOUNT (inverters s)) @ drop MAXINVERTERCOUNT (inverters s)\<rparr>);
       get_ecu_type }) s;
     (n, s2) = run_state get_id_from_file s1 in
     if n = 0 then None
     else Some (exec (do {
       modify (\<lambda>s. s\<lparr>ecu_total := n\<rparr>);
       f \<leftarrow> read_file path_limiteid;
       (case f of None \<Rightarrow> ret ()
        | Some content \<Rightarrow> if take 1 content = ''1'' then do {
            bind_inverters buf;
            write_file path_limiteid ''0'';
            ret () } else ret ()) }) s2))"

definition init_all :: "byte list \<Rightarrow> ecu_state \<Rightarrow> ecu_state option" where
  "init_all buf s = map_option (exec (do {
       modify (\<lambda>s. s\<lparr>rateOfProgress := 100\<rparr>);
       init_tmpdb }))
     (init_inverter buf (exec (do {
       modify (\<lambda>s. s\<lparr>rateOfProgress := 0\<rparr>);
       zb_test_communication;
       init_ecu }) s))"

section \<open>The loop\<close>

definition get_time :: "unit ecu" where
  "get_time = do {
     dt \<leftarrow> gets datetime;
     set_totals (\<lambda>t. t\<lparr>broadcast_time := take 14 dt\<rparr>) }"

text \<open>What follows the polling: the energies, the space on the disk and the reports.\<close>

definition save_history :: "int option \<Rightarrow> unit ecu" where
  "save_history cap = do {
     set_totals (\<lambda>t. t\<lparr>had_data_broadcast_time := broadcast_time t\<rparr>);
     set_totals (\<lambda>t. t\<lparr>life_energy := add_float (life_energy t) (current_energy t)\<rparr>);
     t \<leftarrow> gets totals;
     let bt = broadcast_time t;
     update_life_energy (life_energy t);
     (if 0 < ecu_count t then do {
        save_system_power (system_power t) bt;
        update_daily_energy (current_energy t) bt;
        update_monthly_energy (current_energy t) bt;
        delete_system_power_2_month_ago bt }
      else ret ());
     optimizeFileSystem cap 300;
     (if 0 < ecu_count t then do {
        protocol_APS18 bt;
        protocol_status bt;
        saveevent bt;
        ret () }
      else ret ()) }"

definition find_addresses :: "int \<Rightarrow> unit ecu" where
  "find_addresses cur_time_hour = do {
     t \<leftarrow> gets totals;
     (if 9 < cur_time_hour \<and> flag_ten_clock t = 1 then do {
        get_inverter_shortaddress;
        t \<leftarrow> gets totals;
        if 3 < polling_total_times t then set_totals (\<lambda>t. t\<lparr>flag_ten_clock := 0\<rparr>) else ret () }
      else ret ()) }"

definition main_round :: "int option \<Rightarrow> ecu_state \<Rightarrow> (int \<times> ecu_state) option" where
  "main_round cap s = (let
     (thistime, s1) = run_state acquire_time s;
     (cur_time_hour, s2) = run_state (do { set_totals (\<lambda>t. t\<lparr>broadcast_time := []\<rparr>); h \<leftarrow> get_hour; get_time; ret h }) s1 in
     case getalldata s2 of
       None \<Rightarrow> None
     | Some (n, s3) \<Rightarrow>
         map_option (\<lambda>u. (thistime, u)) (process_all (exec (do {
           set_totals (\<lambda>t. t\<lparr>ecu_count := n\<rparr>);
           save_history cap;
           find_addresses cur_time_hour;
           bind_nodata_inverter }) s3)))"

text \<open>The interval grows with the time a round took.\<close>

definition next_interval :: "int \<Rightarrow> int" where
  "next_interval dt = (if dt \<le> 305 then 300 else if dt \<le> 600 then 600 else if dt \<le> 900 then 900
     else if dt \<le> 1200 then 1200 else 1800)"

text \<open>One turn: the times the loop keeps are the last start, the time now and the interval.\<close>

definition main_turn :: "int option \<Rightarrow> int \<times> int \<times> int \<Rightarrow> ecu_state \<Rightarrow> ((int \<times> int \<times> int) \<times> ecu_state) option" where
  "main_turn cap kept s = (case kept of (durabletime, thistime, reportinterval) \<Rightarrow>
     (case (if compareTime durabletime thistime reportinterval then main_round cap s else Some (thistime, s)) of
        None \<Rightarrow> None
      | Some (thistime', s1) \<Rightarrow>
          (let (durabletime', s2) = run_state (do { emit (DelayTicks 10); acquire_time }) s1 in
           Some ((durabletime', thistime', next_interval (durabletime' - thistime')), s2))))"

definition main_start :: "int \<times> int \<times> int" where
  "main_start = (65535, 0, 300)"

end
