(* ===== verification/Round_Spec.thy ===== *)
theory Round_Spec
  imports Main_Thread Inverter_Spec Zigbee_Spec
begin

text \<open>
  When the main loop starts a round, and what the query of an inverter does to the table.
\<close>

section \<open>When a round is due\<close>

text \<open>\<open>t\<close>: the start of the last round, \<open>d\<close>: the time now, in seconds of the day.\<close>

definition due :: "int \<Rightarrow> int \<Rightarrow> bool" where
  "due d t = compareTime d t (next_interval (d - t))"

text \<open>
  C13. When the loop starts a round. On the day of the last round: 300 to 305 seconds after its
  start, or at exactly 600, 900 or 1200 seconds, or from 1800 seconds on. After midnight: only in
  the first five minutes of the day, when 300 seconds have passed. So a last round that began
  less than 300 seconds before midnight and ends after 00:05 is followed by none until the
  end of that day.
\<close>

theorem round_due:
  assumes "0 \<le> t" "t < 86400" "0 \<le> d" "d < 86400"
  shows "due d t \<longleftrightarrow> (if t \<le> d
      then d - t \<in> {300..305} \<or> d - t \<in> {600, 900, 1200} \<or> 1800 \<le> d - t
      else d < 300 \<and> 300 < t \<and> 300 \<le> elapsed t d)"
proof (cases "t \<le> d")
  case True
  then show ?thesis using assms by (auto simp: due_def compareTime_def next_interval_def)
next
  case False
  then have "(d - t) mod 86400 = (d - t + 86400) mod 86400" by simp
  also have "\<dots> = d - t + 86400" using False assms by (intro mod_pos_pos_trivial) auto
  finally have "elapsed t d = d - t + 86400" by (simp add: elapsed_def)
  then show ?thesis using False assms by (auto simp: due_def compareTime_def next_interval_def)
qed

text \<open>A round that began at 23:58:20 and ended at 00:06:20: none is due for the rest of the day.\<close>

theorem round_due_witness:
  "{d. due d 86300} \<inter> {380..<86300} = {}"
  using round_due[of 86300] by auto

section \<open>The query of an inverter\<close>

text \<open>The answer that the query takes: from the inverter asked, a data frame, with a good sum.\<close>

definition data_answer :: "ecu_state \<Rightarrow> nat \<Rightarrow> byte list \<Rightarrow> bool" where
  "data_answer s k d = (\<exists>bs rest. zb_rx s = Some bs # rest \<and> d = drop 12 (take 255 bs)
     \<and> reply_from (take 255 bs) (uint (shortaddr (inv_at s k))) (inv_id (inv_at s k))
     \<and> data_frame (int (length (take 255 bs)) - 12, d) \<and> data_sum_ok d)"

text \<open>The state when the answer is awaited, and the slot when it has come.\<close>

definition asked :: "nat \<Rightarrow> ecu_state \<Rightarrow> ecu_state" where
  "asked k s = exec (do { clear_zbmodem; zb_send_cmd k query_frame }) s"

lemma asked_simps [simp]:
  "inverters (asked k s) = inverters s" "zb_rx (asked k s) = zb_rx s" "inv_at (asked k s) j = inv_at s j"
  "totals (asked k s) = totals s" "stale (asked k s) = stale s"
  by (simp_all add: asked_def run_zb_send_cmd flushed_def link_defs inv_at_def)

lemma data_answer_asked [simp]: "data_answer (asked k s) j = data_answer s j"
  by (intro ext) (simp add: data_answer_def)

lemma run_asked: "run_state (do { clear_zbmodem; zb_send_cmd k query_frame; zb_get_reply k }) s
    = run_state (zb_get_reply k) (asked k s)"
  by (simp add: asked_def split: prod.splits)

lemma not_data_frame [simp]: "\<not> data_frame (-1, d)"
  by (simp add: data_frame_def)

lemma reply_effect:
  assumes "run_state (zb_get_reply k) s = (r, t)" "k < length (inverters s)"
  shows "\<forall>j. j \<noteq> k \<longrightarrow> inv_at t j = inv_at s j" "length (inverters t) = length (inverters s)"
    "inv_id (inv_at t k) = inv_id (inv_at s k)" "model (inv_at t k) = model (inv_at s k)"
    "meas (inv_at t k) = meas (inv_at s k)"
    "data_frame r \<and> data_sum_ok (snd r) \<longleftrightarrow> data_answer s k (snd r)"
    "data_answer s k d \<Longrightarrow> d = snd r"
  using assms
  by (auto simp: run_zb_get_reply Let_def inv_at_def slot_update data_answer_def
      split: list.splits option.splits if_splits)

definition decoded :: "int \<Rightarrow> byte list \<Rightarrow> inverter \<Rightarrow> inverter \<Rightarrow> bool" where
  "decoded type d v w = (if model v = 7 \<and> d ! 3 \<in> {0xBB, 0xB1} then decoded_600 type w
     else if model v \<in> {5, 6} then dataflag w = 0 \<or> decoded_1000 type w
     else w = v)"

lemma decode_data_decoded:
  assumes "length (inv_id v) = 12"
  shows "\<exists>w. decode_data type bt u d v = Some w \<and> decoded type d v w"
proof -
  obtain f where f: "power_factors (byte_at (drop 4 d) 37) = Some f" using power_factors_found by fastforce
  have dm: "decoded_600 type (w\<lparr>deputy_model := n\<rparr>) = decoded_600 type w" for w n
    by (simp add: decoded_600_def texts_ok_def)
  show ?thesis using f assms resolve_1000_decoded[OF assms]
    by (simp add: decode_data_def decoded_def resolvedata_600_def resolvedata_600_new_def dm
        resolve_600_decoded web_bits)
qed



end
