(* ===== verification/Phone_Server.thy ===== *)
theory Phone_Server
  imports Energy_History Comm_Config
begin

text \<open>
  The server for the phone that configures the unit through the WiFi module
  (\<open>ECU/PhoneServer/src\<close>): the packets of \<open>wifi_comm.c\<close>, the commands of \<open>phoneServer.c\<close>, and
  what they use of \<open>file.c\<close> and of lwIP (\<open>ipaddr_aton\<close>). A request is the text of the receive
  buffer, which is filled with zeros behind it.
\<close>

section \<open>Packets\<close>

definition number4 :: "int \<Rightarrow> byte list" where
  "number4 n = map u8 [n div 16777216, n div 65536, n div 256, n]"

definition packet_length :: "nat \<Rightarrow> byte list" where
  "packet_length n = map (\<lambda>d. u8 (int d + 48)) [n div 1000, n div 100 mod 10, n div 10 mod 10, n mod 10]"

text \<open>\<open>END\<close> is appended and counted, the count is filled in, and a newline ends the packet.\<close>

definition end_packet :: "byte list \<Rightarrow> byte list" where
  "end_packet p = (let q = p @ bytes_of ''END'' in
     take 5 q @ packet_length (length q) @ drop 9 q @ bytes_of [NL])"

definition short_packet :: "string \<Rightarrow> int \<Rightarrow> byte list" where
  "short_packet cmd mapping = bytes_of (''APS110015'' @ cmd @ fmt_0d 2 mapping @ [NL])"

definition ECU_VERSION_text :: string where
  "ECU_VERSION_text = ''ECU_R_1_0''"

definition time_zone_text :: string where
  "time_zone_text = ''Etc/GMT-8''"

text \<open>
  Energies of a size a \<open>float\<close> of this unit reaches: the conversions to \<open>int\<close> are in range.
\<close>

definition base_info_packet :: "ecu_state \<Rightarrow> byte list" where
  "base_info_packet s = (let t = totals s in end_packet (
     bytes_of (zext 25 (''APS1100000001'' @ ecu_id s)) @ bytes_of ''01''
     @ number4 (to_int (f32 (life_energy t * 10)) mod 2 ^ 32)
     @ number4 (system_power t mod 2 ^ 32)
     @ number4 (to_int (f32 (today_energy t * 100)) mod 2 ^ 32)
     @ map (bcd (last_ema_time t)) [0, 2, 4, 6, 8, 10, 12]
     @ number_bytes (int (ecu_total s) mod 65536) @ number_bytes (ecu_count t mod 65536)
     @ bytes_of (hex2 (ecu_channel s))
     @ bytes_of ''009'' @ bytes_of ECU_VERSION_text @ bytes_of ''009'' @ bytes_of time_zone_text
     @ take 6 (MacAddress t) @ replicate 6 0))"

text \<open>What the phone is shown of an inverter depends on its number of inputs.\<close>

definition power_and_volt :: "panel \<Rightarrow> phase \<Rightarrow> byte list" where
  "power_and_volt p g = number_bytes (p_op p) @ number_bytes (p_gv g)"

definition gf_and_it :: "measured \<Rightarrow> byte list" where
  "gf_and_it w = number_bytes (to_int (f32 (m_gf w * 10))) @ number_bytes (m_it w + 100)"

definition generation_entry :: "inverter \<Rightarrow> byte list" where
  "generation_entry v = (let w = meas v in id_bytes (inv_id v) @
     (if model v = 7 then u8 (uint (dataflag v)) # bytes_of ''01'' @ gf_and_it w
        @ power_and_volt (panel_a w) (phase_a w) @ power_and_volt (panel_b w) (phase_a w)
      else if model v = 5 \<or> model v = 6 then u8 (uint (dataflag v)) # bytes_of ''02'' @ gf_and_it w
        @ power_and_volt (panel_a w) (phase_a w) @ power_and_volt (panel_b w) (phase_b w)
        @ power_and_volt (panel_c w) (phase_c w) @ number_bytes (p_op (panel_d w))
      else 0 # bytes_of ''00''))"

definition generation_packet :: "ecu_state \<Rightarrow> byte list" where
  "generation_packet s = (let t = had_data_broadcast_time (totals s) in end_packet (
     bytes_of ''APS11000000020001'' @ number_bytes (int (ecu_total s))
     @ map (bcd t) [0, 2, 4, 6, 8, 10, 12] @ concat (map generation_entry (table (inverters s)))))"

definition APP_Response_PowerGeneration :: "int \<Rightarrow> unit ecu" where
  "APP_Response_PowerGeneration mapping = do {
     t \<leftarrow> gets (\<lambda>s. had_data_broadcast_time (totals s));
     if mapping = 1 then emit (PhoneSend (short_packet ''0002'' 1))
     else if t = [] then emit (PhoneSend (short_packet ''0002'' 2))
     else do { p \<leftarrow> gets generation_packet; emit (PhoneSend p) } }"

definition APP_Response_PowerCurve :: "int \<Rightarrow> string \<Rightarrow> unit ecu" where
  "APP_Response_PowerCurve mapping date =
     (if mapping = 1 then emit (PhoneSend (short_packet ''0003'' 1))
      else do {
        r \<leftarrow> read_system_power date;
        emit (PhoneSend (end_packet (bytes_of ''APS110015000300'' @ snd r))) })"

definition APP_Response_GenerationCurve :: "int \<Rightarrow> int \<Rightarrow> unit ecu" where
  "APP_Response_GenerationCurve mapping request_type =
     (if mapping = 1 then emit (PhoneSend (short_packet ''0004'' 1))
      else do {
        date_time \<leftarrow> gets datetime;
        body \<leftarrow> (if request_type = 0x30
            then do { b \<leftarrow> read_weekly_energy date_time; ret (bytes_of ''00'' @ b) }
          else if request_type = 0x31
            then do { b \<leftarrow> read_monthly_energy date_time; ret (bytes_of ''01'' @ b) }
          else if request_type = 0x32
            then do { b \<leftarrow> read_yearly_energy date_time; ret (bytes_of ''02'' @ b) }
          else ret []);
        emit (PhoneSend (end_packet (bytes_of ''APS110015000400'' @ body))) })"

definition hardware_packet :: "byte list" where
  "hardware_packet = bytes_of (''APS110120000800'' @ fmt_0d 2 0 @ replicate 100 (CHR ''0'') @ ''END'' @ [NL])"

definition id_info_packet :: "ecu_state \<Rightarrow> byte list" where
  "id_info_packet s = end_packet (bytes_of ''APS110015001100''
     @ concat (map (\<lambda>v. id_bytes (inv_id v)) (table (inverters s))))"

definition time_packet :: "string \<Rightarrow> byte list" where
  "time_packet t = bytes_of (zext 33 (''APS110032001200'' @ t @ ''END'' @ [NL]))"

definition flash_packet :: "int \<Rightarrow> byte list" where
  "flash_packet size_kb = end_packet (bytes_of ''APS110000001300'' @ number4 size_kb)"

definition wired_packet :: "byte list \<Rightarrow> int \<Rightarrow> int list list \<Rightarrow> byte list" where
  "wired_packet mac dhcpStatus addrs = end_packet (bytes_of ''APS110015001400''
     @ bytes_of (if dhcpStatus = 0 then ''00'' else ''01'') @ map u8 (concat addrs)
     @ bytes_of (hex_string (take 6 mac)))"

definition channel_packet :: "byte \<Rightarrow> int \<Rightarrow> byte list" where
  "channel_packet SIGNAL_CHANNEL SIGNAL_LEVEL =
     bytes_of (''APS110023001500'' @ hex2 SIGNAL_CHANNEL @ fmt_0d 3 SIGNAL_LEVEL @ ''END'' @ [NL])"

definition short_addr_packet :: "ecu_state \<Rightarrow> byte list" where
  "short_addr_packet s = end_packet (bytes_of ''APS110015001800'' @ [rateOfProgress s]
     @ concat (map (\<lambda>v. id_bytes (inv_id v) @ number_bytes (uint (shortaddr v))) (table (inverters s))))"

section \<open>Addresses of the wired network\<close>

text \<open>lwIP: a number is decimal, octal after \<open>0\<close> or hexadecimal after \<open>0x\<close>.\<close>

fun aton_digits :: "32 word \<Rightarrow> 32 word \<Rightarrow> string \<Rightarrow> 32 word \<times> string" where
  "aton_digits radix v [] = (v, [])"
| "aton_digits radix v (c # cs) =
     (if is_digit c then aton_digits radix (v * radix + of_nat (digit_val c)) cs
      else if radix = 16 \<and> (0x41 \<le> code c \<and> code c \<le> 0x46 \<or> 0x61 \<le> code c \<and> code c \<le> 0x66)
        then aton_digits radix (v * 16 + word_of_int (nib (int (code c)))) cs
      else (v, c # cs))"

definition aton_number :: "string \<Rightarrow> (32 word \<times> string) option" where
  "aton_number cp = (case cp of [] \<Rightarrow> None
    | c # t \<Rightarrow> if \<not> is_digit c then None
        else if c \<noteq> CHR ''0'' then Some (aton_digits 10 0 cp)
        else (case t of [] \<Rightarrow> Some (0, [])
          | x # u \<Rightarrow> Some (if x = CHR ''x'' \<or> x = CHR ''X'' then aton_digits 16 0 u else aton_digits 8 0 t)))"

text \<open>Up to \<open>n\<close> numbers that a point follows, the last number and what is left.\<close>

primrec aton_parts :: "nat \<Rightarrow> string \<Rightarrow> (32 word list \<times> 32 word \<times> string) option" where
  "aton_parts 0 cp = (case aton_number cp of None \<Rightarrow> None
     | Some (val, r) \<Rightarrow> if r \<noteq> [] \<and> hd r = CHR ''.'' then None else Some ([], val, r))"
| "aton_parts (Suc n) cp = (case aton_number cp of None \<Rightarrow> None
     | Some (val, r) \<Rightarrow> if r \<noteq> [] \<and> hd r = CHR ''.''
         then map_option (\<lambda>(ps, w). (val # ps, w)) (aton_parts n (tl r)) else Some ([], val, r))"

text \<open>The address as a number, its first byte the most significant one.\<close>

definition ipaddr_aton :: "string \<Rightarrow> 32 word option" where
  "ipaddr_aton cp = (case aton_parts 3 cp of None \<Rightarrow> None
    | Some (parts, val, r) \<Rightarrow>
        if r \<noteq> [] \<and> \<not> is_space (hd r) then None
        else (case parts of
            [] \<Rightarrow> Some val
          | [a] \<Rightarrow> if 0xffffff < val then None else Some (or val (push_bit 24 a))
          | [a, b] \<Rightarrow> if 0xffff < val then None
              else Some (or val (or (push_bit 24 a) (push_bit 16 b)))
          | a # b # c # _ \<Rightarrow> if 0xff < val then None
              else Some (or val (or (or (push_bit 24 a) (push_bit 16 b)) (push_bit 8 c)))))"

definition quad :: "32 word \<Rightarrow> int list" where
  "quad a = map (\<lambda>k. uint (and (drop_bit k a) 0xff)) [24, 16, 8, 0]"

definition network_names :: "string list" where
  "network_names = [''IPAddr'', ''MSKAddr'', ''GWAddr'', ''DNS1Addr'', ''DNS2Addr'']"

text \<open>
  The entries of the file set the address of their name, up to the first empty name; a text
  that is no address sets zeros, and an address no entry sets keeps what the variable held.
\<close>

fun getAddr :: "(string \<times> string) list \<Rightarrow> int list list \<Rightarrow> int list list" where
  "getAddr [] addrs = addrs"
| "getAddr ((name, val) # es) addrs = (if name = [] then addrs
     else getAddr es (map (\<lambda>(k, old). if name = k
         then (case ipaddr_aton val of None \<Rightarrow> [0, 0, 0, 0] | Some a \<Rightarrow> quad a) else old)
       (zip network_names addrs)))"

definition path_staticip :: string where
  "path_staticip = ''/YUNENG/STATICIP.CON''"

definition dotted :: "int list \<Rightarrow> string" where
  "dotted a = fmt_d (a ! 0) @ ''.'' @ fmt_d (a ! 1) @ ''.'' @ fmt_d (a ! 2) @ ''.'' @ fmt_d (a ! 3)"

definition static_text :: "int list list \<Rightarrow> string" where
  "static_text addrs = concat (map (\<lambda>(n, a). n @ ''='' @ dotted a @ [NL]) (zip network_names addrs))"

definition get_DHCP_Status :: "int ecu" where
  "get_DHCP_Status = do {
     f \<leftarrow> read_file path_staticip;
     ret (case f of None \<Rightarrow> 0 | Some _ \<Rightarrow> 1) }"

section \<open>The surroundings of the unit\<close>

text \<open>
  What the commands ask the rest of the unit: the block size and the free blocks of the file
  system (32-bit numbers, \<open>None\<close> when \<open>dfs_statfs\<close> fails), the five addresses in use, the last
  three bytes of the chip id, and how the next attempts to reset the WiFi module end.
\<close>

record surroundings =
  free_space :: "(int \<times> int) option"
  netif_addrs :: "32 word list"
  chip_id :: "byte list"
  wifi_results :: "int list"

text \<open>Surroundings for examples.\<close>

definition nothing_around :: surroundings where
  "nothing_around = \<lparr>free_space = None, netif_addrs = [0, 0, 0, 0, 0], chip_id = [0, 0, 0], wifi_results = []\<rparr>"

text \<open>An address in network order: its first byte is the least significant one.\<close>

definition IP_of :: "32 word \<Rightarrow> int list" where
  "IP_of addr = map (\<lambda>d. uint addr div d mod 256) [1, 256, 65536, 16777216]"

section \<open>Requests\<close>

definition packetlen :: "string \<Rightarrow> int" where
  "packetlen p = ((ch p 0 - 48) * 1000 + (ch p 1 - 48) * 100 + (ch p 2 - 48) * 10 + (ch p 3 - 48)) mod 65536"

definition Resolve_RecvData :: "string \<Rightarrow> (int \<times> int) option" where
  "Resolve_RecvData buf = (if take 3 buf \<noteq> ''APS'' then None
     else Some (packetlen (drop 5 buf),
       (ch buf 9 - 48) * 1000 + (ch buf 10 - 48) * 100 + (ch buf 11 - 48) * 10 + (ch buf 12 - 48)))"

definition for_this_ecu :: "string \<Rightarrow> bool ecu" where
  "for_this_ecu buf = gets (\<lambda>s. memeq (drop 13 buf) (ecu_id s) 12)"

definition Phone_GetBaseInfo :: "unit ecu" where
  "Phone_GetBaseInfo = do { p \<leftarrow> gets base_info_packet; emit (PhoneSend p) }"

definition Phone_GetGenerationData :: "string \<Rightarrow> unit ecu" where
  "Phone_GetGenerationData buf = do {
     mine \<leftarrow> for_this_ecu buf;
     APP_Response_PowerGeneration (if mine then 0 else 1) }"

definition Phone_GetPowerCurve :: "string \<Rightarrow> unit ecu" where
  "Phone_GetPowerCurve buf = do {
     mine \<leftarrow> for_this_ecu buf;
     APP_Response_PowerCurve (if mine then 0 else 1) (cstr (take 8 (drop 28 buf))) }"

definition Phone_GetGenerationCurve :: "string \<Rightarrow> unit ecu" where
  "Phone_GetGenerationCurve buf = do {
     mine \<leftarrow> for_this_ecu buf;
     APP_Response_GenerationCurve (if mine then 0 else 1) (ch buf 29) }"

subsection \<open>Registering inverters\<close>

text \<open>
  Each id is six bytes of the request, printed as twelve hexadecimal digits. The text is built
  in 2500 bytes (\<open>None\<close> where it is longer).
\<close>

definition uid_at :: "string \<Rightarrow> nat \<Rightarrow> byte list" where
  "uid_at uidstring i = bytes_of (map (\<lambda>k. chr (nat (ch uidstring (k + i * 6)))) [0..<6])"

definition phone_add_inverter :: "int \<Rightarrow> string \<Rightarrow> unit ecu option" where
  "phone_add_inverter num uidstring = (if 2500 < 19 * num then None
     else Some (do {
       echo path_id (concat (map (\<lambda>i. hex_string (uid_at uidstring i) @ '',,,,,,'' @ [NL]) [0..<nat num]));
       echo path_limiteid ''1'' }))"

text \<open>As \<open>clear_slot\<close>, but the strength and the radius of the ZigBee signal stay.\<close>

definition clear_registered :: "inverter \<Rightarrow> inverter" where
  "clear_registered v = (clear_slot v)\<lparr>signalstrength := signalstrength v, raduis := raduis v\<rparr>"

definition Phone_RegisterID :: "int \<Rightarrow> string \<Rightarrow> ecu_state \<Rightarrow> ecu_state option" where
  "Phone_RegisterID Data_Len buf s =
     (if result (for_this_ecu buf) s
      then map_option (\<lambda>add. exec (do {
          emit (PhoneSend (short_packet ''0005'' 0));
          add;
          modify (\<lambda>s. s\<lparr>inverters := map clear_registered (inverters s)\<rparr>);
          get_id_from_file;
          emit (RestartThread 0 TYPE_MAIN) }) s)
        (phone_add_inverter ((Data_Len - 31) sdiv 6) (drop 28 buf))
      else Some (exec (emit (PhoneSend (short_packet ''0005'' 1))) s))"

subsection \<open>Clock and network\<close>

text \<open>The real-time clock takes fourteen digits and shows them from then on.\<close>

definition set_time :: "string \<Rightarrow> int ecu" where
  "set_time t = (if length t \<noteq> 14 then ret (-1)
     else do { modify (\<lambda>s. s\<lparr>datetime := t\<rparr>); emit (ClockSet t); ret 0 })"

definition requested_time :: "string \<Rightarrow> string \<Rightarrow> string" where
  "requested_time now t = (if memeq ''99999999'' t 8 then take 8 now else take 8 t)
     @ (if memeq ''999999'' (drop 8 t) 6 then drop 8 now else drop 8 t)"

definition Phone_SetTime :: "string \<Rightarrow> unit ecu" where
  "Phone_SetTime buf = do {
     mine \<leftarrow> for_this_ecu buf;
     now \<leftarrow> gets datetime;
     if mine then do {
       set_time (cstr (requested_time now (zext 14 (drop 28 buf))));
       emit (RestartThread 0 TYPE_MAIN);
       emit (PhoneSend (short_packet ''0006'' 0)) }
     else emit (PhoneSend (short_packet ''0006'' 1)) }"

definition ResolveWired :: "string \<Rightarrow> int \<times> int list list" where
  "ResolveWired p = (if ch p 1 = 0x30 then (0, [])
     else if ch p 1 = 0x31 then (1, map (\<lambda>i. map (\<lambda>k. ch p (2 + 4 * i + k)) [0..<4]) [0..<5])
     else (-1, []))"

definition dhcp_reset :: "unit ecu" where
  "dhcp_reset = emit DhcpReset"

definition Phone_SetWiredNetwork :: "string \<Rightarrow> unit ecu" where
  "Phone_SetWiredNetwork buf = do {
     mine \<leftarrow> for_this_ecu buf;
     if mine then do {
       emit (PhoneSend (short_packet ''0007'' 0));
       let (mode, addrs) = ResolveWired (drop 28 buf);
       if mode = 0 then do { remove_file path_staticip; dhcp_reset }
       else if mode = 1 then do { echo path_staticip (static_text addrs); emit (StaticIp addrs) }
       else ret () }
     else emit (PhoneSend (short_packet ''0007'' 1)) }"

definition Phone_GetECUHardwareStatus :: "string \<Rightarrow> unit ecu" where
  "Phone_GetECUHardwareStatus buf = do {
     mine \<leftarrow> for_this_ecu buf;
     emit (PhoneSend (if mine then hardware_packet else short_packet ''0008'' 1)) }"

subsection \<open>Password of the access point\<close>

definition path_passwd :: string where
  "path_passwd = ''/YUNENG/PASSWD.CON''"

definition get_Passwd :: "string ecu" where
  "get_Passwd = do {
     f \<leftarrow> read_file path_passwd;
     ret (case f of None \<Rightarrow> [] | Some content \<Rightarrow> take 100 content) }"

definition set_Passwd :: "string \<Rightarrow> int ecu" where
  "set_Passwd PassWD = do {
     ok \<leftarrow> write_file path_passwd (cstr PassWD);
     ret (if ok then 0 else -1) }"

text \<open>
  Two lengths of two digits, each before its password; the passwords are copied to arrays of
  100 characters (\<open>None\<close> where a length that is no number would leave them).
\<close>

definition passwd_length :: "string \<Rightarrow> nat option" where
  "passwd_length p = (let n = (ch p 0 - 48) * 10 + (ch p 1 - 48) in
     if 0 \<le> n \<and> n < 100 then Some (nat n) else None)"

definition ResolveWifiPasswd :: "string \<Rightarrow> (string \<times> string) option" where
  "ResolveWifiPasswd p = (case passwd_length p of None \<Rightarrow> None
    | Some oldLen \<Rightarrow> (case passwd_length (drop (2 + oldLen) p) of None \<Rightarrow> None
        | Some newLen \<Rightarrow> Some (zext oldLen (drop 2 p), zext newLen (drop (4 + oldLen) p))))"

definition change_passwd :: "string \<Rightarrow> string \<Rightarrow> unit ecu" where
  "change_passwd old new = do {
     stored \<leftarrow> get_Passwd;
     if memeq stored old (length old) \<and> length old = length (cstr stored) then do {
       emit (PhoneSend (short_packet ''0010'' 0));
       emit (WifiPasswd (cstr new));
       set_Passwd new;
       ret () }
     else emit (PhoneSend (short_packet ''0010'' 2)) }"

definition Phone_SetWIFIPasswd :: "string \<Rightarrow> ecu_state \<Rightarrow> ecu_state option" where
  "Phone_SetWIFIPasswd buf s =
     (if result (for_this_ecu buf) s
      then map_option (\<lambda>(old, new). exec (change_passwd old new) s) (ResolveWifiPasswd (drop 28 buf))
      else Some (exec (emit (PhoneSend (short_packet ''0010'' 1))) s))"

subsection \<open>Ids, time, space, network and channel\<close>

definition Phone_GetIDInfo :: "string \<Rightarrow> unit ecu" where
  "Phone_GetIDInfo buf = do {
     mine \<leftarrow> for_this_ecu buf;
     p \<leftarrow> gets id_info_packet;
     emit (PhoneSend (if mine then p else short_packet ''0011'' 1)) }"

definition Phone_GetTime :: "string \<Rightarrow> unit ecu" where
  "Phone_GetTime buf = do {
     mine \<leftarrow> for_this_ecu buf;
     now \<leftarrow> gets datetime;
     emit (PhoneSend (if mine then time_packet now else short_packet ''0012'' 1)) }"

text \<open>Without the sizes of the file system every request is answered, with zero.\<close>

definition Phone_FlashSize :: "surroundings \<Rightarrow> string \<Rightarrow> unit ecu" where
  "Phone_FlashSize env buf = do {
     mine \<leftarrow> for_this_ecu buf;
     (case free_space env of
        None \<Rightarrow> emit (PhoneSend (flash_packet 0))
      | Some (f_bsize, f_bfree) \<Rightarrow>
          emit (PhoneSend (if mine then flash_packet (f_bsize * f_bfree mod 2 ^ 32 div 1024)
            else short_packet ''0013'' 1))) }"

definition Phone_GetWiredNetwork :: "surroundings \<Rightarrow> string \<Rightarrow> unit ecu" where
  "Phone_GetWiredNetwork env buf = do {
     mine \<leftarrow> for_this_ecu buf;
     if mine then do {
       mode \<leftarrow> get_DHCP_Status;
       mac \<leftarrow> gets (\<lambda>s. MacAddress (totals s));
       emit (PhoneSend (wired_packet mac mode (map IP_of (netif_addrs env)))) }
     else emit (PhoneSend (short_packet ''0014'' 1)) }"

definition switchChannel :: "string \<Rightarrow> int" where
  "switchChannel b = nib (ch b 0) * 16 + nib (ch b 1)"

definition Phone_SetChannel :: "string \<Rightarrow> unit ecu" where
  "Phone_SetChannel buf = do {
     mine \<leftarrow> for_this_ecu buf;
     chan \<leftarrow> gets ecu_channel;
     if mine then do {
       emit (PhoneSend (channel_packet chan 0));
       saveOldChannel (u8 (switchChannel (drop 28 buf)));
       saveNewChannel (u8 (switchChannel (drop 30 buf)));
       saveChannel_change_flag;
       emit (RestartThread 0 TYPE_MAIN) }
     else emit (PhoneSend (short_packet ''0015'' 1)) }"

definition Phone_GetShortAddrInfo :: "string \<Rightarrow> unit ecu" where
  "Phone_GetShortAddrInfo buf = do {
     mine \<leftarrow> for_this_ecu buf;
     p \<leftarrow> gets short_addr_packet;
     emit (PhoneSend (if mine then p else short_packet ''0018'' 1)) }"

section \<open>The server\<close>

text \<open>
  \<open>pfun_Phone\<close> has a hundred entries; the identifier of the request is not compared with that
  bound (\<open>None\<close>: the entry lies outside).
\<close>

definition phone_command :: "surroundings \<Rightarrow> int \<Rightarrow> int \<Rightarrow> string \<Rightarrow> ecu_state \<Rightarrow> ecu_state option" where
  "phone_command env cmd len buf s =
     (if cmd = 1 then Some (exec Phone_GetBaseInfo s)
      else if cmd = 2 then Some (exec (Phone_GetGenerationData buf) s)
      else if cmd = 3 then Some (exec (Phone_GetPowerCurve buf) s)
      else if cmd = 4 then Some (exec (Phone_GetGenerationCurve buf) s)
      else if cmd = 5 then Phone_RegisterID len buf s
      else if cmd = 6 then Some (exec (Phone_SetTime buf) s)
      else if cmd = 7 then Some (exec (Phone_SetWiredNetwork buf) s)
      else if cmd = 8 then Some (exec (Phone_GetECUHardwareStatus buf) s)
      else if cmd = 10 then Phone_SetWIFIPasswd buf s
      else if cmd = 11 then Some (exec (Phone_GetIDInfo buf) s)
      else if cmd = 12 then Some (exec (Phone_GetTime buf) s)
      else if cmd = 13 then Some (exec (Phone_FlashSize env buf) s)
      else if cmd = 14 then Some (exec (Phone_GetWiredNetwork env buf) s)
      else if cmd = 15 then Some (exec (Phone_SetChannel buf) s)
      else if cmd = 18 then Some (exec (Phone_GetShortAddrInfo buf) s)
      else if 0 \<le> cmd \<and> cmd < 100 then Some s else None)"

definition process_WIFI :: "surroundings \<Rightarrow> string \<Rightarrow> ecu_state \<Rightarrow> ecu_state option" where
  "process_WIFI env buf s = (case Resolve_RecvData buf of None \<Rightarrow> Some s
    | Some (len, cmd) \<Rightarrow> phone_command env cmd len buf s)"

text \<open>Up to \<open>n\<close> attempts, until one yields 0; the result is that of the last attempt.\<close>

fun tries_until :: "nat \<Rightarrow> int list \<Rightarrow> int \<Rightarrow> int" where
  "tries_until 0 rs r = r"
| "tries_until (Suc n) rs r = (case rs of [] \<Rightarrow> -1 | x # xs \<Rightarrow> if x = 0 then 0 else tries_until n xs x)"

definition control_text :: string where
  "control_text = ''Timeout=10'' @ [NL] @ ''Report_Interval=15'' @ [NL] @ ''Domain=ecu.apsema.com'' @ [NL]
     @ ''IP=60.190.131.190'' @ [NL] @ ''Port1=8997'' @ [NL] @ ''Port2=8997'' @ [NL]"

definition ftpadd_text :: string where
  "ftpadd_text = ''Domain=ecu.apsema.com'' @ [NL] @ ''IP=60.190.131.190'' @ [NL] @ ''Port=9219'' @ [NL]
     @ ''user=zhyf'' @ [NL] @ ''password=yuneng'' @ [NL]"

definition datacent_text :: string where
  "datacent_text = ''Domain=ecu.apsema.com'' @ [NL] @ ''IP=60.190.131.190'' @ [NL] @ ''Port1=8995'' @ [NL]
     @ ''Port2=8996'' @ [NL]"

definition path_ftpadd :: string where
  "path_ftpadd = ''/YUNENG/FTPADD.CON''"

definition key_init :: "unit ecu" where
  "key_init = do {
     echo path_control control_text;
     delay_ms 20;
     echo path_ftpadd ftpadd_text;
     delay_ms 20;
     echo path_datacent datacent_text;
     delay_ms 20;
     remove_file path_staticip;
     dhcp_reset }"

definition process_KEYEvent :: "surroundings \<Rightarrow> unit ecu" where
  "process_KEYEvent env = (if tries_until 3 (wifi_results env) 0 = 0
     then do { key_init; set_Passwd ''88888888''; ret () } else ret ())"

definition process_WIFI_RST :: "surroundings \<Rightarrow> int" where
  "process_WIFI_RST env = tries_until 3 (wifi_results env) 1"

subsection \<open>Start and loop\<close>

definition strtohex :: "string \<Rightarrow> int" where
  "strtohex str = (let d = (\<lambda>c. if 0 \<le> c - 0x41 then c - 0x41 + 10 else c - 0x30) in
     d (ch str 0) * 16 + d (ch str 1))"

text \<open>Without a file the address is made from the id of the chip.\<close>

definition get_mac :: "surroundings \<Rightarrow> byte list ecu" where
  "get_mac env = do {
     f \<leftarrow> read_file path_ecumac;
     ret (case f of
         None \<Rightarrow> [0x00, 0x80, 0xE1] @ chip_id env
       | Some content \<Rightarrow> if content = [] then [0x00, 0x80, 0xE1] @ chip_id env
           else map (\<lambda>k. u8 (strtohex (drop k (first_line 17 content)))) [0, 3, 6, 9, 12, 15]) }"

definition phone_start :: "surroundings \<Rightarrow> unit ecu" where
  "phone_start env = do {
     get_ecuid;
     mac \<leftarrow> get_mac env;
     set_totals (\<lambda>t. t\<lparr>MacAddress := mac\<rparr>);
     readconnecttime;
     r \<leftarrow> file_get_array 5 path_staticip;
     held \<leftarrow> gets (\<lambda>s. replicate 5 (replicate 4 (any_int (stale s))));
     if fst r = 0 then emit (StaticIp (getAddr (snd r) held)) else ret () }"

text \<open>
  One turn of the loop, with the request the module delivers and the two events of the key and
  of the module; the result is whether the module still has to be reset.
\<close>

definition phone_turn :: "surroundings \<Rightarrow> string option \<Rightarrow> bool \<Rightarrow> bool \<Rightarrow> ecu_state \<Rightarrow> (bool \<times> ecu_state) option" where
  "phone_turn env request key_event rst_event s = (let
     s1 = exec (do { emit WifiTake; emit WifiRelease }) s;
     served = (case request of None \<Rightarrow> Some s1 | Some buf \<Rightarrow> process_WIFI env buf s1) in
     map_option (\<lambda>s2. (rst_event \<and> process_WIFI_RST env \<noteq> 0,
       exec (do {
         (if key_event then process_KEYEvent env else ret ());
         emit (DelayTicks 1) }) s2)) served)"

end
