(* ===== verification/Phone_Spec.thy ===== *)
theory Phone_Spec
  imports Phone_Server Id_Spec
begin

text \<open>
  What the phone server answers and changes: every request gets one well-formed packet, a
  request for another unit changes nothing, the password of the access point is only changed
  by who knows it; the ids that were registered are the table the unit works with, and the
  addresses that were set are those the next start takes.
\<close>

section \<open>Form of the packets\<close>

definition text_of :: "byte list \<Rightarrow> string" where
  "text_of bs = map (\<lambda>b. chr (unat b)) bs"

text \<open>
  A packet starts like a request, its length field, read as the server reads that of a
  request, counts the characters before the newline that ends it.
\<close>

definition framed :: "byte list \<Rightarrow> bool" where
  "framed p = (take 5 p = bytes_of ''APS11'' \<and> last p = 0x0A \<and> 10 \<le> length p
     \<and> (length p \<le> 65536 \<longrightarrow> packetlen (drop 5 (text_of p)) = int (length p) - 1))"

lemma bytes_of_Nil [simp]: "bytes_of [] = []"
  by (simp add: bytes_of_def)

lemma bytes_of_append [simp]: "bytes_of (a @ b) = bytes_of a @ bytes_of b"
  by (simp add: bytes_of_def)

lemma bytes_of_Cons: "bytes_of (c # cs) = word_of_nat (code c) # bytes_of cs"
  by (simp add: bytes_of_def)

lemma take_bytes_of: "take n (bytes_of s) = bytes_of (take n s)"
  by (simp add: bytes_of_def take_map)

lemma text_of_append [simp]: "text_of (a @ b) = text_of a @ text_of b"
  by (simp add: text_of_def)

lemma text_of_bytes_of [simp]: "text_of (bytes_of s) = s"
proof -
  have "unat (word_of_nat (code c) :: byte) = code c" for c :: char
    by (simp add: unat_of_nat)
  then show ?thesis by (simp add: text_of_def bytes_of_def comp_def map_idI)
qed

lemma length_text_of [simp]: "length (text_of bs) = length bs"
  by (simp add: text_of_def)

lemma length_packet_length [simp]: "length (packet_length n) = 4"
  by (simp add: packet_length_def)

lemma length_number4 [simp]: "length (number4 n) = 4"
  by (simp add: number4_def)

lemma length_number_bytes [simp]: "length (number_bytes n) = 2"
  by (simp add: number_bytes_def)

lemma unat_u8_digit: "d \<le> 65 \<Longrightarrow> unat (u8 (int d + 48)) = d + 48"
proof -
  assume "d \<le> 65"
  then have "uint (u8 (int d + 48)) = int d + 48" by (simp add: uint_u8)
  then show ?thesis by (metis nat_int of_nat_add of_nat_numeral unat_eq_nat_uint)
qed

lemma decimal_places: "(n::nat) div 1000 * 1000 + n div 100 mod 10 * 100 + n div 10 mod 10 * 10 + n mod 10 = n"
proof -
  have a: "n div 10 * 10 + n mod 10 = n" by simp
  have b: "n div 10 div 10 * 10 + n div 10 mod 10 = n div 10" by simp
  have c: "n div 100 div 10 * 10 + n div 100 mod 10 = n div 100" by simp
  have d: "n div 10 div 10 = n div 100" "n div 100 div 10 = n div 1000" by (simp_all add: div_mult2_eq[symmetric])
  show ?thesis using a b c unfolding d by linarith
qed

lemma packetlen_four:
  "packetlen (a # b # c # d # t) = ((int (code a) - 48) * 1000 + (int (code b) - 48) * 100
     + (int (code c) - 48) * 10 + (int (code d) - 48)) mod 65536"
  by (simp add: packetlen_def ch_def)

lemma packetlen_packet_length:
  assumes "n < 65536"
  shows "packetlen (text_of (packet_length n) @ q) = int n"
proof -
  have c: "code (chr (unat (u8 (int d + 48)))) = d + 48" if "d \<le> 65" for d
    using that by (simp only: unat_u8_digit code_chr)
  have "n div 1000 \<le> 65" using assms by simp
  note cs = c[OF this] c[of "n div 100 mod 10"] c[of "n div 10 mod 10"] c[of "n mod 10"]
  have "packetlen (text_of (packet_length n) @ q) = (int (n div 1000) * 1000 + int (n div 100 mod 10) * 100
      + int (n div 10 mod 10) * 10 + int (n mod 10)) mod 65536"
    by (simp only: text_of_def packet_length_def list.map append.simps packetlen_four cs
        mod_less_divisor[THEN less_imp_le, THEN order_trans] of_nat_add) (simp add: cs)
  also have "\<dots> = int (n div 1000 * 1000 + n div 100 mod 10 * 100 + n div 10 mod 10 * 10 + n mod 10) mod 65536"
    by (simp only: of_nat_add of_nat_mult of_nat_numeral)
  finally show ?thesis using assms by (simp only: decimal_places) simp
qed

lemma framed_end_packet:
  assumes "take 5 p = bytes_of ''APS11''" "9 \<le> length p"
  shows "framed (end_packet p)" "length (end_packet p) = length p + 4"
proof -
  define q where "q = p @ bytes_of ''END''"
  have q: "length q = length p + 3" by (simp add: q_def)
  define h r where "h = bytes_of ''APS11''" and "r = drop 9 q"
  have e: "end_packet p = h @ packet_length (length q) @ r @ bytes_of [NL]"
    using assms by (simp add: end_packet_def q_def Let_def h_def r_def)
  have h: "length h = 5" and r: "length r = length p - 6" by (simp_all add: h_def r_def q)
  show len: "length (end_packet p) = length p + 4"
    using assms(2) by (simp add: e h r)
  have t: "text_of (end_packet p) = text_of h @ text_of (packet_length (length q)) @ text_of r @ [NL]"
    by (simp add: e)
  have "drop 5 (text_of (end_packet p)) = text_of (packet_length (length q)) @ text_of r @ [NL]"
    using h by (simp add: t)
  then have "packetlen (drop 5 (text_of (end_packet p))) = int (length q)" if "length q < 65536"
    using packetlen_packet_length[OF that] by simp
  moreover have "take 5 (end_packet p) = h" using h by (simp add: e)
  moreover have "last (end_packet p) = 0x0A" by (simp add: e NL_def bytes_of_Cons)
  ultimately show "framed (end_packet p)"
    using len assms(2) q by (simp add: framed_def h_def)
qed

lemma framed_fixed:
  assumes "length a = 4" "packetlen a = int (length b) + 9"
  shows "framed (bytes_of (''APS11'' @ a @ b @ [NL]))"
proof -
  have "packetlen (a @ c) = packetlen a" for c
    using assms(1) by (simp add: packetlen_def ch_def nth_append)
  moreover have "drop 5 (text_of (bytes_of (''APS11'' @ a @ b @ [NL]))) = a @ b @ [NL]" by simp
  ultimately show ?thesis
    using assms unfolding framed_def by (simp add: bytes_of_Cons take_Cons' NL_def)
qed

lemma framed_short: "length cmd = 4 \<Longrightarrow> mapping \<in> {0, 1, 2} \<Longrightarrow> framed (short_packet cmd mapping)"
  and length_short: "length cmd = 4 \<Longrightarrow> mapping \<in> {0, 1, 2} \<Longrightarrow> length (short_packet cmd mapping) = 16"
proof -
  assume c: "length cmd = 4" and m: "mapping \<in> {0, 1, 2}"
  have l: "length (fmt_0d 2 mapping) = 2" using m by (auto simp: fmt_0d_def pad0_def dec.simps)
  have e: "short_packet cmd mapping = bytes_of (''APS11'' @ ''0015'' @ (cmd @ fmt_0d 2 mapping) @ [NL])"
    by (simp add: short_packet_def bytes_of_Cons)
  show "framed (short_packet cmd mapping)"
    unfolding e by (rule framed_fixed) (simp_all add: packetlen_four c l)
  show "length (short_packet cmd mapping) = 16" by (simp add: e c l)
qed

lemma framed_hardware: "framed hardware_packet" "length hardware_packet = 121"
proof -
  have l: "length (fmt_0d 2 0) = 2" by (simp add: fmt_0d_def pad0_def dec.simps)
  have e: "hardware_packet = bytes_of (''APS11'' @ ''0120''
      @ (''000800'' @ fmt_0d 2 0 @ replicate 100 (CHR ''0'') @ ''END'') @ [NL])"
    by (simp add: hardware_packet_def bytes_of_Cons)
  show "framed hardware_packet" unfolding e by (rule framed_fixed) (simp_all add: packetlen_four l)
  show "length hardware_packet = 121" by (simp add: e l)
qed

lemma framed_time: "length t = 14 \<Longrightarrow> framed (time_packet t)" "length t = 14 \<Longrightarrow> length (time_packet t) = 33"
proof -
  assume t: "length t = 14"
  have "zext 33 (''APS110032001200'' @ t @ ''END'' @ [NL]) = ''APS110032001200'' @ t @ ''END'' @ [NL]"
    by (subst zext_take) (simp_all add: t)
  then have e: "time_packet t = bytes_of (''APS11'' @ ''0032'' @ (''001200'' @ t @ ''END'') @ [NL])"
    by (simp add: time_packet_def)
  show "framed (time_packet t)" unfolding e by (rule framed_fixed) (simp_all add: packetlen_four t)
  show "length (time_packet t) = 33" by (simp add: e t)
qed

lemma framed_channel: "framed (channel_packet c 0)" "length (channel_packet c 0) = 24"
proof -
  have l: "length (fmt_0d 3 0) = 3" by (simp add: fmt_0d_def pad0_def dec.simps)
  have e: "channel_packet c 0 = bytes_of (''APS11'' @ ''0023'' @ (''001500'' @ hex2 c @ fmt_0d 3 0 @ ''END'') @ [NL])"
    by (simp add: channel_packet_def)
  show "framed (channel_packet c 0)"
    unfolding e by (rule framed_fixed) (simp_all add: packetlen_four l hex2_def)
  show "length (channel_packet c 0) = 24" by (simp add: e l hex2_def)
qed

lemma framed_text: "5 \<le> length a \<Longrightarrow> 9 \<le> length a + length b \<Longrightarrow> take 5 a = ''APS11'' \<Longrightarrow>
    framed (end_packet (bytes_of a @ b)) \<and> length (end_packet (bytes_of a @ b)) = length a + length b + 4"
  using framed_end_packet[of "bytes_of a @ b"] by (simp add: take_bytes_of)

text \<open>The packets about the table fit the buffer \<open>SendData\<close> of 3340 bytes, however full it is.\<close>

lemma concat_bound: "(\<And>x. x \<in> set xs \<Longrightarrow> length (f x) \<le> k) \<Longrightarrow> length (concat (map f xs)) \<le> k * length xs"
  by (induction xs) fastforce+

lemma length_table_le: "length (table vs) \<le> 120"
proof -
  have "length (table vs) \<le> length (take MAXINVERTERCOUNT vs)"
    unfolding table_def by (rule length_takeWhile_le)
  then show ?thesis by (simp add: MAXINVERTERCOUNT_def)
qed

lemma table_bytes: "(\<And>v. length (f v) \<le> k) \<Longrightarrow> length (concat (map f (table vs))) \<le> k * 120"
  using concat_bound[of "table vs" f k] length_table_le[of vs] mult_le_mono2[of "length (table vs)" 120 k]
  by (meson order_trans)

lemma length_generation_entry: "length (generation_entry v) \<le> 27"
  by (simp add: generation_entry_def gf_and_it_def power_and_volt_def Let_def)

lemma framed_generation: "framed (generation_packet s)" "length (generation_packet s) \<le> 3340"
  using framed_text[of "''APS11000000020001''" "number_bytes (int (ecu_total s))
      @ map (bcd (had_data_broadcast_time (totals s))) [0, 2, 4, 6, 8, 10, 12]
      @ concat (map generation_entry (table (inverters s)))"]
    table_bytes[where f = generation_entry and k = 27 and vs = "inverters s", OF length_generation_entry]
  by (simp_all add: generation_packet_def Let_def)

lemma framed_ids: "framed (id_info_packet s)" "length (id_info_packet s) \<le> 3340"
  using framed_text[of "''APS110015001100''" "concat (map (\<lambda>v. id_bytes (inv_id v)) (table (inverters s)))"]
    table_bytes[where f = "\<lambda>v. id_bytes (inv_id v)" and k = 6 and vs = "inverters s"]
  by (simp_all add: id_info_packet_def)

lemma framed_short_addr: "framed (short_addr_packet s)" "length (short_addr_packet s) \<le> 3340"
  using framed_text[of "''APS110015001800''" "rateOfProgress s #
      concat (map (\<lambda>v. id_bytes (inv_id v) @ number_bytes (uint (shortaddr v))) (table (inverters s)))"]
    table_bytes[where f = "\<lambda>v. id_bytes (inv_id v) @ number_bytes (uint (shortaddr v))" and k = 8 and vs = "inverters s"]
  by (simp_all add: short_addr_packet_def)

lemma framed_flash: "framed (flash_packet n)" "length (flash_packet n) \<le> 3340"
  using framed_text[of "''APS110000001300''" "number4 n"] by (simp_all add: flash_packet_def)

lemma framed_base: "framed (base_info_packet s)" "length (base_info_packet s) \<le> 3340"
proof -
  let ?a = "zext 25 (''APS1100000001'' @ ecu_id s)"
  have a: "length ?a = 25" "take 5 ?a = ''APS11''" by (simp_all add: zext_def)
  obtain b where b: "base_info_packet s = end_packet (bytes_of ?a @ b)" "length b \<le> 100"
  proof
    show "base_info_packet s = end_packet (bytes_of ?a @ (bytes_of ''01''
     @ number4 (to_int (f32 (life_energy (totals s) * 10)) mod 2 ^ 32)
     @ number4 (system_power (totals s) mod 2 ^ 32)
     @ number4 (to_int (f32 (today_energy (totals s) * 100)) mod 2 ^ 32)
     @ map (bcd (last_ema_time (totals s))) [0, 2, 4, 6, 8, 10, 12]
     @ number_bytes (int (ecu_total s) mod 65536) @ number_bytes (ecu_count (totals s) mod 65536)
     @ bytes_of (hex2 (ecu_channel s))
     @ bytes_of ''009'' @ bytes_of ECU_VERSION_text @ bytes_of ''009'' @ bytes_of time_zone_text
     @ take 6 (MacAddress (totals s)) @ replicate 6 0))"
      by (simp only: base_info_packet_def Let_def append.simps)
  qed (simp add: hex2_def ECU_VERSION_text_def time_zone_text_def)
  then show "framed (base_info_packet s)" "length (base_info_packet s) \<le> 3340"
    using framed_text[of ?a b] a by simp_all
qed

lemma framed_wired:
  assumes "length addrs \<le> 5" "\<forall>a \<in> set addrs. length a \<le> 4"
  shows "framed (wired_packet mac mode addrs)" "length (wired_packet mac mode addrs) \<le> 3340"
proof -
  let ?b = "bytes_of (if mode = 0 then ''00'' else ''01'') @ map u8 (concat addrs) @ bytes_of (hex_string (take 6 mac))"
  have "length (concat addrs) \<le> 4 * 5"
    using concat_bound[of addrs "\<lambda>a. a" 4] assms by (simp add: mult_le_mono2 order_trans)
  then have "length ?b \<le> 34" by simp
  then show "framed (wired_packet mac mode addrs)" "length (wired_packet mac mode addrs) \<le> 3340"
    using framed_text[of "''APS110015001400''" ?b] unfolding wired_packet_def by simp_all
qed

section \<open>One packet for each request\<close>

fun packet_of :: "io \<Rightarrow> byte list list" where
  "packet_of (PhoneSend p) = [p]"
| "packet_of _ = []"

definition packets :: "ecu_state \<Rightarrow> byte list list" where
  "packets s = concat (map packet_of (trace s))"

lemma packets_emit [simp]: "packets (exec (emit e) s) = packets s @ packet_of e"
  by (simp add: packets_def emit_def)

text \<open>Reading the energies changes nothing; programs that write only files leave the trace.\<close>

lemma reads_nothing [simp]:
  "exec (read_file p) s = s" "exec (read_system_power d) s = s" "exec (days_from e p) s = s"
  "exec (read_energies w d) s = s" "exec (read_weekly_energy d) s = s" "exec (read_monthly_energy d) s = s"
  "exec (read_yearly_energy d) s = s" "exec get_Passwd s = s" "exec get_DHCP_Status s = s"
proof -
  show r: "exec (read_file p) s = s" for p s by (simp add: read_file_def)
  show d: "exec (days_from e p) s = s" for e p by (simp add: days_from_def case_prod_beta r)
  show e: "exec (read_energies w d) s = s" for w d by (simp add: read_energies_def case_prod_beta d)
  show "exec (read_system_power d) s = s" "exec (read_weekly_energy d) s = s"
    "exec (read_monthly_energy d) s = s" "exec (read_yearly_energy d) s = s"
    "exec get_Passwd s = s" "exec get_DHCP_Status s = s"
    by (simp_all add: read_system_power_def read_weekly_energy_def read_monthly_energy_def
        read_yearly_energy_def get_Passwd_def get_DHCP_Status_def case_prod_beta r e)
qed

definition same_trace :: "ecu_state \<Rightarrow> ecu_state \<Rightarrow> bool" where
  "same_trace s t = (trace t = trace s \<and> datetime t = datetime s)"

interpretation quiet: effect same_trace
  by unfold_locales (auto simp: same_trace_def)

lemma quiet_programs:
  "state_io_rel same_trace (write_file p txt)" "state_io_rel same_trace (echo p txt)"
  "state_io_rel same_trace (remove_file p)" "state_io_rel same_trace get_id_from_file"
proof -
  have m: "state_io_rel same_trace (modify f)" if "\<And>s. trace (f s) = trace s \<and> datetime (f s) = datetime s" for f
    using that by (simp add: state_io_rel_def same_trace_def)
  show w: "state_io_rel same_trace (write_file p txt)"
    unfolding write_file_def by (intro quiet.eff_bind quiet.eff_gets quiet.eff_if quiet.eff_return m) simp
  show "state_io_rel same_trace (echo p txt)"
    unfolding echo_def by (intro quiet.eff_bind quiet.eff_return w)
  show "state_io_rel same_trace (remove_file p)" unfolding remove_file_def by (rule m) simp
  show "state_io_rel same_trace get_id_from_file"
    unfolding get_id_from_file_def
    by (intro quiet.eff_bind quiet.eff_read_file quiet.eff_option quiet.eff_return quiet.eff_gets
        quiet.eff_let quiet.eff_prod m) simp
qed

lemma quiet_packets [simp]:
  "packets (exec (write_file p txt) s) = packets s" "packets (exec (echo p txt) s) = packets s"
  "packets (exec (remove_file p) s) = packets s" "packets (exec get_id_from_file s) = packets s"
  using quiet_programs[THEN state_io_relE, of s] by (simp_all add: packets_def same_trace_def)

lemma packets_inverters [simp]: "packets (s\<lparr>inverters := vs\<rparr>) = packets s" "packets (s\<lparr>datetime := d\<rparr>) = packets s"
  by (simp_all add: packets_def)

definition answered_by :: "int \<Rightarrow> ecu_state \<Rightarrow> ecu_state \<Rightarrow> bool" where
  "answered_by cmd s t = (\<exists>p. packets t = packets s @ [p] \<and> framed p \<and> (cmd \<notin> {3, 4} \<longrightarrow> length p \<le> 3340))"

lemma answered_byI:
  "packets t = packets s @ [p] \<Longrightarrow> framed p \<Longrightarrow> cmd \<in> {3, 4} \<or> length p \<le> 3340 \<Longrightarrow> answered_by cmd s t"
  by (auto simp: answered_by_def)

lemma answered_short:
  "packets t = packets s @ [short_packet c m] \<Longrightarrow> length c = 4 \<Longrightarrow> m \<in> {0, 1, 2} \<Longrightarrow> answered_by cmd s t"
  by (rule answered_byI) (auto simp: framed_short length_short)

lemma answered_reads:
  "answered_by 1 s (exec Phone_GetBaseInfo s)" "answered_by 2 s (exec (Phone_GetGenerationData buf) s)"
  "answered_by 8 s (exec (Phone_GetECUHardwareStatus buf) s)" "answered_by 11 s (exec (Phone_GetIDInfo buf) s)"
  "length (datetime s) = 14 \<Longrightarrow> answered_by 12 s (exec (Phone_GetTime buf) s)"
  "answered_by 13 s (exec (Phone_FlashSize env buf) s)" "answered_by 18 s (exec (Phone_GetShortAddrInfo buf) s)"
  unfolding Phone_GetBaseInfo_def Phone_GetGenerationData_def Phone_GetECUHardwareStatus_def
    Phone_GetIDInfo_def Phone_GetTime_def Phone_FlashSize_def Phone_GetShortAddrInfo_def
    APP_Response_PowerGeneration_def for_this_ecu_def
  by (auto simp: answered_by_def case_prod_beta framed_base framed_generation framed_hardware framed_ids
      framed_time framed_flash framed_short_addr framed_short length_short split: option.split)

lemma answered_history:
  "answered_by 3 s (exec (Phone_GetPowerCurve buf) s)" "answered_by 4 s (exec (Phone_GetGenerationCurve buf) s)"
  unfolding Phone_GetPowerCurve_def Phone_GetGenerationCurve_def for_this_ecu_def
    APP_Response_PowerCurve_def APP_Response_GenerationCurve_def
  using framed_text[of "''APS110015000300''"] framed_text[of "''APS110015000400''"]
    framed_text[of "''APS110015000400''" "[]"]
  by (auto simp: answered_by_def case_prod_beta framed_short length_short)

lemma packets_set_time [simp]: "packets (exec (set_time t) s) = packets s"
  by (simp add: set_time_def case_prod_beta)

lemma packets_channel_files [simp]:
  "packets (exec (saveOldChannel c) s) = packets s" "packets (exec (saveNewChannel c) s) = packets s"
  "packets (exec saveChannel_change_flag s) = packets s"
  by (simp_all add: saveOldChannel_def saveNewChannel_def saveChannel_change_flag_def case_prod_beta)

lemma packets_set_Passwd [simp]: "packets (exec (set_Passwd t) s) = packets s"
  by (simp add: set_Passwd_def case_prod_beta)

lemma answered_sets:
  "answered_by 6 s (exec (Phone_SetTime buf) s)" "answered_by 7 s (exec (Phone_SetWiredNetwork buf) s)"
  "length (netif_addrs env) \<le> 5 \<Longrightarrow> answered_by 14 s (exec (Phone_GetWiredNetwork env buf) s)"
  "answered_by 15 s (exec (Phone_SetChannel buf) s)"
  unfolding Phone_SetTime_def Phone_SetWiredNetwork_def Phone_GetWiredNetwork_def Phone_SetChannel_def
    for_this_ecu_def
  using framed_wired[of "map IP_of (netif_addrs env)"]
  by (auto simp: answered_by_def case_prod_beta framed_short length_short framed_channel IP_of_def dhcp_reset_def
      split: prod.split)

lemma answered_change: "answered_by 10 s (exec (change_passwd old new) s)"
proof (cases "memeq (result get_Passwd s) old (length old) \<and> length old = length (cstr (result get_Passwd s))")
  case True
  then show ?thesis
    by (intro answered_short[of _ _ "''0010''" 0]) (auto simp: change_passwd_def case_prod_beta)
next
  case False
  then show ?thesis
    by (intro answered_short[of _ _ "''0010''" 2]) (auto simp: change_passwd_def case_prod_beta)
qed

lemma answered_passwd: "Phone_SetWIFIPasswd buf s = Some t \<Longrightarrow> answered_by 10 s t"
  by (auto simp: Phone_SetWIFIPasswd_def answered_change intro: answered_short[of _ _ "''0010''" 1] split: if_splits)

lemma packets_add: "phone_add_inverter n u = Some add \<Longrightarrow> packets (exec add s) = packets s"
  by (auto simp: phone_add_inverter_def case_prod_beta split: if_splits)

lemma answered_register: "Phone_RegisterID len buf s = Some t \<Longrightarrow> answered_by 5 s t"
  by (rule answered_short[of _ _ "''0005''" "if result (for_this_ecu buf) s then 0 else 1"])
    (auto simp: Phone_RegisterID_def case_prod_beta packets_add split: if_splits)

definition phone_commands :: "int set" where
  "phone_commands = {1, 2, 3, 4, 5, 6, 7, 8, 10, 11, 12, 13, 14, 15, 18}"



section \<open>What a request changes\<close>

definition only_packets :: "ecu_state \<Rightarrow> ecu_state \<Rightarrow> bool" where
  "only_packets s t = (\<exists>ps. t = s\<lparr>trace := trace s @ map PhoneSend ps\<rparr>)"

lemma only_packets_emit [simp]: "only_packets s (exec (emit (PhoneSend p)) s)"
  unfolding only_packets_def by (rule exI[of _ "[p]"]) (simp add: emit_def)

lemma only_packets_refl [simp]: "only_packets s s"
  unfolding only_packets_def by (rule exI[of _ "[]"]) simp

lemma foreign_commands:
  assumes "\<not> memeq (drop 13 buf) (ecu_id s) 12"
  shows "only_packets s (exec Phone_GetBaseInfo s)" "only_packets s (exec (Phone_GetGenerationData buf) s)"
    "only_packets s (exec (Phone_GetPowerCurve buf) s)" "only_packets s (exec (Phone_GetGenerationCurve buf) s)"
    "only_packets s (exec (Phone_SetTime buf) s)" "only_packets s (exec (Phone_SetWiredNetwork buf) s)"
    "only_packets s (exec (Phone_GetECUHardwareStatus buf) s)" "only_packets s (exec (Phone_GetIDInfo buf) s)"
    "only_packets s (exec (Phone_GetTime buf) s)" "only_packets s (exec (Phone_FlashSize env buf) s)"
    "only_packets s (exec (Phone_GetWiredNetwork env buf) s)" "only_packets s (exec (Phone_SetChannel buf) s)"
    "only_packets s (exec (Phone_GetShortAddrInfo buf) s)"
    "Phone_RegisterID len buf s = Some t \<Longrightarrow> only_packets s t"
    "Phone_SetWIFIPasswd buf s = Some t \<Longrightarrow> only_packets s t"
proof -
  have f: "result (for_this_ecu buf) s = False" "exec (for_this_ecu buf) s = s"
    using assms by (simp_all add: for_this_ecu_def)
  note cmd = f case_prod_beta
  show "only_packets s (exec Phone_GetBaseInfo s)" by (simp add: Phone_GetBaseInfo_def)
  show "only_packets s (exec (Phone_GetGenerationData buf) s)"
    by (simp add: Phone_GetGenerationData_def APP_Response_PowerGeneration_def cmd)
  show "only_packets s (exec (Phone_GetPowerCurve buf) s)"
    by (simp add: Phone_GetPowerCurve_def APP_Response_PowerCurve_def cmd)
  show "only_packets s (exec (Phone_GetGenerationCurve buf) s)"
    by (simp add: Phone_GetGenerationCurve_def APP_Response_GenerationCurve_def cmd)
  show "only_packets s (exec (Phone_SetTime buf) s)" by (simp add: Phone_SetTime_def cmd)
  show "only_packets s (exec (Phone_SetWiredNetwork buf) s)" by (simp add: Phone_SetWiredNetwork_def cmd)
  show "only_packets s (exec (Phone_GetECUHardwareStatus buf) s)" by (simp add: Phone_GetECUHardwareStatus_def cmd)
  show "only_packets s (exec (Phone_GetIDInfo buf) s)" by (simp add: Phone_GetIDInfo_def cmd)
  show "only_packets s (exec (Phone_GetTime buf) s)" by (simp add: Phone_GetTime_def cmd)
  show "only_packets s (exec (Phone_FlashSize env buf) s)"
    by (simp add: Phone_FlashSize_def cmd split: option.split)
  show "only_packets s (exec (Phone_GetWiredNetwork env buf) s)" by (simp add: Phone_GetWiredNetwork_def cmd)
  show "only_packets s (exec (Phone_SetChannel buf) s)" by (simp add: Phone_SetChannel_def cmd)
  show "only_packets s (exec (Phone_GetShortAddrInfo buf) s)" by (simp add: Phone_GetShortAddrInfo_def cmd)
  show "Phone_RegisterID len buf s = Some t \<Longrightarrow> only_packets s t" by (auto simp: Phone_RegisterID_def f)
  show "Phone_SetWIFIPasswd buf s = Some t \<Longrightarrow> only_packets s t" by (auto simp: Phone_SetWIFIPasswd_def f)
qed

text \<open>
  C32. A request that carries the id of another unit changes nothing: at most packets are sent.
\<close>

theorem foreign_request_inert:
  assumes "process_WIFI env buf s = Some t" "\<not> memeq (drop 13 buf) (ecu_id s) 12"
  shows "\<exists>ps. t = s\<lparr>trace := trace s @ map PhoneSend ps\<rparr>"
proof -
  have "only_packets s t"
    using assms(1) foreign_commands[OF assms(2)]
    by (auto simp: process_WIFI_def phone_command_def split: if_splits option.splits)
  then show ?thesis unfolding only_packets_def .
qed

theorem foreign_request_inert_witness:
  "\<exists>t ps. process_WIFI nothing_around
      ''APS1100270010216000000002END'' (blank\<lparr>ecu_id := ''216000000001''\<rparr>) = Some t
    \<and> t = blank\<lparr>ecu_id := ''216000000001'', trace := map PhoneSend ps\<rparr>"
proof -
  let ?buf = "''APS1100270010216000000002END''" and ?s = "blank\<lparr>ecu_id := ''216000000001''\<rparr>"
  have m: "\<not> memeq (drop 13 ?buf) (ecu_id ?s) 12" by (simp add: memeq_def zext_def)
  then obtain t where t: "process_WIFI nothing_around ?buf ?s = Some t"
    by (simp add: process_WIFI_def Resolve_RecvData_def packetlen_def ch_def phone_command_def
        Phone_SetWIFIPasswd_def for_this_ecu_def)
  then show ?thesis using foreign_request_inert[OF t m] by auto
qed

definition leaves_passwd :: "ecu_state \<Rightarrow> ecu_state \<Rightarrow> bool" where
  "leaves_passwd s t = (files t path_passwd = files s path_passwd)"

interpretation passwd: effect leaves_passwd
  by unfold_locales (auto simp: leaves_passwd_def)

named_theorems passwd_intros

lemma passwd_modify: "(\<And>s. files (f s) path_passwd = files s path_passwd) \<Longrightarrow> state_io_rel leaves_passwd (modify f)"
  by (simp add: state_io_rel_def leaves_passwd_def)

lemma passwd_emit [passwd_intros]: "state_io_rel leaves_passwd (emit e)"
  unfolding emit_def by (rule passwd_modify) simp

lemmas passwd_rules = passwd.eff_bind passwd.eff_return passwd.eff_gets passwd.eff_read_file passwd.eff_if
  passwd.eff_option passwd.eff_prod passwd.eff_let

lemma passwd_write [passwd_intros]: "p \<noteq> path_passwd \<Longrightarrow> state_io_rel leaves_passwd (write_file p txt)"
  unfolding write_file_def by (intro passwd_rules passwd_modify) simp_all

lemma passwd_echo [passwd_intros]: "p \<noteq> path_passwd \<Longrightarrow> state_io_rel leaves_passwd (echo p txt)"
  unfolding echo_def by (intro passwd_rules passwd_intros)

lemma passwd_remove [passwd_intros]: "p \<noteq> path_passwd \<Longrightarrow> state_io_rel leaves_passwd (remove_file p)"
  unfolding remove_file_def by (rule passwd_modify) simp

lemma passwd_ids [passwd_intros]: "state_io_rel leaves_passwd get_id_from_file"
  unfolding get_id_from_file_def by (intro passwd_rules passwd_modify) simp_all

lemma passwd_paths [passwd_intros]:
  "path_id \<noteq> path_passwd" "path_limiteid \<noteq> path_passwd" "path_staticip \<noteq> path_passwd"
  "path_old_chan \<noteq> path_passwd" "path_new_chan \<noteq> path_passwd" "path_changech \<noteq> path_passwd"
  by (simp_all add: path_id_def path_limiteid_def path_staticip_def path_old_chan_def path_new_chan_def
      path_changech_def path_passwd_def)

lemma passwd_time [passwd_intros]: "state_io_rel leaves_passwd (set_time t)"
  unfolding set_time_def by (intro passwd_rules passwd_intros passwd_modify) simp_all

lemma passwd_energies [passwd_intros]:
  "state_io_rel leaves_passwd (read_system_power d)" "state_io_rel leaves_passwd (read_weekly_energy d)"
  "state_io_rel leaves_passwd (read_monthly_energy d)" "state_io_rel leaves_passwd (read_yearly_energy d)"
  "state_io_rel leaves_passwd get_DHCP_Status"
  by (simp_all add: state_io_rel_def leaves_passwd_def)

lemma passwd_channel [passwd_intros]:
  "state_io_rel leaves_passwd (saveOldChannel c)" "state_io_rel leaves_passwd (saveNewChannel c)"
  "state_io_rel leaves_passwd saveChannel_change_flag"
  unfolding saveOldChannel_def saveNewChannel_def saveChannel_change_flag_def
  by (intro passwd_rules passwd_intros)+

lemma passwd_commands:
  "state_io_rel leaves_passwd Phone_GetBaseInfo" "state_io_rel leaves_passwd (Phone_GetGenerationData buf)"
  "state_io_rel leaves_passwd (Phone_GetPowerCurve buf)" "state_io_rel leaves_passwd (Phone_GetGenerationCurve buf)"
  "state_io_rel leaves_passwd (Phone_SetTime buf)" "state_io_rel leaves_passwd (Phone_SetWiredNetwork buf)"
  "state_io_rel leaves_passwd (Phone_GetECUHardwareStatus buf)" "state_io_rel leaves_passwd (Phone_GetIDInfo buf)"
  "state_io_rel leaves_passwd (Phone_GetTime buf)" "state_io_rel leaves_passwd (Phone_FlashSize env buf)"
  "state_io_rel leaves_passwd (Phone_GetWiredNetwork env buf)" "state_io_rel leaves_passwd (Phone_SetChannel buf)"
  "state_io_rel leaves_passwd (Phone_GetShortAddrInfo buf)"
  unfolding Phone_GetBaseInfo_def Phone_GetGenerationData_def APP_Response_PowerGeneration_def
    Phone_GetPowerCurve_def APP_Response_PowerCurve_def Phone_GetGenerationCurve_def
    APP_Response_GenerationCurve_def Phone_SetTime_def Phone_SetWiredNetwork_def dhcp_reset_def
    Phone_GetECUHardwareStatus_def Phone_GetIDInfo_def Phone_GetTime_def Phone_FlashSize_def
    Phone_GetWiredNetwork_def Phone_SetChannel_def Phone_GetShortAddrInfo_def for_this_ecu_def
  by (intro passwd_rules passwd_intros)+

lemma passwd_register: "Phone_RegisterID len buf s = Some t \<Longrightarrow> leaves_passwd s t"
proof -
  assume "Phone_RegisterID len buf s = Some t"
  moreover have "state_io_rel leaves_passwd (do { emit (PhoneSend (short_packet ''0005'' 0)); add;
      modify (\<lambda>s. s\<lparr>inverters := map clear_registered (inverters s)\<rparr>); get_id_from_file;
      emit (RestartThread 0 TYPE_MAIN) })" if "phone_add_inverter n u = Some add" for n u add
  proof -
    have "state_io_rel leaves_passwd add"
      using that unfolding phone_add_inverter_def
      by (auto split: if_splits intro!: passwd_rules passwd_intros)
    then show ?thesis by (intro passwd_rules passwd_intros passwd_modify) simp_all
  qed
  then have "leaves_passwd s (exec (do { emit (PhoneSend (short_packet ''0005'' 0)); add;
      modify (\<lambda>s. s\<lparr>inverters := map clear_registered (inverters s)\<rparr>); get_id_from_file;
      emit (RestartThread 0 TYPE_MAIN) }) s)" if "phone_add_inverter n u = Some add" for n u add
    using that by (blast intro: state_io_relE)
  moreover have "leaves_passwd s (exec (emit e) s)" for e
    by (rule state_io_relE) (rule passwd_emit)
  ultimately show ?thesis by (auto simp only: Phone_RegisterID_def map_option_eq_Some option.inject split: if_splits)
qed

lemma exec_change_passwd:
  "exec (change_passwd old new) s =
    (if memeq (result get_Passwd s) old (length old) \<and> length old = length (cstr (result get_Passwd s))
     then exec (set_Passwd new) (exec (emit (WifiPasswd (cstr new)))
       (exec (emit (PhoneSend (short_packet ''0010'' 0))) s))
     else exec (emit (PhoneSend (short_packet ''0010'' 2))) s)"
  by (auto simp: change_passwd_def case_prod_beta)

lemma memeq_whole: "memeq w old (length old) \<Longrightarrow> length old \<le> length w \<Longrightarrow> take (length old) w = old"
  by (simp add: memeq_def zext_take)

text \<open>
  C33. The password of the access point is only written by a request for this unit with command
  10 that carries the password in use; then the module and the file get the new one.
\<close>

theorem passwd_guarded:
  assumes "process_WIFI env buf s = Some t" "files t path_passwd \<noteq> files s path_passwd"
  shows "\<exists>len old new. Resolve_RecvData buf = Some (len, 10) \<and> memeq (drop 13 buf) (ecu_id s) 12
    \<and> ResolveWifiPasswd (drop 28 buf) = Some (old, new) \<and> old = cstr (result get_Passwd s)
    \<and> files t path_passwd = Some (cstr new) \<and> WifiPasswd (cstr new) \<in> set (trace t)"
proof -
  obtain len cmd where r: "Resolve_RecvData buf = Some (len, cmd)" "phone_command env cmd len buf s = Some t"
    using assms by (auto simp: process_WIFI_def split: option.splits)
  have "\<not> leaves_passwd s t" using assms(2) by (simp add: leaves_passwd_def)
  then have c: "cmd = 10" "Phone_SetWIFIPasswd buf s = Some t"
    using r(2) passwd_commands[THEN state_io_relE, of s] passwd_register[of len buf s t] passwd.R_refl[of s]
    by (auto simp: phone_command_def split: if_splits)
  have mine: "memeq (drop 13 buf) (ecu_id s) 12"
  proof (rule ccontr)
    assume "\<not> memeq (drop 13 buf) (ecu_id s) 12"
    then show False using foreign_commands(15)[OF _ c(2)] assms(2) by (auto simp: only_packets_def)
  qed
  then obtain old new where on: "ResolveWifiPasswd (drop 28 buf) = Some (old, new)"
    "t = exec (change_passwd old new) s"
    using c(2) by (auto simp: Phone_SetWIFIPasswd_def for_this_ecu_def)
  let ?w = "result get_Passwd s"
  have eq: "memeq ?w old (length old)" "length old = length (cstr ?w)"
    using assms(2) unfolding on(2) exec_change_passwd by (auto simp: emit_def split: if_splits)
  have "length (cstr ?w) \<le> length ?w" unfolding cstr_def by (rule length_takeWhile_le)
  then have "take (length old) ?w = old" using eq(1) unfolding eq(2)[symmetric] by (intro memeq_whole)
  moreover have "take (length (cstr ?w)) ?w = cstr ?w" unfolding cstr_def by (rule takeWhile_eq_take[symmetric])
  ultimately have o: "old = cstr ?w" unfolding eq(2) by (rule trans[OF sym])
  define u where "u = exec (emit (WifiPasswd (cstr new))) (exec (emit (PhoneSend (short_packet ''0010'' 0))) s)"
  have u: "files u = files s" "WifiPasswd (cstr new) \<in> set (trace u)" by (simp_all add: u_def emit_def)
  have t: "t = exec (set_Passwd new) u" unfolding on(2) exec_change_passwd u_def using eq by simp
  have "can_write u path_passwd"
    using assms(2) u(1) by (cases "can_write u path_passwd") (simp_all add: t set_Passwd_def write_file_def)
  then have "files t path_passwd = Some (cstr new)" "WifiPasswd (cstr new) \<in> set (trace t)"
    using u(2) by (simp_all add: t set_Passwd_def write_file_def)
  then show ?thesis using r(1)[unfolded c(1)] mine on(1) o
    by (intro exI[of _ len] exI[of _ old] exI[of _ new] conjI)
qed

theorem passwd_guarded_witness:
  "\<exists>t old new. process_WIFI nothing_around
      ''APS1100440010216000000001END05admin06secret'' (blank\<lparr>ecu_id := ''216000000001'',
        files := [path_passwd \<mapsto> ''admin'']\<rparr>) = Some t
    \<and> ResolveWifiPasswd ''05admin06secret'' = Some (old, new) \<and> old = ''admin''
    \<and> files t path_passwd = Some (cstr new) \<and> WifiPasswd (cstr new) \<in> set (trace t)"
proof -
  let ?buf = "''APS1100440010216000000001END05admin06secret''"
  let ?s = "blank\<lparr>ecu_id := ''216000000001'', files := [path_passwd \<mapsto> ''admin'']\<rparr>"
  let ?t = "exec (change_passwd ''admin'' ''secret'') ?s"
  have w: "result get_Passwd ?s = ''admin''" by (simp add: get_Passwd_def read_file_def)
  have c: "cstr ''admin'' = ''admin''" "cstr ''secret'' = ''secret''" by (simp_all add: cstr_def NUL_def)
  have p: "ResolveWifiPasswd ''05admin06secret'' = Some (''admin'', ''secret'')"
    by (simp add: ResolveWifiPasswd_def passwd_length_def ch_def zext_def Let_def)
  have t: "process_WIFI nothing_around ?buf ?s = Some ?t"
    by (simp add: process_WIFI_def Resolve_RecvData_def packetlen_def ch_def phone_command_def
        Phone_SetWIFIPasswd_def for_this_ecu_def memeq_def zext_def p)
  have "files ?t path_passwd = Some ''secret''"
    by (simp add: exec_change_passwd w c set_Passwd_def write_file_def emit_def)
  then have "files ?t path_passwd \<noteq> files ?s path_passwd" by simp
  from passwd_guarded[OF t this] show ?thesis using t p w c by auto
qed

section \<open>Registered inverters\<close>

lemma uid_at_prefix:
  assumes "6 * i + 6 \<le> length bs"
  shows "uid_at (text_of bs @ t) i = take 6 (drop (6 * i) bs)"
proof (rule nth_equalityI)
  show "length (uid_at (text_of bs @ t) i) = length (take 6 (drop (6 * i) bs))"
    using assms by (simp add: uid_at_def)
  fix k assume "k < length (uid_at (text_of bs @ t) i)"
  then have k: "k < 6" "k + i * 6 < length bs" using assms by (simp_all add: uid_at_def)
  have "ch (text_of bs @ t) (k + i * 6) = int (unat (bs ! (k + i * 6)))"
    using k unat_byte[of "bs ! (k + i * 6)"] by (simp add: ch_def nth_append) (simp add: text_of_def)
  moreover have "chr (nat (int (unat b))) = chr (unat b)" for b :: byte by simp
  ultimately show "uid_at (text_of bs @ t) i ! k = take 6 (drop (6 * i) bs) ! k"
    using k unat_byte[of "bs ! (k + i * 6)"]
    by (simp add: uid_at_def bytes_of_def add.commute mult.commute del: unat_eq_nat_uint)
qed

text \<open>A request that registers \<open>ids\<close>: the head with the length and the id of the unit, the ids, the end.\<close>

definition register_request :: "string \<Rightarrow> string \<Rightarrow> string list \<Rightarrow> bool" where
  "register_request ecu head ids = (length head = 28 \<and> memeq (drop 13 head) ecu 12
     \<and> Resolve_RecvData head = Some (31 + 6 * int (length ids), 5)
     \<and> (\<forall>i \<in> set ids. valid_id i) \<and> length ids \<le> 131)"

definition register_text :: "string \<Rightarrow> string list \<Rightarrow> string" where
  "register_text head ids = head @ text_of (concat (map id_bytes ids)) @ ''END''"

lemma ch_head: "k < length a \<Longrightarrow> ch (a @ b) k = ch a k"
  by (simp add: ch_def nth_append)

lemma resolve_prefix: "13 \<le> length a \<Longrightarrow> Resolve_RecvData (a @ b) = Resolve_RecvData a"
  by (simp add: Resolve_RecvData_def packetlen_def ch_head)

lemma memeq_prefix_text: "n \<le> length a \<Longrightarrow> memeq (a @ b) c n = memeq a c n"
  by (simp add: memeq_def zext_take)

lemma phone_add_lines:
  assumes "\<forall>i \<in> set ids. valid_id i" "length ids \<le> 131"
  shows "phone_add_inverter (int (length ids)) (text_of (concat (map id_bytes ids)) @ t)
    = Some (do { echo path_id (concat (map new_line ids)); echo path_limiteid ''1'' })"
proof -
  let ?bs = "concat (map id_bytes ids)"
  have line: "hex_string (uid_at (text_of ?bs @ t) i) = ids ! i" if "i < length ids" for i
  proof -
    have "length ?bs = 6 * length ids" by (rule length_concat_uniform) simp
    then have "uid_at (text_of ?bs @ t) i = take 6 (drop (6 * i) ?bs)"
      using that by (intro uid_at_prefix) simp
    also have "drop (6 * i) ?bs = concat (map id_bytes (drop i ids))"
      using drop_concat_uniform[of ids id_bytes 6 i] by (simp add: mult.commute)
    also have "\<dots> = id_bytes (ids ! i) @ concat (map id_bytes (drop (Suc i) ids))"
      using that by (simp add: Cons_nth_drop_Suc[symmetric])
    finally show ?thesis using that assms(1) by (simp add: hex_id_bytes)
  qed
  have "map (\<lambda>i. hex_string (uid_at (text_of ?bs @ t) i) @ '',,,,,,'' @ [NL]) [0..<length ids] = map new_line ids"
    using line by (intro map_upt_nth) (simp add: new_line_def)
  moreover have "19 * int (length ids) \<le> 2500" using assms(2) by simp
  ultimately show ?thesis by (simp add: phone_add_inverter_def)
qed

text \<open>
  C34. After a request of the phone to register inverters the file holds their ids, the table
  consists of them (each once, at most 120), the next start will bind them, and the main
  thread restarts.
\<close>

theorem registered_ids_used:
  assumes "register_request (ecu_id s) head ids" "can_write s path_id" "can_write s path_limiteid"
    "length (inverters s) = MAXINVERTERCOUNT"
  shows "\<exists>t. process_WIFI env (register_text head ids) s = Some t
    \<and> files t path_id = Some (concat (map new_line ids)) \<and> files t path_limiteid = Some ''1''
    \<and> table_ids (inverters t) = take MAXINVERTERCOUNT (add_new [] ids)
    \<and> trace t = trace s @ [PhoneSend (short_packet ''0005'' 0), RestartThread 0 TYPE_MAIN]"
proof -
  let ?body = "text_of (concat (map id_bytes ids)) @ ''END''"
  have r: "length head = 28" "memeq (drop 13 head) (ecu_id s) 12"
    "Resolve_RecvData head = Some (31 + 6 * int (length ids), 5)" "\<forall>i \<in> set ids. valid_id i" "length ids \<le> 131"
    using assms(1) by (auto simp: register_request_def)
  have res: "Resolve_RecvData (register_text head ids) = Some (31 + 6 * int (length ids), 5)"
    using resolve_prefix[of head ?body] r(1,3) by (simp add: register_text_def)
  have mine: "result (for_this_ecu (register_text head ids)) s"
    using r(1,2) memeq_prefix_text[of 12 "drop 13 head" ?body] by (simp add: for_this_ecu_def register_text_def)
  have num: "(6 * int (length ids)) sdiv 6 = int (length ids)" by (simp add: signed_divide_int_def sgn_if)
  define u where "u = exec (do { echo path_id (concat (map new_line ids)); echo path_limiteid ''1'' })
    (exec (emit (PhoneSend (short_packet ''0005'' 0))) s)"
  have u: "files u path_id = Some (concat (map new_line ids))" "files u path_limiteid = Some ''1''"
    "inverters u = inverters s" "trace u = trace s @ [PhoneSend (short_packet ''0005'' 0)]"
    using assms(2,3) id_limiteid by (simp_all add: u_def echo_def write_file_def emit_def)
  define w where "w = u\<lparr>inverters := map clear_registered (inverters u)\<rparr>"
  have t: "process_WIFI env (register_text head ids) s
      = Some (exec (emit (RestartThread 0 TYPE_MAIN)) (exec get_id_from_file w))"
    using res mine r(1) phone_add_lines[OF r(4,5), of "''END''"] num
    by (simp add: process_WIFI_def phone_command_def Phone_RegisterID_def register_text_def u_def w_def case_prod_beta)
  have lines: "fgets_lines 199 (concat (map new_line ids)) = map new_line ids"
    using r(4) new_line_entry by (intro fgets_short) (auto simp: id_entry_def)
  have "loaded 0 (inverters w) []"
    using assms(4) u(3) by (simp add: w_def loaded_def clear_registered_def clear_slot_def comp_def map_replicate_const)
  moreover have "\<forall>l \<in> set (map new_line ids). id_entry l" "map line_id (map new_line ids) = ids"
    using r(4) new_line_entry by (auto intro: map_idI)
  ultimately obtain m vs where m: "load_ids (map new_line ids) 0 (inverters w) = (m, vs)"
    "loaded m vs (take MAXINVERTERCOUNT (add_new [] ids))"
    using load_ids_loaded[of 0 "inverters w" "[]" "map new_line ids"] by (auto simp: MAXINVERTERCOUNT_def)
  have "exec get_id_from_file w = w\<lparr>inverters := vs\<rparr>"
    using u(1) lines m(1) by (simp add: get_id_from_file_def read_file_def w_def)
  moreover have "table_ids vs = take MAXINVERTERCOUNT (add_new [] ids)"
    using m(2) by (auto simp: loaded_def intro: table_ids_loaded)
  ultimately show ?thesis using t u by (simp add: w_def emit_def)
qed

theorem registered_ids_used_witness:
  "\<exists>t. process_WIFI nothing_around (register_text ''APS1100430005216000000001END'' [''408000000001'', ''408000000002''])
      (blank\<lparr>ecu_id := ''216000000001'', inverters := replicate MAXINVERTERCOUNT empty_inverter\<rparr>) = Some t
    \<and> table_ids (inverters t) = [''408000000001'', ''408000000002'']"
proof -
  have "register_request ''216000000001'' ''APS1100430005216000000001END'' [''408000000001'', ''408000000002'']"
    by (simp add: register_request_def memeq_def zext_def Resolve_RecvData_def packetlen_def ch_def
        valid_id_def is_digit_def)
  then show ?thesis
    using registered_ids_used[of "blank\<lparr>ecu_id := ''216000000001'',
        inverters := replicate MAXINVERTERCOUNT empty_inverter\<rparr>"
        "''APS1100430005216000000001END''" "[''408000000001'', ''408000000002'']" nothing_around]
    by (auto simp: MAXINVERTERCOUNT_def)
qed

section \<open>Addresses\<close>

lemma aton_digits_decimal:
  assumes "\<forall>c \<in> set ds. is_digit c" "r = [] \<or> \<not> is_digit (hd r)"
  shows "aton_digits 10 (of_nat a) (ds @ r) = (of_nat (digits_val a ds), r)"
  using assms(1)
proof (induction ds arbitrary: a)
  case Nil
  then show ?case using assms(2) by (cases r) simp_all
next
  case (Cons c ds)
  then have "is_digit c" "\<forall>c \<in> set ds. is_digit c" by simp_all
  then show ?case using Cons.IH[of "a * 10 + digit_val c"] by (simp add: algebra_simps)
qed

lemma dec_first: "0 < n \<Longrightarrow> hd (dec n) \<noteq> CHR ''0''"
proof (induction n rule: dec.induct)
  case (1 n)
  have z: "digit_char n \<noteq> CHR ''0''" if "0 < n" "n < 10"
  proof
    assume "digit_char n = CHR ''0''"
    then have "code (digit_char n) = code (CHR ''0'')" by simp
    then show False using that by simp
  qed
  show ?case
  proof (cases "n < 10")
    case True
    then show ?thesis using z 1(2) by (subst dec.simps) simp
  next
    case False
    then have "hd (dec (n div 10)) \<noteq> CHR ''0''" using 1 by simp
    then show ?thesis using False by (subst dec.simps) simp
  qed
qed

lemma aton_number_dec:
  assumes "r = [] \<or> hd r = CHR ''.''"
  shows "aton_number (dec n @ r) = Some (of_nat n, r)"
proof (cases "n = 0")
  case True
  have "is_digit (CHR ''0'')" by (simp add: is_digit_def)
  moreover have "\<not> is_digit (CHR ''.'')" by (simp add: is_digit_def)
  ultimately show ?thesis
    using True assms by (cases r) (simp_all add: aton_number_def dec.simps digit_char_def)
next
  case False
  obtain c cs where d: "dec n = c # cs" by (cases "dec n") auto
  then have c: "c \<noteq> CHR ''0''" "is_digit c" using dec_first[of n] False dec_digits[of c n] by auto
  have "\<not> is_digit (CHR ''.'')" by (simp add: is_digit_def)
  then have "aton_digits 10 (of_nat 0) (dec n @ r) = (of_nat (digits_val 0 (dec n)), r)"
    using assms by (intro aton_digits_decimal) (auto dest: dec_digits)
  moreover have "digits_val 0 (c # cs) = n" using digits_val_dec[of n] unfolding d .
  ultimately show ?thesis using c d by (simp add: aton_number_def)
qed

definition address :: "int list \<Rightarrow> bool" where
  "address a = (length a = 4 \<and> (\<forall>x \<in> set a. 0 \<le> x \<and> x < 256))"

lemma low_byte: "0 \<le> x \<Longrightarrow> x < 256 \<Longrightarrow> (word_of_int x :: 32 word) = take_bit 8 (word_of_int x)"
proof -
  assume "0 \<le> x" "x < 256"
  then have "take_bit 8 x = x" by (simp add: take_bit_int_eq_self)
  then show ?thesis by (metis take_bit_of_int)
qed

lemma uint_low_byte: "0 \<le> x \<Longrightarrow> x < 256 \<Longrightarrow> uint (word_of_int x :: 32 word) = x"
  by (simp add: uint_word_of_int)

lemma four_bytes:
  "map (\<lambda>k. and (drop_bit k (or (take_bit 8 d) (or (or (push_bit 24 (take_bit 8 a)) (push_bit 16 (take_bit 8 b)))
      (push_bit 8 (take_bit 8 c))))) 0xff) [24, 16, 8, 0]
    = [take_bit 8 a, take_bit 8 b, take_bit 8 c, take_bit 8 (d :: 32 word)]"
proof -
  have m: "(0xff :: 32 word) = mask 8" by (simp add: mask_eq_exp_minus_1)
  show ?thesis unfolding m by (simp, intro conjI) (rule bit_eqI; auto simp: bit_simps)+
qed

lemma ipaddr_dotted:
  assumes "address [a, b, c, d]"
  shows "ipaddr_aton (dotted [a, b, c, d]) = Some (or (word_of_int d)
    (or (or (push_bit 24 (word_of_int a)) (push_bit 16 (word_of_int b))) (push_bit 8 (word_of_int c))))"
proof -
  have p: "0 \<le> a" "0 \<le> b" "0 \<le> c" "0 \<le> d" "d < 256" using assms by (simp_all add: address_def)
  have w: "(of_nat (nat x) :: 32 word) = word_of_int x" if "0 \<le> x" for x using that by simp
  have n: "aton_number (dec n @ CHR ''.'' # r) = Some (of_nat n, CHR ''.'' # r)" "aton_number (dec n) = Some (of_nat n, [])"
    for n r using aton_number_dec[of "CHR ''.'' # r" n] aton_number_dec[of "[]" n] by simp_all
  have "aton_parts 3 (dotted [a, b, c, d]) = Some ([word_of_int a, word_of_int b, word_of_int c], word_of_int d, [])"
    using p by (simp add: dotted_def fmt_d_def numeral_3_eq_3 n w not_less)
  moreover have "\<not> (0xff :: 32 word) < word_of_int d"
    using p by (simp add: word_less_def uint_low_byte)
  ultimately show ?thesis by (simp add: ipaddr_aton_def)
qed

lemma quad_dotted:
  assumes "address a"
  shows "\<exists>w. ipaddr_aton (dotted a) = Some w \<and> quad w = a"
proof -
  obtain x0 x1 x2 x3 where a: "a = [x0, x1, x2, x3]"
    using assms by (auto simp: address_def numeral_eq_Suc length_Suc_conv)
  have b: "0 \<le> x0" "x0 < 256" "0 \<le> x1" "x1 < 256" "0 \<le> x2" "x2 < 256" "0 \<le> x3" "x3 < 256"
    using assms by (simp_all add: a address_def)
  note low = low_byte[OF b(1,2)] low_byte[OF b(3,4)] low_byte[OF b(5,6)] low_byte[OF b(7,8)]
  define w where "w = or (word_of_int x3)
    (or (or (push_bit 24 (word_of_int x0)) (push_bit 16 (word_of_int x1))) (push_bit 8 (word_of_int x2 :: 32 word)))"
  have "map (\<lambda>k. and (drop_bit k w) 0xff) [24, 16, 8, 0]
      = [word_of_int x0, word_of_int x1, word_of_int x2, word_of_int x3]"
    using four_bytes[of "word_of_int x3" "word_of_int x0" "word_of_int x1" "word_of_int x2"]
    unfolding low[symmetric] w_def .
  then have "map uint (map (\<lambda>k. and (drop_bit k w) 0xff) [24, 16, 8, 0]) = a"
    using b by (simp add: a uint_low_byte)
  then have "quad w = a" by (simp add: quad_def)
  then show ?thesis using ipaddr_dotted[of x0 x1 x2 x3] assms unfolding a w_def by blast
qed

lemma dotted_chars: "c \<in> set (dotted a) \<Longrightarrow> is_digit c \<or> c = CHR ''-'' \<or> c = CHR ''.''"
  by (auto simp: dotted_def dest: fmt_d_chars)

lemma length_dotted: "address a \<Longrightarrow> length (dotted a) < 64"
proof -
  assume a: "address a"
  have "length (fmt_d (a ! k)) \<le> 4" if "k < 4" for k
  proof -
    have "a ! k \<in> set a" using a that by (simp add: address_def)
    then have "0 \<le> a ! k" "a ! k < 256" using a by (simp_all add: address_def)
    then show ?thesis using length_fmt_d[of "a ! k" 3] by simp
  qed
  from this[of 0] this[of 1] this[of 2] this[of 3] show ?thesis by (simp add: dotted_def)
qed

definition addresses :: "int list list \<Rightarrow> bool" where
  "addresses addrs = (length addrs = 5 \<and> (\<forall>a \<in> set addrs. address a))"

lemma static_pairs:
  assumes "addresses addrs"
  shows "\<forall>nv \<in> set (zip network_names (map dotted addrs)). pair_ok nv"
proof (rule ballI, rule prod.exhaust)
  fix nv n v assume nv: "nv \<in> set (zip network_names (map dotted addrs))" and e: "nv = (n, v)"
  then have n: "n \<in> set network_names" and v: "v \<in> set (map dotted addrs)"
    by (auto dest: set_zip_leftD set_zip_rightD)
  have "length n < 32" "\<forall>c \<in> set n. c \<noteq> CHR ''='' \<and> c \<noteq> NL \<and> c \<noteq> NUL"
    using n by (auto simp: network_names_def NL_def NUL_def)
  moreover have "length v < 64" using v assms length_dotted by (auto simp: addresses_def)
  moreover have "\<forall>c \<in> set v. c \<noteq> NL \<and> c \<noteq> NUL"
    using v by (auto simp: NL_def NUL_def is_digit_def dest!: dotted_chars)
  ultimately show "pair_ok nv" by (simp add: e pair_ok_def)
qed

lemma get_set_addrs:
  assumes "addresses addrs" "length held = 5"
  shows "getAddr (zip network_names (map dotted addrs)) held = addrs"
proof -
  obtain a b c d e where addrs: "addrs = [a, b, c, d, e]"
    using assms(1) by (auto simp: addresses_def numeral_eq_Suc length_Suc_conv)
  obtain a' b' c' d' e' where held: "held = [a', b', c', d', e']"
    using assms(2) by (auto simp: numeral_eq_Suc length_Suc_conv)
  have "(case ipaddr_aton (dotted x) of None \<Rightarrow> [0, 0, 0, 0] | Some w \<Rightarrow> quad w) = x" if "x \<in> set addrs" for x
    using quad_dotted[of x] that assms(1) by (auto simp: addresses_def)
  then show ?thesis by (simp add: addrs held network_names_def)
qed

lemma read_static:
  assumes "files u path_staticip = Some (static_text addrs)" "addresses addrs"
  shows "run_state (file_get_array 5 path_staticip) u = ((0, zip network_names (map dotted addrs)), u)"
proof -
  let ?arr = "zip network_names (map dotted addrs)" and ?u = "u\<lparr>can_write := \<lambda>_. True\<rparr>"
  have n: "length ?arr = 5" using assms(2) by (simp add: addresses_def network_names_def)
  have st: "static_text addrs = concat (map (\<lambda>(n, v). n @ ''='' @ v @ [NL]) ?arr)"
    by (simp add: static_text_def zip_map2 comp_def case_prod_unfold)
  have "result (file_get_array (length ?arr) path_staticip) (exec (file_set_array ?arr path_staticip) ?u) = (0, ?arr)"
    using static_pairs[OF assms(2)] by (rule array_file_read) simp
  then have "result (file_get_array 5 path_staticip) u = (0, ?arr)"
    using assms(1) unfolding n
    by (simp add: file_get_array_def file_set_array_def read_file_def write_file_def st Let_def)
  moreover have "exec (file_get_array 5 path_staticip) u = u"
    by (simp add: file_get_array_def read_file_def case_prod_beta split: option.split)
  ultimately show ?thesis by (metis prod.collapse)
qed

lemma trace_start:
  "trace (exec get_ecuid s) = trace s" "files (exec get_ecuid s) = files s"
  "trace (exec (get_mac env) s) = trace s" "files (exec (get_mac env) s) = files s"
  "trace (exec readconnecttime s) = trace s" "files (exec readconnecttime s) = files s"
  "trace (exec (set_totals f) s) = trace s" "files (exec (set_totals f) s) = files s"
  by (simp_all add: get_ecuid_def get_mac_def readconnecttime_def set_totals_def read_file_def split: option.split)

lemma start_with_static:
  assumes "files u path_staticip = Some (static_text addrs)" "addresses addrs"
  shows "trace (exec (phone_start env) u) = trace u @ [StaticIp addrs]"
proof -
  define v where "v = exec readconnecttime (exec (set_totals (\<lambda>t. t\<lparr>MacAddress := result (get_mac env) (exec get_ecuid u)\<rparr>))
    (exec (get_mac env) (exec get_ecuid u)))"
  have v: "trace v = trace u" "files v = files u" by (simp_all add: v_def trace_start)
  have "exec (phone_start env) u = exec (emit (StaticIp (getAddr (zip network_names (map dotted addrs))
      (replicate 5 (replicate 4 (any_int (stale v))))))) v"
    using read_static[of v addrs] assms v(2)
    by (simp add: phone_start_def v_def[symmetric] case_prod_beta)
  then show ?thesis using v(1) get_set_addrs[OF assms(2)] by (simp add: emit_def)
qed

lemma resolved_addresses: "ResolveWired p = (1, addrs) \<Longrightarrow> addresses addrs"
proof -
  assume "ResolveWired p = (1, addrs)"
  then have addrs: "addrs = map (\<lambda>i. map (\<lambda>k. ch p (2 + 4 * i + k)) [0..<4]) [0..<5]"
    by (simp add: ResolveWired_def split: if_splits)
  have "0 \<le> ch p k" "ch p k < 256" for k
    using nat_of_char_less_256 by (simp_all add: ch_def)
  then show ?thesis by (auto simp: addrs addresses_def address_def)
qed

text \<open>
  C35. The addresses that the phone sets for the wired network are used at once and by every
  later start of the server, as long as the file stays.
\<close>

theorem static_addresses_kept:
  assumes "Resolve_RecvData buf = Some (len, 7)" "memeq (drop 13 buf) (ecu_id s) 12"
    "ResolveWired (drop 28 buf) = (1, addrs)" "can_write s path_staticip"
  shows "\<exists>t. process_WIFI env buf s = Some t \<and> last (trace t) = StaticIp addrs
    \<and> (\<forall>u env'. files u path_staticip = files t path_staticip \<longrightarrow>
        trace (exec (phone_start env') u) = trace u @ [StaticIp addrs])"
proof -
  have t: "process_WIFI env buf s = Some (exec (emit (StaticIp addrs)) (exec (echo path_staticip (static_text addrs))
      (exec (emit (PhoneSend (short_packet ''0007'' 0))) s)))" (is "_ = Some ?t")
    using assms(1-3) by (simp add: process_WIFI_def phone_command_def Phone_SetWiredNetwork_def for_this_ecu_def
        case_prod_beta)
  have "files ?t path_staticip = Some (static_text addrs)" "last (trace ?t) = StaticIp addrs"
    using assms(4) by (simp_all add: echo_def write_file_def emit_def)
  then show ?thesis using t start_with_static[OF _ resolved_addresses[OF assms(3)]] by auto
qed

theorem static_addresses_kept_witness:
  "\<exists>t addrs. process_WIFI nothing_around ''APS1100530007216000000001END01AAAABBBBCCCCDDDDEEEE''
      (blank\<lparr>ecu_id := ''216000000001''\<rparr>) = Some t \<and> last (trace t) = StaticIp addrs
    \<and> trace (exec (phone_start nothing_around) t) = trace t @ [StaticIp addrs]"
proof -
  let ?buf = "''APS1100530007216000000001END01AAAABBBBCCCCDDDDEEEE''"
  obtain addrs where a: "ResolveWired (drop 28 ?buf) = (1, addrs)" by (simp add: ResolveWired_def ch_def)
  have "Resolve_RecvData ?buf = Some (53, 7)" by (simp add: Resolve_RecvData_def packetlen_def ch_def)
  moreover have "memeq (drop 13 ?buf) (ecu_id (blank\<lparr>ecu_id := ''216000000001''\<rparr>)) 12"
    by (simp add: memeq_def zext_def)
  ultimately show ?thesis
    using static_addresses_kept[of ?buf 53 "blank\<lparr>ecu_id := ''216000000001''\<rparr>" addrs nothing_around] a by auto
qed

end
