(* ===== verification/Phone_Channel.thy ===== *)
theory Phone_Channel
  imports Phone_Spec Bind_Spec
begin

text \<open>
  The change of the ZigBee channel from the phone to the inverters: the request leaves the two
  channels in files and restarts the main thread, which carries the change out.
\<close>

lemma channel_paths:
  "path_changech \<noteq> path_old_chan" "path_changech \<noteq> path_new_chan" "path_old_chan \<noteq> path_new_chan"
  "path_limiteid \<noteq> path_old_chan" "path_limiteid \<noteq> path_new_chan" "path_limiteid \<noteq> path_changech"
  by (simp_all add: path_changech_def path_old_chan_def path_new_chan_def path_limiteid_def)

lemma first_line_byte: "first_line 3 (fmt_d (uint (b::byte))) = fmt_d (uint b)"
proof (rule first_line_all)
  show "NL \<notin> set (fmt_d (uint b))" using fmt_d_plain by (auto simp: plain_char_def)
  have "nat (uint b) < 1000" using byte_bounds[of b] by linarith
  then have "length (dec (nat (uint b))) \<le> 3" by (intro length_dec_le) simp_all
  then show "length (fmt_d (uint b)) \<le> 3" using byte_bounds[of b] by (simp add: fmt_d_def)
qed simp

text \<open>What the request leaves in the files, and what the main thread reads there.\<close>

definition requested_channels :: "byte \<Rightarrow> byte \<Rightarrow> ecu_state \<Rightarrow> bool" where
  "requested_channels old new s = (files s path_old_chan = Some (fmt_d (uint old))
     \<and> files s path_new_chan = Some (fmt_d (uint new)) \<and> files s path_changech = Some ''1'')"

lemma requested_channels_read:
  assumes "requested_channels old new s"
  shows "result channel_need_change s" "result getOldChannel s = uint old" "result getNewChannel s = uint new"
proof -
  have "ch (first_line 1 ''1'') 0 = 0x31" by (subst first_line_all) (simp_all add: ch_def NL_def)
  then show "result channel_need_change s" "result getOldChannel s = uint old" "result getNewChannel s = uint new"
    using assms by (simp_all add: requested_channels_def channel_need_change_def getOldChannel_def
        getNewChannel_def read_file_def first_line_byte)
qed



end
