(* ===== verification/Ntp_Time.thy ===== *)
theory Ntp_Time
  imports Phone_Server Energy_Spec
begin

text \<open>
  The time of an NTP server (\<open>ECU/NTP/src\<close>): its conversion to the time zone of the unit
  (\<open>ntpcomm.c\<close>, \<open>getTimeZone\<close> of \<open>file.c\<close>), the exchange (\<open>ntpapp.c\<close>), and where the conversion
  yields a date. The broken-down time of \<open>localtime\<close> is a parameter.
\<close>

section \<open>The conversion\<close>

record tm =
  tm_sec :: int
  tm_min :: int
  tm_hour :: int
  tm_mday :: int
  tm_mon :: int
  tm_year :: int

definition path_timezone :: string where
  "path_timezone = ''/YUNENG/TIMEZONE.CON''"

definition getTimeZone :: "int ecu" where
  "getTimeZone = do {
     f \<leftarrow> read_file path_timezone;
     ret (case f of None \<Rightarrow> 8
       | Some content \<Rightarrow> (let timeZone = atoi (cstr (drop 7 (first_line 9 content))) in
           if 12 \<le> timeZone \<or> timeZone \<le> -12 then 8 else timeZone)) }"

definition days_of_month :: "tm \<Rightarrow> int \<Rightarrow> int" where
  "days_of_month t mon = day_tab ! leap (tm_year t + 1900) ! nat mon"

definition transfer_time :: "tm \<Rightarrow> int \<Rightarrow> tm" where
  "transfer_time t timezone = (let h = tm_hour t + timezone in
     if 24 < h then
       (if tm_mday t = days_of_month t (tm_mon t) then
          (if tm_mon t = 11 then t\<lparr>tm_hour := h - 24, tm_mday := 1, tm_mon := 0, tm_year := tm_year t + 1\<rparr>
           else t\<lparr>tm_hour := h - 24, tm_mday := 1, tm_mon := tm_mon t + 1\<rparr>)
        else t\<lparr>tm_hour := h - 24, tm_mday := tm_mday t + 1\<rparr>)
     else if h < 0 then
       (if days_of_month t (tm_mon t) = 1 then
          (if tm_mon t = 0 then t\<lparr>tm_hour := h + 24, tm_mday := 31, tm_mon := 11, tm_year := tm_year t - 1\<rparr>
           else t\<lparr>tm_hour := h + 24, tm_mday := days_of_month t (tm_mon t - 1), tm_mon := tm_mon t - 1\<rparr>)
        else t\<lparr>tm_hour := h + 24, tm_mday := tm_mday t - 1\<rparr>)
     else t\<lparr>tm_hour := h\<rparr>)"

definition time_text :: "tm \<Rightarrow> string" where
  "time_text t = fmt_0d 4 (tm_year t + 1900) @ fmt_0d 2 (tm_mon t + 1) @ fmt_0d 2 (tm_mday t)
     @ fmt_0d 2 (tm_hour t) @ fmt_0d 2 (tm_min t) @ fmt_0d 2 (tm_sec t)"

definition update_time :: "(int \<Rightarrow> tm) \<Rightarrow> int \<Rightarrow> unit ecu" where
  "update_time localtime new_time = do {
     emit MutexTake;
     timezone \<leftarrow> getTimeZone;
     set_time (time_text (transfer_time (localtime new_time) timezone));
     emit MutexRelease }"

section \<open>The exchange\<close>

text \<open>
  What a wait for the answer meets: nothing in six seconds, a packet that cannot be received,
  or the seconds of the transmit time stamp. \<open>held\<close>: what the variable for the time held.
\<close>

datatype ntp_answer = NoAnswer | AnswerLost | Answer int

definition gettimepacket :: "int \<Rightarrow> int" where
  "gettimepacket sec = int_wrap (sec - 0x83aa7e80)"

definition get_time_from_NTP :: "(int \<Rightarrow> tm) \<Rightarrow> int \<Rightarrow> bool \<Rightarrow> bool \<Rightarrow> ntp_answer list \<Rightarrow> int ecu" where
  "get_time_from_NTP localtime held socket_ok connect_ok waits =
     (if \<not> socket_ok \<or> \<not> connect_ok then ret (-1)
      else (case dropWhile (\<lambda>a. a = NoAnswer) (take 4 waits) of
          [] \<Rightarrow> ret (-1)
        | a # _ \<Rightarrow> do {
            update_time localtime (case a of Answer sec \<Rightarrow> gettimepacket sec | _ \<Rightarrow> held);
            ret 0 }))"

section \<open>Where the conversion is right\<close>

definition valid_tm :: "tm \<Rightarrow> bool" where
  "valid_tm t = (valid_date (tm_year t + 1900) (tm_mon t + 1) (tm_mday t) \<and> 0 \<le> tm_hour t \<and> tm_hour t < 24
     \<and> 0 \<le> tm_min t \<and> tm_min t < 60 \<and> 0 \<le> tm_sec t \<and> tm_sec t < 60)"

definition tm_days :: "tm \<Rightarrow> int" where
  "tm_days t = green_days (midnight (tm_year t + 1900) (tm_mon t + 1) (tm_mday t))"

definition tm_seconds :: "tm \<Rightarrow> int" where
  "tm_seconds t = ((tm_days t * 24 + tm_hour t) * 60 + tm_min t) * 60 + tm_sec t"

lemma month_days: "valid_tm t \<Longrightarrow> 28 \<le> days_of_month t (tm_mon t) \<and> days_of_month t (tm_mon t) \<le> 31"
  using month_length[of "tm_mon t + 1" "tm_year t + 1900"]
  by (simp add: valid_tm_def valid_date_def days_of_month_def)

text \<open>The next day, and the last one of a month or a year.\<close>

lemma day_after:
  assumes "valid_tm t" "tm_year t \<le> 198"
  shows "(if tm_mday t = days_of_month t (tm_mon t) then
      (if tm_mon t = 11 then u = t\<lparr>tm_mday := 1, tm_mon := 0, tm_year := tm_year t + 1\<rparr>
       else u = t\<lparr>tm_mday := 1, tm_mon := tm_mon t + 1\<rparr>)
      else u = t\<lparr>tm_mday := tm_mday t + 1\<rparr>) \<Longrightarrow> valid_tm u \<and> tm_days u = tm_days t + 1"
proof -
  let ?y = "tm_year t + 1900" and ?m = "tm_mon t + 1"
  have v: "valid_date ?y ?m (tm_mday t)" using assms(1) by (simp add: valid_tm_def)
  note d = green_days_midnight
  assume u: "if tm_mday t = days_of_month t (tm_mon t) then
      (if tm_mon t = 11 then u = t\<lparr>tm_mday := 1, tm_mon := 0, tm_year := tm_year t + 1\<rparr>
       else u = t\<lparr>tm_mday := 1, tm_mon := tm_mon t + 1\<rparr>)
      else u = t\<lparr>tm_mday := tm_mday t + 1\<rparr>"
  show ?thesis
  proof (cases "tm_mday t = days_of_month t (tm_mon t)")
    case False
    then have u: "u = t\<lparr>tm_mday := tm_mday t + 1\<rparr>" using u by simp
    have w: "valid_date ?y ?m (tm_mday t + 1)" using v False by (auto simp: valid_date_def days_of_month_def)
    then show ?thesis using assms(1) d[OF v] d[OF w] by (simp add: u valid_tm_def tm_days_def)
  next
    case last: True
    show ?thesis
    proof (cases "tm_mon t = 11")
      case True
      then have u: "u = t\<lparr>tm_mday := 1, tm_mon := 0, tm_year := tm_year t + 1\<rparr>" using u last by simp
      have w: "valid_date (?y + 1) 1 1" using v assms(2) month_length[of 1 "?y + 1"] by (simp add: valid_date_def)
      have "days_to_year (?y + 1) = days_to_year ?y + days_to_month ?y 12 + day_tab ! leap ?y ! 11"
        using v by (intro next_year) (simp_all add: valid_date_def)
      then show ?thesis
        using assms(1) d[OF v] d[OF w] w last True month_start[of "?y + 1"]
        by (simp add: u valid_tm_def tm_days_def days_of_month_def algebra_simps)
    next
      case False
      then have u: "u = t\<lparr>tm_mday := 1, tm_mon := tm_mon t + 1\<rparr>" using u last by simp
      have m: "?m < 12" using v False by (simp add: valid_date_def)
      have w: "valid_date ?y (?m + 1) 1" using v m month_length[of "?m + 1" ?y] by (simp add: valid_date_def)
      have "days_to_month ?y (?m + 1) = days_to_month ?y ?m + day_tab ! leap ?y ! nat (?m - 1)"
        using v m by (intro next_month) (simp_all add: valid_date_def)
      then show ?thesis
        using assms(1) d[OF v] d[OF w] w last
        by (simp add: u valid_tm_def tm_days_def days_of_month_def algebra_simps)
    qed
  qed
qed

lemma transfer_forward:
  assumes "valid_tm t" "24 < tm_hour t + z" "z < 12" "tm_year t \<le> 198"
  shows "valid_tm (transfer_time t z) \<and> tm_seconds (transfer_time t z) = tm_seconds t + 3600 * z"
proof -
  define u where "u = (transfer_time t z)\<lparr>tm_hour := tm_hour t\<rparr>"
  have e: "transfer_time t z = u\<lparr>tm_hour := tm_hour t + z - 24\<rparr>"
    using assms(2) by (simp add: u_def transfer_time_def Let_def)
  have "valid_tm u \<and> tm_days u = tm_days t + 1"
    by (rule day_after[OF assms(1,4)]) (use assms(2) in \<open>simp add: u_def transfer_time_def Let_def\<close>)
  moreover have "tm_min u = tm_min t" "tm_sec u = tm_sec t"
    using assms(2) by (simp_all add: u_def transfer_time_def Let_def)
  moreover have "tm_days (u\<lparr>tm_hour := h\<rparr>) = tm_days u" for h by (simp add: tm_days_def)
  ultimately show ?thesis using assms by (simp add: e valid_tm_def tm_seconds_def)
qed

text \<open>The test for the first day of a month looks at the length of the month, which is never 1.\<close>

lemma transfer_back:
  assumes "valid_tm t" "tm_hour t + z < 0"
  shows "transfer_time t z = t\<lparr>tm_hour := tm_hour t + z + 24, tm_mday := tm_mday t - 1\<rparr>"
  using assms month_days[OF assms(1)] by (auto simp: transfer_time_def Let_def)

text \<open>
  C37. The conversion to a time zone yields a date unless the hour becomes 24 or, west of
  Greenwich, the first day of a month is left; then it is the right one: it lies the hours of
  the zone after the time of the server.
\<close>

theorem zone_conversion:
  assumes "valid_tm t" "-12 < z" "z < 12" "tm_year t \<le> 198"
  shows "(valid_tm (transfer_time t z) \<longleftrightarrow> tm_hour t + z \<noteq> 24 \<and> \<not> (tm_hour t + z < 0 \<and> tm_mday t = 1))
    \<and> (valid_tm (transfer_time t z) \<longrightarrow> tm_seconds (transfer_time t z) = tm_seconds t + 3600 * z)"
proof -
  consider "24 < tm_hour t + z" | "tm_hour t + z < 0" | "0 \<le> tm_hour t + z" "tm_hour t + z \<le> 24" by linarith
  then show ?thesis
  proof cases
    case 1
    then show ?thesis using transfer_forward[OF assms(1) _ assms(3,4)] by simp
  next
    case 2
    note b = transfer_back[OF assms(1) 2]
    have v: "valid_date (tm_year t + 1900) (tm_mon t + 1) (tm_mday t)" using assms(1) by (simp add: valid_tm_def)
    have "valid_date (tm_year t + 1900) (tm_mon t + 1) (tm_mday t - 1) \<longleftrightarrow> tm_mday t \<noteq> 1"
      using v by (auto simp: valid_date_def)
    moreover have "tm_days (t\<lparr>tm_hour := h, tm_mday := tm_mday t - 1\<rparr>) = tm_days t - 1"
      if "valid_date (tm_year t + 1900) (tm_mon t + 1) (tm_mday t - 1)" for h
      using green_days_midnight[OF v] green_days_midnight[OF that] by (simp add: tm_days_def)
    ultimately show ?thesis using assms 2 by (auto simp: b valid_tm_def tm_seconds_def)
  next
    case 3
    then have "transfer_time t z = t\<lparr>tm_hour := tm_hour t + z\<rparr>" by (simp add: transfer_time_def Let_def)
    then show ?thesis using assms(1) 3 by (auto simp: valid_tm_def tm_seconds_def tm_days_def)
  qed
qed

text \<open>The last hours of 2020 in Greenwich, eight hours east and west.\<close>

definition new_years_eve :: tm where
  "new_years_eve = \<lparr>tm_sec = 0, tm_min = 30, tm_hour = 20, tm_mday = 31, tm_mon = 11, tm_year = 120\<rparr>"

theorem zone_conversion_witness:
  "valid_tm (transfer_time new_years_eve 8) \<and> time_text (transfer_time new_years_eve 8) = ''20210101043000''
    \<and> tm_seconds (transfer_time new_years_eve 8) = tm_seconds new_years_eve + 28800
    \<and> \<not> valid_tm (transfer_time new_years_eve 4)"
proof -
  have v: "valid_tm new_years_eve"
    by (simp add: new_years_eve_def valid_tm_def valid_date_def leap_def day_tab_def)
  have t: "time_text (transfer_time new_years_eve 8) = ''20210101043000''" by code_simp
  show ?thesis using zone_conversion[OF v, of 8] zone_conversion[OF v, of 4] t
    by (simp add: new_years_eve_def)
qed

text \<open>
  The sign of the file is not that of the zone: \<open>Etc/GMT-8\<close>, which the unit writes when it is
  set up and which names the zone eight hours east, sets the clock eight hours back; without
  the file it goes eight hours forward. A zone with two digits loses the second.
\<close>

lemma zone_of_file:
  "files s path_timezone = None \<Longrightarrow> result getTimeZone s = 8"
  "files s path_timezone = Some (''Etc/GMT-8'' @ [NL]) \<Longrightarrow> result getTimeZone s = -8"
  "files s path_timezone = Some (''Etc/GMT-10'' @ [NL]) \<Longrightarrow> result getTimeZone s = -1"
proof -
  have "first_line 9 (''Etc/GMT-8'' @ [NL]) = ''Etc/GMT-8''" "first_line 9 (''Etc/GMT-10'' @ [NL]) = ''Etc/GMT-1''"
    by code_simp+
  moreover have "atoi (cstr ''-8'') = -8" "atoi (cstr ''-1'') = -1" by code_simp+
  ultimately show
    "files s path_timezone = None \<Longrightarrow> result getTimeZone s = 8"
    "files s path_timezone = Some (''Etc/GMT-8'' @ [NL]) \<Longrightarrow> result getTimeZone s = -8"
    "files s path_timezone = Some (''Etc/GMT-10'' @ [NL]) \<Longrightarrow> result getTimeZone s = -1"
    by (simp_all add: getTimeZone_def read_file_def)
qed

end
