(* ===== verification/Id_Writer.thy ===== *)
theory Id_Writer
  imports Phone_Server Zb_Process Poll_Report
begin

text \<open>
  Setting the unit up: the commands of the tool that writes its ids (\<open>ECU/IDWriter/src/idwriter.c\<close>)
  with what they use of \<open>file.c\<close>, and the contact of the power station
  (\<open>ECU/DRMConnect/src/DRMConnect.c\<close>). Where the code goes on with a file that could not be
  opened the result is \<open>None\<close>.
\<close>

section \<open>Files\<close>

definition opened_write :: "string \<Rightarrow> string \<Rightarrow> ecu_state \<Rightarrow> ecu_state option" where
  "opened_write p content s = (if can_write s p then Some (exec (write_file p content) s) else None)"

definition addInverter :: "string \<Rightarrow> unit ecu" where
  "addInverter i = do {
     append_file path_id (i @ '',,,,,,'' @ [NL]);
     echo path_limiteid ''1'' }"

fun remove_files :: "string list \<Rightarrow> unit ecu" where
  "remove_files [] = ret ()"
| "remove_files (p # ps) = do { remove_file p; remove_files ps }"

definition rm_dir :: "string \<Rightarrow> unit ecu" where
  "rm_dir d = do {
     ok \<leftarrow> gets (\<lambda>s. dir_exists s d);
     ps \<leftarrow> gets (dir_paths d);
     if ok then remove_files ps else ret () }"

definition mkdir :: "string \<Rightarrow> unit ecu" where
  "mkdir d = modify (\<lambda>s. s\<lparr>dir_exists := (dir_exists s)(d := True)\<rparr>)"

fun mkdirs :: "string list \<Rightarrow> unit ecu" where
  "mkdirs [] = ret ()"
| "mkdirs (d # ds) = do { mkdir d; mkdirs ds }"

definition path_autoflag :: string where
  "path_autoflag = ''/YUNENG/AUTOFLAG.CON''"

definition initPath :: "unit ecu" where
  "initPath = do {
     mkdirs [''/HOME'', ''/TMP'', ''/YUNENG'', ''/HOME/DATA'', ''/HOME/RECORD'', ''/HOME/DATA/PROC_RES'',
       ''/HOME/DATA/IPROCRES''];
     echo path_ltpower ''0.000000'';
     mkdirs [''/HOME/RECORD/DATA'', ''/HOME/RECORD/INVERSTA'', ''/HOME/RECORD/POWER'', ''/HOME/RECORD/ENERGY''];
     echo path_area ''NA'';
     echo path_channel ''0x10'';
     echo path_limiteid ''1'';
     echo path_control control_text;
     echo path_vernum (''2'' @ [NL]);
     echo path_ftpadd ftpadd_text;
     echo path_datacent datacent_text;
     echo path_power [];
     echo ''/YUNENG/TIMEZONE.CON'' (''Etc/GMT-8'' @ [NL]);
     mkdir ''/FTP'';
     echo ''/YUNENG/A118.CON'' ''1'' }"

text \<open>\<open>dfs_mkfs\<close> leaves an empty file system.\<close>

definition mkfs :: "unit ecu" where
  "mkfs = modify (\<lambda>s. s\<lparr>files := Map.empty, dir_exists := \<lambda>_. False, dir_order := \<lambda>_. []\<rparr>)"

section \<open>Commands of the tool\<close>

text \<open>The WiFi module: whether its mode and its factory settings can be set.\<close>

record wifi_module =
  work_mode :: int
  factory :: int

definition char_at :: "string \<Rightarrow> nat \<Rightarrow> char" where
  "char_at buf k = chr (nat (ch buf k))"

definition setECUID :: "wifi_module \<Rightarrow> string \<Rightarrow> ecu_state \<Rightarrow> (int \<times> ecu_state) option" where
  "setECUID wifi i s = (case opened_write path_ecuid (cstr (take 12 i)) s of None \<Rightarrow> None
    | Some s1 \<Rightarrow> if factory wifi = -1 then Some (-1, s1) else Some (0, exec (set_Passwd ''88888888'') s1))"

definition set_ecu_id :: "wifi_module \<Rightarrow> string \<Rightarrow> ecu_state \<Rightarrow> ecu_state option" where
  "set_ecu_id wifi buf s = (let
     s1 = s\<lparr>ecu_id := cstr (take 12 (drop 11 buf))\<rparr>;
     r1 = (if work_mode wifi < 0 then -1 else (0::int)) in
     (case setECUID wifi (ecu_id s1) s1 of None \<Rightarrow> None
      | Some (r, s2) \<Rightarrow> (case files s2 path_ecuid of None \<Rightarrow> None
         | Some content \<Rightarrow> (let
             s3 = s2\<lparr>ecu_id := (if content = [] then ecu_id s2 else cstr (first_line 12 content))\<rparr>;
             r2 = (if r < 0 then -2 else r1) in
             Some (exec (do {
               emit (RestartThread 0 TYPE_MAIN);
               emit (ReplySend (if r2 = 0 then ecu_id s3
                 else if r2 = -1 then ''error code: -1'' else ''error code: -2'')) }) s3)))))"

definition get_ecu_id :: "ecu_state \<Rightarrow> ecu_state option" where
  "get_ecu_id s = (case files s path_ecuid of None \<Rightarrow> None
    | Some content \<Rightarrow> (let i = cstr (first_line 12 content) in
        Some (exec (emit (ReplySend i)) (s\<lparr>ecu_id := i\<rparr>))))"

definition mac_text :: "string \<Rightarrow> string" where
  "mac_text buf = (let c = char_at buf in [c 13, c 14, CHR '':'', c 15, c 16, CHR '':'', c 17, c 18, CHR '':'',
     c 19, c 20, CHR '':'', c 21, c 22, CHR '':'', c 23, c 24])"

definition set_eth0_mac :: "string \<Rightarrow> ecu_state \<Rightarrow> ecu_state option" where
  "set_eth0_mac buf s = (let mac = cstr (mac_text buf) in
     map_option (exec (emit (ReplySend (cstr (first_line 17 mac))))) (opened_write path_ecumac mac s))"

definition get_eth0_mac :: "ecu_state \<Rightarrow> ecu_state option" where
  "get_eth0_mac s = (case files s path_ecumac of None \<Rightarrow> None
    | Some content \<Rightarrow> Some (exec (emit (ReplySend (cstr (first_line 17 content)))) s))"

text \<open>The ids are separated by one character.\<close>

fun add_all :: "string list \<Rightarrow> unit ecu" where
  "add_all [] = ret ()"
| "add_all (i # ids) = do { addInverter i; add_all ids }"

definition inverter_ids :: "string \<Rightarrow> string list" where
  "inverter_ids b = map (\<lambda>k. cstr (take 12 (drop (k * 13) b))) [0..<(length b + 1) div 13]"

definition insertinverter :: "string \<Rightarrow> ecu_state \<Rightarrow> (int \<times> ecu_state) option" where
  "insertinverter b s = (let
     s1 = exec (do { clear_id; add_all (inverter_ids b) }) s in
     (case opened_write path_autoflag ''0'' s1 of None \<Rightarrow> None
      | Some s2 \<Rightarrow> (case opened_write path_limiteid ''1'' s2 of None \<Rightarrow> None
         | Some s3 \<Rightarrow> Some (int (length (inverter_ids b)), exec (emit (RestartThread 0 TYPE_MAIN)) s3))))"

definition set_ids :: "string \<Rightarrow> ecu_state \<Rightarrow> ecu_state option" where
  "set_ids buf s = (case insertinverter (cstr (drop 16 buf)) s of None \<Rightarrow> None
    | Some (row, s1) \<Rightarrow> Some (exec (do {
        emit (ReplySend (zext 3 (take 2 (fmt_0d 2 row))));
        emit (RestartThread 0 TYPE_MAIN) }) s1))"

definition query_result :: "unit ecu" where
  "query_result = do {
     (found, data, t, another) \<leftarrow> search_readflag [] [] (CHR ''1'');
     emit (ReplySend (if found then cstr data else ''Failed'')) }"

definition event_text :: "string \<Rightarrow> string" where
  "event_text content = concat (map (\<lambda>l. let fs = splitString (cstr l) in fld fs 0 @ fld fs 1 @ fld fs 2)
     (fgets_lines 199 content))"

definition query_protection :: "unit ecu" where
  "query_protection = do {
     f \<leftarrow> read_file path_event;
     emit (ReplySend (case f of None \<Rightarrow> ''Failed''
       | Some content \<Rightarrow> if fgets_lines 199 content = [] then ''Failed'' else event_text content)) }"

definition clearrecord :: "unit ecu" where
  "clearrecord = do {
     remove_file path_collect;
     remove_file path_autoflag;
     clear_id;
     remove_file path_event;
     echo path_ltpower ''0.000000'';
     rm_dir dir_data;
     rm_dir dir_inversta;
     rm_dir dir_power;
     rm_dir dir_energy;
     remove_file path_event;
     rm_dir ''/TMP'';
     rm_dir dir_proc_res;
     rm_dir dir_iprocres;
     emit (RestartThread 0 TYPE_MAIN) }"

definition tool_clear :: "unit ecu" where
  "tool_clear = do {
     r \<leftarrow> saveECUChannel 16;
     emit (ReplySend (if r = 1 then ''0x10'' else ''change channel failed''));
     clearrecord;
     emit (ReplySend ''clearok'') }"

text \<open>Eight characters fill the array without its terminating NUL.\<close>

definition area_reply :: "ecu_state \<Rightarrow> string" where
  "area_reply s = (case files s path_area of None \<Rightarrow> [] | Some content \<Rightarrow> cstr (first_line 7 content))"

definition set_area :: "string \<Rightarrow> ecu_state \<Rightarrow> ecu_state option" where
  "set_area buf s = (let area = cstr (take 8 (drop 9 buf)) in
     if length area = 8 then None
     else map_option (\<lambda>s1. exec (emit (ReplySend (area_reply s1))) s1) (opened_write path_area area s))"

definition tool_set_time :: "string \<Rightarrow> unit ecu" where
  "tool_set_time buf = do {
     set_time (cstr (drop 9 buf));
     emit (ReplySend (zext 14 (drop 9 buf)));
     emit (RestartThread 0 TYPE_MAIN) }"

text \<open>
  A command is known by its first characters; the text is at most 199 characters, with zeros
  behind them. The test of the lamp has no effect that is modelled.
\<close>

definition tool_command :: "wifi_module \<Rightarrow> string \<Rightarrow> ecu_state \<Rightarrow> ecu_state option" where
  "tool_command wifi buf s = (let starts = (\<lambda>w. take (length w) buf = w); run = (\<lambda>m. Some (exec m s)) in
     if starts ''mkfs'' then run (do { mkfs; initPath; emit (ReplySend (''mkfs OK'' @ [NL])) })
     else if starts ''set_ecu_id'' then set_ecu_id wifi buf s
     else if starts ''get_ecu_id'' then get_ecu_id s
     else if starts ''set_eth0_mac'' then set_eth0_mac buf s
     else if starts ''get_eth0_mac'' then get_eth0_mac s
     else if starts ''set_time'' then run (tool_set_time buf)
     else if starts ''set_inverter_id'' then set_ids buf s
     else if starts ''query_result'' then run query_result
     else if starts ''query_protection'' then run query_protection
     else if starts ''clear'' then run tool_clear
     else if starts ''set_area'' then set_area buf s
     else if starts ''get_area'' then run (do { a \<leftarrow> gets area_reply; emit (ReplySend a) })
     else if starts ''get_version'' then run (do { a \<leftarrow> gets area_reply; emit (ReplySend (ECU_VERSION_text @ a)) })
     else if starts ''get_time'' then run (do { t \<leftarrow> gets datetime; emit (ReplySend t) })
     else Some s)"

text \<open>One connection: nothing that is received is treated as an empty command.\<close>

definition tool_turn :: "wifi_module \<Rightarrow> string \<Rightarrow> ecu_state \<Rightarrow> ecu_state option" where
  "tool_turn wifi buf s = map_option (exec (emit MutexRelease)) (tool_command wifi buf (exec (emit MutexTake) s))"

section \<open>The contact of the power station\<close>

definition path_drm :: string where
  "path_drm = ''/YUNENG/DRM.CON''"

definition DRMFunction :: "int ecu" where
  "DRMFunction = do {
     f \<leftarrow> read_file path_drm;
     ret (case f of None \<Rightarrow> -1 | Some content \<Rightarrow> if take 1 content = ''1'' then 1 else -1) }"

text \<open>
  One second of the loop: whether the two inputs differ when they are read for the first and
  for the second test. \<open>status\<close> is what was ordered last, 2 at the start.
\<close>

definition drm_turn :: "bool \<Rightarrow> bool \<Rightarrow> int \<Rightarrow> ecu_state \<Rightarrow> (int \<times> ecu_state) option" where
  "drm_turn in1 in2 status s = (let
     on = in1 \<and> status \<noteq> 1;
     s1 = (if on then opened_write path_connect ''connect all'' s else Some s);
     status1 = (if on then 1 else status);
     off = \<not> in2 \<and> status1 \<noteq> 0 in
     (case s1 of None \<Rightarrow> None
      | Some t \<Rightarrow> map_option (\<lambda>u. (if off then 0 else status1, exec (emit (DelayTicks 100)) u))
          (if off then opened_write path_connect ''disconnect all'' t else Some t)))"

fun drm_turns :: "(bool \<times> bool) list \<Rightarrow> int \<Rightarrow> ecu_state \<Rightarrow> (int \<times> ecu_state) option" where
  "drm_turns [] status s = Some (status, s)"
| "drm_turns ((a, b) # ins) status s = (case drm_turn a b status s of None \<Rightarrow> None
     | Some (status', s') \<Rightarrow> drm_turns ins status' s')"

text \<open>The thread ends at once unless the function is enabled.\<close>

definition drm_thread :: "(bool \<times> bool) list \<Rightarrow> ecu_state \<Rightarrow> ecu_state option" where
  "drm_thread ins s = (if result DRMFunction s = -1 then Some s else map_option snd (drm_turns ins 2 s))"

end
