(* ===== verification/Tool_Spec.thy ===== *)
theory Tool_Spec
  imports Id_Writer
begin

text \<open>
  What the tool and the contact set up: the address that the tool writes is the one the unit
  works with, the ids it writes are in the file of the inverter list, and the orders of the
  contact are those the polling thread carries out.
\<close>

section \<open>The MAC address\<close>

definition upper_digits :: "byte list \<Rightarrow> string" where
  "upper_digits bs = concat (map (\<lambda>b. [hexdig_upper (unat b div 16), hexdig_upper (unat b mod 16)]) bs)"

lemma hexdig_upper_plain: "n < 16 \<Longrightarrow> hexdig_upper n \<noteq> NL \<and> hexdig_upper n \<noteq> NUL"
proof -
  assume n: "n < 16"
  have "code NL = 10" "code NUL = 0" by (simp_all add: NL_def NUL_def)
  then show ?thesis using code_hexdig_upper[OF n] by (auto split: if_splits)
qed

lemma strtohex_digits: "a < 16 \<Longrightarrow> b < 16 \<Longrightarrow> strtohex (hexdig_upper a # hexdig_upper b # t) = int (a * 16 + b)"
  by (simp add: strtohex_def ch_def code_hexdig_upper Let_def)

lemma nib_upper_digit: "a < 16 \<Longrightarrow> nib_upper (int (code (hexdig_upper a))) = int a"
  by (simp add: nib_upper_def code_hexdig_upper)

lemma byte_halves: "unat (b::byte) div 16 < 16" "unat b mod 16 < 16" "unat b div 16 * 16 + unat b mod 16 = unat b"
  using unat_byte[of b] by auto

lemma u8_halves: "u8 (int (unat (b::byte) div 16 * 16 + unat b mod 16)) = b"
  unfolding byte_halves(3) by (simp add: u8_def)

text \<open>
  C39. The address that the tool sets with six bytes in upper-case digits is the one that the
  unit reads at its next start, and the PAN id of the ZigBee network is made of its last two
  bytes.
\<close>

theorem mac_gives_panid:
  assumes "length bs = 6" "can_write s path_ecumac"
  shows "\<exists>t. tool_command wifi (''set_eth0_mac '' @ upper_digits bs) s = Some t
    \<and> result (get_mac env) t = bs \<and> uint (result get_panid t) = be16 (bs ! 4) (bs ! 5)"
proof -
  obtain b0 b1 b2 b3 b4 b5 where bs: "bs = [b0, b1, b2, b3, b4, b5]"
    using assms(1) by (auto simp: numeral_eq_Suc length_Suc_conv)
  let ?h = "\<lambda>b. hexdig_upper (unat (b::byte) div 16)" and ?l = "\<lambda>b. hexdig_upper (unat (b::byte) mod 16)"
  let ?buf = "''set_eth0_mac '' @ upper_digits bs"
  define mac where "mac = [?h b0, ?l b0, CHR '':'', ?h b1, ?l b1, CHR '':'', ?h b2, ?l b2, CHR '':'',
     ?h b3, ?l b3, CHR '':'', ?h b4, ?l b4, CHR '':'', ?h b5, ?l b5]"
  have m: "mac_text ?buf = mac"
    by (simp add: mac_text_def mac_def char_at_def ch_def bs upper_digits_def)
  have plain: "\<forall>c \<in> set mac. c \<noteq> NL \<and> c \<noteq> NUL"
    using hexdig_upper_plain byte_halves by (simp add: mac_def NL_def NUL_def)
  have c: "cstr mac = mac" using plain by (intro cstr_no_nul) (auto simp: no_nul_def)
  have f: "first_line 17 mac = mac" using plain by (intro first_line_all) (auto simp: mac_def)
  define t where "t = exec (emit (ReplySend mac)) (s\<lparr>files := (files s)(path_ecumac \<mapsto> mac)\<rparr>)"
  have t: "tool_command wifi ?buf s = Some t"
    using assms(2)
    by (simp add: tool_command_def set_eth0_mac_def m[simplified] c f Let_def opened_write_def write_file_def t_def)
  have ft: "files t path_ecumac = Some mac" by (simp add: t_def emit_def)
  have "result (get_mac env) t = bs"
    using byte_halves u8_halves
    by (simp add: get_mac_def read_file_def ft f) (simp add: mac_def bs strtohex_digits)
  moreover have "uint (result get_panid t) = be16 b4 b5"
  proof -
    have k: "nib_upper (ch (take 17 mac) 12) = int (unat b4 div 16)" "nib_upper (ch (take 17 mac) 13) = int (unat b4 mod 16)"
      "nib_upper (ch (take 17 mac) 15) = int (unat b5 div 16)" "nib_upper (ch (take 17 mac) 16) = int (unat b5 mod 16)"
      using byte_halves by (simp_all add: mac_def ch_def nib_upper_digit)
    have "(int (unat b4 div 16) * 16 + int (unat b4 mod 16)) * 256 + int (unat b5 div 16) * 16 + int (unat b5 mod 16)
        = int (unat b4 div 16 * 16 + unat b4 mod 16) * 256 + int (unat b5 div 16 * 16 + unat b5 mod 16)"
      by (simp only: of_nat_add of_nat_mult of_nat_numeral add.assoc)
    also have "\<dots> = be16 b4 b5" unfolding byte_halves(3) by (simp add: be16_def)
    finally have e: "(int (unat b4 div 16) * 16 + int (unat b4 mod 16)) * 256 + int (unat b5 div 16) * 16
        + int (unat b5 mod 16) = be16 b4 b5" .
    have "result get_panid t = word_of_int ((nib_upper (ch (take 17 mac) 12) * 16 + nib_upper (ch (take 17 mac) 13)) * 256
        + nib_upper (ch (take 17 mac) 15) * 16 + nib_upper (ch (take 17 mac) 16))"
      by (simp add: get_panid_def read_file_def ft Let_def)
    then have "result get_panid t = word_of_int (be16 b4 b5)" unfolding k e .
    then show ?thesis using be16_bounds[of b4 b5] by (simp add: uint_word_of_int)
  qed
  ultimately show ?thesis using t by (auto simp: bs)
qed

theorem mac_gives_panid_witness:
  "\<exists>t. tool_command \<lparr>work_mode = 0, factory = 0\<rparr> (''set_eth0_mac '' @ upper_digits [0x80, 0x97, 0x1B, 0x01, 0xAB, 0xCD]) blank = Some t
    \<and> result (get_mac nothing_around) t = [0x80, 0x97, 0x1B, 0x01, 0xAB, 0xCD] \<and> uint (result get_panid t) = 0xABCD"
proof -
  have "be16 0xAB 0xCD = 0xABCD" by (simp add: be16_def)
  then show ?thesis
    using mac_gives_panid[of "[0x80, 0x97, 0x1B, 0x01, 0xAB, 0xCD]" blank "\<lparr>work_mode = 0, factory = 0\<rparr>" nothing_around]
    by simp
qed

text \<open>Lower-case digits are stored and echoed like the others, but they read as other numbers.\<close>

lemma mac_lower_case: "u8 (strtohex ''ab'') = 0xCB" "nib_upper (ch ''ab'' 0) = 97"
  by (simp_all add: strtohex_def ch_def u8_def nib_upper_def Let_def)

section \<open>The contact\<close>

lemma drm_turns_append:
  "drm_turns (a @ b) status s = (case drm_turns a status s of None \<Rightarrow> None | Some (st, t) \<Rightarrow> drm_turns b st t)"
  by (induction a arbitrary: status s) (auto split: option.splits)

definition contact_order :: "bool \<Rightarrow> string" where
  "contact_order c = (if c then ''connect all'' else ''disconnect all'')"

text \<open>What was ordered last is in the file, once something was ordered.\<close>

definition ordered :: "int \<Rightarrow> ecu_state \<Rightarrow> bool" where
  "ordered status s = (status = 2 \<or> (\<exists>c. status = (if c then 1 else 0) \<and> files s path_connect = Some (contact_order c)))"

lemma drm_turn_ordered:
  assumes "drm_turn c c status s = Some (st, t)" "ordered status s"
  shows "st = (if c then 1 else 0) \<and> files t path_connect = Some (contact_order c)"
  using assms
  by (cases c) (auto simp: drm_turn_def Let_def opened_write_def write_file_def emit_def ordered_def contact_order_def
      split: if_splits)

lemma contact_ordered:
  "drm_turns (map (\<lambda>c. (c, c)) (cs @ [c])) 2 s = Some (st, t) \<Longrightarrow>
   st = (if c then 1 else 0) \<and> files t path_connect = Some (contact_order c)"
proof (induction cs arbitrary: c st t rule: rev_induct)
  case Nil
  then show ?case by (intro drm_turn_ordered[of c 2 s]) (auto simp: ordered_def split: option.splits)
next
  case (snoc x xs)
  obtain st' s' where p: "drm_turns (map (\<lambda>c. (c, c)) (xs @ [x])) 2 s = Some (st', s')"
    "drm_turn c c st' s' = Some (st, t)"
    using snoc.prems by (auto simp: drm_turns_append split: option.splits)
  then have "ordered st' s'" using snoc.IH[OF p(1)] by (auto simp: ordered_def)
  then show ?case using p(2) by (rule drm_turn_ordered[rotated])
qed

lemma order_lines: "fgets_lines 255 (contact_order c) = [contact_order c]"
proof (cases c)
  case True
  then show ?thesis by (simp add: contact_order_def) code_simp
next
  case False
  then show ?thesis by (simp add: contact_order_def) code_simp
qed

lemma order_text:
  "cstr (contact_order c) = contact_order c" "strip_newline (contact_order c) = contact_order c"
  "take 11 (contact_order c) = ''connect all'' \<longleftrightarrow> c" "take 14 (contact_order c) = ''disconnect all'' \<longleftrightarrow> \<not> c"
  "contact_order c \<noteq> []"
  by (auto simp: contact_order_def cstr_def NUL_def strip_newline_def NL_def)



end
