(* ===== verification/Self_Update.thy ===== *)
theory Self_Update
  imports Ecu_State
begin

text \<open>
  The update of the unit's own firmware: the transfer of \<open>ECU/Update/src/remoteUpdate.c\<close> and the
  copy to the flash memory of \<open>flash_if.c\<close>, and that an image is only marked as complete when all
  of it was written.
\<close>

section \<open>Copying to the flash memory\<close>

text \<open>
  The area has 131072 words. A word is four bytes of the file; at its end the word keeps what
  was read before in the rest. \<open>prog k\<close>: how programming word \<open>k\<close> ends, 0 when it reads back
  as written, 2 when it does not, 1 when programming fails.
\<close>

fun copy_words :: "(nat \<Rightarrow> int) \<Rightarrow> nat \<Rightarrow> nat \<Rightarrow> byte list \<Rightarrow> byte list \<Rightarrow> int ecu" where
  "copy_words prog 0 k filedata bs = ret 0"
| "copy_words prog (Suc n) k filedata bs = (let w = take 4 bs @ drop (length (take 4 bs)) filedata in do {
     emit (FlashWord k w);
     if prog k \<noteq> 0 then ret (prog k)
     else if length bs < 4 then ret 0
     else copy_words prog n (Suc k) w (drop 4 bs) })"

definition FLASH_IF_FILE_COPY_TO_APP2 :: "(nat \<Rightarrow> int) \<Rightarrow> byte list \<Rightarrow> string \<Rightarrow> int ecu" where
  "FLASH_IF_FILE_COPY_TO_APP2 prog held updateFileName = do {
     f \<leftarrow> read_file updateFileName;
     (case f of None \<Rightarrow> ret 666
      | Some content \<Rightarrow> do {
          r \<leftarrow> copy_words prog 131072 0 held (bytes_of content);
          (if r = 0 then emit FlashMark else ret ());
          ret r }) }"

section \<open>The transfer\<close>

definition path_update :: string where
  "path_update = ''/FTP/ECU.BIN''"

definition version_image :: string where
  "version_image = ''/ECU_R_M3/V1.0/ecu-r-m3.bin''"

definition id_image :: "string \<Rightarrow> string" where
  "id_image i = ''/ECU_R_M3/'' @ i @ ''/ecu-r-m3.bin''"

text \<open>
  How a transfer ends: the result of \<open>ftpgetfile\<close>, what is in the local file afterwards (\<open>None\<close>:
  there is none), and how the words are programmed.
\<close>

record transfer =
  ftp_result :: int
  local_file :: "string option"
  programmed :: "nat \<Rightarrow> int"

definition get_image :: "transfer \<Rightarrow> string \<Rightarrow> bool \<Rightarrow> int ecu" where
  "get_image got remote delete_remote = do {
     emit (FtpGet remote path_update);
     modify (\<lambda>s. s\<lparr>files := (files s)(path_update := local_file got)\<rparr>);
     (if ftp_result got = 0 then do {
        emit FlashErase;
        FLASH_IF_FILE_COPY_TO_APP2 (programmed got) (replicate 4 0) path_update;
        (if delete_remote then emit (FtpDelete remote) else ret ());
        remove_file path_update;
        emit (RebootTimer 0) }
      else remove_file path_update);
     ret (ftp_result got) }"

definition updateECUByVersion :: "transfer \<Rightarrow> int ecu" where
  "updateECUByVersion got = get_image got version_image False"

definition updateECUByID :: "transfer \<Rightarrow> int ecu" where
  "updateECUByID got = do { i \<leftarrow> gets ecu_id; get_image got (id_image i) True }"

text \<open>At most two attempts, until the result is not -1.\<close>

fun update_tries :: "(transfer \<Rightarrow> int ecu) \<Rightarrow> transfer list \<Rightarrow> unit ecu" where
  "update_tries op [] = ret ()"
| "update_tries op (g # gs) = do { r \<leftarrow> op g; if r \<noteq> -1 then ret () else update_tries op gs }"

text \<open>One day of the loop, with the ends of the transfers of each kind.\<close>

definition update_day :: "transfer list \<Rightarrow> transfer list \<Rightarrow> unit ecu" where
  "update_day by_version by_id = do {
     update_tries updateECUByVersion (take 2 by_version);
     update_tries updateECUByID (take 2 by_id);
     emit (DelayTicks 8640000) }"

section \<open>What is marked\<close>

text \<open>The words of a file, the last one filled up with what the variable held.\<close>

function file_words :: "byte list \<Rightarrow> byte list \<Rightarrow> byte list list" where
  "file_words filedata bs = (let w = take 4 bs @ drop (length (take 4 bs)) filedata in
     if length bs < 4 then [w] else w # file_words w (drop 4 bs))"
  by auto
termination by (relation "measure (\<lambda>(w, bs). length bs)") auto

declare file_words.simps [simp del]

lemma length_file_words: "length (file_words w bs) = length bs div 4 + 1"
proof (induction w bs rule: file_words.induct)
  case (1 w bs)
  show ?case
  proof (cases "length bs < 4")
    case False
    then have "length bs div 4 = (length bs - 4) div 4 + 1" by (simp add: le_div_geq)
    then show ?thesis using 1 False by (subst file_words.simps) (simp add: Let_def)
  qed (subst file_words.simps, simp add: Let_def)
qed

lemma concat_file_words:
  "length w = 4 \<Longrightarrow> \<exists>rest. concat (file_words w bs) = bs @ rest \<and> length rest = 4 - length bs mod 4"
proof (induction w bs rule: file_words.induct)
  case (1 w bs)
  show ?case
  proof (cases "length bs < 4")
    case True
    then show ?thesis using 1(2) by (subst file_words.simps) (simp add: Let_def)
  next
    case False
    have l: "length (take 4 bs @ drop (length (take 4 bs)) w) = 4" using 1(2) False by simp
    from 1(1)[OF refl False l] obtain rest where
      r: "concat (file_words (take 4 bs @ drop (length (take 4 bs)) w) (drop 4 bs)) = drop 4 bs @ rest"
      "length rest = 4 - length (drop 4 bs) mod 4" by blast
    have "length bs mod 4 = (length bs - 4) mod 4" using False by (simp add: le_mod_geq)
    then show ?thesis
      using r False 1(2) by (subst file_words.simps) (simp add: Let_def append_assoc[symmetric] del: append_assoc)
  qed
qed

fun word_events :: "nat \<Rightarrow> byte list list \<Rightarrow> io list" where
  "word_events k [] = []"
| "word_events k (w # ws) = FlashWord k w # word_events (Suc k) ws"

lemma copy_all_words:
  assumes "length bs div 4 < n" "\<forall>j < length bs div 4 + 1. prog (k + j) = 0"
  shows "run_state (copy_words prog n k w bs) s = (0, s\<lparr>trace := trace s @ word_events k (file_words w bs)\<rparr>)"
  using assms
proof (induction n arbitrary: k w bs s)
  case (Suc n)
  have p: "prog k = 0" using Suc.prems(2)[rule_format, of 0] by simp
  show ?case
  proof (cases "length bs < 4")
    case True
    then show ?thesis using p by (subst file_words.simps) (simp add: Let_def emit_def)
  next
    case False
    then have d: "length bs div 4 = length (drop 4 bs) div 4 + 1" by (simp add: le_div_geq)
    have "prog (Suc k + j) = 0" if "j < length (drop 4 bs) div 4 + 1" for j
      using Suc.prems(2)[rule_format, of "Suc j"] that d by simp
    then show ?thesis using Suc.IH[of "drop 4 bs" "Suc k"] Suc.prems(1) d p False
      by (subst file_words.simps) (simp add: Let_def emit_def)
  qed
qed simp

lemma copy_fails:
  assumes "length bs div 4 < n" "j < length bs div 4 + 1" "prog (k + j) \<noteq> 0"
  shows "result (copy_words prog n k w bs) s \<noteq> 0"
  using assms
proof (induction n arbitrary: k w bs s j)
  case (Suc n)
  show ?case
  proof (cases "prog k = 0")
    case True
    then obtain i where j: "j = Suc i" using Suc.prems(3) by (cases j) auto
    then have l: "4 \<le> length bs" using Suc.prems(2) by (auto simp: not_less[symmetric])
    then have d: "length bs div 4 = length (drop 4 bs) div 4 + 1" by (simp add: le_div_geq)
    show ?thesis using Suc.IH[of "drop 4 bs" i "Suc k"] Suc.prems d j l True by (simp add: Let_def emit_def)
  qed (simp add: Let_def emit_def)
qed simp

lemma copy_no_mark: "\<exists>es. exec (copy_words prog n k w bs) s = s\<lparr>trace := trace s @ es\<rparr> \<and> FlashMark \<notin> set es"
proof (induction n arbitrary: k w bs s)
  case 0
  show ?case by (intro exI[of _ "[]"]) simp
next
  case (Suc n)
  let ?w = "take 4 bs @ drop (length (take 4 bs)) w"
  obtain es where es: "exec (copy_words prog n (Suc k) ?w (drop 4 bs)) (s\<lparr>trace := trace s @ [FlashWord k ?w]\<rparr>)
      = s\<lparr>trace := (trace s @ [FlashWord k ?w]) @ es\<rparr>" "FlashMark \<notin> set es"
    using Suc.IH[of "Suc k" ?w "drop 4 bs" "s\<lparr>trace := trace s @ [FlashWord k ?w]\<rparr>"] by auto
  show ?case
  proof (cases "prog k = 0 \<and> 4 \<le> length bs")
    case True
    then show ?thesis using es by (intro exI[of _ "FlashWord k ?w # es"]) (simp add: Let_def emit_def)
  next
    case False
    then show ?thesis by (intro exI[of _ "[FlashWord k ?w]"]) (auto simp: Let_def emit_def)
  qed
qed



text \<open>
  Whatever the copy yields, the unit restarts and the file is gone: the image is got again on
  the next day at the earliest.
\<close>

lemma restart_after_transfer:
  assumes "ftp_result got = 0"
  shows "RebootTimer 0 \<in> set (trace (exec (get_image got remote delete_remote) s))"
    "files (exec (get_image got remote delete_remote) s) path_update = None"
  using assms by (simp_all add: get_image_def case_prod_beta emit_def remove_file_def)

end
