(* ===== verification/Spec2Isabelle.thy ===== *)
theory Spec2Isabelle
  imports Ecu_Prelude Ecu_State Inverter_Table Zigbee_Link Zigbee_Commands Zigbee_Effects Zigbee_Spec
    Line_Store Ecu_Config Command_Queues Queue_Spec Ird_Spec Ema_Message Ema_Handlers Handler_Spec
    Id_Spec Ecu_Time Remote_Update Update_Spec Zb_Process Bind_Inverters Bind_Spec
    Net_Exchange Record_Store Record_Spec Record_Files Upload_Client Client_Spec Power_Limit Power_Spec
    Comm_Config Comm_Spec C_Float Ac_Protection Protection_Spec Ema_Link Control_Client Control_Spec
    Inverter_Data Inverter_Spec Poll_Report Poll_Spec Protection_Setting Protection_One Request_Loop
    Request_One Energy_History Energy_Spec Poll_Round Main_Thread Round_Spec
    Phone_Server Phone_Spec Phone_Channel Ntp_Time Id_Writer Tool_Spec Self_Update
begin

text \<open>
  A verification development for the energy communication unit (ECU) of a solar inverter
  system, the firmware under \<open>src/ECU\<close> of this repository. It runs as threads of RT-Thread
  on an STM32F107: the main thread (\<open>ECU/main\<close>) polls up to 120 inverters over a ZigBee
  coordinator module on a serial line; the upload client (\<open>ECU/client\<close>) sends the records of
  measurements to a server; the control client (\<open>ECU/control_client\<close>) reports events to another
  (EMA) and executes its commands; the phone server (\<open>ECU/PhoneServer\<close>) answers a phone that
  is connected to the WiFi module; the id writer (\<open>ECU/IDWriter\<close>) answers the tool that sets
  the unit up; the time client (\<open>ECU/NTP\<close>) sets the clock, the self update (\<open>ECU/Update\<close>)
  replaces the firmware, and one thread watches the contact of the power station
  (\<open>ECU/DRMConnect\<close>). The threads hand over work through text files on a FAT
  volume: one line per inverter, or one record per line with a flag that says whether it was
  sent. The kernel, the file system, lwIP and the drivers are third-party code; what the
  firmware relies on is modelled as primitive effects.

  \<^bold>\<open>State and effects.\<close> \<open>Ecu_State\<close> holds the state: the global table \<open>inverter[]\<close> as a list of
  records (the fields of \<open>inverter_info\<close>, the measured values in \<open>measured\<close>), the fields of
  \<open>ecu\<close> (those of the system as a whole in \<open>totals\<close>), the
  files as a map from upper-case paths (FAT compares names without case), which files can be
  opened for writing, the directories with the order in which their files are listed, what the
  serial line will deliver, the clock, how the next exchanges with the two servers end
  (\<open>server\<close>; \<open>ema_connect\<close>, \<open>ema_send\<close>, \<open>ema_recv\<close>), what uninitialised variables hold
  (\<open>stale\<close>), and a trace of all outside effects: frames
  written, texts and packets sent, waits, delays, the reset pin, mutex operations, timers, the
  clock, the network settings and the words programmed into the flash. Programs are values of
  \<open>(ecu_state, 'a) state\<close>; a program that may go on with a file that is not open, or write
  outside an array, has an optional result instead. The
  loops over the table are \<open>inv_loop\<close>; loops with a constant bound recurse on that bound;
  loops over what a file or the serial line delivers either come with a termination proof
  (\<open>rtpid_loop\<close>, \<open>complement_loop\<close>, \<open>recv_reply\<close>, \<open>recv_msg\<close>) or are \<open>partial_function (option)\<close>,
  so that not ending is \<open>None\<close>; that they end is then a theorem of its own. The whole round
  (\<open>process_all\<close>, \<open>getalldata\<close>, \<open>main_turn\<close>) is optional because some of its jobs may not end.
  There is no fuel; the endless loops of the threads are modelled by their turns. Values of type
  \<open>float\<close> and \<open>double\<close> are the rational numbers they stand for, rounded after each operation
  (\<open>C_Float\<close>). \<open>char\<close> is unsigned
  on this compiler (armcc) and is a byte; integers are kept at their width where they are
  stored or sent (\<open>u8\<close>, \<open>u16\<close>, the one-bit flags), and are mathematical integers elsewhere,
  where the values stay small.

  \<^bold>\<open>Theories and the code they model.\<close>
  \<^item> \<open>Ecu_Prelude\<close>: bytes, C strings, decimal and hexadecimal printing and \<open>atoi\<close>.
  \<^item> \<open>Inverter_Table\<close>: the id file (\<open>splitString\<close>, \<open>updateID\<close>, \<open>get_id_from_file\<close> of \<open>file.c\<close>,
    \<open>init_inverter_A103\<close> of \<open>main-thread.c\<close>).
  \<^item> \<open>Zigbee_Link\<close>, \<open>Zigbee_Commands\<close>, \<open>Zb_Process\<close>: \<open>zigbee.c\<close>, its frames and replies, its
    commands, its periodic jobs. \<open>Bind_Inverters\<close>: \<open>bind_inverters.c\<close> and the change of channel
    of \<open>channel.c\<close>.
  \<^item> \<open>Inverter_Data\<close>: the decoding of data frames and of the status bits (\<open>resolve.c\<close>) and the
    limits of \<open>checkdata.c\<close>. \<open>Poll_Report\<close>: the messages of \<open>protocol.c\<close>, the reports of changes
    of \<open>ema_control.c\<close>, the file of counters.
  \<^item> \<open>Poll_Round\<close>: \<open>zb_query_data\<close>, \<open>process_all\<close> and \<open>getalldata\<close> of \<open>zigbee.c\<close>. \<open>Main_Thread\<close>:
    start-up and one turn of \<open>main-thread.c\<close>. \<open>Energy_History\<close>: the energies and powers by
    day, month and year of \<open>file.c\<close>, and making room on the volume.
  \<^item> \<open>Line_Store\<close>: the line files of \<open>myfile.c\<close>. \<open>Ecu_Config\<close>: arrays of settings, identity of
    the unit, PAN id and channel (\<open>file.c\<close>, \<open>channel.c\<close>). \<open>Command_Queues\<close>: \<open>turn_on_off.c\<close>,
    \<open>clear_gfdi.c\<close>, \<open>set_ird.c\<close>. \<open>Protection_Setting\<close>, \<open>Protection_One\<close>:
    \<open>set_protection_parameters.c\<close> and \<open>set_protection_parameters_inverter.c\<close>.
  \<^item> \<open>Ema_Message\<close>: \<open>remote_control_protocol.c\<close>, \<open>msg_is_complete\<close>. \<open>Ema_Handlers\<close>: the handlers of
    \<open>inverter_onoff.c\<close>, \<open>inverter_gfdi.c\<close>, \<open>inverter_ird.c\<close>, \<open>inverter_update.c\<close>,
    \<open>inverter_maxpower.c\<close>, \<open>power_factor.c\<close>, \<open>ecu_flag.c\<close>, \<open>inverter_id.c\<close>.
  \<^item> \<open>Ecu_Time\<close>: the comparisons and the calendar of \<open>datetime.c\<close>. \<open>Remote_Update\<close>:
    \<open>remote_update.c\<close>. \<open>Power_Limit\<close>: the power limits of \<open>setpower.c\<close>.
  \<^item> \<open>Record_Store\<close>: the scans of the record files of \<open>client.c\<close> and \<open>control_client.c\<close>, and the
    functions of \<open>file.c\<close> that add records. \<open>Net_Exchange\<close>: one exchange of \<open>clientSocket.c\<close>.
    \<open>Upload_Client\<close>: the round of the upload client, \<open>client.c\<close>.
  \<^item> \<open>Comm_Config\<close>: \<open>comm_config.c\<close>, \<open>custom_command.c\<close>, \<open>mycommand.c\<close>. \<open>Ac_Protection\<close>:
    \<open>inverter_ac_protection.c\<close>. \<open>Ema_Link\<close>: \<open>send_socket\<close> and \<open>recv_socket\<close> of \<open>mysocket.c\<close> and the
    table of handlers. \<open>Control_Client\<close>: the three sessions of \<open>control_client.c\<close> (status,
    commands, results) and the round of its thread.
  \<^item> \<open>Phone_Server\<close>: the packets of \<open>wifi_comm.c\<close>, the commands and the thread of
    \<open>phoneServer.c\<close>, \<open>ipaddr_aton\<close> of lwIP, \<open>set_time\<close> of \<open>rtc.c\<close>. What the unit finds around it
    (addresses in use, space on the volume, results of the WiFi module) is the record
    \<open>surroundings\<close>.
  \<^item> \<open>Ntp_Time\<close>: \<open>ntpcomm.c\<close>, \<open>ntpapp.c\<close>; \<open>localtime\<close> is a parameter. \<open>Id_Writer\<close>: \<open>idwriter.c\<close>
    and \<open>DRMConnect.c\<close>. \<open>Self_Update\<close>: \<open>remoteUpdate.c\<close>, \<open>flash_if.c\<close>; how the transfers end and
    how each word is programmed are parameters.

  \<^bold>\<open>Interfaces.\<close> \<open>effect\<close> (in \<open>Ecu_State\<close>) bounds what a program may change by a preorder on
  states; \<open>zb_effect\<close>, \<open>zb_store_effect\<close>, \<open>bind_effect\<close> and \<open>bind_panid_effect\<close> extend it by what
  their programs touch, and are interpreted for frames on the wire, the ids of the table,
  the files, the PAN id and the receive queue; \<open>effect\<close> itself also for the marks of a request
  file (\<open>marks\<close>), for programs that send nothing (\<open>quiet\<close>) and for those that leave the password
  (\<open>passwd\<close>). \<open>acked_command\<close> is the contract of a command that
  one reply acknowledges; \<open>line_store\<close> that of a file with one line per inverter;
  \<open>request_queue\<close> that of a handler that drains such a file; \<open>request_loop\<close> that of a loop that
  serves the first marked entry of a file until none is left, interpreted for the protection
  parameters of all inverters (\<open>settings\<close>) and of single ones (\<open>ones\<close>). \<open>layout\<close> is what the scans need of
  the lines of a record file; \<open>record_store\<close>, which every layout gives, is the contract the
  upload loops rely on: find the first record with a flag, set the flag of a key, delete what
  is done. It is interpreted for the measurements, the status and the two kinds of results.

  \<^bold>\<open>What the theorems show.\<close> \<open>Zigbee_Spec\<close>: frames are well formed and addressed, replies
  accepted exactly from the addressed inverter, commands retried at most three times.
  \<open>Queue_Spec\<close>, \<open>Ird_Spec\<close>: the request files are drained, each id served once, and the loops end
  (with the input on which one does not). \<open>Handler_Spec\<close>, \<open>Id_Spec\<close>: the commands of the server
  reach the request files and the id list, and the mutex is released on every path.
  \<open>Update_Spec\<close>: the image is transmitted completely, success is only reported when the
  inverter confirmed it, the request is cleared. \<open>Bind_Spec\<close>: a change of channel reaches every
  inverter, the binding restores the PAN id, reported ids are answered. \<open>Inverter_Spec\<close>,
  \<open>Poll_Spec\<close>: decoded values are in range whatever was received, and the server reads back
  from a record what was decoded. \<open>Request_Loop\<close>, \<open>Request_One\<close>: protection parameters reach the
  inverters, and exactly when those loops end. \<open>Round_Spec\<close>: the query of an inverter, and when
  a round is due. \<open>Energy_Spec\<close>: the energies are added to their day, and a week has seven days
  of the calendar. \<open>Record_Spec\<close>,
  \<open>Record_Files\<close>: the files implement lists of records, and nothing unfinished is deleted.
  \<open>Client_Spec\<close>: every waiting measurement is sent once and the loop ends (with the server for
  which the night round does not). \<open>Power_Spec\<close>: the outcome of a power limit, and how much its
  conversion loses. \<open>Comm_Spec\<close>, \<open>Protection_Spec\<close>: parameters that were set are read back, and
  where they are not. \<open>Control_Spec\<close>: messages arrive whole, results are reported once, and what
  holds a session for ever. \<open>Phone_Spec\<close>, \<open>Phone_Channel\<close>: every request gets one well-formed
  answer, a request for another unit changes nothing, the password is guarded by the old one,
  and registered ids, addresses and channels are the ones in use afterwards. \<open>Ntp_Time\<close>: for
  which times the conversion to the time zone is right. \<open>Tool_Spec\<close>: the hardware address gives
  the PAN id, and the contact is carried out by the polling thread. \<open>Self_Update\<close>: only a
  complete image is marked. Round trips of the id file, the settings, the channel and the
  number fields of messages stand with their definitions.

  \<^bold>\<open>Not modelled.\<close> The opening of sockets, the FTP client and the driver of the WiFi module,
  whose results are inputs; the serial port; \<open>getsyspower\<close> of \<open>setpower.c\<close>, which uses a row of
  an array that is not terminated; the test of the LED; debug output; the creation of the
  threads and the manual tests (\<open>src/applications\<close>, \<open>src/Test\<close>); RT-Thread, elmFAT, lwIP but
  for \<open>ipaddr_aton\<close>, the ST libraries and the other vendored code.
\<close>

end
